(* ===== verification/Prelude.thy ===== *)
theory Prelude
  imports Main "HOL-Library.Word" "HOL-Library.Monad_Syntax"
begin

text \<open>
  What every theory of the development shares: the C integer types, C array accesses with
  their bounds, the C \<open>switch\<close> over groups of labels, and the generic lemmas on them.

  A C function that may touch memory outside an array is a function into \<open>option\<close>:
  \<open>None\<close> means that the execution has undefined behaviour (an index out of range),
  \<open>Some\<close> that it returns normally.
\<close>

type_synonym u8 = "8 word"
type_synonym u16 = "16 word"
type_synonym u32 = "32 word"

unbundle bit_operations_syntax

named_theorems driver_defs \<open>definitions of the driver operations\<close>

section \<open>C arrays\<close>

definition cread :: "'a list \<Rightarrow> int \<Rightarrow> 'a option" where
  "cread xs i = (if 0 \<le> i \<and> i < int (length xs) then Some (xs ! nat i) else None)"

definition cwrite :: "'a list \<Rightarrow> int \<Rightarrow> 'a \<Rightarrow> 'a list option" where
  "cwrite xs i v = (if 0 \<le> i \<and> i < int (length xs) then Some (xs[nat i := v]) else None)"

lemma cread_in [simp]: "0 \<le> i \<Longrightarrow> i < int (length xs) \<Longrightarrow> cread xs i = Some (xs ! nat i)"
  by (simp add: cread_def)

lemma cwrite_in [simp]:
  "0 \<le> i \<Longrightarrow> i < int (length xs) \<Longrightarrow> cwrite xs i v = Some (xs[nat i := v])"
  by (simp add: cwrite_def)

lemma cread_neg [simp]: "i < 0 \<Longrightarrow> cread xs i = None"
  by (simp add: cread_def)

lemma cwrite_neg [simp]: "i < 0 \<Longrightarrow> cwrite xs i v = None"
  by (simp add: cwrite_def)

lemma cread_Some_iff:
  "cread xs i = Some v \<longleftrightarrow> 0 \<le> i \<and> i < int (length xs) \<and> v = xs ! nat i"
  by (auto simp: cread_def)

lemma cwrite_Some_iff:
  "cwrite xs i v = Some ys \<longleftrightarrow> 0 \<le> i \<and> i < int (length xs) \<and> ys = xs[nat i := v]"
  by (auto simp: cwrite_def)

section \<open>C switch statements over label groups\<close>

fun switch :: "('k list \<times> 'v) list \<Rightarrow> 'v \<Rightarrow> 'k \<Rightarrow> 'v" where
  "switch [] dflt k = dflt"
| "switch ((labels, v) # groups) dflt k =
     (if k \<in> set labels then v else switch groups dflt k)"

lemma switch_default:
  "(\<And>ls v. (ls, v) \<in> set groups \<Longrightarrow> k \<notin> set ls) \<Longrightarrow> switch groups dflt k = dflt"
  by (induction groups dflt k rule: switch.induct) auto

lemma switch_cases:
  "switch groups dflt k = v \<Longrightarrow> v = dflt \<or> (\<exists>ls. (ls, v) \<in> set groups \<and> k \<in> set ls)"
  by (induction groups dflt k rule: switch.induct) (auto split: if_splits)

section \<open>Lists\<close>

lemma nat_less_cases_16:
  "n < 16 \<Longrightarrow> n \<in> {0, 1, 2, 3, 4, 5, 6, 7, 8, 9, 10, 11, 12, 13, 14, 15 :: nat}"
  by (simp add: numeral_eq_Suc less_Suc_eq)

lemma nat_less_cases_14:
  "n < 14 \<Longrightarrow> n \<in> {0, 1, 2, 3, 4, 5, 6, 7, 8, 9, 10, 11, 12, 13 :: nat}"
  by (simp add: numeral_eq_Suc less_Suc_eq)

lemma find_SomeD: "find P xs = Some x \<Longrightarrow> x \<in> set xs \<and> P x"
  by (induction xs) (auto split: if_splits)

lemma nat_eq_nonneg: "0 \<le> (i::int) \<Longrightarrow> 0 \<le> j \<Longrightarrow> nat i = nat j \<longleftrightarrow> i = j"
  by auto

section \<open>Bytes\<close>

text \<open>The bytes of a 32-bit word in the memory of the little-endian processor, lowest address first,
  and the word that four bytes make.\<close>

definition memory_bytes :: "u32 \<Rightarrow> u8 list" where
  "memory_bytes w = [ucast w, ucast (drop_bit 8 w), ucast (drop_bit 16 w), ucast (drop_bit 24 w)]"

definition memory_word :: "u8 \<Rightarrow> u8 \<Rightarrow> u8 \<Rightarrow> u8 \<Rightarrow> u32" where
  "memory_word a b c d = push_bit 24 (ucast d) OR push_bit 16 (ucast c) OR push_bit 8 (ucast b) OR ucast a"

lemma length_memory_bytes [simp]: "length (memory_bytes w) = 4"
  by (simp add: memory_bytes_def)

lemma not_bit_u8: "8 \<le> n \<Longrightarrow> \<not> bit (a :: u8) n"
  using bit_imp_le_length [of a n] by auto

lemma memory_bytes_word [simp]: "memory_bytes (memory_word a b c d) = [a, b, c, d]"
  by (auto simp: memory_bytes_def memory_word_def bit_simps not_bit_u8 intro!: bit_word_eqI)

lemma memory_word_bytes [simp]:
  "memory_word (ucast w) (ucast (drop_bit 8 w)) (ucast (drop_bit 16 w)) (ucast (drop_bit 24 w)) = w"
proof (rule bit_word_eqI)
  fix n assume "n < LENGTH(32)"
  then consider "n < 8" | "8 \<le> n" "n < 16" | "16 \<le> n" "n < 24" | "24 \<le> n" "n < 32" by fastforce
  then show "bit (memory_word (ucast w) (ucast (drop_bit 8 w)) (ucast (drop_bit 16 w)) (ucast (drop_bit 24 w))) n = bit w n"
    by cases (auto simp: memory_word_def bit_simps)
qed

text \<open>The characters of a string literal.\<close>

definition chars :: "string \<Rightarrow> u8 list" where
  "chars s = map (\<lambda>c. of_nat (of_char c)) s"

lemma chars_simps [simp]: "chars [] = []" "chars (c # s) = of_nat (of_char c) # chars s"
  by (simp_all add: chars_def)

lemma length_chars [simp]: "length (chars s) = length s"
  by (simp add: chars_def)

lemma masks: "(63 :: 'a::len word) = mask 6" "(3 :: 'a word) = mask 2" "(15 :: 'a word) = mask 4"
  "(127 :: 'a word) = mask 7" "(255 :: 'a word) = mask 8"
  by (simp_all add: mask_eq_exp_minus_1)

end
