(* ===== verification/HAL.thy ===== *)
theory HAL
  imports Prelude
begin

text \<open>
  The boundary to the vendor layer (the STM32 HAL and CMSIS): every call of it that has an
  effect on the hardware is an event, and the firmware's memory carries the sequence of the
  events emitted so far, oldest first. What a call returns is decided by the environment
  \<open>hal_env\<close>, which may depend on everything that happened before it. The hardware state
  the properties speak about (which interrupts and clocks are enabled) is read off the
  event sequence. Callbacks into application code are events too.
\<close>

datatype gpio_port = GPIOA | GPIOB | GPIOC | GPIOD | GPIOE | GPIOF | GPIOG | GPIOH | GPIOI

datatype gpio_mode = GPIO_MODE_INPUT | GPIO_MODE_OUTPUT_PP | GPIO_MODE_OUTPUT_OD | GPIO_MODE_AF_PP
  | GPIO_MODE_IT_RISING | GPIO_MODE_IT_FALLING | GPIO_MODE_IT_RISING_FALLING

datatype gpio_pull = GPIO_NOPULL | GPIO_PULLUP | GPIO_PULLDOWN

datatype gpio_speed = GPIO_SPEED_FREQ_LOW | GPIO_SPEED_FREQ_HIGH | GPIO_SPEED_FREQ_VERY_HIGH

record GPIO_InitTypeDef =
  init_Pin :: u16
  init_Mode :: gpio_mode
  init_Pull :: gpio_pull
  init_Speed :: gpio_speed
  init_Alternate :: u8

text \<open>A local \<open>GPIO_InitTypeDef x = {0}\<close>: every field has the constant whose value is 0.\<close>

definition GPIO_Init_zero :: GPIO_InitTypeDef where
  "GPIO_Init_zero = \<lparr>init_Pin = 0, init_Mode = GPIO_MODE_INPUT, init_Pull = GPIO_NOPULL,
     init_Speed = GPIO_SPEED_FREQ_LOW, init_Alternate = 0\<rparr>"

datatype exti_trigger = EXTI_TRIGGER_NONE | EXTI_TRIGGER_RISING | EXTI_TRIGGER_FALLING
  | EXTI_TRIGGER_RISING_FALLING

text \<open>\<open>EXTI_ConfigTypeDef\<close>; its \<open>Mode\<close> is \<open>EXTI_MODE_INTERRUPT\<close> wherever the code builds one.\<close>

record EXTI_ConfigTypeDef =
  cfg_Line :: u32
  cfg_Trigger :: exti_trigger
  cfg_GPIOSel :: u32

datatype irqn = EXTI0_IRQn | EXTI1_IRQn | EXTI2_IRQn | EXTI3_IRQn | EXTI4_IRQn | EXTI9_5_IRQn
  | EXTI15_10_IRQn | TIM1_UP_TIM10_IRQn | TIM2_IRQn | TIM3_IRQn | TIM4_IRQn | TIM5_IRQn
  | TIM6_DAC_IRQn | TIM7_IRQn | TIM8_UP_TIM13_IRQn | TIM1_BRK_TIM9_IRQn
  | TIM1_TRG_COM_TIM11_IRQn | TIM8_BRK_TIM12_IRQn | TIM8_TRG_COM_TIM14_IRQn

text \<open>A clock gate of the RCC: a GPIO port, or the timer TIM\<open>n\<close>.\<close>

datatype rcc = RCC_GPIO gpio_port | RCC_TIM nat

text \<open>The part of \<open>TIM_HandleTypeDef\<close> the code fills in; the instance TIM\<open>n\<close> is \<open>Some n\<close>, NULL \<open>None\<close>.\<close>

record TIM_HandleTypeDef =
  tim_Instance :: "nat option"
  tim_Prescaler :: u32
  tim_CounterMode :: u32
  tim_Period :: u32
  tim_ClockDivision :: u32
  tim_AutoReloadPreload :: u32

record TIM_OC_InitTypeDef =
  oc_OCMode :: u32
  oc_Pulse :: u32
  oc_OCPolarity :: u32
  oc_OCFastMode :: u32

abbreviation (input) TIM_COUNTERMODE_UP :: u32 where "TIM_COUNTERMODE_UP \<equiv> 0"
abbreviation (input) TIM_CLOCKDIVISION_DIV1 :: u32 where "TIM_CLOCKDIVISION_DIV1 \<equiv> 0"
abbreviation (input) TIM_AUTORELOAD_PRELOAD_ENABLE :: u32 where
  "TIM_AUTORELOAD_PRELOAD_ENABLE \<equiv> 0x80"
abbreviation (input) TIM_OCMODE_PWM1 :: u32 where "TIM_OCMODE_PWM1 \<equiv> 0x60"
abbreviation (input) TIM_OCPOLARITY_HIGH :: u32 where "TIM_OCPOLARITY_HIGH \<equiv> 0"
abbreviation (input) TIM_OCFAST_DISABLE :: u32 where "TIM_OCFAST_DISABLE \<equiv> 0"

text \<open>
  In the events a timer handle is named by its index in the array \<open>g_timer\<close>; the two calls
  that program the timer from the handle carry what it holds.
\<close>

text \<open>\<open>hwGPIO_Interrupt_Action\<close> of \<open>GPIO.h\<close>, what an interrupt handler is told.\<close>

datatype hwGPIO_Interrupt_Action = hwGPIO_Interrupt_Action_Disbled
  | hwGPIO_Interrupt_Action_Falling_Edge | hwGPIO_Interrupt_Action_Rising_Edge
  | hwGPIO_Interrupt_Action_Toggle | hwGPIO_Interrupt_Action_MAX

datatype hw_event =
    RCC_CLK_ENABLE rcc
  | RCC_CLK_DISABLE rcc
  | HAL_GPIO_Init gpio_port GPIO_InitTypeDef
  | HAL_GPIO_DeInit gpio_port u16
  | HAL_GPIO_WritePin gpio_port u16 bool
  | HAL_GPIO_TogglePin gpio_port u16
  | HAL_GPIO_EXTI_CLEAR_IT u16
  | HAL_EXTI_SetConfigLine nat EXTI_ConfigTypeDef
  | HAL_EXTI_ClearConfigLine nat
  | HAL_NVIC_SetPriority irqn nat nat
  | HAL_NVIC_EnableIRQ irqn
  | HAL_NVIC_DisableIRQ irqn
  | HAL_TIM_Base_Init nat TIM_HandleTypeDef
  | HAL_TIM_Base_DeInit nat
  | HAL_TIM_Base_Start_IT nat
  | HAL_TIM_Base_Stop_IT nat
  | HAL_TIM_IRQHandler nat
  | HAL_TIM_PWM_Init nat TIM_HandleTypeDef
  | HAL_TIM_PWM_DeInit nat
  | HAL_TIM_PWM_ConfigChannel nat TIM_OC_InitTypeDef u8
  | HAL_TIM_PWM_Start nat u8
  | HAL_TIM_PWM_Stop nat u8
  | GPIO_HANDLER_CALL nat int hwGPIO_Interrupt_Action
  | TIMER_HANDLER_CALL nat nat

record hal_env =
  hal_ok :: "hw_event list \<Rightarrow> hw_event \<Rightarrow> bool"
  read_pin :: "hw_event list \<Rightarrow> gpio_port \<Rightarrow> u16 \<Rightarrow> bool"
  exti_pending :: "hw_event list \<Rightarrow> u16 \<Rightarrow> bool"
  tim_update :: "hw_event list \<Rightarrow> nat \<Rightarrow> bool"
  tim_counter :: "hw_event list \<Rightarrow> nat \<Rightarrow> u32"
  pclk1 :: u32
  pclk2 :: u32
  ppre1_div1 :: bool
  ppre2_div1 :: bool

text \<open>
  An environment for examples: every call succeeds, nothing is pending, and the clocks are
  those of an STM32F207 at 120 MHz (APB1 30 MHz, APB2 60 MHz).
\<close>

definition board_env :: hal_env where
  "board_env = \<lparr>hal_ok = \<lambda>_ _. True, read_pin = \<lambda>_ _ _. False, exti_pending = \<lambda>_ _. False,
     tim_update = \<lambda>_ _. False, tim_counter = \<lambda>_ _. 0, pclk1 = 30000000, pclk2 = 60000000,
     ppre1_div1 = False, ppre2_div1 = False\<rparr>"

record mcu_state =
  hw_log :: "hw_event list"

definition emit :: "hw_event \<Rightarrow> 'a mcu_state_scheme \<Rightarrow> 'a mcu_state_scheme" where
  "emit e s = s\<lparr>hw_log := hw_log s @ [e]\<rparr>"

text \<open>A call whose status the code checks: the event, then whether it returned \<open>HAL_OK\<close>.\<close>

definition hal_call :: "hal_env \<Rightarrow> hw_event \<Rightarrow> 'a mcu_state_scheme \<Rightarrow> bool \<times> 'a mcu_state_scheme" where
  "hal_call env e s = (hal_ok env (hw_log s) e, emit e s)"

lemma hw_log_emit [simp]: "hw_log (emit e s) = hw_log s @ [e]"
  by (simp add: emit_def)

lemma hal_call_simps [simp]:
  "fst (hal_call env e s) = hal_ok env (hw_log s) e"
  "snd (hal_call env e s) = emit e s"
  by (simp_all add: hal_call_def)

section \<open>Hardware state read off the events\<close>

fun nvic_effect :: "irqn \<Rightarrow> hw_event \<Rightarrow> bool \<Rightarrow> bool" where
  "nvic_effect q (HAL_NVIC_EnableIRQ q') on = (q = q' \<or> on)"
| "nvic_effect q (HAL_NVIC_DisableIRQ q') on = (q \<noteq> q' \<and> on)"
| "nvic_effect q _ on = on"

definition nvic_on :: "irqn \<Rightarrow> hw_event list \<Rightarrow> bool" where
  "nvic_on q es = fold (nvic_effect q) es False"

fun rcc_effect :: "rcc \<Rightarrow> hw_event \<Rightarrow> bool \<Rightarrow> bool" where
  "rcc_effect c (RCC_CLK_ENABLE c') on = (c = c' \<or> on)"
| "rcc_effect c (RCC_CLK_DISABLE c') on = (c \<noteq> c' \<and> on)"
| "rcc_effect c _ on = on"

definition rcc_on :: "rcc \<Rightarrow> hw_event list \<Rightarrow> bool" where
  "rcc_on c es = fold (rcc_effect c) es False"

lemma nvic_on_Nil [simp]: "\<not> nvic_on q []"
  by (simp add: nvic_on_def)

lemma nvic_on_snoc: "nvic_on q (es @ [e]) = nvic_effect q e (nvic_on q es)"
  by (simp add: nvic_on_def)

lemma rcc_on_Nil [simp]: "\<not> rcc_on c []"
  by (simp add: rcc_on_def)

lemma rcc_on_snoc: "rcc_on c (es @ [e]) = rcc_effect c e (rcc_on c es)"
  by (simp add: rcc_on_def)

text \<open>The two lemmas as they apply to a log extended by several events at once.\<close>

lemma nvic_on_app: "nvic_on q (es @ fs) = fold (nvic_effect q) fs (nvic_on q es)"
  by (simp add: nvic_on_def)

lemma rcc_on_app: "rcc_on c (es @ fs) = fold (rcc_effect c) fs (rcc_on c es)"
  by (simp add: rcc_on_def)

end
