(* ===== verification/GPIO_Pin.thy ===== *)
theory GPIO_Pin
  imports HAL
begin

text \<open>
  The pin names of the STM32 boards and the tables that translate them
  (\<open>Driver/GPIO/Pin/GPIO_Pin_STM32.h\<close> and \<open>GPIO_Pin_STM32.c\<close>). A pin is a value of a C enum
  that starts at \<open>hwGPIO_Pin_NC = -1\<close>, so it is an \<open>int\<close>: the enumerators of a port follow
  each other, 16 a port. The tables are the \<open>switch\<close> statements of the C file, label group
  by label group.
\<close>

section \<open>Pin names\<close>

type_synonym hwGPIO_Pin = int
type_synonym hwGPIO_Int_Pin = int

definition port_index :: "gpio_port \<Rightarrow> nat" where
  "port_index p = (case p of GPIOA \<Rightarrow> 0 | GPIOB \<Rightarrow> 1 | GPIOC \<Rightarrow> 2 | GPIOD \<Rightarrow> 3 | GPIOE \<Rightarrow> 4
     | GPIOF \<Rightarrow> 5 | GPIOG \<Rightarrow> 6 | GPIOH \<Rightarrow> 7 | GPIOI \<Rightarrow> 8)"

definition all_ports :: "gpio_port list" where
  "all_ports = [GPIOA, GPIOB, GPIOC, GPIOD, GPIOE, GPIOF, GPIOG, GPIOH, GPIOI]"

text \<open>The enumerator \<open>hwGPIO_Pin_<port><n>\<close>, and \<open>hwGPIO_Int_Pin_<port><n>\<close> of the second enum.\<close>

definition hwGPIO_Pin_of :: "gpio_port \<Rightarrow> nat \<Rightarrow> hwGPIO_Pin" where
  "hwGPIO_Pin_of p n = 16 * int (port_index p) + int n"

definition hwGPIO_Int_Pin_of :: "gpio_port \<Rightarrow> nat \<Rightarrow> hwGPIO_Int_Pin" where
  "hwGPIO_Int_Pin_of p n = 16 * int (port_index p) + int n"

abbreviation (input) hwGPIO_Pin_NC :: hwGPIO_Pin where "hwGPIO_Pin_NC \<equiv> -1"
abbreviation (input) hwGPIO_Pin_MAX :: hwGPIO_Pin where "hwGPIO_Pin_MAX \<equiv> 144"
abbreviation (input) hwGPIO_Int_Pin_NC :: hwGPIO_Int_Pin where "hwGPIO_Int_Pin_NC \<equiv> -1"
abbreviation (input) hwGPIO_Int_Pin_MAX :: hwGPIO_Int_Pin where "hwGPIO_Int_Pin_MAX \<equiv> 144"

text \<open>The labels \<open>case hwGPIO_Pin_<port><n>\<close> of one group: several numbers of a port, or one number of each port.\<close>

definition pins_of :: "gpio_port \<Rightarrow> nat list \<Rightarrow> hwGPIO_Pin list" where
  "pins_of p ns = map (hwGPIO_Pin_of p) ns"

definition pins_numbered :: "nat \<Rightarrow> hwGPIO_Pin list" where
  "pins_numbered n = map (\<lambda>p. hwGPIO_Pin_of p n) all_ports"

definition int_pins_of :: "gpio_port \<Rightarrow> nat list \<Rightarrow> hwGPIO_Int_Pin list" where
  "int_pins_of p ns = map (hwGPIO_Int_Pin_of p) ns"

definition int_pins_numbered :: "nat \<Rightarrow> hwGPIO_Int_Pin list" where
  "int_pins_numbered n = map (\<lambda>p. hwGPIO_Int_Pin_of p n) all_ports"

section \<open>The translation tables\<close>

text \<open>
  \<open>GPIO_Map_Soc_Base\<close>: NULL is \<open>None\<close>. The group of port G has no label for G14 in the source,
  here and in the two interrupt tables below.
\<close>

definition GPIO_Map_Soc_Base :: "hwGPIO_Pin \<Rightarrow> gpio_port option" where
  "GPIO_Map_Soc_Base pin = switch
     [(pins_of GPIOA [0..<16], Some GPIOA),
      (pins_of GPIOB [0..<16], Some GPIOB),
      (pins_of GPIOC [0..<16], Some GPIOC),
      (pins_of GPIOD [0..<16], Some GPIOD),
      (pins_of GPIOE [0..<16], Some GPIOE),
      (pins_of GPIOF [0..<16], Some GPIOF),
      (pins_of GPIOG ([0..<14] @ [15]), Some GPIOG),
      (pins_of GPIOH [0..<16], Some GPIOH),
      (pins_of GPIOI [0..<16], Some GPIOI)] None pin"

definition GPIO_Map_Soc_Pin :: "hwGPIO_Pin \<Rightarrow> u16" where
  "GPIO_Map_Soc_Pin pin = switch
     [(pins_numbered 0, 0x0001), (pins_numbered 1, 0x0002),
      (pins_numbered 2, 0x0004), (pins_numbered 3, 0x0008),
      (pins_numbered 4, 0x0010), (pins_numbered 5, 0x0020),
      (pins_numbered 6, 0x0040), (pins_numbered 7, 0x0080),
      (pins_numbered 8, 0x0100), (pins_numbered 9, 0x0200),
      (pins_numbered 10, 0x0400), (pins_numbered 11, 0x0800),
      (pins_numbered 12, 0x1000), (pins_numbered 13, 0x2000),
      (pins_numbered 14, 0x4000), (pins_numbered 15, 0x8000)] 0 pin"

definition GPIO_Int_Map_Soc_Base :: "hwGPIO_Int_Pin \<Rightarrow> gpio_port option" where
  "GPIO_Int_Map_Soc_Base pin = switch
     [(int_pins_of GPIOA [0..<16], Some GPIOA),
      (int_pins_of GPIOB [0..<16], Some GPIOB),
      (int_pins_of GPIOC [0..<16], Some GPIOC),
      (int_pins_of GPIOD [0..<16], Some GPIOD),
      (int_pins_of GPIOE [0..<16], Some GPIOE),
      (int_pins_of GPIOF [0..<16], Some GPIOF),
      (int_pins_of GPIOG ([0..<14] @ [15]), Some GPIOG),
      (int_pins_of GPIOH [0..<16], Some GPIOH),
      (int_pins_of GPIOI [0..<16], Some GPIOI)] None pin"

definition GPIO_Int_Map_Soc_Pin :: "hwGPIO_Int_Pin \<Rightarrow> u16" where
  "GPIO_Int_Map_Soc_Pin pin = switch
     [(int_pins_numbered 0, 0x0001), (int_pins_numbered 1, 0x0002),
      (int_pins_numbered 2, 0x0004), (int_pins_numbered 3, 0x0008),
      (int_pins_numbered 4, 0x0010), (int_pins_numbered 5, 0x0020),
      (int_pins_numbered 6, 0x0040), (int_pins_numbered 7, 0x0080),
      (int_pins_numbered 8, 0x0100), (int_pins_numbered 9, 0x0200),
      (int_pins_numbered 10, 0x0400), (int_pins_numbered 11, 0x0800),
      (int_pins_numbered 12, 0x1000), (int_pins_numbered 13, 0x2000),
      (int_pins_numbered 14, 0x4000), (int_pins_numbered 15, 0x8000)] 0 pin"

text \<open>The port selectors \<open>EXTI_GPIOA\<close> to \<open>EXTI_GPIOI\<close> are 0 to 8.\<close>

definition GPIO_Int_Map_Exti_Port :: "hwGPIO_Int_Pin \<Rightarrow> u32" where
  "GPIO_Int_Map_Exti_Port pin = switch
     [(int_pins_of GPIOA [0..<16], 0),
      (int_pins_of GPIOB [0..<16], 1),
      (int_pins_of GPIOC [0..<16], 2),
      (int_pins_of GPIOD [0..<16], 3),
      (int_pins_of GPIOE [0..<16], 4),
      (int_pins_of GPIOF [0..<16], 5),
      (int_pins_of GPIOG ([0..<14] @ [15]), 6),
      (int_pins_of GPIOH [0..<16], 7),
      (int_pins_of GPIOI [0..<16], 8)] 0 pin"

text \<open>\<open>EXTI_LINE_n\<close> is \<open>EXTI_GPIO | n\<close>; \<open>EXTI_GPIO\<close> is \<open>0x06000000\<close>.\<close>

definition EXTI_LINE :: "nat \<Rightarrow> u32" where
  "EXTI_LINE n = 0x06000000 + of_nat n"

definition GPIO_Int_Map_Exti_Line :: "hwGPIO_Int_Pin \<Rightarrow> u32" where
  "GPIO_Int_Map_Exti_Line pin = switch
     [(int_pins_numbered 0, EXTI_LINE 0), (int_pins_numbered 1, EXTI_LINE 1),
      (int_pins_numbered 2, EXTI_LINE 2), (int_pins_numbered 3, EXTI_LINE 3),
      (int_pins_numbered 4, EXTI_LINE 4), (int_pins_numbered 5, EXTI_LINE 5),
      (int_pins_numbered 6, EXTI_LINE 6), (int_pins_numbered 7, EXTI_LINE 7),
      (int_pins_numbered 8, EXTI_LINE 8), (int_pins_numbered 9, EXTI_LINE 9),
      (int_pins_numbered 10, EXTI_LINE 10), (int_pins_numbered 11, EXTI_LINE 11),
      (int_pins_numbered 12, EXTI_LINE 12), (int_pins_numbered 13, EXTI_LINE 13),
      (int_pins_numbered 14, EXTI_LINE 14), (int_pins_numbered 15, EXTI_LINE 15)] 0 pin"

section \<open>The tables, entry by entry\<close>

lemma pin_number_range:
  "n < 16 \<Longrightarrow> 0 \<le> hwGPIO_Pin_of p n \<and> hwGPIO_Pin_of p n < hwGPIO_Pin_MAX"
  by (cases p) (auto simp: hwGPIO_Pin_of_def port_index_def)

lemma port_index_inject: "port_index p = port_index q \<longleftrightarrow> p = q"
  by (cases p; cases q) (simp_all add: port_index_def)

lemma hwGPIO_Pin_of_inject:
  assumes "m < 16" "n < 16"
  shows "hwGPIO_Pin_of p m = hwGPIO_Pin_of q n \<longleftrightarrow> p = q \<and> m = n"
proof
  assume eq: "hwGPIO_Pin_of p m = hwGPIO_Pin_of q n"
  then have "16 * port_index p + m = 16 * port_index q + n"
    unfolding hwGPIO_Pin_of_def by linarith
  moreover from this have "port_index p = port_index q"
    using assms arg_cong [where f = "\<lambda>x. x div 16"] by fastforce
  ultimately have "port_index p = port_index q" and "m = n" by simp_all
  then show "p = q \<and> m = n" by (simp add: port_index_inject)
qed simp

lemma Int_Pin_of_eq [simp]: "hwGPIO_Int_Pin_of = hwGPIO_Pin_of"
  by (simp add: fun_eq_iff hwGPIO_Int_Pin_of_def hwGPIO_Pin_of_def)

lemma int_pins_of_eq [simp]: "int_pins_of = pins_of"
  by (simp add: fun_eq_iff int_pins_of_def pins_of_def)

lemma int_pins_numbered_eq [simp]: "int_pins_numbered = pins_numbered"
  by (simp add: fun_eq_iff int_pins_numbered_def pins_numbered_def)

lemma all_ports_all [simp]: "p \<in> set all_ports"
  by (cases p) (simp_all add: all_ports_def)

lemma mem_pins_of:
  assumes "n < 16" "\<forall>m\<in>set ns. m < 16"
  shows "hwGPIO_Pin_of p n \<in> set (pins_of q ns) \<longleftrightarrow> p = q \<and> n \<in> set ns"
  using assms by (auto simp: pins_of_def hwGPIO_Pin_of_inject)

lemma mem_pins_numbered:
  assumes "n < 16" "m < 16"
  shows "hwGPIO_Pin_of p n \<in> set (pins_numbered m) \<longleftrightarrow> n = m"
  using assms by (auto simp: pins_numbered_def hwGPIO_Pin_of_inject)

lemma mem_pins_all:
  "n < 16 \<Longrightarrow> hwGPIO_Pin_of p n \<in> set (pins_of q [0..<16]) \<longleftrightarrow> p = q"
  by (subst mem_pins_of) auto

lemma mem_pins_without_14:
  "n < 16 \<Longrightarrow> hwGPIO_Pin_of p n \<in> set (pins_of q ([0..<14] @ [15])) \<longleftrightarrow> p = q \<and> n \<noteq> 14"
  by (subst mem_pins_of) auto

lemmas mem_labels = mem_pins_all mem_pins_without_14

text \<open>Every value below \<open>hwGPIO_Pin_MAX\<close> is an enumerator.\<close>

lemma port_index_onto: "k < 9 \<Longrightarrow> \<exists>p. port_index p = k"
proof -
  assume "k < 9"
  then have "all_ports ! k \<in> set all_ports" and "port_index (all_ports ! k) = k"
    by (auto simp: all_ports_def port_index_def less_Suc_eq numeral_eq_Suc)
  then show ?thesis by blast
qed

lemma pin_cases:
  assumes "0 \<le> pin" "pin < hwGPIO_Pin_MAX"
  obtains p n where "n < 16" "pin = hwGPIO_Pin_of p n"
proof -
  have "nat pin div 16 < 9" using assms by (simp add: nat_less_iff)
  then obtain p where p: "port_index p = nat pin div 16"
    using port_index_onto by blast
  have "pin = hwGPIO_Pin_of p (nat pin mod 16)"
    using assms by (simp add: hwGPIO_Pin_of_def p nat_mult_distrib zmod_int zdiv_int)
  then show thesis by (rule that [rotated]) simp
qed

text \<open>What each table returns on an enumerator, and on anything else.\<close>

definition pin_mapped :: "gpio_port \<Rightarrow> nat \<Rightarrow> bool" where
  "pin_mapped p n \<longleftrightarrow> \<not> (p = GPIOG \<and> n = 14)"

lemma Map_Soc_Base_of:
  "n < 16 \<Longrightarrow> GPIO_Map_Soc_Base (hwGPIO_Pin_of p n) = (if pin_mapped p n then Some p else None)"
  by (cases p) (simp_all add: GPIO_Map_Soc_Base_def mem_labels pin_mapped_def
    del: upt_rec_numeral)

lemma Int_Map_Soc_Base_eq: "GPIO_Int_Map_Soc_Base pin = GPIO_Map_Soc_Base pin"
  by (simp add: GPIO_Int_Map_Soc_Base_def GPIO_Map_Soc_Base_def)

lemma Int_Map_Soc_Pin_eq: "GPIO_Int_Map_Soc_Pin pin = GPIO_Map_Soc_Pin pin"
  by (simp add: GPIO_Int_Map_Soc_Pin_def GPIO_Map_Soc_Pin_def)

lemma Map_Soc_Pin_of:
  assumes "n < 16"
  shows "GPIO_Map_Soc_Pin (hwGPIO_Pin_of p n) = push_bit n 1"
  using nat_less_cases_16 [OF assms] assms
  by (auto simp: GPIO_Map_Soc_Pin_def mem_pins_numbered)

lemma Exti_Line_of:
  assumes "n < 16"
  shows "GPIO_Int_Map_Exti_Line (hwGPIO_Pin_of p n) = EXTI_LINE n"
  using nat_less_cases_16 [OF assms] assms
  by (auto simp: GPIO_Int_Map_Exti_Line_def mem_pins_numbered)

lemma Exti_Port_of:
  "n < 16 \<Longrightarrow> GPIO_Int_Map_Exti_Port (hwGPIO_Pin_of p n) =
     (if pin_mapped p n then of_nat (port_index p) else 0)"
  by (cases p) (simp_all add: GPIO_Int_Map_Exti_Port_def mem_labels pin_mapped_def port_index_def
    del: upt_rec_numeral)

lemma pins_of_range: "pin \<in> set (pins_of p ns) \<Longrightarrow> \<forall>m\<in>set ns. m < 16 \<Longrightarrow>
    0 \<le> pin \<and> pin < hwGPIO_Pin_MAX"
  using pin_number_range by (auto simp: pins_of_def)

lemma pins_numbered_range:
  "pin \<in> set (pins_numbered m) \<Longrightarrow> m < 16 \<Longrightarrow> 0 \<le> pin \<and> pin < hwGPIO_Pin_MAX"
  using pin_number_range by (auto simp: pins_numbered_def)

lemma Map_Soc_Pin_outside:
  "pin < 0 \<or> hwGPIO_Pin_MAX \<le> pin \<Longrightarrow> GPIO_Map_Soc_Pin pin = 0"
  unfolding GPIO_Map_Soc_Pin_def
  by (rule switch_default) (auto dest!: pins_numbered_range)

lemma Map_Soc_Base_outside:
  "pin < 0 \<or> hwGPIO_Pin_MAX \<le> pin \<Longrightarrow> GPIO_Map_Soc_Base pin = None"
  unfolding GPIO_Map_Soc_Base_def
  by (rule switch_default) (auto dest!: pins_of_range)

lemma push_bit_one_u16_neq_0: "n < 16 \<Longrightarrow> push_bit n (1::u16) \<noteq> 0"
  by (simp add: push_bit_eq_mult)

lemma push_bit_one_u16_inject:
  assumes "m < 16" "n < 16"
  shows "push_bit m (1::u16) = push_bit n 1 \<longleftrightarrow> m = n"
proof
  assume "push_bit m (1::u16) = push_bit n 1"
  then have "bit (push_bit m (1::u16)) n = bit (push_bit n (1::u16)) n" by simp
  then show "m = n" using assms by (auto simp: bit_simps)
qed simp

text \<open>A pin is usable when both tables know it: every enumerator but G14.\<close>

definition pin_ok :: "hwGPIO_Pin \<Rightarrow> bool" where
  "pin_ok pin \<longleftrightarrow> GPIO_Map_Soc_Pin pin \<noteq> 0 \<and> GPIO_Map_Soc_Base pin \<noteq> None"

lemma pin_ok_of: "n < 16 \<Longrightarrow> pin_ok (hwGPIO_Pin_of p n) \<longleftrightarrow> pin_mapped p n"
  by (simp add: pin_ok_def Map_Soc_Pin_of Map_Soc_Base_of push_bit_one_u16_neq_0)

lemma pin_ok_iff:
  "pin_ok pin \<longleftrightarrow> 0 \<le> pin \<and> pin < hwGPIO_Pin_MAX \<and> pin \<noteq> hwGPIO_Pin_of GPIOG 14"
proof (cases "0 \<le> pin \<and> pin < hwGPIO_Pin_MAX")
  case True
  then obtain p n where "n < 16" "pin = hwGPIO_Pin_of p n" by (auto elim: pin_cases)
  then show ?thesis
    using True by (simp add: pin_ok_of pin_mapped_def hwGPIO_Pin_of_inject)
next
  case False
  then show ?thesis by (auto simp: pin_ok_def Map_Soc_Base_outside)
qed

end
