(* ===== verification/Lifecycle.thy ===== *)
theory Lifecycle
  imports Prelude
begin

text \<open>
  The contract that the drivers share: a table of resources (pins, interrupt pins, timers,
  PWM channels), each acquired by an \<open>Init\<close> function and given back by a \<open>DeInit\<close> function.
  A provider promises that on every usable key neither function leaves its arrays, both keep
  the provider's invariant, and the set of the keys held changes as a set does. A client may
  then treat any sequence of calls as operations on a set.
\<close>

datatype ('c, 'k) life_op = Acquire 'c 'k | Release 'c 'k

fun life_key :: "('c, 'k) life_op \<Rightarrow> 'k" where
  "life_key (Acquire c k) = k"
| "life_key (Release c k) = k"

fun life_cfg :: "('c, 'k) life_op \<Rightarrow> 'c" where
  "life_cfg (Acquire c k) = c"
| "life_cfg (Release c k) = c"

text \<open>The abstract machine: a set.\<close>

fun abs_step :: "('c, 'k) life_op \<Rightarrow> 'k set \<Rightarrow> 'k set" where
  "abs_step (Acquire c k) K = insert k K"
| "abs_step (Release c k) K = K - {k}"

definition abs_run :: "('c, 'k) life_op list \<Rightarrow> 'k set \<Rightarrow> 'k set" where
  "abs_run ops K = fold abs_step ops K"

text \<open>Whether the last operation on a key is an acquisition; \<open>dflt\<close> if there is none.\<close>

fun last_acquired :: "('c, 'k) life_op list \<Rightarrow> 'k \<Rightarrow> bool \<Rightarrow> bool" where
  "last_acquired [] k dflt = dflt"
| "last_acquired (Acquire c k' # ops) k dflt = last_acquired ops k (k' = k \<or> dflt)"
| "last_acquired (Release c k' # ops) k dflt = last_acquired ops k (k' \<noteq> k \<and> dflt)"

lemma abs_run_last: "k \<in> abs_run ops K \<longleftrightarrow> last_acquired ops k (k \<in> K)"
  unfolding abs_run_def
proof (induction ops arbitrary: K)
  case (Cons oper ops)
  show ?case
  proof (cases oper)
    case (Acquire c k')
    have "(k \<in> insert k' K) = (k' = k \<or> k \<in> K)" by blast
    with Cons.IH [of "insert k' K"] Acquire show ?thesis by simp
  next
    case (Release c k')
    have "(k \<in> K - {k'}) = (k' \<noteq> k \<and> k \<in> K)" by blast
    with Cons.IH [of "K - {k'}"] Release show ?thesis by simp
  qed
qed simp

text \<open>Running the code's functions over a sequence of calls; \<open>None\<close> as soon as one is undefined.\<close>

fun life_run ::
  "('c \<Rightarrow> 'k \<Rightarrow> 's \<Rightarrow> ('r \<times> 's) option) \<Rightarrow> ('c \<Rightarrow> 'k \<Rightarrow> 's \<Rightarrow> ('r \<times> 's) option) \<Rightarrow>
   ('c, 'k) life_op list \<Rightarrow> 's \<Rightarrow> 's option" where
  "life_run acq rel [] s = Some s"
| "life_run acq rel (Acquire c k # ops) s =
     do { (r, s') \<leftarrow> acq c k s; life_run acq rel ops s' }"
| "life_run acq rel (Release c k # ops) s =
     do { (r, s') \<leftarrow> rel c k s; life_run acq rel ops s' }"

locale resource_table =
  fixes inv :: "'s \<Rightarrow> bool"
    and held :: "'s \<Rightarrow> 'k set"
    and usable :: "'c \<Rightarrow> 'k \<Rightarrow> bool"
    and acquire :: "'c \<Rightarrow> 'k \<Rightarrow> 's \<Rightarrow> ('r \<times> 's) option"
    and release :: "'c \<Rightarrow> 'k \<Rightarrow> 's \<Rightarrow> ('r \<times> 's) option"
  assumes acquire_law: "inv s \<Longrightarrow> usable c k \<Longrightarrow>
      \<exists>r s'. acquire c k s = Some (r, s') \<and> inv s' \<and> held s' = insert k (held s)"
    and release_law: "inv s \<Longrightarrow> usable c k \<Longrightarrow>
      \<exists>r s'. release c k s = Some (r, s') \<and> inv s' \<and> held s' = held s - {k}"
begin

definition usable_op :: "('c, 'k) life_op \<Rightarrow> bool" where
  "usable_op oper \<longleftrightarrow> usable (life_cfg oper) (life_key oper)"

lemma step_refines:
  assumes "inv s" "usable_op oper"
  shows "\<exists>s'. life_run acquire release (oper # ops) s = life_run acquire release ops s' \<and> inv s' \<and>
           held s' = abs_step oper (held s)"
proof (cases oper)
  case (Acquire c k)
  with assms obtain r s' where "acquire c k s = Some (r, s')" "inv s'" "held s' = insert k (held s)"
    using acquire_law by (fastforce simp: usable_op_def)
  with Acquire show ?thesis by auto
next
  case (Release c k)
  with assms obtain r s' where "release c k s = Some (r, s')" "inv s'" "held s' = held s - {k}"
    using release_law by (fastforce simp: usable_op_def)
  with Release show ?thesis by auto
qed

theorem run_refines:
  assumes "inv s" "\<forall>oper\<in>set ops. usable_op oper"
  shows "\<exists>s'. life_run acquire release ops s = Some s' \<and> inv s' \<and> held s' = abs_run ops (held s)"
  using assms
proof (induction ops arbitrary: s)
  case Nil
  then show ?case by (simp add: abs_run_def)
next
  case (Cons oper ops)
  from Cons.prems obtain s1 where s1:
    "life_run acquire release (oper # ops) s = life_run acquire release ops s1"
    "inv s1" "held s1 = abs_step oper (held s)"
    using step_refines [of s oper ops] by auto
  from Cons.IH [OF s1(2)] Cons.prems(2) show ?case
    by (auto simp: s1 abs_run_def)
qed

corollary run_held_iff:
  assumes "inv s" "\<forall>oper\<in>set ops. usable_op oper"
  shows "\<exists>s'. life_run acquire release ops s = Some s' \<and> inv s' \<and>
           (\<forall>k. k \<in> held s' \<longleftrightarrow> last_acquired ops k (k \<in> held s))"
  using run_refines [OF assms] by (auto simp: abs_run_last)

end

end
