(* ===== verification/GPIO.thy ===== *)
theory GPIO
  imports GPIO_Pin Lifecycle
begin

text \<open>
  The GPIO and external-interrupt driver of the STM32 boards, \<open>Driver/GPIO/GPIO_STM32.c\<close>:
  its static arrays are the record \<open>gpio_state\<close>, its functions the definitions of the same
  name, in the order of the file. A pointer argument is an \<open>option\<close>: \<open>None\<close> is NULL,
  \<open>Some v\<close> points to \<open>v\<close>, and the function returns what it points to afterwards.
\<close>

section \<open>Types and state\<close>

datatype hwGPIO_OpStatus = hwGPIO_OK | hwGPIO_InvalidParameter | hwGPIO_PinConflict
  | hwGPIO_HW_Error | hwGPIO_Unsupport

datatype hwGPIO_Direction = hwGPIO_Direction_Input | hwGPIO_Direction_Output
  | hwGPIO_Direction_Output_Only | hwGPIO_Direction_MAX

datatype hwGPIO_Pull_Mode = hwGPIO_Pull_Mode_None | hwGPIO_Pull_Mode_Up | hwGPIO_Pull_Mode_Down
  | hwGPIO_Pull_Mode_OpenDrain | hwGPIO_Pull_Mode_MAX

datatype hwGPIO_Interrupt_Mode = hwGPIO_Interrupt_Mode_Falling_Edge
  | hwGPIO_Interrupt_Mode_Rising_Edge | hwGPIO_Interrupt_Mode_Both_Edge
  | hwGPIO_Interrupt_Mode_MAX

text \<open>\<open>GPIO_EXTI_Desc\<close>; its EXTI handle is named by the line, the index of the descriptor.\<close>

record GPIO_EXTI_Desc =
  desc_irq_pin :: hwGPIO_Int_Pin
  desc_mode :: hwGPIO_Interrupt_Mode

text \<open>The static arrays. A registered handler is named by a number, NULL is \<open>None\<close>.\<close>

record gpio_state = mcu_state +
  gpio_pin_init_status :: "bool list"
  gpio_current_dir :: "hwGPIO_Direction list"
  gpio_current_mode :: "hwGPIO_Pull_Mode list"
  gpio_exti_enable_status :: "bool list"
  gpio_exti_desc :: "GPIO_EXTI_Desc list"
  gpio_irq_handlers :: "nat option list"

text \<open>\<open>GPIO_EXTI_IRQn\<close>: slots 0 to 4 for lines 0 to 4, slot 5 for 5 to 9, slot 6 for 10 to 15.\<close>

abbreviation (input) GPIO_EXTI_IRQn_5_9 :: nat where "GPIO_EXTI_IRQn_5_9 \<equiv> 5"
abbreviation (input) GPIO_EXTI_IRQn_10_15 :: nat where "GPIO_EXTI_IRQn_10_15 \<equiv> 6"
abbreviation (input) GPIO_EXTI_IRQn_MAX :: nat where "GPIO_EXTI_IRQn_MAX \<equiv> 7"
abbreviation (input) GPIO_EXTI_Line_MAX :: nat where "GPIO_EXTI_Line_MAX \<equiv> 16"

section \<open>Pins\<close>

definition GPIO_Pin_is_Init :: "hwGPIO_Pin \<Rightarrow> 'a gpio_state_scheme \<Rightarrow> bool option" where
  "GPIO_Pin_is_Init pin s =
     (if pin \<ge> hwGPIO_Pin_MAX then Some False else cread (gpio_pin_init_status s) pin)"

definition GPIO_Enable_RCC_Clock :: "gpio_port \<Rightarrow> 'a mcu_state_scheme \<Rightarrow> 'a mcu_state_scheme" where
  "GPIO_Enable_RCC_Clock base s =
     (if base \<in> {GPIOA, GPIOB, GPIOC, GPIOD, GPIOE, GPIOF, GPIOG, GPIOH}
      then emit (RCC_CLK_ENABLE (RCC_GPIO base)) s else s)"

definition GPIO_Disable_RCC_Clock :: "gpio_port \<Rightarrow> 'a mcu_state_scheme \<Rightarrow> 'a mcu_state_scheme" where
  "GPIO_Disable_RCC_Clock base s =
     (if base \<in> {GPIOA, GPIOB, GPIOC, GPIOD, GPIOE, GPIOF, GPIOG, GPIOH}
      then emit (RCC_CLK_DISABLE (RCC_GPIO base)) s else s)"

text \<open>The nested \<open>switch(dir)\<close> / \<open>switch(pull_mode)\<close> that fills \<open>gpio_pin_init\<close>, from \<open>{0}\<close>.\<close>

definition gpio_dir_config ::
  "hwGPIO_Direction \<Rightarrow> hwGPIO_Pull_Mode \<Rightarrow> u16 \<Rightarrow> GPIO_InitTypeDef" where
  "gpio_dir_config dir pull_mode soc_pin =
     (let ini = GPIO_Init_zero\<lparr>init_Pin := soc_pin\<rparr>;
          out = (case pull_mode of
              hwGPIO_Pull_Mode_None \<Rightarrow>
                ini\<lparr>init_Mode := GPIO_MODE_OUTPUT_PP, init_Pull := GPIO_NOPULL\<rparr>
            | hwGPIO_Pull_Mode_Up \<Rightarrow>
                ini\<lparr>init_Mode := GPIO_MODE_OUTPUT_PP, init_Pull := GPIO_PULLUP\<rparr>
            | hwGPIO_Pull_Mode_Down \<Rightarrow>
                ini\<lparr>init_Mode := GPIO_MODE_OUTPUT_PP, init_Pull := GPIO_PULLDOWN\<rparr>
            | hwGPIO_Pull_Mode_OpenDrain \<Rightarrow> ini\<lparr>init_Mode := GPIO_MODE_OUTPUT_OD\<rparr>
            | hwGPIO_Pull_Mode_MAX \<Rightarrow> ini);
          cfg = (case dir of
              hwGPIO_Direction_Input \<Rightarrow> ini\<lparr>init_Mode := GPIO_MODE_INPUT\<rparr>
            | hwGPIO_Direction_Output \<Rightarrow> out
            | hwGPIO_Direction_Output_Only \<Rightarrow> out
            | hwGPIO_Direction_MAX \<Rightarrow> ini)
      in cfg\<lparr>init_Speed := GPIO_SPEED_FREQ_VERY_HIGH\<rparr>)"

definition GPIO_Pin_Init ::
  "hwGPIO_Pin \<Rightarrow> hwGPIO_Direction \<Rightarrow> hwGPIO_Pull_Mode \<Rightarrow> 'a gpio_state_scheme \<Rightarrow>
   (hwGPIO_OpStatus \<times> 'a gpio_state_scheme) option" where
  "GPIO_Pin_Init pin dir pull_mode s =
     (if pin \<ge> hwGPIO_Pin_MAX then Some (hwGPIO_InvalidParameter, s)
      else if dir = hwGPIO_Direction_MAX then Some (hwGPIO_InvalidParameter, s)
      else if pull_mode = hwGPIO_Pull_Mode_MAX then Some (hwGPIO_InvalidParameter, s)
      else do {
        st \<leftarrow> cread (gpio_pin_init_status s) pin;
        if st then Some (hwGPIO_PinConflict, s)
        else if GPIO_Map_Soc_Pin pin = 0 \<or> GPIO_Map_Soc_Base pin = None
          then Some (hwGPIO_InvalidParameter, s)
        else do {
          let soc_base = the (GPIO_Map_Soc_Base pin);
          let s1 = GPIO_Enable_RCC_Clock soc_base s;
          let s2 = emit (HAL_GPIO_Init soc_base
                     (gpio_dir_config dir pull_mode (GPIO_Map_Soc_Pin pin))) s1;
          dirs \<leftarrow> cwrite (gpio_current_dir s2) pin dir;
          modes \<leftarrow> cwrite (gpio_current_mode s2) pin pull_mode;
          inits \<leftarrow> cwrite (gpio_pin_init_status s2) pin True;
          Some (hwGPIO_OK, s2\<lparr>gpio_current_dir := dirs, gpio_current_mode := modes,
                             gpio_pin_init_status := inits\<rparr>)
        }
      })"

text \<open>\<open>GPIO_Pin_DeInit\<close> reads its array before any range check.\<close>

definition GPIO_Pin_DeInit ::
  "hwGPIO_Pin \<Rightarrow> 'a gpio_state_scheme \<Rightarrow> (hwGPIO_OpStatus \<times> 'a gpio_state_scheme) option" where
  "GPIO_Pin_DeInit pin s = do {
     st \<leftarrow> cread (gpio_pin_init_status s) pin;
     if \<not> st then Some (hwGPIO_OK, s)
     else if GPIO_Map_Soc_Pin pin = 0 \<or> GPIO_Map_Soc_Base pin = None
       then Some (hwGPIO_InvalidParameter, s)
     else do {
       let s1 = emit (HAL_GPIO_DeInit (the (GPIO_Map_Soc_Base pin)) (GPIO_Map_Soc_Pin pin)) s;
       dirs \<leftarrow> cwrite (gpio_current_dir s1) pin hwGPIO_Direction_Input;
       modes \<leftarrow> cwrite (gpio_current_mode s1) pin hwGPIO_Pull_Mode_None;
       inits \<leftarrow> cwrite (gpio_pin_init_status s1) pin False;
       Some (hwGPIO_OK, s1\<lparr>gpio_current_dir := dirs, gpio_current_mode := modes,
                          gpio_pin_init_status := inits\<rparr>)
     }
   }"

definition GPIO_Pin_Set_Direction ::
  "hwGPIO_Pin \<Rightarrow> hwGPIO_Direction \<Rightarrow> 'a gpio_state_scheme \<Rightarrow>
   (hwGPIO_OpStatus \<times> 'a gpio_state_scheme) option" where
  "GPIO_Pin_Set_Direction pin dir s =
     (if pin \<ge> hwGPIO_Pin_MAX then Some (hwGPIO_InvalidParameter, s)
      else if dir = hwGPIO_Direction_MAX then Some (hwGPIO_InvalidParameter, s)
      else do {
        cur \<leftarrow> cread (gpio_current_dir s) pin;
        if cur = hwGPIO_Direction_Output_Only then Some (hwGPIO_Unsupport, s)
        else if GPIO_Map_Soc_Pin pin = 0 \<or> GPIO_Map_Soc_Base pin = None
          then Some (hwGPIO_InvalidParameter, s)
        else do {
          mode \<leftarrow> cread (gpio_current_mode s) pin;
          let s1 = emit (HAL_GPIO_Init (the (GPIO_Map_Soc_Base pin))
                     (gpio_dir_config dir mode (GPIO_Map_Soc_Pin pin))) s;
          dirs \<leftarrow> cwrite (gpio_current_dir s1) pin dir;
          Some (hwGPIO_OK, s1\<lparr>gpio_current_dir := dirs\<rparr>)
        }
      })"

definition GPIO_Pin_Get_Direction ::
  "hwGPIO_Pin \<Rightarrow> hwGPIO_Direction option \<Rightarrow> 'a gpio_state_scheme \<Rightarrow>
   (hwGPIO_OpStatus \<times> hwGPIO_Direction option) option" where
  "GPIO_Pin_Get_Direction pin dir s =
     (if pin \<ge> hwGPIO_Pin_MAX then Some (hwGPIO_InvalidParameter, dir)
      else if dir = None then Some (hwGPIO_InvalidParameter, dir)
      else do { cur \<leftarrow> cread (gpio_current_dir s) pin; Some (hwGPIO_OK, Some cur) })"

definition GPIO_Pin_Set_PullMode ::
  "hwGPIO_Pin \<Rightarrow> hwGPIO_Pull_Mode \<Rightarrow> 'a gpio_state_scheme \<Rightarrow>
   (hwGPIO_OpStatus \<times> 'a gpio_state_scheme) option" where
  "GPIO_Pin_Set_PullMode pin pull_mode s =
     (if pin \<ge> hwGPIO_Pin_MAX then Some (hwGPIO_InvalidParameter, s)
      else if pull_mode = hwGPIO_Pull_Mode_MAX then Some (hwGPIO_InvalidParameter, s)
      else if GPIO_Map_Soc_Pin pin = 0 \<or> GPIO_Map_Soc_Base pin = None
        then Some (hwGPIO_InvalidParameter, s)
      else do {
        cur \<leftarrow> cread (gpio_current_dir s) pin;
        let s1 = emit (HAL_GPIO_Init (the (GPIO_Map_Soc_Base pin))
                   (gpio_dir_config cur pull_mode (GPIO_Map_Soc_Pin pin))) s;
        modes \<leftarrow> cwrite (gpio_current_mode s1) pin pull_mode;
        Some (hwGPIO_OK, s1\<lparr>gpio_current_mode := modes\<rparr>)
      })"

definition GPIO_Pin_Get_PullMode ::
  "hwGPIO_Pin \<Rightarrow> hwGPIO_Pull_Mode option \<Rightarrow> 'a gpio_state_scheme \<Rightarrow>
   (hwGPIO_OpStatus \<times> hwGPIO_Pull_Mode option) option" where
  "GPIO_Pin_Get_PullMode pin pull_mode s =
     (if pin \<ge> hwGPIO_Pin_MAX then Some (hwGPIO_InvalidParameter, pull_mode)
      else if pull_mode = None then Some (hwGPIO_InvalidParameter, pull_mode)
      else do { cur \<leftarrow> cread (gpio_current_mode s) pin; Some (hwGPIO_OK, Some cur) })"

definition GPIO_Pin_Read ::
  "hal_env \<Rightarrow> hwGPIO_Pin \<Rightarrow> bool option \<Rightarrow> 'a gpio_state_scheme \<Rightarrow>
   (hwGPIO_OpStatus \<times> bool option) option" where
  "GPIO_Pin_Read env pin level s =
     (if pin \<ge> hwGPIO_Pin_MAX then Some (hwGPIO_InvalidParameter, level)
      else if level = None then Some (hwGPIO_InvalidParameter, level)
      else do {
        cur \<leftarrow> cread (gpio_current_dir s) pin;
        if cur = hwGPIO_Direction_Output_Only then Some (hwGPIO_Unsupport, level)
        else if GPIO_Map_Soc_Pin pin = 0 \<or> GPIO_Map_Soc_Base pin = None
          then Some (hwGPIO_InvalidParameter, level)
        else Some (hwGPIO_OK, Some (read_pin env (hw_log s) (the (GPIO_Map_Soc_Base pin))
                                      (GPIO_Map_Soc_Pin pin)))
      })"

definition GPIO_Pin_Write ::
  "hwGPIO_Pin \<Rightarrow> bool \<Rightarrow> 'a gpio_state_scheme \<Rightarrow>
   (hwGPIO_OpStatus \<times> 'a gpio_state_scheme) option" where
  "GPIO_Pin_Write pin level s =
     (if pin \<ge> hwGPIO_Pin_MAX then Some (hwGPIO_InvalidParameter, s)
      else do {
        cur \<leftarrow> cread (gpio_current_dir s) pin;
        if cur = hwGPIO_Direction_Input then Some (hwGPIO_Unsupport, s)
        else if GPIO_Map_Soc_Pin pin = 0 \<or> GPIO_Map_Soc_Base pin = None
          then Some (hwGPIO_InvalidParameter, s)
        else Some (hwGPIO_OK, emit (HAL_GPIO_WritePin (the (GPIO_Map_Soc_Base pin))
                                      (GPIO_Map_Soc_Pin pin) level) s)
      })"

definition GPIO_Pin_Toggle ::
  "hwGPIO_Pin \<Rightarrow> 'a gpio_state_scheme \<Rightarrow> (hwGPIO_OpStatus \<times> 'a gpio_state_scheme) option" where
  "GPIO_Pin_Toggle pin s =
     (if pin \<ge> hwGPIO_Pin_MAX then Some (hwGPIO_InvalidParameter, s)
      else do {
        cur \<leftarrow> cread (gpio_current_dir s) pin;
        if cur = hwGPIO_Direction_Input then Some (hwGPIO_Unsupport, s)
        else if GPIO_Map_Soc_Pin pin = 0 \<or> GPIO_Map_Soc_Base pin = None
          then Some (hwGPIO_InvalidParameter, s)
        else Some (hwGPIO_OK, emit (HAL_GPIO_TogglePin (the (GPIO_Map_Soc_Base pin))
                                      (GPIO_Map_Soc_Pin pin)) s)
      })"

declare GPIO_Pin_Init_def [driver_defs] GPIO_Pin_DeInit_def [driver_defs]
  GPIO_Pin_Set_Direction_def [driver_defs] GPIO_Pin_Set_PullMode_def [driver_defs]
  GPIO_Pin_Get_Direction_def [driver_defs] GPIO_Pin_Get_PullMode_def [driver_defs]
  GPIO_Pin_Read_def [driver_defs] GPIO_Pin_Write_def [driver_defs]
  GPIO_Pin_Toggle_def [driver_defs] GPIO_Pin_is_Init_def [driver_defs]

section \<open>Well-formed memory and the state at reset\<close>

definition gpio_wf :: "'a gpio_state_scheme \<Rightarrow> bool" where
  "gpio_wf s \<longleftrightarrow> length (gpio_pin_init_status s) = 144 \<and> length (gpio_current_dir s) = 144 \<and>
     length (gpio_current_mode s) = 144 \<and> length (gpio_exti_enable_status s) = 7 \<and>
     length (gpio_exti_desc s) = 16 \<and> length (gpio_irq_handlers s) = 144"

text \<open>The initialisers of the static arrays; the zeroed descriptors name pin 0, falling edge.\<close>

definition gpio_boot :: "'a gpio_state_scheme \<Rightarrow> bool" where
  "gpio_boot s \<longleftrightarrow> gpio_pin_init_status s = replicate 144 False \<and>
     gpio_current_dir s = replicate 144 hwGPIO_Direction_Input \<and>
     gpio_current_mode s = replicate 144 hwGPIO_Pull_Mode_None \<and>
     gpio_exti_enable_status s = replicate 7 False \<and>
     gpio_exti_desc s = replicate 16 \<lparr>desc_irq_pin = 0, desc_mode = hwGPIO_Interrupt_Mode_Falling_Edge\<rparr> \<and>
     gpio_irq_handlers s = replicate 144 None \<and> hw_log s = []"

definition gpio_init_memory :: gpio_state where
  "gpio_init_memory = \<lparr>hw_log = [], gpio_pin_init_status = replicate 144 False,
     gpio_current_dir = replicate 144 hwGPIO_Direction_Input,
     gpio_current_mode = replicate 144 hwGPIO_Pull_Mode_None,
     gpio_exti_enable_status = replicate 7 False,
     gpio_exti_desc = replicate 16 \<lparr>desc_irq_pin = 0, desc_mode = hwGPIO_Interrupt_Mode_Falling_Edge\<rparr>,
     gpio_irq_handlers = replicate 144 None\<rparr>"

lemma gpio_boot_wf: "gpio_boot s \<Longrightarrow> gpio_wf s"
  by (simp add: gpio_boot_def gpio_wf_def)

lemma gpio_boot_memory: "gpio_boot gpio_init_memory"
  by (simp add: gpio_boot_def gpio_init_memory_def)

lemma gpio_wfD:
  assumes "gpio_wf s"
  shows "length (gpio_pin_init_status s) = 144" "length (gpio_current_dir s) = 144"
    "length (gpio_current_mode s) = 144" "length (gpio_exti_enable_status s) = 7"
    "length (gpio_exti_desc s) = 16" "length (gpio_irq_handlers s) = 144"
  using assms by (simp_all add: gpio_wf_def)

text \<open>Emitting an event touches the event sequence only.\<close>

lemma emit_gpio [simp]:
  fixes s :: "'a gpio_state_scheme"
  shows "gpio_pin_init_status (emit e s) = gpio_pin_init_status s"
    "gpio_current_dir (emit e s) = gpio_current_dir s"
    "gpio_current_mode (emit e s) = gpio_current_mode s"
    "gpio_exti_enable_status (emit e s) = gpio_exti_enable_status s"
    "gpio_exti_desc (emit e s) = gpio_exti_desc s"
    "gpio_irq_handlers (emit e s) = gpio_irq_handlers s"
    "gpio_wf (emit e s) = gpio_wf s"
  by (simp_all add: emit_def gpio_wf_def)

lemma RCC_gpio [simp]:
  fixes s :: "'a gpio_state_scheme"
  shows "gpio_pin_init_status (GPIO_Enable_RCC_Clock p s) = gpio_pin_init_status s"
    "gpio_current_dir (GPIO_Enable_RCC_Clock p s) = gpio_current_dir s"
    "gpio_current_mode (GPIO_Enable_RCC_Clock p s) = gpio_current_mode s"
    "gpio_exti_enable_status (GPIO_Enable_RCC_Clock p s) = gpio_exti_enable_status s"
    "gpio_exti_desc (GPIO_Enable_RCC_Clock p s) = gpio_exti_desc s"
    "gpio_irq_handlers (GPIO_Enable_RCC_Clock p s) = gpio_irq_handlers s"
    "gpio_wf (GPIO_Enable_RCC_Clock p s) = gpio_wf s"
  by (simp_all add: GPIO_Enable_RCC_Clock_def)

section \<open>The pin functions in closed form\<close>

definition pin_held :: "'a gpio_state_scheme \<Rightarrow> hwGPIO_Pin set" where
  "pin_held s = {pin. 0 \<le> pin \<and> pin < hwGPIO_Pin_MAX \<and> gpio_pin_init_status s ! nat pin}"

lemma pin_held_emit [simp]: "pin_held (emit e s) = pin_held s"
  by (simp add: pin_held_def)

lemma pin_held_RCC [simp]: "pin_held (GPIO_Enable_RCC_Clock p s) = pin_held s"
  by (simp add: pin_held_def)

text \<open>The state after a pin has been set up.\<close>

definition pin_setup ::
  "hwGPIO_Pin \<Rightarrow> hwGPIO_Direction \<Rightarrow> hwGPIO_Pull_Mode \<Rightarrow> 'a gpio_state_scheme \<Rightarrow> 'a gpio_state_scheme" where
  "pin_setup pin dir pull_mode s =
     (let b = the (GPIO_Map_Soc_Base pin);
          s2 = emit (HAL_GPIO_Init b (gpio_dir_config dir pull_mode (GPIO_Map_Soc_Pin pin)))
                 (GPIO_Enable_RCC_Clock b s)
      in s2\<lparr>gpio_current_dir := (gpio_current_dir s)[nat pin := dir],
            gpio_current_mode := (gpio_current_mode s)[nat pin := pull_mode],
            gpio_pin_init_status := (gpio_pin_init_status s)[nat pin := True]\<rparr>)"

definition pin_teardown :: "hwGPIO_Pin \<Rightarrow> 'a gpio_state_scheme \<Rightarrow> 'a gpio_state_scheme" where
  "pin_teardown pin s =
     (emit (HAL_GPIO_DeInit (the (GPIO_Map_Soc_Base pin)) (GPIO_Map_Soc_Pin pin)) s)
       \<lparr>gpio_current_dir := (gpio_current_dir s)[nat pin := hwGPIO_Direction_Input],
        gpio_current_mode := (gpio_current_mode s)[nat pin := hwGPIO_Pull_Mode_None],
        gpio_pin_init_status := (gpio_pin_init_status s)[nat pin := False]\<rparr>"

lemma Pin_Init_eval:
  assumes "gpio_wf s" "0 \<le> pin"
  shows "GPIO_Pin_Init pin dir pull_mode s =
    (if pin \<ge> hwGPIO_Pin_MAX \<or> dir = hwGPIO_Direction_MAX \<or> pull_mode = hwGPIO_Pull_Mode_MAX
     then Some (hwGPIO_InvalidParameter, s)
     else if pin \<in> pin_held s then Some (hwGPIO_PinConflict, s)
     else if \<not> pin_ok pin then Some (hwGPIO_InvalidParameter, s)
     else Some (hwGPIO_OK, pin_setup pin dir pull_mode s))"
  using assms gpio_wfD [OF assms(1)]
  by (auto simp: GPIO_Pin_Init_def pin_held_def pin_ok_def pin_setup_def Let_def)

lemma Pin_DeInit_eval:
  assumes "gpio_wf s" "0 \<le> pin" "pin < hwGPIO_Pin_MAX"
  shows "GPIO_Pin_DeInit pin s =
    (if pin \<notin> pin_held s then Some (hwGPIO_OK, s)
     else if \<not> pin_ok pin then Some (hwGPIO_InvalidParameter, s)
     else Some (hwGPIO_OK, pin_teardown pin s))"
  using assms gpio_wfD [OF assms(1)]
  by (auto simp: GPIO_Pin_DeInit_def pin_held_def pin_ok_def pin_teardown_def Let_def)

lemma pin_setup_simps [simp]:
  "gpio_wf (pin_setup pin d m s) = gpio_wf s"
  "gpio_current_dir (pin_setup pin d m s) = (gpio_current_dir s)[nat pin := d]"
  "gpio_current_mode (pin_setup pin d m s) = (gpio_current_mode s)[nat pin := m]"
  "gpio_pin_init_status (pin_setup pin d m s) = (gpio_pin_init_status s)[nat pin := True]"
  "gpio_exti_enable_status (pin_setup pin d m s) = gpio_exti_enable_status s"
  "gpio_exti_desc (pin_setup pin d m s) = gpio_exti_desc s"
  "gpio_irq_handlers (pin_setup pin d m s) = gpio_irq_handlers s"
  by (simp_all add: pin_setup_def gpio_wf_def Let_def)

lemma pin_teardown_simps [simp]:
  "gpio_wf (pin_teardown pin s) = gpio_wf s"
  "gpio_current_dir (pin_teardown pin s) = (gpio_current_dir s)[nat pin := hwGPIO_Direction_Input]"
  "gpio_current_mode (pin_teardown pin s) = (gpio_current_mode s)[nat pin := hwGPIO_Pull_Mode_None]"
  "gpio_pin_init_status (pin_teardown pin s) = (gpio_pin_init_status s)[nat pin := False]"
  "gpio_exti_enable_status (pin_teardown pin s) = gpio_exti_enable_status s"
  "gpio_exti_desc (pin_teardown pin s) = gpio_exti_desc s"
  "gpio_irq_handlers (pin_teardown pin s) = gpio_irq_handlers s"
  by (simp_all add: pin_teardown_def gpio_wf_def)

lemma pin_held_update:
  assumes "length xs = 144" "0 \<le> pin" "pin < hwGPIO_Pin_MAX"
  shows "{p. 0 \<le> p \<and> p < hwGPIO_Pin_MAX \<and> xs[nat pin := b] ! nat p} =
    (if b then insert pin {p. 0 \<le> p \<and> p < hwGPIO_Pin_MAX \<and> xs ! nat p}
     else {p. 0 \<le> p \<and> p < hwGPIO_Pin_MAX \<and> xs ! nat p} - {pin})"
  using assms by (auto simp: nth_list_update nat_eq_nonneg split: if_splits)

lemma pin_held_setup:
  "gpio_wf s \<Longrightarrow> 0 \<le> pin \<Longrightarrow> pin < hwGPIO_Pin_MAX \<Longrightarrow>
     pin_held (pin_setup pin d m s) = insert pin (pin_held s)"
  by (simp add: pin_held_def pin_held_update gpio_wfD)

lemma pin_held_teardown:
  "gpio_wf s \<Longrightarrow> 0 \<le> pin \<Longrightarrow> pin < hwGPIO_Pin_MAX \<Longrightarrow>
     pin_held (pin_teardown pin s) = pin_held s - {pin}"
  by (simp add: pin_held_def pin_held_update gpio_wfD)

section \<open>The pins as a resource table\<close>

definition pin_cfg_ok :: "hwGPIO_Direction \<times> hwGPIO_Pull_Mode \<Rightarrow> hwGPIO_Pin \<Rightarrow> bool" where
  "pin_cfg_ok c pin \<longleftrightarrow> fst c \<noteq> hwGPIO_Direction_MAX \<and> snd c \<noteq> hwGPIO_Pull_Mode_MAX \<and> pin_ok pin"

definition pin_acquire where
  "pin_acquire c pin s = GPIO_Pin_Init pin (fst c) (snd c) s"

definition pin_release :: "hwGPIO_Direction \<times> hwGPIO_Pull_Mode \<Rightarrow> _" where
  "pin_release c pin s = GPIO_Pin_DeInit pin s"

interpretation pins: resource_table gpio_wf pin_held pin_cfg_ok pin_acquire pin_release
proof unfold_locales
  fix s :: "'a gpio_state_scheme" and c pin
  assume wf: "gpio_wf s" and ok: "pin_cfg_ok c pin"
  then have pin: "0 \<le> pin" "pin < hwGPIO_Pin_MAX" "pin_ok pin"
    by (auto simp: pin_cfg_ok_def pin_ok_iff)
  show "\<exists>r s'. pin_acquire c pin s = Some (r, s') \<and> gpio_wf s' \<and> pin_held s' = insert pin (pin_held s)"
    using wf ok pin by (auto simp: pin_acquire_def Pin_Init_eval pin_cfg_ok_def pin_held_setup)
  show "\<exists>r s'. pin_release c pin s = Some (r, s') \<and> gpio_wf s' \<and> pin_held s' = pin_held s - {pin}"
    using wf pin by (auto simp: pin_release_def Pin_DeInit_eval pin_held_teardown)
qed

lemma gpio_init_memory_wf [simp]: "gpio_wf gpio_init_memory"
  by (rule gpio_boot_wf [OF gpio_boot_memory])

lemma gpio_init_memory_free [simp]: "pin_held gpio_init_memory = {}"
  by (simp add: pin_held_def gpio_init_memory_def nat_less_iff)

text \<open>
  Any sequence of GPIO_Pin_Init and GPIO_Pin_DeInit calls on usable pins with valid
  settings runs without touching memory outside the driver's arrays, and afterwards a pin is
  recorded as initialised exactly when the last call on it was GPIO_Pin_Init, or there was
  none and it was initialised before. This includes calls the driver refuses.
\<close>

theorem pins_follow_last_call:
  fixes s :: "'a gpio_state_scheme"
  assumes "gpio_wf s" "\<forall>oper\<in>set ops. pin_cfg_ok (life_cfg oper) (life_key oper)"
  shows "\<exists>s'. life_run pin_acquire pin_release ops s = Some s' \<and> gpio_wf s' \<and>
    (\<forall>pin. pin \<in> pin_held s' \<longleftrightarrow> last_acquired ops pin (pin \<in> pin_held s))"
  using pins.run_held_iff [of s ops] assms by (simp add: pins.usable_op_def)

theorem pins_follow_last_call_witness:
  "\<exists>s'. life_run pin_acquire pin_release
      [Acquire (hwGPIO_Direction_Output, hwGPIO_Pull_Mode_None) 3,
       Acquire (hwGPIO_Direction_Input, hwGPIO_Pull_Mode_None) 20,
       Release (hwGPIO_Direction_Input, hwGPIO_Pull_Mode_None) 3] gpio_init_memory = Some s' \<and>
     gpio_wf s' \<and> 20 \<in> pin_held s' \<and> 3 \<notin> pin_held s'"
  using pins_follow_last_call [of gpio_init_memory
      "[Acquire (hwGPIO_Direction_Output, hwGPIO_Pull_Mode_None) 3,
        Acquire (hwGPIO_Direction_Input, hwGPIO_Pull_Mode_None) 20,
        Release (hwGPIO_Direction_Input, hwGPIO_Pull_Mode_None) 3]"]
  by (fastforce simp: pin_cfg_ok_def pin_ok_iff
      hwGPIO_Pin_of_def port_index_def)

section \<open>Definedness\<close>

text \<open>
  No pin function reads or writes outside the driver's arrays when it is called with a
  pin number of 0 or more (GPIO_Pin_DeInit: one that is also below hwGPIO_Pin_MAX, since it
  has no range check), whatever the other arguments, and every one keeps the arrays' shape.
\<close>

theorem pin_functions_defined:
  fixes s :: "'a gpio_state_scheme"
  assumes "gpio_wf s" "0 \<le> pin"
  shows "(\<exists>r s'. GPIO_Pin_Init pin dir pm s = Some (r, s') \<and> gpio_wf s') \<and>
    (\<exists>r s'. GPIO_Pin_Set_Direction pin dir s = Some (r, s') \<and> gpio_wf s') \<and>
    (\<exists>r s'. GPIO_Pin_Set_PullMode pin pm s = Some (r, s') \<and> gpio_wf s') \<and>
    (\<exists>r s'. GPIO_Pin_Write pin lv s = Some (r, s') \<and> gpio_wf s') \<and>
    (\<exists>r s'. GPIO_Pin_Toggle pin s = Some (r, s') \<and> gpio_wf s') \<and>
    (\<exists>r. GPIO_Pin_Get_Direction pin dp s = Some r) \<and>
    (\<exists>r. GPIO_Pin_Get_PullMode pin pp s = Some r) \<and>
    (\<exists>r. GPIO_Pin_Read env pin lp s = Some r) \<and> (\<exists>r. GPIO_Pin_is_Init pin s = Some r) \<and>
    (pin \<ge> hwGPIO_Pin_MAX \<or> (\<exists>r s'. GPIO_Pin_DeInit pin s = Some (r, s') \<and> gpio_wf s'))"
proof (intro conjI)
  note len = gpio_wfD [OF assms(1)]
  show "\<exists>r s'. GPIO_Pin_Init pin dir pm s = Some (r, s') \<and> gpio_wf s'"
    using assms by (simp add: Pin_Init_eval)
  show "\<exists>r s'. GPIO_Pin_Set_Direction pin dir s = Some (r, s') \<and> gpio_wf s'"
    "\<exists>r s'. GPIO_Pin_Set_PullMode pin pm s = Some (r, s') \<and> gpio_wf s'"
    "\<exists>r s'. GPIO_Pin_Write pin lv s = Some (r, s') \<and> gpio_wf s'"
    "\<exists>r s'. GPIO_Pin_Toggle pin s = Some (r, s') \<and> gpio_wf s'"
    "\<exists>r. GPIO_Pin_Get_Direction pin dp s = Some r" "\<exists>r. GPIO_Pin_Get_PullMode pin pp s = Some r"
    "\<exists>r. GPIO_Pin_Read env pin lp s = Some r"
    using assms len by (simp_all add: driver_defs Let_def gpio_wf_def emit_def)
  show "\<exists>r. GPIO_Pin_is_Init pin s = Some r"
    using assms len by (cases "pin \<ge> hwGPIO_Pin_MAX") (simp_all add: GPIO_Pin_is_Init_def exI [of _ False])
  show "pin \<ge> hwGPIO_Pin_MAX \<or> (\<exists>r s'. GPIO_Pin_DeInit pin s = Some (r, s') \<and> gpio_wf s')"
    using assms by (cases "pin \<ge> hwGPIO_Pin_MAX") (simp_all add: Pin_DeInit_eval)
qed

theorem pin_functions_defined_witness:
  "\<exists>r s'. GPIO_Pin_Toggle 200 gpio_init_memory = Some (r, s') \<and> gpio_wf s'"
  using pin_functions_defined [of gpio_init_memory 200] by simp

text \<open>
  hwGPIO_Pin_NC, which the header gives the value -1, passes the check
  pin >= hwGPIO_Pin_MAX of every pin function, so each of them reads its arrays at index -1.
\<close>

theorem pin_NC_undefined:
  "GPIO_Pin_is_Init hwGPIO_Pin_NC s = None \<and>
   GPIO_Pin_Init hwGPIO_Pin_NC hwGPIO_Direction_Output hwGPIO_Pull_Mode_None s = None \<and>
   GPIO_Pin_DeInit hwGPIO_Pin_NC s = None \<and>
   GPIO_Pin_Set_Direction hwGPIO_Pin_NC hwGPIO_Direction_Output s = None \<and>
   GPIO_Pin_Write hwGPIO_Pin_NC lv s = None \<and> GPIO_Pin_Toggle hwGPIO_Pin_NC s = None \<and>
   GPIO_Pin_Read env hwGPIO_Pin_NC (Some lv) s = None"
  by (simp add: driver_defs)

section \<open>The tables name pins apart\<close>

text \<open>
  The translation from pin numbers to hardware is injective: two pins that have the same
  port and the same bit mask are the same pin. Every enumerator is translated, with one
  exception: GPIO_Map_Soc_Base has no label for G14.
\<close>

theorem pin_translation_injective:
  assumes "GPIO_Map_Soc_Base p = Some b" "GPIO_Map_Soc_Base q = Some b"
    "GPIO_Map_Soc_Pin p = GPIO_Map_Soc_Pin q"
  shows "p = q \<and> 0 \<le> p \<and> p < hwGPIO_Pin_MAX"
proof -
  have in_range: "0 \<le> x \<and> x < hwGPIO_Pin_MAX" if "GPIO_Map_Soc_Base x = Some b" for x
    using that Map_Soc_Base_outside [of x] by force
  obtain p' m where p: "m < 16" "p = hwGPIO_Pin_of p' m"
    using in_range [OF assms(1)] by (auto elim: pin_cases)
  obtain q' n where q: "n < 16" "q = hwGPIO_Pin_of q' n"
    using in_range [OF assms(2)] by (auto elim: pin_cases)
  have "p' = q'" using assms p q by (auto simp: Map_Soc_Base_of split: if_splits)
  moreover have "m = n"
    using assms(3) unfolding p(2) q(2) Map_Soc_Pin_of [OF p(1)] Map_Soc_Pin_of [OF q(1)]
      push_bit_one_u16_inject [OF p(1) q(1)] .
  ultimately show ?thesis using p q in_range [OF assms(1)] by simp
qed

theorem pin_translation_injective_witness:
  "GPIO_Map_Soc_Base (hwGPIO_Pin_of GPIOC 13) = Some GPIOC \<and>
   hwGPIO_Pin_of GPIOC 13 < hwGPIO_Pin_MAX"
  using pin_translation_injective [of "hwGPIO_Pin_of GPIOC 13" GPIOC "hwGPIO_Pin_of GPIOC 13"]
  by (simp add: Map_Soc_Base_of pin_mapped_def)

text \<open>
  The usable pins are the enumerators except G14: GPIO_Pin_Init accepts a free pin with
  valid settings exactly when it is between 0 and hwGPIO_Pin_MAX and is not G14.
\<close>

theorem init_accepts_all_but_G14:
  fixes s :: "'a gpio_state_scheme"
  assumes "gpio_wf s" "0 \<le> pin" "pin \<notin> pin_held s"
    "dir \<noteq> hwGPIO_Direction_MAX" "pm \<noteq> hwGPIO_Pull_Mode_MAX"
  shows "(\<exists>s'. GPIO_Pin_Init pin dir pm s = Some (hwGPIO_OK, s')) \<longleftrightarrow>
    pin < hwGPIO_Pin_MAX \<and> pin \<noteq> hwGPIO_Pin_of GPIOG 14"
  using assms by (auto simp: Pin_Init_eval pin_ok_iff)

theorem init_accepts_all_but_G14_witness:
  "\<not> (\<exists>s'. GPIO_Pin_Init (hwGPIO_Pin_of GPIOG 14) hwGPIO_Direction_Output
        hwGPIO_Pull_Mode_None gpio_init_memory = Some (hwGPIO_OK, s'))"
  using init_accepts_all_but_G14 [of gpio_init_memory "hwGPIO_Pin_of GPIOG 14"
      hwGPIO_Direction_Output hwGPIO_Pull_Mode_None]
  by (simp add: hwGPIO_Pin_of_def port_index_def)

section \<open>Changing a pin that is set up\<close>

text \<open>
  Setting a pin up and then changing its direction programs the port with the same
  configuration, and leaves the driver's arrays in the same state, as setting it up with the
  new direction at once; likewise for the pull mode.
\<close>

theorem reconfigure_is_fresh_init:
  fixes s :: "'a gpio_state_scheme"
  assumes "gpio_wf s" "0 \<le> pin" "GPIO_Pin_Init pin d pm s = Some (hwGPIO_OK, s1)"
    "d' \<noteq> hwGPIO_Direction_MAX" "pm' \<noteq> hwGPIO_Pull_Mode_MAX"
  shows "(d = hwGPIO_Direction_Output_Only \<or>
      (\<exists>s2 t. GPIO_Pin_Set_Direction pin d' s1 = Some (hwGPIO_OK, s2) \<and>
         GPIO_Pin_Init pin d' pm s = Some (hwGPIO_OK, t) \<and>
         last (hw_log s2) = last (hw_log t) \<and> s2\<lparr>hw_log := []\<rparr> = t\<lparr>hw_log := []\<rparr>)) \<and>
    (\<exists>s2 t. GPIO_Pin_Set_PullMode pin pm' s1 = Some (hwGPIO_OK, s2) \<and>
       GPIO_Pin_Init pin d pm' s = Some (hwGPIO_OK, t) \<and>
       last (hw_log s2) = last (hw_log t) \<and> s2\<lparr>hw_log := []\<rparr> = t\<lparr>hw_log := []\<rparr>)"
proof -
  note len = gpio_wfD [OF assms(1)]
  have ok: "pin < hwGPIO_Pin_MAX" "d \<noteq> hwGPIO_Direction_MAX" "pm \<noteq> hwGPIO_Pull_Mode_MAX"
    "pin \<notin> pin_held s" "pin_ok pin" "s1 = pin_setup pin d pm s"
    using assms(3) by (auto simp: Pin_Init_eval [OF assms(1,2)] split: if_splits)
  have init: "GPIO_Pin_Init pin x y s = Some (hwGPIO_OK, pin_setup pin x y s)"
    if "x \<noteq> hwGPIO_Direction_MAX" "y \<noteq> hwGPIO_Pull_Mode_MAX" for x y
    using that ok by (simp add: Pin_Init_eval [OF assms(1,2)])
  have dir: "GPIO_Pin_Set_Direction pin d' s1 = Some (hwGPIO_OK,
      (emit (HAL_GPIO_Init (the (GPIO_Map_Soc_Base pin))
         (gpio_dir_config d' pm (GPIO_Map_Soc_Pin pin))) s1)
      \<lparr>gpio_current_dir := (gpio_current_dir s)[nat pin := d']\<rparr>)"
    if "d \<noteq> hwGPIO_Direction_Output_Only"
    using that ok assms(2,4) len
    by (simp add: GPIO_Pin_Set_Direction_def pin_ok_def Let_def)
  have pull: "GPIO_Pin_Set_PullMode pin pm' s1 = Some (hwGPIO_OK,
      (emit (HAL_GPIO_Init (the (GPIO_Map_Soc_Base pin))
         (gpio_dir_config d pm' (GPIO_Map_Soc_Pin pin))) s1)
      \<lparr>gpio_current_mode := (gpio_current_mode s)[nat pin := pm']\<rparr>)"
    using ok assms(2,5) len
    by (simp add: GPIO_Pin_Set_PullMode_def pin_ok_def Let_def)
  show ?thesis
    using dir pull init [OF assms(4) ok(3)] init [OF ok(2) assms(5)]
    by (auto simp: ok(6) pin_setup_def Let_def emit_def GPIO_Enable_RCC_Clock_def)
qed

theorem reconfigure_is_fresh_init_witness:
  "\<exists>s1 s2. GPIO_Pin_Init 5 hwGPIO_Direction_Input hwGPIO_Pull_Mode_None gpio_init_memory =
      Some (hwGPIO_OK, s1) \<and>
    GPIO_Pin_Set_PullMode 5 hwGPIO_Pull_Mode_Up s1 = Some (hwGPIO_OK, s2)"
proof -
  have "GPIO_Pin_Init 5 hwGPIO_Direction_Input hwGPIO_Pull_Mode_None gpio_init_memory =
      Some (hwGPIO_OK, pin_setup 5 hwGPIO_Direction_Input hwGPIO_Pull_Mode_None gpio_init_memory)"
    by (simp add: Pin_Init_eval pin_ok_iff
        hwGPIO_Pin_of_def port_index_def)
  from reconfigure_is_fresh_init [OF gpio_init_memory_wf _ this, of hwGPIO_Direction_Output hwGPIO_Pull_Mode_Up] this
  show ?thesis by auto
qed

section \<open>The output latch\<close>

text \<open>The output data register of the ports, read off the events.\<close>

fun out_effect :: "gpio_port \<Rightarrow> nat \<Rightarrow> hw_event \<Rightarrow> bool \<Rightarrow> bool" where
  "out_effect p n (HAL_GPIO_WritePin q m l) b = (if p = q \<and> bit m n then l else b)"
| "out_effect p n (HAL_GPIO_TogglePin q m) b = (if p = q \<and> bit m n then \<not> b else b)"
| "out_effect p n _ b = b"

definition out_level :: "gpio_port \<Rightarrow> nat \<Rightarrow> hw_event list \<Rightarrow> bool" where
  "out_level p n es = fold (out_effect p n) es False"

lemma out_level_snoc [simp]: "out_level p n (es @ [e]) = out_effect p n e (out_level p n es)"
  by (simp add: out_level_def)

lemma bit_Map_Soc_Pin_of:
  "n < 16 \<Longrightarrow> bit (GPIO_Map_Soc_Pin (hwGPIO_Pin_of p n)) m \<longleftrightarrow> m = n"
  by (auto simp: Map_Soc_Pin_of bit_simps)

lemma Soc_Pin_of_neq_0: "n < 16 \<Longrightarrow> GPIO_Map_Soc_Pin (hwGPIO_Pin_of p n) \<noteq> 0"
  by (metis bit_Map_Soc_Pin_of bit_0_eq bot_apply bot_bool_def)

text \<open>
  GPIO_Pin_Write and GPIO_Pin_Toggle act on one output bit. On a usable pin whose
  direction is an output direction they return hwGPIO_OK, the level of the pin becomes the
  one written (is inverted), and the level of every other pin of every port stays; on a pin
  whose direction is input they change nothing.
\<close>

theorem write_toggle_one_bit:
  fixes s :: "'a gpio_state_scheme"
  assumes "gpio_wf s" "n < 16" "pin_mapped p n"
  shows "\<exists>r s1 s2. GPIO_Pin_Write (hwGPIO_Pin_of p n) lv s = Some (r, s1) \<and>
    GPIO_Pin_Toggle (hwGPIO_Pin_of p n) s = Some (r, s2) \<and>
    (if gpio_current_dir s ! nat (hwGPIO_Pin_of p n) = hwGPIO_Direction_Input
     then r = hwGPIO_Unsupport \<and> s1 = s \<and> s2 = s
     else r = hwGPIO_OK \<and>
       (\<forall>q m. out_level q m (hw_log s1) =
          (if q = p \<and> m = n then lv else out_level q m (hw_log s))) \<and>
       (\<forall>q m. out_level q m (hw_log s2) =
          (if q = p \<and> m = n then \<not> out_level q m (hw_log s) else out_level q m (hw_log s))))"
  using assms pin_number_range [OF assms(2), of p] gpio_wfD [OF assms(1)]
  by (auto simp: GPIO_Pin_Write_def GPIO_Pin_Toggle_def Soc_Pin_of_neq_0 Map_Soc_Base_of
      bit_Map_Soc_Pin_of)

theorem write_toggle_one_bit_witness:
  "\<exists>s. GPIO_Pin_Write (hwGPIO_Pin_of GPIOB 7) True
      (gpio_init_memory\<lparr>gpio_current_dir := replicate 144 hwGPIO_Direction_Output\<rparr>) =
      Some (hwGPIO_OK, s) \<and> out_level GPIOB 7 (hw_log s) \<and> \<not> out_level GPIOB 8 (hw_log s)"
  using write_toggle_one_bit [of "gpio_init_memory\<lparr>gpio_current_dir :=
      replicate 144 hwGPIO_Direction_Output\<rparr>" 7 GPIOB True]
  by (fastforce simp: gpio_wf_def gpio_init_memory_def pin_mapped_def hwGPIO_Pin_of_def
      port_index_def out_level_def)

section \<open>Inputs have no pull resistor\<close>

text \<open>
  A pin set up as an input is programmed without pull-up and pull-down whatever pull
  mode is asked for, and GPIO_Pin_Get_PullMode reports the mode that was asked for, so the
  recorded mode and the hardware differ for an input with a pull mode other than none.
\<close>

theorem input_pull_ignored:
  fixes s :: "'a gpio_state_scheme"
  assumes "gpio_wf s" "0 \<le> pin" "GPIO_Pin_Init pin hwGPIO_Direction_Input pm s = Some (hwGPIO_OK, s1)"
  shows "last (hw_log s1) = HAL_GPIO_Init (the (GPIO_Map_Soc_Base pin))
      \<lparr>init_Pin = GPIO_Map_Soc_Pin pin, init_Mode = GPIO_MODE_INPUT, init_Pull = GPIO_NOPULL,
       init_Speed = GPIO_SPEED_FREQ_VERY_HIGH, init_Alternate = 0\<rparr> \<and>
    GPIO_Pin_Get_PullMode pin (Some x) s1 = Some (hwGPIO_OK, Some pm)"
proof -
  have ok: "pin < hwGPIO_Pin_MAX" "s1 = pin_setup pin hwGPIO_Direction_Input pm s"
    using assms(3) by (auto simp: Pin_Init_eval [OF assms(1,2)] split: if_splits)
  then show ?thesis
    using assms(2) gpio_wfD [OF assms(1)]
    by (simp add: GPIO_Pin_Get_PullMode_def pin_setup_def Let_def emit_def gpio_dir_config_def
        GPIO_Init_zero_def)
qed

theorem input_pull_ignored_witness:
  "\<exists>s1. GPIO_Pin_Init 5 hwGPIO_Direction_Input hwGPIO_Pull_Mode_Up gpio_init_memory =
      Some (hwGPIO_OK, s1) \<and>
    GPIO_Pin_Get_PullMode 5 (Some hwGPIO_Pull_Mode_None) s1 =
      Some (hwGPIO_OK, Some hwGPIO_Pull_Mode_Up)"
proof -
  have "GPIO_Pin_Init 5 hwGPIO_Direction_Input hwGPIO_Pull_Mode_Up gpio_init_memory =
      Some (hwGPIO_OK, pin_setup 5 hwGPIO_Direction_Input hwGPIO_Pull_Mode_Up gpio_init_memory)"
    by (simp add: Pin_Init_eval pin_ok_iff
        hwGPIO_Pin_of_def port_index_def)
  from input_pull_ignored [OF gpio_init_memory_wf _ this, of hwGPIO_Pull_Mode_None] this
  show ?thesis by auto
qed

end
