(* ===== verification/GPIO_EXTI.thy ===== *)
theory GPIO_EXTI
  imports GPIO
begin

text \<open>
  The external-interrupt half of \<open>Driver/GPIO/GPIO_STM32.c\<close>: dispatch of the EXTI lines,
  configuration of an interrupt pin and of the NVIC interrupt its line belongs to. Lines 5
  to 9 share one NVIC interrupt and lines 10 to 15 another.
\<close>

section \<open>Dispatch\<close>

text \<open>The \<open>switch(d->mode)\<close> has no case for \<open>hwGPIO_Interrupt_Mode_MAX\<close>.\<close>

definition mode_action :: "hwGPIO_Interrupt_Mode \<Rightarrow> hwGPIO_Interrupt_Action option" where
  "mode_action m = (case m of
       hwGPIO_Interrupt_Mode_Falling_Edge \<Rightarrow> Some hwGPIO_Interrupt_Action_Falling_Edge
     | hwGPIO_Interrupt_Mode_Rising_Edge \<Rightarrow> Some hwGPIO_Interrupt_Action_Rising_Edge
     | hwGPIO_Interrupt_Mode_Both_Edge \<Rightarrow> Some hwGPIO_Interrupt_Action_Toggle
     | hwGPIO_Interrupt_Mode_MAX \<Rightarrow> None)"

definition GPIO_EXTI_Dispatch ::
  "hal_env \<Rightarrow> nat \<Rightarrow> 'a gpio_state_scheme \<Rightarrow> 'a gpio_state_scheme option" where
  "GPIO_EXTI_Dispatch env line s = do {
     d \<leftarrow> cread (gpio_exti_desc s) (int line);
     let soc_pin = GPIO_Int_Map_Soc_Pin (desc_irq_pin d);
     if soc_pin = 0 \<or> GPIO_Int_Map_Soc_Base (desc_irq_pin d) = None then Some s
     else if \<not> exti_pending env (hw_log s) soc_pin then Some s
     else do {
       let s1 = emit (HAL_GPIO_EXTI_CLEAR_IT soc_pin) s;
       h \<leftarrow> cread (gpio_irq_handlers s1) (desc_irq_pin d);
       case h of None \<Rightarrow> Some s1
       | Some f \<Rightarrow> (case mode_action (desc_mode d) of None \<Rightarrow> Some s1
           | Some a \<Rightarrow> Some (emit (GPIO_HANDLER_CALL f (desc_irq_pin d) a) s1))
     }
   }"

fun dispatch_lines ::
  "hal_env \<Rightarrow> nat list \<Rightarrow> 'a gpio_state_scheme \<Rightarrow> 'a gpio_state_scheme option" where
  "dispatch_lines env [] s = Some s"
| "dispatch_lines env (l # ls) s =
     do { s1 \<leftarrow> GPIO_EXTI_Dispatch env l s; dispatch_lines env ls s1 }"

definition EXTI9_5_IRQHandler ::
  "hal_env \<Rightarrow> 'a gpio_state_scheme \<Rightarrow> 'a gpio_state_scheme option" where
  "EXTI9_5_IRQHandler env s = dispatch_lines env [5, 6, 7, 8, 9] s"

definition EXTI15_10_IRQHandler ::
  "hal_env \<Rightarrow> 'a gpio_state_scheme \<Rightarrow> 'a gpio_state_scheme option" where
  "EXTI15_10_IRQHandler env s = dispatch_lines env [10, 11, 12, 13, 14, 15] s"

section \<open>Configuration\<close>

definition GPIO_Map_EXTI_Line_Index :: "u32 \<Rightarrow> nat" where
  "GPIO_Map_EXTI_Line_Index exti_line = switch
     [([EXTI_LINE 0], 0), ([EXTI_LINE 1], 1), ([EXTI_LINE 2], 2), ([EXTI_LINE 3], 3),
      ([EXTI_LINE 4], 4), ([EXTI_LINE 5], 5), ([EXTI_LINE 6], 6), ([EXTI_LINE 7], 7),
      ([EXTI_LINE 8], 8), ([EXTI_LINE 9], 9), ([EXTI_LINE 10], 10), ([EXTI_LINE 11], 11),
      ([EXTI_LINE 12], 12), ([EXTI_LINE 13], 13), ([EXTI_LINE 14], 14), ([EXTI_LINE 15], 15)]
     GPIO_EXTI_Line_MAX exti_line"

definition int_gpio_mode :: "hwGPIO_Interrupt_Mode \<Rightarrow> gpio_mode option" where
  "int_gpio_mode m = (case m of
       hwGPIO_Interrupt_Mode_Falling_Edge \<Rightarrow> Some GPIO_MODE_IT_FALLING
     | hwGPIO_Interrupt_Mode_Rising_Edge \<Rightarrow> Some GPIO_MODE_IT_RISING
     | hwGPIO_Interrupt_Mode_Both_Edge \<Rightarrow> Some GPIO_MODE_IT_RISING_FALLING
     | hwGPIO_Interrupt_Mode_MAX \<Rightarrow> None)"

definition int_trigger :: "hwGPIO_Interrupt_Mode \<Rightarrow> exti_trigger option" where
  "int_trigger m = (case m of
       hwGPIO_Interrupt_Mode_Falling_Edge \<Rightarrow> Some EXTI_TRIGGER_FALLING
     | hwGPIO_Interrupt_Mode_Rising_Edge \<Rightarrow> Some EXTI_TRIGGER_RISING
     | hwGPIO_Interrupt_Mode_Both_Edge \<Rightarrow> Some EXTI_TRIGGER_RISING_FALLING
     | hwGPIO_Interrupt_Mode_MAX \<Rightarrow> None)"

text \<open>One of the seven blocks that enable the NVIC interrupt of a line, with its guard.\<close>

definition exti_irq_enable ::
  "bool \<Rightarrow> nat \<Rightarrow> irqn \<Rightarrow> 'a gpio_state_scheme \<Rightarrow> 'a gpio_state_scheme" where
  "exti_irq_enable guard slot q s =
     (if guard \<and> \<not> gpio_exti_enable_status s ! slot
      then emit (HAL_NVIC_EnableIRQ q) (emit (HAL_NVIC_SetPriority q 5 0)
             (s\<lparr>gpio_exti_enable_status := (gpio_exti_enable_status s)[slot := True]\<rparr>))
      else s)"

definition exti_irqs_enable :: "nat \<Rightarrow> 'a gpio_state_scheme \<Rightarrow> 'a gpio_state_scheme" where
  "exti_irqs_enable idx s =
     (let s0 = exti_irq_enable (idx = 0) 0 EXTI0_IRQn s;
          s1 = exti_irq_enable (idx = 1) 1 EXTI1_IRQn s0;
          s2 = exti_irq_enable (idx = 2) 2 EXTI2_IRQn s1;
          s3 = exti_irq_enable (idx = 3) 3 EXTI3_IRQn s2;
          s4 = exti_irq_enable (idx = 4) 4 EXTI4_IRQn s3;
          s5 = exti_irq_enable (5 \<le> idx \<and> idx \<le> 9) GPIO_EXTI_IRQn_5_9 EXTI9_5_IRQn s4
      in exti_irq_enable (10 \<le> idx \<and> idx \<le> 15) GPIO_EXTI_IRQn_10_15 EXTI15_10_IRQn s5)"

definition GPIO_Interrupt_Init ::
  "hwGPIO_Int_Pin \<Rightarrow> hwGPIO_Interrupt_Mode \<Rightarrow> 'a gpio_state_scheme \<Rightarrow>
   (hwGPIO_OpStatus \<times> 'a gpio_state_scheme) option" where
  "GPIO_Interrupt_Init irq_pin mode s =
     (if irq_pin \<ge> hwGPIO_Int_Pin_MAX then Some (hwGPIO_InvalidParameter, s)
      else if mode = hwGPIO_Interrupt_Mode_MAX then Some (hwGPIO_InvalidParameter, s)
      else do {
        st \<leftarrow> cread (gpio_pin_init_status s) irq_pin;
        if st then Some (hwGPIO_PinConflict, s)
        else if GPIO_Int_Map_Soc_Pin irq_pin = 0 \<or> GPIO_Int_Map_Soc_Base irq_pin = None
          then Some (hwGPIO_InvalidParameter, s)
        else do {
          let soc_pin = GPIO_Int_Map_Soc_Pin irq_pin;
          let soc_base = the (GPIO_Int_Map_Soc_Base irq_pin);
          let exti_port = GPIO_Int_Map_Exti_Port irq_pin;
          let exti_line = GPIO_Int_Map_Exti_Line irq_pin;
          let idx = GPIO_Map_EXTI_Line_Index exti_line;
          if idx \<ge> GPIO_EXTI_Line_MAX then Some (hwGPIO_InvalidParameter, s)
          else do {
            let s1 = GPIO_Enable_RCC_Clock soc_base s;
            case int_gpio_mode mode of None \<Rightarrow> Some (hwGPIO_InvalidParameter, s1)
            | Some gm \<Rightarrow> do {
              let s2 = emit (HAL_GPIO_Init soc_base (GPIO_Init_zero\<lparr>init_Mode := gm,
                         init_Pull := GPIO_NOPULL, init_Pin := soc_pin\<rparr>)) s1;
              case int_trigger mode of None \<Rightarrow> Some (hwGPIO_InvalidParameter, s2)
              | Some trig \<Rightarrow> do {
                descs \<leftarrow> cwrite (gpio_exti_desc s2) (int idx)
                           \<lparr>desc_irq_pin = irq_pin, desc_mode = mode\<rparr>;
                let s3 = emit (HAL_EXTI_SetConfigLine idx \<lparr>cfg_Line = exti_line,
                           cfg_Trigger = trig, cfg_GPIOSel = exti_port\<rparr>)
                           (s2\<lparr>gpio_exti_desc := descs\<rparr>);
                let s4 = exti_irqs_enable idx s3;
                inits \<leftarrow> cwrite (gpio_pin_init_status s4) irq_pin True;
                Some (hwGPIO_OK, s4\<lparr>gpio_pin_init_status := inits\<rparr>)
              }
            }
          }
        }
      })"

text \<open>
  The blocks of \<open>GPIO_Interrupt_DeInit\<close>. The two loops over the lines of a shared interrupt
  test the descriptor of the line being closed in every round, and the block of lines 10 to
  15 runs when the interrupt is recorded as disabled.
\<close>

definition exti_irq_disable ::
  "bool \<Rightarrow> nat \<Rightarrow> irqn \<Rightarrow> 'a gpio_state_scheme \<Rightarrow> 'a gpio_state_scheme" where
  "exti_irq_disable guard slot q s =
     (if guard
      then emit (HAL_NVIC_DisableIRQ q)
             (s\<lparr>gpio_exti_enable_status := (gpio_exti_enable_status s)[slot := False]\<rparr>)
      else s)"

definition lines_used :: "nat list \<Rightarrow> nat \<Rightarrow> 'a gpio_state_scheme \<Rightarrow> bool" where
  "lines_used lines exti_line_idx s =
     list_ex (\<lambda>idx. desc_irq_pin (gpio_exti_desc s ! exti_line_idx) \<noteq> hwGPIO_Int_Pin_NC) lines"

definition exti_irqs_disable :: "nat \<Rightarrow> 'a gpio_state_scheme \<Rightarrow> 'a gpio_state_scheme" where
  "exti_irqs_disable idx s =
     (let s0 = exti_irq_disable (idx = 0 \<and> gpio_exti_enable_status s ! 0) 0 EXTI0_IRQn s;
          s1 = exti_irq_disable (idx = 1 \<and> gpio_exti_enable_status s0 ! 1) 1 EXTI1_IRQn s0;
          s2 = exti_irq_disable (idx = 2 \<and> gpio_exti_enable_status s1 ! 2) 2 EXTI2_IRQn s1;
          s3 = exti_irq_disable (idx = 3 \<and> gpio_exti_enable_status s2 ! 3) 3 EXTI3_IRQn s2;
          s4 = exti_irq_disable (idx = 4 \<and> gpio_exti_enable_status s3 ! 4) 4 EXTI4_IRQn s3;
          s5 = exti_irq_disable (5 \<le> idx \<and> idx \<le> 9 \<and>
                 gpio_exti_enable_status s4 ! GPIO_EXTI_IRQn_5_9 \<and>
                 \<not> lines_used [5, 6, 7, 8, 9] idx s4) GPIO_EXTI_IRQn_5_9 EXTI9_5_IRQn s4
      in exti_irq_disable (10 \<le> idx \<and> idx \<le> 15 \<and>
           \<not> gpio_exti_enable_status s5 ! GPIO_EXTI_IRQn_10_15 \<and>
           \<not> lines_used [10, 11, 12, 13, 14, 15] idx s5) GPIO_EXTI_IRQn_10_15 EXTI15_10_IRQn s5)"

definition GPIO_Interrupt_DeInit ::
  "hwGPIO_Int_Pin \<Rightarrow> 'a gpio_state_scheme \<Rightarrow>
   (hwGPIO_OpStatus \<times> 'a gpio_state_scheme) option" where
  "GPIO_Interrupt_DeInit irq_pin s =
     (if irq_pin \<ge> hwGPIO_Int_Pin_MAX then Some (hwGPIO_InvalidParameter, s)
      else do {
        st \<leftarrow> cread (gpio_pin_init_status s) irq_pin;
        if \<not> st then Some (hwGPIO_OK, s)
        else if GPIO_Int_Map_Soc_Pin irq_pin = 0 \<or> GPIO_Int_Map_Soc_Base irq_pin = None
          then Some (hwGPIO_InvalidParameter, s)
        else do {
          let soc_pin = GPIO_Int_Map_Soc_Pin irq_pin;
          let soc_base = the (GPIO_Int_Map_Soc_Base irq_pin);
          let idx = GPIO_Map_EXTI_Line_Index (GPIO_Int_Map_Exti_Line irq_pin);
          if idx \<ge> GPIO_EXTI_Line_MAX then Some (hwGPIO_InvalidParameter, s)
          else do {
            d \<leftarrow> cread (gpio_exti_desc s) (int idx);
            descs \<leftarrow> cwrite (gpio_exti_desc s) (int idx)
                       (d\<lparr>desc_irq_pin := hwGPIO_Int_Pin_NC\<rparr>);
            let s1 = exti_irqs_disable idx (s\<lparr>gpio_exti_desc := descs\<rparr>);
            let s2 = emit (HAL_EXTI_ClearConfigLine idx) s1;
            let s3 = emit (HAL_GPIO_DeInit soc_base soc_pin) s2;
            inits \<leftarrow> cwrite (gpio_pin_init_status s3) irq_pin False;
            Some (hwGPIO_OK, s3\<lparr>gpio_pin_init_status := inits\<rparr>)
          }
        }
      })"

definition GPIO_Config_Interrupt_Mode ::
  "hwGPIO_Int_Pin \<Rightarrow> hwGPIO_Interrupt_Mode \<Rightarrow> 'a gpio_state_scheme \<Rightarrow>
   (hwGPIO_OpStatus \<times> 'a gpio_state_scheme) option" where
  "GPIO_Config_Interrupt_Mode irq_pin mode s =
     (if irq_pin \<ge> hwGPIO_Int_Pin_MAX then Some (hwGPIO_InvalidParameter, s)
      else if mode = hwGPIO_Interrupt_Mode_MAX then Some (hwGPIO_InvalidParameter, s)
      else do {
        let exti_port = GPIO_Int_Map_Exti_Port irq_pin;
        let exti_line = GPIO_Int_Map_Exti_Line irq_pin;
        let idx = GPIO_Map_EXTI_Line_Index exti_line;
        if idx \<ge> GPIO_EXTI_Line_MAX then Some (hwGPIO_InvalidParameter, s)
        else case int_trigger mode of None \<Rightarrow> Some (hwGPIO_InvalidParameter, s)
        | Some trig \<Rightarrow> do {
          d \<leftarrow> cread (gpio_exti_desc s) (int idx);
          descs \<leftarrow> cwrite (gpio_exti_desc s) (int idx) (d\<lparr>desc_mode := mode\<rparr>);
          Some (hwGPIO_OK, emit (HAL_EXTI_SetConfigLine idx \<lparr>cfg_Line = exti_line,
                  cfg_Trigger = trig, cfg_GPIOSel = exti_port\<rparr>) (s\<lparr>gpio_exti_desc := descs\<rparr>))
        }
      })"

definition GPIO_Register_Interrupt_Handler ::
  "hwGPIO_Int_Pin \<Rightarrow> nat option \<Rightarrow> 'a gpio_state_scheme \<Rightarrow>
   (hwGPIO_OpStatus \<times> 'a gpio_state_scheme) option" where
  "GPIO_Register_Interrupt_Handler irq_pin handler s =
     (if irq_pin \<ge> hwGPIO_Int_Pin_MAX then Some (hwGPIO_InvalidParameter, s)
      else if handler = None then Some (hwGPIO_InvalidParameter, s)
      else do {
        hs \<leftarrow> cwrite (gpio_irq_handlers s) irq_pin handler;
        Some (hwGPIO_OK, s\<lparr>gpio_irq_handlers := hs\<rparr>)
      })"

definition GPIO_Unregister_Interrupt_Handler ::
  "hwGPIO_Int_Pin \<Rightarrow> 'a gpio_state_scheme \<Rightarrow>
   (hwGPIO_OpStatus \<times> 'a gpio_state_scheme) option" where
  "GPIO_Unregister_Interrupt_Handler irq_pin s =
     (if irq_pin \<ge> hwGPIO_Int_Pin_MAX then Some (hwGPIO_InvalidParameter, s)
      else do {
        hs \<leftarrow> cwrite (gpio_irq_handlers s) irq_pin None;
        Some (hwGPIO_OK, s\<lparr>gpio_irq_handlers := hs\<rparr>)
      })"

text \<open>
  \<open>GPIO_Interrupt_Enable\<close> switches over \<open>gpio_current_mode\<close>, an array of pull modes, with
  interrupt modes as its labels: both are small integers and the comparison is on those.
\<close>

definition pull_mode_value :: "hwGPIO_Pull_Mode \<Rightarrow> int" where
  "pull_mode_value m = (case m of hwGPIO_Pull_Mode_None \<Rightarrow> 0 | hwGPIO_Pull_Mode_Up \<Rightarrow> 1
     | hwGPIO_Pull_Mode_Down \<Rightarrow> 2 | hwGPIO_Pull_Mode_OpenDrain \<Rightarrow> 3 | hwGPIO_Pull_Mode_MAX \<Rightarrow> 4)"

definition interrupt_mode_value :: "hwGPIO_Interrupt_Mode \<Rightarrow> int" where
  "interrupt_mode_value m = (case m of hwGPIO_Interrupt_Mode_Falling_Edge \<Rightarrow> 0
     | hwGPIO_Interrupt_Mode_Rising_Edge \<Rightarrow> 1 | hwGPIO_Interrupt_Mode_Both_Edge \<Rightarrow> 2
     | hwGPIO_Interrupt_Mode_MAX \<Rightarrow> 3)"

definition GPIO_Interrupt_Enable ::
  "hwGPIO_Int_Pin \<Rightarrow> 'a gpio_state_scheme \<Rightarrow>
   (hwGPIO_OpStatus \<times> 'a gpio_state_scheme) option" where
  "GPIO_Interrupt_Enable irq_pin s =
     (if irq_pin \<ge> hwGPIO_Int_Pin_MAX then Some (hwGPIO_InvalidParameter, s)
      else do {
        let exti_port = GPIO_Int_Map_Exti_Port irq_pin;
        let exti_line = GPIO_Int_Map_Exti_Line irq_pin;
        let idx = GPIO_Map_EXTI_Line_Index exti_line;
        if idx \<ge> GPIO_EXTI_Line_MAX then Some (hwGPIO_InvalidParameter, s)
        else do {
          m \<leftarrow> cread (gpio_current_mode s) irq_pin;
          case switch
              [([interrupt_mode_value hwGPIO_Interrupt_Mode_Falling_Edge], Some EXTI_TRIGGER_FALLING),
               ([interrupt_mode_value hwGPIO_Interrupt_Mode_Rising_Edge], Some EXTI_TRIGGER_RISING),
               ([interrupt_mode_value hwGPIO_Interrupt_Mode_Both_Edge],
                 Some EXTI_TRIGGER_RISING_FALLING)] None (pull_mode_value m) of
            None \<Rightarrow> Some (hwGPIO_InvalidParameter, s)
          | Some trig \<Rightarrow> Some (hwGPIO_OK, emit (HAL_EXTI_SetConfigLine idx
              \<lparr>cfg_Line = exti_line, cfg_Trigger = trig, cfg_GPIOSel = exti_port\<rparr>) s)
        }
      })"

definition GPIO_Interrupt_Disable ::
  "hwGPIO_Int_Pin \<Rightarrow> 'a gpio_state_scheme \<Rightarrow>
   (hwGPIO_OpStatus \<times> 'a gpio_state_scheme) option" where
  "GPIO_Interrupt_Disable irq_pin s =
     (if irq_pin \<ge> hwGPIO_Int_Pin_MAX then Some (hwGPIO_InvalidParameter, s)
      else do {
        let exti_port = GPIO_Int_Map_Exti_Port irq_pin;
        let exti_line = GPIO_Int_Map_Exti_Line irq_pin;
        let idx = GPIO_Map_EXTI_Line_Index exti_line;
        if idx \<ge> GPIO_EXTI_Line_MAX then Some (hwGPIO_InvalidParameter, s)
        else Some (hwGPIO_OK, emit (HAL_EXTI_SetConfigLine idx \<lparr>cfg_Line = exti_line,
               cfg_Trigger = EXTI_TRIGGER_NONE, cfg_GPIOSel = exti_port\<rparr>) s)
      })"

definition GPIO_Interrupt_Pin_Read ::
  "hal_env \<Rightarrow> hwGPIO_Int_Pin \<Rightarrow> bool option \<Rightarrow> 'a gpio_state_scheme \<Rightarrow>
   (hwGPIO_OpStatus \<times> bool option) option" where
  "GPIO_Interrupt_Pin_Read env pin level s =
     (if pin \<ge> hwGPIO_Int_Pin_MAX then Some (hwGPIO_InvalidParameter, level)
      else if level = None then Some (hwGPIO_InvalidParameter, level)
      else if GPIO_Map_Soc_Pin pin = 0 \<or> GPIO_Map_Soc_Base pin = None
        then Some (hwGPIO_InvalidParameter, level)
      else Some (hwGPIO_OK, Some (read_pin env (hw_log s) (the (GPIO_Map_Soc_Base pin))
                                    (GPIO_Map_Soc_Pin pin))))"

section \<open>Lines and interrupts\<close>

text \<open>The line of a pin is its number; the slot and the NVIC interrupt of a line.\<close>

definition line_slot :: "nat \<Rightarrow> nat" where
  "line_slot n = (if n < 5 then n else if n < 10 then GPIO_EXTI_IRQn_5_9 else GPIO_EXTI_IRQn_10_15)"

definition slot_irq :: "nat \<Rightarrow> irqn" where
  "slot_irq i = [EXTI0_IRQn, EXTI1_IRQn, EXTI2_IRQn, EXTI3_IRQn, EXTI4_IRQn, EXTI9_5_IRQn,
     EXTI15_10_IRQn] ! i"

lemma nat_less_cases_7: "n < 7 \<Longrightarrow> n \<in> {0, 1, 2, 3, 4, 5, 6 :: nat}"
  by (simp add: numeral_eq_Suc less_Suc_eq)

lemma line_slot_less: "line_slot n < 7"
  by (simp add: line_slot_def)

lemma slot_irq_inject: "i < 7 \<Longrightarrow> j < 7 \<Longrightarrow> slot_irq i = slot_irq j \<longleftrightarrow> i = j"
  using nat_less_cases_7 [of i] nat_less_cases_7 [of j] by (auto simp: slot_irq_def)

lemma EXTI_LINE_inject: "m < 16 \<Longrightarrow> n < 16 \<Longrightarrow> EXTI_LINE m = EXTI_LINE n \<longleftrightarrow> m = n"
  by (simp add: EXTI_LINE_def word_of_nat_eq_iff take_bit_nat_eq_self)

lemma Line_Index_of [simp]: "n < 16 \<Longrightarrow> GPIO_Map_EXTI_Line_Index (EXTI_LINE n) = n"
  using nat_less_cases_16 [of n] by (auto simp: GPIO_Map_EXTI_Line_Index_def EXTI_LINE_inject)

definition pin_line :: "hwGPIO_Int_Pin \<Rightarrow> nat" where
  "pin_line pin = GPIO_Map_EXTI_Line_Index (GPIO_Int_Map_Exti_Line pin)"

lemma pin_line_of [simp]: "n < 16 \<Longrightarrow> pin_line (hwGPIO_Pin_of p n) = n"
  by (simp add: pin_line_def Exti_Line_of)

lemma pin_line_less:
  assumes "0 \<le> pin" "pin < hwGPIO_Int_Pin_MAX"
  shows "pin_line pin < 16"
  using assms by (auto elim!: pin_cases)

lemma Exti_Line_outside:
  "pin < 0 \<or> hwGPIO_Int_Pin_MAX \<le> pin \<Longrightarrow> GPIO_Int_Map_Exti_Line pin = 0"
  unfolding GPIO_Int_Map_Exti_Line_def
  by (rule switch_default) (auto dest!: pins_numbered_range)

text \<open>The block sequences of the two functions act on one slot, that of the line.\<close>

lemma exti_irq_False [simp]:
  "exti_irq_enable False i q s = s" "exti_irq_disable False i q s = s"
  by (simp_all add: exti_irq_enable_def exti_irq_disable_def)

lemma exti_irqs_enable_eq:
  assumes "idx < 16"
  shows "exti_irqs_enable idx s =
    exti_irq_enable True (line_slot idx) (slot_irq (line_slot idx)) s"
  using nat_less_cases_16 [OF assms] unfolding insert_iff empty_iff
  by (elim disjE FalseE) (simp_all add: exti_irqs_enable_def line_slot_def slot_irq_def)

lemma lines_used_eq:
  "lines \<noteq> [] \<Longrightarrow>
     lines_used lines idx s \<longleftrightarrow> desc_irq_pin (gpio_exti_desc s ! idx) \<noteq> hwGPIO_Int_Pin_NC"
  by (cases lines) (auto simp: lines_used_def list_ex_iff)

lemma exti_irqs_disable_eq:
  assumes "idx < 16" "desc_irq_pin (gpio_exti_desc s ! idx) = hwGPIO_Int_Pin_NC"
  shows "exti_irqs_disable idx s =
    exti_irq_disable (gpio_exti_enable_status s ! line_slot idx = (idx < 10))
      (line_slot idx) (slot_irq (line_slot idx)) s"
  using nat_less_cases_16 [OF assms(1)] assms(2) unfolding insert_iff empty_iff
  by (elim disjE FalseE)
    (simp_all add: exti_irqs_disable_def line_slot_def slot_irq_def lines_used_eq)

section \<open>The configuration functions in closed form\<close>

definition int_setup ::
  "hwGPIO_Int_Pin \<Rightarrow> hwGPIO_Interrupt_Mode \<Rightarrow> 'a gpio_state_scheme \<Rightarrow> 'a gpio_state_scheme" where
  "int_setup pin mode s =
     (let b = the (GPIO_Map_Soc_Base pin); l = pin_line pin;
          s2 = emit (HAL_GPIO_Init b (GPIO_Init_zero\<lparr>init_Mode := the (int_gpio_mode mode),
                 init_Pull := GPIO_NOPULL, init_Pin := GPIO_Map_Soc_Pin pin\<rparr>))
                 (GPIO_Enable_RCC_Clock b s);
          s3 = emit (HAL_EXTI_SetConfigLine l \<lparr>cfg_Line = GPIO_Int_Map_Exti_Line pin,
                 cfg_Trigger = the (int_trigger mode), cfg_GPIOSel = GPIO_Int_Map_Exti_Port pin\<rparr>)
                 (s2\<lparr>gpio_exti_desc := (gpio_exti_desc s)[l := \<lparr>desc_irq_pin = pin, desc_mode = mode\<rparr>]\<rparr>);
          s4 = exti_irq_enable True (line_slot l) (slot_irq (line_slot l)) s3
      in s4\<lparr>gpio_pin_init_status := (gpio_pin_init_status s)[nat pin := True]\<rparr>)"

definition int_teardown :: "hwGPIO_Int_Pin \<Rightarrow> 'a gpio_state_scheme \<Rightarrow> 'a gpio_state_scheme" where
  "int_teardown pin s =
     (let l = pin_line pin;
          s1 = exti_irq_disable (gpio_exti_enable_status s ! line_slot l = (l < 10)) (line_slot l)
                 (slot_irq (line_slot l))
                 (s\<lparr>gpio_exti_desc := (gpio_exti_desc s)
                      [l := (gpio_exti_desc s ! l)\<lparr>desc_irq_pin := hwGPIO_Int_Pin_NC\<rparr>]\<rparr>);
          s2 = emit (HAL_GPIO_DeInit (the (GPIO_Map_Soc_Base pin)) (GPIO_Map_Soc_Pin pin))
                 (emit (HAL_EXTI_ClearConfigLine l) s1)
      in s2\<lparr>gpio_pin_init_status := (gpio_pin_init_status s)[nat pin := False]\<rparr>)"

lemma exti_irq_simps [simp]:
  fixes s :: "'a gpio_state_scheme"
  shows "gpio_pin_init_status (exti_irq_enable g i q s) = gpio_pin_init_status s"
    "gpio_current_dir (exti_irq_enable g i q s) = gpio_current_dir s"
    "gpio_current_mode (exti_irq_enable g i q s) = gpio_current_mode s"
    "gpio_exti_desc (exti_irq_enable g i q s) = gpio_exti_desc s"
    "gpio_irq_handlers (exti_irq_enable g i q s) = gpio_irq_handlers s"
    "gpio_pin_init_status (exti_irq_disable g i q s) = gpio_pin_init_status s"
    "gpio_current_dir (exti_irq_disable g i q s) = gpio_current_dir s"
    "gpio_current_mode (exti_irq_disable g i q s) = gpio_current_mode s"
    "gpio_exti_desc (exti_irq_disable g i q s) = gpio_exti_desc s"
    "gpio_irq_handlers (exti_irq_disable g i q s) = gpio_irq_handlers s"
    "gpio_wf (exti_irq_enable g i q s) = gpio_wf s"
    "gpio_wf (exti_irq_disable g i q s) = gpio_wf s"
  by (auto simp: exti_irq_enable_def exti_irq_disable_def gpio_wf_def)

lemma int_mode_some:
  "mode \<noteq> hwGPIO_Interrupt_Mode_MAX \<Longrightarrow> int_gpio_mode mode \<noteq> None \<and> int_trigger mode \<noteq> None"
  by (cases mode) (simp_all add: int_gpio_mode_def int_trigger_def)

lemma Interrupt_Init_eval:
  assumes "gpio_wf s" "0 \<le> pin"
  shows "GPIO_Interrupt_Init pin mode s =
    (if pin \<ge> hwGPIO_Int_Pin_MAX \<or> mode = hwGPIO_Interrupt_Mode_MAX
     then Some (hwGPIO_InvalidParameter, s)
     else if pin \<in> pin_held s then Some (hwGPIO_PinConflict, s)
     else if \<not> pin_ok pin then Some (hwGPIO_InvalidParameter, s)
     else Some (hwGPIO_OK, int_setup pin mode s))"
proof (cases "pin < hwGPIO_Int_Pin_MAX \<and> mode \<noteq> hwGPIO_Interrupt_Mode_MAX")
  case True
  then obtain gm tr where m: "int_gpio_mode mode = Some gm" "int_trigger mode = Some tr"
    using int_mode_some [of mode] by auto
  have l: "pin_line pin < 16" using assms True pin_line_less by simp
  show ?thesis
    using assms True l gpio_wfD [OF assms(1)] m
    by (simp add: GPIO_Interrupt_Init_def pin_held_def pin_ok_def Int_Map_Soc_Base_eq
        Int_Map_Soc_Pin_eq int_setup_def exti_irqs_enable_eq Let_def flip: pin_line_def)
next
  case False
  then show ?thesis by (auto simp: GPIO_Interrupt_Init_def)
qed

lemma Interrupt_DeInit_eval:
  assumes "gpio_wf s" "0 \<le> pin"
  shows "GPIO_Interrupt_DeInit pin s =
    (if pin \<ge> hwGPIO_Int_Pin_MAX then Some (hwGPIO_InvalidParameter, s)
     else if pin \<notin> pin_held s then Some (hwGPIO_OK, s)
     else if \<not> pin_ok pin then Some (hwGPIO_InvalidParameter, s)
     else Some (hwGPIO_OK, int_teardown pin s))"
proof (cases "pin < hwGPIO_Int_Pin_MAX")
  case True
  then have l: "pin_line pin < 16" using assms pin_line_less by simp
  show ?thesis
    using assms True l gpio_wfD [OF assms(1)]
    by (simp add: GPIO_Interrupt_DeInit_def pin_held_def pin_ok_def Int_Map_Soc_Base_eq
        Int_Map_Soc_Pin_eq int_teardown_def exti_irqs_disable_eq Let_def flip: pin_line_def)
next
  case False
  then show ?thesis by (auto simp: GPIO_Interrupt_DeInit_def)
qed

lemma int_setup_simps [simp]:
  "gpio_wf (int_setup pin m s) = gpio_wf s"
  "gpio_current_dir (int_setup pin m s) = gpio_current_dir s"
  "gpio_current_mode (int_setup pin m s) = gpio_current_mode s"
  "gpio_pin_init_status (int_setup pin m s) = (gpio_pin_init_status s)[nat pin := True]"
  "gpio_exti_desc (int_setup pin m s) =
     (gpio_exti_desc s)[pin_line pin := \<lparr>desc_irq_pin = pin, desc_mode = m\<rparr>]"
  "gpio_irq_handlers (int_setup pin m s) = gpio_irq_handlers s"
  by (auto simp: int_setup_def gpio_wf_def Let_def exti_irq_enable_def)

lemma int_teardown_simps [simp]:
  "gpio_wf (int_teardown pin s) = gpio_wf s"
  "gpio_current_dir (int_teardown pin s) = gpio_current_dir s"
  "gpio_current_mode (int_teardown pin s) = gpio_current_mode s"
  "gpio_pin_init_status (int_teardown pin s) = (gpio_pin_init_status s)[nat pin := False]"
  "gpio_exti_desc (int_teardown pin s) = (gpio_exti_desc s)[pin_line pin :=
     (gpio_exti_desc s ! pin_line pin)\<lparr>desc_irq_pin := hwGPIO_Int_Pin_NC\<rparr>]"
  "gpio_irq_handlers (int_teardown pin s) = gpio_irq_handlers s"
  by (auto simp: int_teardown_def gpio_wf_def Let_def exti_irq_disable_def)

lemma pin_held_int:
  assumes "gpio_wf s" "0 \<le> pin" "pin < hwGPIO_Pin_MAX"
  shows "pin_held (int_setup pin m s) = insert pin (pin_held s)"
    "pin_held (int_teardown pin s) = pin_held s - {pin}"
  using assms by (simp_all add: pin_held_def pin_held_update gpio_wfD)

section \<open>The interrupt pins as a resource table\<close>

definition int_cfg_ok :: "hwGPIO_Interrupt_Mode \<Rightarrow> hwGPIO_Int_Pin \<Rightarrow> bool" where
  "int_cfg_ok m pin \<longleftrightarrow> m \<noteq> hwGPIO_Interrupt_Mode_MAX \<and> pin_ok pin"

definition int_acquire where
  "int_acquire m pin s = GPIO_Interrupt_Init pin m s"

definition int_release :: "hwGPIO_Interrupt_Mode \<Rightarrow> _" where
  "int_release m pin s = GPIO_Interrupt_DeInit pin s"

interpretation int_pins: resource_table gpio_wf pin_held int_cfg_ok int_acquire int_release
proof unfold_locales
  fix s :: "'a gpio_state_scheme" and c pin
  assume wf: "gpio_wf s" and ok: "int_cfg_ok c pin"
  then have pin: "0 \<le> pin" "pin < hwGPIO_Pin_MAX" "pin_ok pin"
    by (auto simp: int_cfg_ok_def pin_ok_iff)
  show "\<exists>r s'. int_acquire c pin s = Some (r, s') \<and> gpio_wf s' \<and> pin_held s' = insert pin (pin_held s)"
    using wf ok pin by (auto simp: int_acquire_def Interrupt_Init_eval int_cfg_ok_def pin_held_int)
  show "\<exists>r s'. int_release c pin s = Some (r, s') \<and> gpio_wf s' \<and> pin_held s' = pin_held s - {pin}"
    using wf pin by (auto simp: int_release_def Interrupt_DeInit_eval pin_held_int)
qed

text \<open>
  Any sequence of GPIO_Interrupt_Init and GPIO_Interrupt_DeInit calls on usable interrupt
  pins with valid modes is defined, and afterwards an interrupt pin is recorded as in use
  exactly when the last call on it was GPIO_Interrupt_Init. The interrupt pins and the plain
  pins share one table.
\<close>

theorem interrupt_pins_follow_last_call:
  fixes s :: "'a gpio_state_scheme"
  assumes "gpio_wf s" "\<forall>oper\<in>set ops. int_cfg_ok (life_cfg oper) (life_key oper)"
  shows "\<exists>s'. life_run int_acquire int_release ops s = Some s' \<and> gpio_wf s' \<and>
    (\<forall>pin. pin \<in> pin_held s' \<longleftrightarrow> last_acquired ops pin (pin \<in> pin_held s))"
  using int_pins.run_held_iff [of s ops] assms by (simp add: int_pins.usable_op_def)

theorem interrupt_pins_follow_last_call_witness:
  "\<exists>s'. life_run int_acquire int_release
      [Acquire hwGPIO_Interrupt_Mode_Falling_Edge 5, Acquire hwGPIO_Interrupt_Mode_Both_Edge 22,
       Release hwGPIO_Interrupt_Mode_Both_Edge 5] gpio_init_memory = Some s' \<and>
     22 \<in> pin_held s' \<and> 5 \<notin> pin_held s'"
  using interrupt_pins_follow_last_call [of gpio_init_memory
      "[Acquire hwGPIO_Interrupt_Mode_Falling_Edge 5, Acquire hwGPIO_Interrupt_Mode_Both_Edge 22,
        Release hwGPIO_Interrupt_Mode_Both_Edge 5]"]
  by (fastforce simp: int_cfg_ok_def pin_ok_iff hwGPIO_Pin_of_def port_index_def)

end
