(* ===== verification/GPIO_Reach.thy ===== *)
theory GPIO_Reach
  imports GPIO_EXTI
begin

text \<open>
  The GPIO driver as a state machine: a step is one call of a driver function or one
  interrupt, and a state is reachable when calls lead to it from reset. The invariants that
  hold between calls, and what they give for the dispatch of interrupts.
\<close>

section \<open>Steps and reachable states\<close>

inductive gpio_step :: "hal_env \<Rightarrow> 'a gpio_state_scheme \<Rightarrow> 'a gpio_state_scheme \<Rightarrow> bool"
  for env where
  pin_init: "GPIO_Pin_Init pin d pm s = Some (r, s') \<Longrightarrow> gpio_step env s s'"
| pin_deinit: "GPIO_Pin_DeInit pin s = Some (r, s') \<Longrightarrow> gpio_step env s s'"
| set_direction: "GPIO_Pin_Set_Direction pin d s = Some (r, s') \<Longrightarrow> gpio_step env s s'"
| set_pull_mode: "GPIO_Pin_Set_PullMode pin pm s = Some (r, s') \<Longrightarrow> gpio_step env s s'"
| pin_write: "GPIO_Pin_Write pin lv s = Some (r, s') \<Longrightarrow> gpio_step env s s'"
| pin_toggle: "GPIO_Pin_Toggle pin s = Some (r, s') \<Longrightarrow> gpio_step env s s'"
| int_init: "GPIO_Interrupt_Init ipin m s = Some (r, s') \<Longrightarrow> gpio_step env s s'"
| int_deinit: "GPIO_Interrupt_DeInit ipin s = Some (r, s') \<Longrightarrow> gpio_step env s s'"
| int_config: "GPIO_Config_Interrupt_Mode ipin m s = Some (r, s') \<Longrightarrow> gpio_step env s s'"
| int_register: "GPIO_Register_Interrupt_Handler ipin h s = Some (r, s') \<Longrightarrow> gpio_step env s s'"
| int_unregister: "GPIO_Unregister_Interrupt_Handler ipin s = Some (r, s') \<Longrightarrow> gpio_step env s s'"
| int_enable: "GPIO_Interrupt_Enable ipin s = Some (r, s') \<Longrightarrow> gpio_step env s s'"
| int_disable: "GPIO_Interrupt_Disable ipin s = Some (r, s') \<Longrightarrow> gpio_step env s s'"
| irq_line: "l < 5 \<Longrightarrow> GPIO_EXTI_Dispatch env l s = Some s' \<Longrightarrow> gpio_step env s s'"
| irq_9_5: "EXTI9_5_IRQHandler env s = Some s' \<Longrightarrow> gpio_step env s s'"
| irq_15_10: "EXTI15_10_IRQHandler env s = Some s' \<Longrightarrow> gpio_step env s s'"

inductive gpio_reach :: "hal_env \<Rightarrow> 'a gpio_state_scheme \<Rightarrow> bool" for env where
  boot: "gpio_boot s \<Longrightarrow> gpio_reach env s"
| step: "gpio_reach env s \<Longrightarrow> gpio_step env s s' \<Longrightarrow> gpio_reach env s'"

text \<open>
  Every step is one of: nothing, setting up or giving back a pin or an interrupt pin, or a
  change that leaves the NVIC, its flags, the record of the pins in use and the pins named by
  the descriptors as they are.
\<close>

definition nvic_silent :: "hw_event list \<Rightarrow> bool" where
  "nvic_silent es \<longleftrightarrow> (\<forall>e\<in>set es. \<forall>q b. nvic_effect q e b = b)"

lemma nvic_silent_simps [simp]:
  "nvic_silent []" "nvic_silent (e # es) \<longleftrightarrow> (\<forall>q b. nvic_effect q e b = b) \<and> nvic_silent es"
  "nvic_silent (es @ fs) \<longleftrightarrow> nvic_silent es \<and> nvic_silent fs"
  by (auto simp: nvic_silent_def)

lemma nvic_on_silent: "nvic_silent fs \<Longrightarrow> nvic_on q (es @ fs) = nvic_on q es"
  by (induction fs rule: rev_induct) (simp_all add: nvic_on_snoc flip: append_assoc)

definition gpio_quiet :: "'a gpio_state_scheme \<Rightarrow> 'a gpio_state_scheme \<Rightarrow> bool" where
  "gpio_quiet s s' \<longleftrightarrow> gpio_wf s' = gpio_wf s \<and>
     gpio_pin_init_status s' = gpio_pin_init_status s \<and>
     gpio_exti_enable_status s' = gpio_exti_enable_status s \<and>
     map desc_irq_pin (gpio_exti_desc s') = map desc_irq_pin (gpio_exti_desc s) \<and>
     (\<exists>es. hw_log s' = hw_log s @ es \<and> nvic_silent es)"

lemma gpio_quiet_refl [simp]: "gpio_quiet s s"
  by (simp add: gpio_quiet_def)

lemma gpio_quiet_trans: "gpio_quiet s t \<Longrightarrow> gpio_quiet t u \<Longrightarrow> gpio_quiet s u"
  by (auto simp: gpio_quiet_def)

lemma dispatch_quiet: "GPIO_EXTI_Dispatch env l s = Some s' \<Longrightarrow> gpio_quiet s s'"
proof (cases "cread (gpio_exti_desc s) (int l)")
  case (Some d)
  assume "GPIO_EXTI_Dispatch env l s = Some s'"
  with Some show ?thesis
    by (cases "cread (gpio_irq_handlers s) (desc_irq_pin d)"; cases "mode_action (desc_mode d)")
      (auto simp: GPIO_EXTI_Dispatch_def gpio_quiet_def Let_def
        split: if_split_asm option.split_asm)
qed (simp add: GPIO_EXTI_Dispatch_def)

lemma dispatch_lines_quiet: "dispatch_lines env ls s = Some s' \<Longrightarrow> gpio_quiet s s'"
proof (induction env ls s rule: dispatch_lines.induct)
  case (2 env l ls s)
  then obtain s1 where "GPIO_EXTI_Dispatch env l s = Some s1" "dispatch_lines env ls s1 = Some s'"
    by (auto simp: bind_eq_Some_conv)
  with 2 show ?case using gpio_quiet_trans dispatch_quiet by blast
qed simp

inductive_cases gpio_stepE: "gpio_step env s s'"

lemma set_quiet:
  "GPIO_Pin_Set_Direction pin d s = Some (r, s') \<Longrightarrow> gpio_quiet s s'"
  "GPIO_Pin_Set_PullMode pin pm s = Some (r, s') \<Longrightarrow> gpio_quiet s s'"
  "GPIO_Pin_Write pin lv s = Some (r, s') \<Longrightarrow> gpio_quiet s s'"
  "GPIO_Pin_Toggle pin s = Some (r, s') \<Longrightarrow> gpio_quiet s s'"
  by (auto simp: driver_defs gpio_quiet_def bind_eq_Some_conv Let_def gpio_wf_def cwrite_Some_iff
      split: if_splits)

lemma int_quiet:
  "GPIO_Register_Interrupt_Handler ipin h s = Some (r, s') \<Longrightarrow> gpio_quiet s s'"
  "GPIO_Unregister_Interrupt_Handler ipin s = Some (r, s') \<Longrightarrow> gpio_quiet s s'"
  "GPIO_Interrupt_Enable ipin s = Some (r, s') \<Longrightarrow> gpio_quiet s s'"
  "GPIO_Interrupt_Disable ipin s = Some (r, s') \<Longrightarrow> gpio_quiet s s'"
  by (auto simp: GPIO_Register_Interrupt_Handler_def GPIO_Unregister_Interrupt_Handler_def
      GPIO_Interrupt_Enable_def GPIO_Interrupt_Disable_def
      gpio_quiet_def bind_eq_Some_conv Let_def gpio_wf_def cwrite_Some_iff
      split: if_splits option.splits)

lemma config_quiet:
  assumes "GPIO_Config_Interrupt_Mode ipin m s = Some (r, s')"
  shows "gpio_quiet s s'"
proof -
  have "map desc_irq_pin (ds[i := (ds ! i)\<lparr>desc_mode := m\<rparr>]) = map desc_irq_pin ds" for ds i
    by (cases "i < length ds")
      (auto intro!: nth_equalityI simp: nth_list_update list_update_beyond)
  with assms show ?thesis
    by (auto simp: GPIO_Config_Interrupt_Mode_def gpio_quiet_def bind_eq_Some_conv Let_def
        gpio_wf_def cwrite_Some_iff cread_Some_iff split: if_splits option.splits)
qed

lemma gpio_step_cases:
  assumes "gpio_step env s s'" "gpio_wf s"
  obtains (quiet) "gpio_quiet s s'"
  | (pin_setup) pin d m where "pin_ok pin" "pin \<notin> pin_held s" "s' = pin_setup pin d m s"
  | (pin_teardown) pin where "pin_ok pin" "pin \<in> pin_held s" "s' = pin_teardown pin s"
  | (int_setup) pin m where "pin_ok pin" "pin \<notin> pin_held s" "m \<noteq> hwGPIO_Interrupt_Mode_MAX"
      "s' = int_setup pin m s"
  | (int_teardown) pin where "pin_ok pin" "pin \<in> pin_held s" "s' = int_teardown pin s"
  using assms(1)
proof cases
  case (pin_init pin d pm r)
  show thesis
  proof (cases "0 \<le> pin")
    case True
    with pin_init assms(2) show thesis
      by (auto simp: Pin_Init_eval split: if_splits intro: that)
  next
    case False
    with pin_init show thesis
      by (auto simp: GPIO_Pin_Init_def split: if_splits intro: quiet)
  qed
next
  case (pin_deinit pin r)
  then have "0 \<le> pin" "pin < hwGPIO_Pin_MAX"
    using assms(2) by (auto simp: GPIO_Pin_DeInit_def bind_eq_Some_conv cread_Some_iff gpio_wfD)
  with pin_deinit assms(2) show thesis
    by (auto simp: Pin_DeInit_eval split: if_splits intro: that)
next
  case (int_init pin m r)
  show thesis
  proof (cases "0 \<le> pin")
    case True
    with int_init assms(2) show thesis
      by (auto simp: Interrupt_Init_eval split: if_splits intro: that)
  next
    case False
    with int_init show thesis
      by (auto simp: GPIO_Interrupt_Init_def split: if_splits intro: quiet)
  qed
next
  case (int_deinit pin r)
  show thesis
  proof (cases "0 \<le> pin")
    case True
    with int_deinit assms(2) show thesis
      by (auto simp: Interrupt_DeInit_eval split: if_splits intro: that)
  next
    case False
    with int_deinit show thesis
      by (auto simp: GPIO_Interrupt_DeInit_def split: if_splits intro: quiet)
  qed
qed (auto intro!: quiet simp: EXTI9_5_IRQHandler_def EXTI15_10_IRQHandler_def
  simp del: dispatch_lines.simps dest: set_quiet int_quiet config_quiet dispatch_quiet dispatch_lines_quiet)

section \<open>The interrupt flags and the NVIC\<close>

definition exti_inv :: "'a gpio_state_scheme \<Rightarrow> bool" where
  "exti_inv s \<longleftrightarrow> gpio_wf s \<and>
     (\<forall>i<7. gpio_exti_enable_status s ! i \<longleftrightarrow> nvic_on (slot_irq i) (hw_log s))"

text \<open>Between calls a descriptor names a pin of its line, or no pin, or pin A0 from reset.\<close>

definition desc_inv :: "'a gpio_state_scheme \<Rightarrow> bool" where
  "desc_inv s \<longleftrightarrow> (\<forall>l<16. desc_irq_pin (gpio_exti_desc s ! l) \<in> {hwGPIO_Int_Pin_NC, 0} \<or>
     (pin_ok (desc_irq_pin (gpio_exti_desc s ! l)) \<and> pin_line (desc_irq_pin (gpio_exti_desc s ! l)) = l))"

lemma nvic_on_emit:
  "(\<And>b. nvic_effect q e b = b) \<Longrightarrow> nvic_on q (hw_log s @ [e]) = nvic_on q (hw_log s)"
  by (simp add: nvic_on_snoc)

lemma nvic_on_RCC [simp]:
  "nvic_on q (hw_log (GPIO_Enable_RCC_Clock p s)) = nvic_on q (hw_log s)"
  by (simp add: GPIO_Enable_RCC_Clock_def nvic_on_snoc)

lemma pin_setup_nvic [simp]:
  "nvic_on q (hw_log (pin_setup pin d m s)) = nvic_on q (hw_log s)"
  "nvic_on q (hw_log (pin_teardown pin s)) = nvic_on q (hw_log s)"
  by (simp_all add: pin_setup_def pin_teardown_def Let_def nvic_on_app)

lemma int_setup_nvic:
  "nvic_on q (hw_log (int_setup pin m s)) =
     (nvic_on q (hw_log s) \<or> (q = slot_irq (line_slot (pin_line pin)) \<and>
        \<not> gpio_exti_enable_status s ! line_slot (pin_line pin)))"
  by (auto simp: int_setup_def exti_irq_enable_def Let_def nvic_on_app)

lemma int_setup_flags:
  "gpio_exti_enable_status (int_setup pin m s) =
     (gpio_exti_enable_status s)[line_slot (pin_line pin) := True]"
  using list_update_id [of "gpio_exti_enable_status s" "line_slot (pin_line pin)"]
  by (cases "gpio_exti_enable_status s ! line_slot (pin_line pin)")
    (simp_all add: int_setup_def exti_irq_enable_def Let_def)

definition closes_irq :: "hwGPIO_Int_Pin \<Rightarrow> 'a gpio_state_scheme \<Rightarrow> bool" where
  "closes_irq pin s \<longleftrightarrow>
     (gpio_exti_enable_status s ! line_slot (pin_line pin) = (pin_line pin < 10))"

lemma int_teardown_nvic:
  "nvic_on q (hw_log (int_teardown pin s)) =
     (nvic_on q (hw_log s) \<and> \<not> (closes_irq pin s \<and> q = slot_irq (line_slot (pin_line pin))))"
  by (auto simp: int_teardown_def exti_irq_disable_def Let_def nvic_on_app closes_irq_def)

lemma int_teardown_flags:
  "gpio_exti_enable_status (int_teardown pin s) =
     (if closes_irq pin s then (gpio_exti_enable_status s)[line_slot (pin_line pin) := False]
      else gpio_exti_enable_status s)"
  by (auto simp: int_teardown_def exti_irq_disable_def Let_def closes_irq_def)

lemma quiet_inv:
  assumes "gpio_quiet s s'"
  shows "exti_inv s \<Longrightarrow> exti_inv s'" "gpio_wf s \<Longrightarrow> desc_inv s \<Longrightarrow> desc_inv s'"
proof -
  show "exti_inv s'" if "exti_inv s"
    using assms that by (auto simp: gpio_quiet_def exti_inv_def nvic_on_silent)
  show "desc_inv s'" if "gpio_wf s" "desc_inv s"
  proof -
    have len: "length (gpio_exti_desc s) = 16" "length (gpio_exti_desc s') = 16"
      using that(1) assms by (auto simp: gpio_quiet_def gpio_wf_def)
    have "desc_irq_pin (gpio_exti_desc s' ! l) = desc_irq_pin (gpio_exti_desc s ! l)"
      if "l < 16" for l
      using assms that len unfolding gpio_quiet_def by (metis nth_map)
    with that(2) show ?thesis by (simp add: desc_inv_def)
  qed
qed

lemma exti_inv_wf: "exti_inv s \<Longrightarrow> gpio_wf s"
  by (simp add: exti_inv_def)

lemma exti_inv_step:
  assumes "gpio_step env s s'" "exti_inv s"
  shows "exti_inv s'"
  using assms(1) exti_inv_wf [OF assms(2)]
proof (cases rule: gpio_step_cases)
  case quiet
  then show ?thesis using assms(2) by (rule quiet_inv)
next
  case (pin_setup pin d m)
  with assms(2) show ?thesis by (simp add: exti_inv_def)
next
  case (pin_teardown pin)
  with assms(2) show ?thesis by (simp add: exti_inv_def)
next
  case (int_setup pin m)
  with assms(2) show ?thesis
    using line_slot_less [of "pin_line pin"] gpio_wfD [of s]
    by (auto simp: exti_inv_def int_setup_nvic int_setup_flags nth_list_update slot_irq_inject)
next
  case (int_teardown pin)
  with assms(2) show ?thesis
    using line_slot_less [of "pin_line pin"] gpio_wfD [of s]
    by (auto simp: exti_inv_def int_teardown_nvic int_teardown_flags nth_list_update slot_irq_inject)
qed

lemma desc_inv_step:
  assumes "gpio_step env s s'" "gpio_wf s" "desc_inv s"
  shows "desc_inv s'"
  using assms(1,2)
proof (cases rule: gpio_step_cases)
  case quiet
  then show ?thesis using assms(2,3) by (rule quiet_inv)
next
  case (int_setup pin m)
  moreover have "pin_line pin < 16" using int_setup by (simp add: pin_ok_iff pin_line_less)
  ultimately show ?thesis
    using assms(2,3) by (auto simp: desc_inv_def nth_list_update gpio_wfD)
next
  case (int_teardown pin)
  moreover have "pin_line pin < 16" using int_teardown by (simp add: pin_ok_iff pin_line_less)
  ultimately show ?thesis
    using assms(2,3) by (auto simp: desc_inv_def nth_list_update gpio_wfD)
qed (use assms(3) in \<open>simp_all add: desc_inv_def\<close>)

lemma reach_inv: "gpio_reach env s \<Longrightarrow> exti_inv s \<and> desc_inv s"
proof (induction rule: gpio_reach.induct)
  case (boot s)
  then show ?case
    by (auto simp: gpio_boot_wf exti_inv_def desc_inv_def) (simp_all add: gpio_boot_def)
next
  case (step s s')
  then show ?case by (auto dest: exti_inv_step desc_inv_step simp: exti_inv_def)
qed

lemma reach_boot_memory: "gpio_reach env gpio_init_memory"
  by (rule gpio_reach.boot) (rule gpio_boot_memory)

text \<open>
  C11: In every reachable state of the driver, whatever the calls and interrupts that led to
  it, the flag of each of the seven NVIC interrupts of the EXTI lines is set exactly when that
  interrupt is enabled in the NVIC, each of the sixteen line descriptors names a usable pin
  of its own line, no pin, or pin A0 as at reset, and the arrays keep their shape.
\<close>

theorem exti_flags_match_nvic:
  assumes "gpio_reach env s"
  shows "gpio_wf s \<and> (\<forall>i<7. gpio_exti_enable_status s ! i \<longleftrightarrow> nvic_on (slot_irq i) (hw_log s)) \<and>
    (\<forall>l<16. let pin = desc_irq_pin (gpio_exti_desc s ! l) in
       pin = hwGPIO_Int_Pin_NC \<or> pin = 0 \<or> pin_ok pin \<and> pin_line pin = l)"
  using reach_inv [OF assms] by (auto simp: exti_inv_def desc_inv_def Let_def)

theorem exti_flags_match_nvic_witness:
  "\<exists>s. GPIO_Interrupt_Init 22 hwGPIO_Interrupt_Mode_Both_Edge gpio_init_memory =
      Some (hwGPIO_OK, s) \<and> gpio_exti_enable_status s ! 5 \<and> nvic_on EXTI9_5_IRQn (hw_log s)"
proof -
  let ?m = gpio_init_memory
  have line: "pin_line 22 = 6"
    using pin_line_of [of 6 GPIOB] by (simp add: hwGPIO_Pin_of_def port_index_def)
  have ini: "GPIO_Interrupt_Init 22 hwGPIO_Interrupt_Mode_Both_Edge ?m =
      Some (hwGPIO_OK, int_setup 22 hwGPIO_Interrupt_Mode_Both_Edge ?m)" (is "_ = Some (_, ?s)")
    by (simp add: Interrupt_Init_eval pin_ok_iff hwGPIO_Pin_of_def port_index_def)
  have "gpio_reach undefined ?s"
    by (rule gpio_reach.step [OF reach_boot_memory gpio_step.int_init [OF ini]])
  from exti_flags_match_nvic [OF this] have
    "gpio_exti_enable_status ?s ! 5 \<longleftrightarrow> nvic_on (slot_irq 5) (hw_log ?s)" by simp
  moreover have "gpio_exti_enable_status ?s ! 5"
    by (simp add: int_setup_flags line line_slot_def gpio_init_memory_def)
  ultimately show ?thesis using ini by (simp add: slot_irq_def)
qed

section \<open>Dispatch of pending lines\<close>

text \<open>What one line contributes when the lines with a mask in \<open>P\<close> are pending.\<close>

definition line_events :: "u16 set \<Rightarrow> 'a gpio_state_scheme \<Rightarrow> nat \<Rightarrow> hw_event list" where
  "line_events P s l =
     (let d = gpio_exti_desc s ! l; m = GPIO_Map_Soc_Pin (desc_irq_pin d) in
      if \<not> pin_ok (desc_irq_pin d) \<or> m \<notin> P then []
      else HAL_GPIO_EXTI_CLEAR_IT m #
        (case gpio_irq_handlers s ! nat (desc_irq_pin d) of None \<Rightarrow> []
         | Some f \<Rightarrow> (case mode_action (desc_mode d) of None \<Rightarrow> []
             | Some a \<Rightarrow> [GPIO_HANDLER_CALL f (desc_irq_pin d) a])))"

lemma dispatch_eval:
  assumes "gpio_wf s" "l < 16"
  shows "GPIO_EXTI_Dispatch env l s =
    Some (s\<lparr>hw_log := hw_log s @ line_events {m. exti_pending env (hw_log s) m} s l\<rparr>)"
proof -
  let ?d = "gpio_exti_desc s ! l"
  have "0 \<le> desc_irq_pin ?d \<and> desc_irq_pin ?d < 144" if "pin_ok (desc_irq_pin ?d)"
    using that by (simp add: pin_ok_iff)
  with assms show ?thesis
    by (cases "gpio_irq_handlers s ! nat (desc_irq_pin ?d)"; cases "mode_action (desc_mode ?d)";
        cases "pin_ok (desc_irq_pin ?d)")
      (auto simp: GPIO_EXTI_Dispatch_def line_events_def gpio_wfD Let_def pin_ok_def emit_def
        Int_Map_Soc_Base_eq Int_Map_Soc_Pin_eq)
qed

text \<open>The lines in \<open>P\<close> are pending from here on until their pending bit is cleared.\<close>

definition pending_from :: "hal_env \<Rightarrow> u16 set \<Rightarrow> hw_event list \<Rightarrow> bool" where
  "pending_from env P es0 \<longleftrightarrow>
     (\<forall>es m. exti_pending env (es0 @ es) m \<longleftrightarrow> m \<in> P \<and> HAL_GPIO_EXTI_CLEAR_IT m \<notin> set es)"

definition line_mask :: "'a gpio_state_scheme \<Rightarrow> nat \<Rightarrow> u16" where
  "line_mask s l = GPIO_Map_Soc_Pin (desc_irq_pin (gpio_exti_desc s ! l))"

definition line_used :: "u16 set \<Rightarrow> 'a gpio_state_scheme \<Rightarrow> nat \<Rightarrow> bool" where
  "line_used P s l \<longleftrightarrow> pin_ok (desc_irq_pin (gpio_exti_desc s ! l)) \<and> line_mask s l \<in> P"

lemma line_events_log [simp]: "line_events P (s\<lparr>hw_log := es\<rparr>) l = line_events P s l"
  by (simp add: line_events_def cong: if_cong option.case_cong)

lemma line_used_log [simp]:
  "line_used P (s\<lparr>hw_log := es\<rparr>) l = line_used P s l" "line_mask (s\<lparr>hw_log := es\<rparr>) l = line_mask s l"
  "gpio_wf (s\<lparr>hw_log := es\<rparr>) = gpio_wf s"
  by (simp_all add: line_used_def line_mask_def gpio_wf_def)

lemma line_events_clears:
  "HAL_GPIO_EXTI_CLEAR_IT m \<in> set (line_events P s l) \<Longrightarrow> line_used P s l \<and> m = line_mask s l"
  by (auto simp: line_events_def line_used_def line_mask_def Let_def
      split: if_split_asm option.split_asm)

lemma line_events_pending:
  assumes "pending_from env P es0" "line_used P s l \<Longrightarrow> HAL_GPIO_EXTI_CLEAR_IT (line_mask s l) \<notin> set es"
  shows "line_events {m. exti_pending env (es0 @ es) m} s l = line_events P s l"
  using assms by (simp add: line_events_def pending_from_def line_used_def line_mask_def Let_def)

lemma dispatch_lines_eval:
  assumes "pending_from env P es0" "gpio_wf s" "hw_log s = es0 @ es"
    "distinct (map (line_mask s) (filter (line_used P s) ls))" "\<forall>l\<in>set ls. l < 16"
    "\<forall>l\<in>set ls. line_used P s l \<longrightarrow> HAL_GPIO_EXTI_CLEAR_IT (line_mask s l) \<notin> set es"
  shows "dispatch_lines env ls s =
    Some (s\<lparr>hw_log := hw_log s @ concat (map (line_events P s) ls)\<rparr>)"
  using assms
proof (induction ls arbitrary: s es)
  case (Cons l ls)
  have "line_events {m. exti_pending env (hw_log s) m} s l = line_events P s l"
    using Cons.prems by (simp add: line_events_pending [OF Cons.prems(1)])
  then have d: "GPIO_EXTI_Dispatch env l s = Some (s\<lparr>hw_log := hw_log s @ line_events P s l\<rparr>)"
    using Cons.prems by (simp add: dispatch_eval)
  have rest: "HAL_GPIO_EXTI_CLEAR_IT (line_mask s k) \<notin> set (es @ line_events P s l)"
    if "k \<in> set ls" "line_used P s k" for k
  proof
    assume "HAL_GPIO_EXTI_CLEAR_IT (line_mask s k) \<in> set (es @ line_events P s l)"
    then have "HAL_GPIO_EXTI_CLEAR_IT (line_mask s k) \<in> set (line_events P s l)"
      using that Cons.prems(6) by simp
    from line_events_clears [OF this] have l: "line_used P s l" "line_mask s l = line_mask s k"
      by simp_all
    with Cons.prems(4) have "line_mask s k \<notin> line_mask s ` {x \<in> set ls. line_used P s x}"
      by simp
    with that show False by blast
  qed
  have "distinct (map (line_mask s) (filter (line_used P s) ls))"
    using Cons.prems(4) by (simp split: if_split_asm)
  then have "dispatch_lines env ls (s\<lparr>hw_log := hw_log s @ line_events P s l\<rparr>) =
      Some (s\<lparr>hw_log := (hw_log s @ line_events P s l) @ concat (map (line_events P s) ls)\<rparr>)"
    using Cons.IH [OF Cons.prems(1), of "s\<lparr>hw_log := hw_log s @ line_events P s l\<rparr>"
        "es @ line_events P s l"] Cons.prems(2,3,5) rest by simp
  then show ?case by (simp add: d)
qed simp

lemma distinct_masks:
  assumes "\<forall>l\<in>set ls. line_used P s l \<longrightarrow> pin_line (desc_irq_pin (gpio_exti_desc s ! l)) = l"
    "distinct ls"
  shows "distinct (map (line_mask s) (filter (line_used P s) ls))"
proof -
  have "line_mask s l = push_bit l 1 \<and> l < 16" if "l \<in> set ls" "line_used P s l" for l
  proof -
    have "0 \<le> desc_irq_pin (gpio_exti_desc s ! l)"
      "desc_irq_pin (gpio_exti_desc s ! l) < hwGPIO_Pin_MAX"
      using that by (simp_all add: line_used_def pin_ok_iff)
    then obtain p n where "n < 16" "desc_irq_pin (gpio_exti_desc s ! l) = hwGPIO_Pin_of p n"
      by (rule pin_cases)
    with that assms(1) show ?thesis by (auto simp: line_mask_def Map_Soc_Pin_of)
  qed
  then have "inj_on (line_mask s) (set (filter (line_used P s) ls))"
    using push_bit_one_u16_inject by (auto intro!: inj_onI simp del: push_bit_of_1)
  with assms(2) show ?thesis by (simp add: distinct_map)
qed

lemma Map_Soc_Pin_A0: "GPIO_Map_Soc_Pin 0 = 1"
  using Map_Soc_Pin_of [of 0 GPIOA] by (simp add: hwGPIO_Pin_of_def port_index_def)

text \<open>
  C25: The two shared interrupt handlers serve every line of theirs that is pending, in
  ascending order and each once: they clear its pending bit and then call the handler
  registered for the pin configured on the line, with the edge of the configured mode. This
  holds in every reachable state when a pending bit stays set until it is cleared, and line 0
  is not pending or no descriptor is still the zeroed one of the reset.
\<close>

theorem shared_handlers_serve_pending_lines:
  assumes "gpio_reach env s" "pending_from env P (hw_log s)"
    "1 \<notin> P \<or> (\<forall>l\<in>{5..15}. desc_irq_pin (gpio_exti_desc s ! l) \<noteq> 0)"
  shows "EXTI9_5_IRQHandler env s =
      Some (s\<lparr>hw_log := hw_log s @ concat (map (line_events P s) [5, 6, 7, 8, 9])\<rparr>) \<and>
    EXTI15_10_IRQHandler env s =
      Some (s\<lparr>hw_log := hw_log s @ concat (map (line_events P s) [10, 11, 12, 13, 14, 15])\<rparr>)"
proof -
  have inv: "gpio_wf s" "desc_inv s" using reach_inv [OF assms(1)] by (simp_all add: exti_inv_def)
  have lines: "pin_line (desc_irq_pin (gpio_exti_desc s ! l)) = l"
    if "line_used P s l" "5 \<le> l" "l \<le> 15" for l
    using spec [OF inv(2) [unfolded desc_inv_def], of l] assms(3) that Map_Soc_Pin_A0
    by (auto simp: line_used_def line_mask_def pin_ok_iff)
  show ?thesis
    unfolding EXTI9_5_IRQHandler_def EXTI15_10_IRQHandler_def
    by (intro conjI dispatch_lines_eval [OF assms(2) inv(1), of "[]"] distinct_masks)
      (use lines in \<open>auto simp del: dispatch_lines.simps\<close>)
qed

text \<open>An environment in which the lines of \<open>P\<close> are pending until they are cleared.\<close>

definition pending_env :: "u16 set \<Rightarrow> hal_env" where
  "pending_env P = board_env
     \<lparr>exti_pending := \<lambda>es m. m \<in> P \<and> HAL_GPIO_EXTI_CLEAR_IT m \<notin> set es\<rparr>"

text \<open>Pin B6 with handler 7 on both edges, set up right after the reset.\<close>

definition B6_memory :: gpio_state where
  "B6_memory = (int_setup 22 hwGPIO_Interrupt_Mode_Both_Edge gpio_init_memory)
     \<lparr>gpio_irq_handlers := (replicate 144 None)[22 := Some 7]\<rparr>"

lemma pin_line_B6: "pin_line 22 = 6"
  using pin_line_of [of 6 GPIOB] by (simp add: hwGPIO_Pin_of_def port_index_def)

lemma B6_init: "GPIO_Interrupt_Init 22 hwGPIO_Interrupt_Mode_Both_Edge gpio_init_memory =
    Some (hwGPIO_OK, int_setup 22 hwGPIO_Interrupt_Mode_Both_Edge gpio_init_memory)"
  by (simp add: Interrupt_Init_eval pin_ok_iff hwGPIO_Pin_of_def port_index_def)

lemma reach_B6: "gpio_reach env B6_memory"
proof -
  have reg: "GPIO_Register_Interrupt_Handler 22 (Some 7)
      (int_setup 22 hwGPIO_Interrupt_Mode_Both_Edge gpio_init_memory) = Some (hwGPIO_OK, B6_memory)"
    by (simp add: GPIO_Register_Interrupt_Handler_def B6_memory_def gpio_init_memory_def)
  show ?thesis
    by (rule gpio_reach.step [OF gpio_reach.step [OF reach_boot_memory
          gpio_step.int_init [OF B6_init]] gpio_step.int_register [OF reg]])
qed

lemma B6_events [simp]: "HAL_GPIO_EXTI_CLEAR_IT m \<notin> set (hw_log B6_memory)"
  by (auto simp: B6_memory_def int_setup_def Let_def exti_irq_enable_def gpio_init_memory_def
      GPIO_Enable_RCC_Clock_def)

theorem shared_handlers_serve_pending_lines_witness:
  "\<exists>s. EXTI9_5_IRQHandler (pending_env {64}) B6_memory = Some s \<and>
     hw_log s = hw_log B6_memory @ [HAL_GPIO_EXTI_CLEAR_IT 64, GPIO_HANDLER_CALL 7 22 hwGPIO_Interrupt_Action_Toggle]"
proof -
  have p: "pending_from (pending_env {64}) {64} (hw_log B6_memory)"
    by (simp add: pending_from_def pending_env_def)
  have m: "GPIO_Map_Soc_Pin 22 = 64"
    using Map_Soc_Pin_of [of 6 GPIOB] by (simp add: hwGPIO_Pin_of_def port_index_def)
  have "line_events {64} B6_memory l = []" if "l \<noteq> 6" "l < 16" for l
    using that by (simp add: line_events_def B6_memory_def pin_line_B6 gpio_init_memory_def
        Map_Soc_Pin_A0 nth_list_update)
  moreover have "line_events {64} B6_memory 6 =
      [HAL_GPIO_EXTI_CLEAR_IT 64, GPIO_HANDLER_CALL 7 22 hwGPIO_Interrupt_Action_Toggle]"
    by (simp add: line_events_def B6_memory_def pin_line_B6 gpio_init_memory_def m mode_action_def
        pin_ok_iff hwGPIO_Pin_of_def port_index_def)
  ultimately show ?thesis
    using shared_handlers_serve_pending_lines [OF reach_B6 p] by simp
qed

text \<open>
  The descriptors that were never configured hold pin A0, the value 0 of the reset, so
  the handler of lines 5 to 9 also serves line 0: with line 5 not configured and line 0
  pending it clears line 0 and calls the handler registered for A0.
\<close>

theorem unconfigured_line_serves_A0:
  assumes "gpio_reach env s" "desc_irq_pin (gpio_exti_desc s ! 5) = 0"
    "exti_pending env (hw_log s) 1" "gpio_irq_handlers s ! 0 = Some f"
    "mode_action (desc_mode (gpio_exti_desc s ! 5)) = Some a"
  shows "\<exists>s' es. EXTI9_5_IRQHandler env s = Some s' \<and>
    hw_log s' = hw_log s @ [HAL_GPIO_EXTI_CLEAR_IT 1, GPIO_HANDLER_CALL f 0 a] @ es"
proof -
  have wf: "gpio_wf s" using reach_inv [OF assms(1)] by (simp add: exti_inv_def)
  have A0: "pin_ok 0" "GPIO_Map_Soc_Pin 0 = 1"
    by (simp_all add: pin_ok_iff hwGPIO_Pin_of_def port_index_def Map_Soc_Pin_A0)
  have grow: "\<exists>s' es. dispatch_lines env ls t = Some s' \<and> hw_log s' = hw_log t @ es"
    if "gpio_wf t" "\<forall>l\<in>set ls. l < 16" for ls and t :: "'a gpio_state_scheme"
    using that
  proof (induction ls arbitrary: t)
    case (Cons l ls)
    then show ?case
      using Cons.IH [of "t\<lparr>hw_log := hw_log t @ line_events {m. exti_pending env (hw_log t) m} t l\<rparr>"]
      by (auto simp: dispatch_eval)
  qed simp
  have "GPIO_EXTI_Dispatch env 5 s = Some (s\<lparr>hw_log := hw_log s @
      [HAL_GPIO_EXTI_CLEAR_IT 1, GPIO_HANDLER_CALL f 0 a]\<rparr>)"
    using wf A0 assms by (simp add: dispatch_eval line_events_def)
  then show ?thesis
    using grow [of "s\<lparr>hw_log := hw_log s @ [HAL_GPIO_EXTI_CLEAR_IT 1, GPIO_HANDLER_CALL f 0 a]\<rparr>"
        "[6, 7, 8, 9]"] wf
    by (auto simp: EXTI9_5_IRQHandler_def)
qed

definition A0_memory :: gpio_state where
  "A0_memory = gpio_init_memory\<lparr>gpio_irq_handlers := (replicate 144 None)[0 := Some 3]\<rparr>"

lemma reach_A0: "gpio_reach env A0_memory"
proof -
  have reg: "GPIO_Register_Interrupt_Handler 0 (Some 3) gpio_init_memory = Some (hwGPIO_OK, A0_memory)"
    by (simp add: GPIO_Register_Interrupt_Handler_def A0_memory_def gpio_init_memory_def)
  show ?thesis by (rule gpio_reach.step [OF reach_boot_memory gpio_step.int_register [OF reg]])
qed

theorem unconfigured_line_serves_A0_witness:
  "\<exists>s' es. EXTI9_5_IRQHandler (pending_env {1}) A0_memory = Some s' \<and>
    hw_log s' = [HAL_GPIO_EXTI_CLEAR_IT 1, GPIO_HANDLER_CALL 3 0 hwGPIO_Interrupt_Action_Falling_Edge] @ es"
  using unconfigured_line_serves_A0 [OF reach_A0, of "pending_env {1}" 3 hwGPIO_Interrupt_Action_Falling_Edge]
  by (simp add: A0_memory_def gpio_init_memory_def pending_env_def mode_action_def)

section \<open>Interrupts that are shared by several lines\<close>

text \<open>
  Giving back an interrupt pin on one of the lines 5 to 9 disables the NVIC interrupt that
  these lines share although another pin on them is in use: the loop that should look for
  another line in use tests the line being closed in every round. The other pin stays recorded
  as in use and configured on its line, with its interrupt off.
\<close>

theorem closing_one_line_disables_shared_irq:
  assumes "gpio_reach env s" "pin \<in> pin_held s" "q \<in> pin_held s" "pin_ok pin"
    "pin_line pin \<in> {5..9}" "pin_line q \<in> {5..9}" "pin_line pin \<noteq> pin_line q"
    "desc_irq_pin (gpio_exti_desc s ! pin_line q) = q" "nvic_on EXTI9_5_IRQn (hw_log s)"
  shows "\<exists>s'. GPIO_Interrupt_DeInit pin s = Some (hwGPIO_OK, s') \<and>
    q \<in> pin_held s' \<and> desc_irq_pin (gpio_exti_desc s' ! pin_line q) = q \<and>
    \<not> nvic_on EXTI9_5_IRQn (hw_log s')"
proof -
  have inv: "exti_inv s" using reach_inv [OF assms(1)] by simp
  note wf = exti_inv_wf [OF inv]
  have pin: "0 \<le> pin" "pin < hwGPIO_Pin_MAX" using assms(4) by (simp_all add: pin_ok_iff)
  have slot: "line_slot (pin_line pin) = 5" "slot_irq 5 = EXTI9_5_IRQn"
    using assms(5) by (auto simp: line_slot_def slot_irq_def)
  have "closes_irq pin s"
    using inv assms(5,9) slot by (auto simp: closes_irq_def exti_inv_def)
  then have "\<not> nvic_on EXTI9_5_IRQn (hw_log (int_teardown pin s))"
    using slot by (simp add: int_teardown_nvic)
  then show ?thesis
    using assms pin by (auto simp: Interrupt_DeInit_eval [OF wf] pin_held_int [OF wf])
qed

text \<open>Pins A5 and B6 in use.\<close>

definition A5_B6_memory :: gpio_state where
  "A5_B6_memory = int_setup 5 hwGPIO_Interrupt_Mode_Falling_Edge
     (int_setup 22 hwGPIO_Interrupt_Mode_Both_Edge gpio_init_memory)"

lemma gpio_init_memory_flags [simp]:
  "gpio_exti_enable_status gpio_init_memory = replicate 7 False"
  "gpio_current_mode gpio_init_memory = replicate 144 hwGPIO_Pull_Mode_None"
  "length (gpio_exti_desc gpio_init_memory) = 16"
  by (simp_all add: gpio_init_memory_def)

lemma pin_line_A5: "pin_line 5 = 5"
  using pin_line_of [of 5 GPIOA] by (simp add: hwGPIO_Pin_of_def port_index_def)

lemma reach_A5_B6: "gpio_reach env A5_B6_memory"
proof -
  have "GPIO_Interrupt_Init 5 hwGPIO_Interrupt_Mode_Falling_Edge
      (int_setup 22 hwGPIO_Interrupt_Mode_Both_Edge gpio_init_memory) = Some (hwGPIO_OK, A5_B6_memory)"
    by (simp add: Interrupt_Init_eval pin_held_int A5_B6_memory_def pin_ok_iff hwGPIO_Pin_of_def
        port_index_def)
  then show ?thesis
    by (intro gpio_reach.step [OF gpio_reach.step [OF reach_boot_memory
          gpio_step.int_init [OF B6_init]]] gpio_step.int_init)
qed

theorem closing_one_line_disables_shared_irq_witness:
  "\<exists>s'. GPIO_Interrupt_DeInit 5 A5_B6_memory = Some (hwGPIO_OK, s') \<and>
    22 \<in> pin_held s' \<and> \<not> nvic_on EXTI9_5_IRQn (hw_log s')"
  using closing_one_line_disables_shared_irq [OF reach_A5_B6, of 5 22]
  by (auto simp: pin_line_A5 pin_line_B6 A5_B6_memory_def pin_held_int pin_ok_iff hwGPIO_Pin_of_def
      port_index_def int_setup_nvic int_setup_flags line_slot_def slot_irq_def)

text \<open>
  The NVIC interrupt of lines 10 to 15 is never disabled: once it is enabled, it stays
  enabled through every call of the driver, including the one that gives back the last pin on
  these lines, because the guard of that block asks for the interrupt to be disabled.
\<close>

theorem exti15_10_stays_enabled:
  assumes "gpio_reach env s" "gpio_step env s s'" "nvic_on EXTI15_10_IRQn (hw_log s)"
  shows "nvic_on EXTI15_10_IRQn (hw_log s')"
proof -
  have inv: "exti_inv s" using reach_inv [OF assms(1)] by simp
  from assms(2) exti_inv_wf [OF inv] show ?thesis
  proof (cases rule: gpio_step_cases)
    case quiet
    then show ?thesis using assms(3) by (auto simp: gpio_quiet_def nvic_on_silent)
  next
    case (int_teardown pin)
    have "\<not> (closes_irq pin s \<and> EXTI15_10_IRQn = slot_irq (line_slot (pin_line pin)))"
    proof
      assume c: "closes_irq pin s \<and> EXTI15_10_IRQn = slot_irq (line_slot (pin_line pin))"
      then have slot: "line_slot (pin_line pin) = 6"
        using slot_irq_inject [of "line_slot (pin_line pin)" 6] line_slot_less
        by (simp add: slot_irq_def)
      then have "\<not> pin_line pin < 10" by (auto simp: line_slot_def split: if_splits)
      with c slot inv assms(3) show False by (auto simp: closes_irq_def exti_inv_def slot_irq_def)
    qed
    with assms(3) int_teardown show ?thesis by (simp add: int_teardown_nvic)
  qed (use assms(3) in \<open>simp_all add: int_setup_nvic\<close>)
qed

theorem exti15_10_stays_enabled_witness:
  "\<exists>s1 s2. GPIO_Interrupt_Init 10 hwGPIO_Interrupt_Mode_Both_Edge gpio_init_memory =
      Some (hwGPIO_OK, s1) \<and> GPIO_Interrupt_DeInit 10 s1 = Some (hwGPIO_OK, s2) \<and>
    10 \<notin> pin_held s2 \<and> nvic_on EXTI15_10_IRQn (hw_log s2)"
proof -
  let ?s1 = "int_setup 10 hwGPIO_Interrupt_Mode_Both_Edge gpio_init_memory"
  have line: "pin_line 10 = 10"
    using pin_line_of [of 10 GPIOA] by (simp add: hwGPIO_Pin_of_def port_index_def)
  have ok: "pin_ok 10" by (simp add: pin_ok_iff hwGPIO_Pin_of_def port_index_def)
  have a: "GPIO_Interrupt_Init 10 hwGPIO_Interrupt_Mode_Both_Edge gpio_init_memory =
      Some (hwGPIO_OK, ?s1)"
    using ok by (simp add: Interrupt_Init_eval)
  have b: "GPIO_Interrupt_DeInit 10 ?s1 = Some (hwGPIO_OK, int_teardown 10 ?s1)"
    using ok by (simp add: Interrupt_DeInit_eval pin_held_int)
  have "nvic_on EXTI15_10_IRQn (hw_log ?s1)"
    by (simp add: int_setup_nvic line line_slot_def slot_irq_def)
  with exti15_10_stays_enabled [OF gpio_reach.step [OF reach_boot_memory
        gpio_step.int_init [OF a]] gpio_step.int_deinit [OF b]]
  have "nvic_on EXTI15_10_IRQn (hw_log (int_teardown 10 ?s1))" by simp
  with a b show ?thesis by (auto simp: pin_held_int)
qed

section \<open>Masking, rearming and lines in conflict\<close>

text \<open>
  GPIO_Interrupt_Enable does not restore the edge that was configured: it derives the
  trigger from the pull mode of the pin. For a pin set up with GPIO_Interrupt_Init, whose
  pull mode is none unless GPIO_Pin_Set_PullMode was called, disabling and enabling the
  interrupt programs the falling edge whatever mode was configured, and the descriptor still
  says the configured one.
\<close>

theorem rearmed_interrupt_is_falling_edge:
  assumes "gpio_wf s" "0 \<le> pin" "GPIO_Interrupt_Init pin m s = Some (hwGPIO_OK, s1)"
    "gpio_current_mode s ! nat pin = hwGPIO_Pull_Mode_None"
  shows "\<exists>s2 s3. GPIO_Interrupt_Disable pin s1 = Some (hwGPIO_OK, s2) \<and>
    GPIO_Interrupt_Enable pin s2 = Some (hwGPIO_OK, s3) \<and>
    last (hw_log s3) = HAL_EXTI_SetConfigLine (pin_line pin)
      \<lparr>cfg_Line = GPIO_Int_Map_Exti_Line pin, cfg_Trigger = EXTI_TRIGGER_FALLING,
       cfg_GPIOSel = GPIO_Int_Map_Exti_Port pin\<rparr> \<and>
    gpio_exti_desc s3 ! pin_line pin = \<lparr>desc_irq_pin = pin, desc_mode = m\<rparr>"
proof -
  have ok: "pin < hwGPIO_Pin_MAX" "s1 = int_setup pin m s"
    using assms(3) by (auto simp: Interrupt_Init_eval [OF assms(1,2)] split: if_splits)
  have "pin_line pin < 16" using ok assms(2) by (simp add: pin_line_less)
  then show ?thesis
    using assms(2,4) ok gpio_wfD [OF assms(1)]
    by (simp add: GPIO_Interrupt_Disable_def GPIO_Interrupt_Enable_def Let_def pull_mode_value_def
        interrupt_mode_value_def flip: pin_line_def)
qed

theorem rearmed_interrupt_is_falling_edge_witness:
  "\<exists>s2 s3. GPIO_Interrupt_Disable 22 (int_setup 22 hwGPIO_Interrupt_Mode_Both_Edge gpio_init_memory) =
      Some (hwGPIO_OK, s2) \<and> GPIO_Interrupt_Enable 22 s2 = Some (hwGPIO_OK, s3)"
  using rearmed_interrupt_is_falling_edge [OF gpio_init_memory_wf _ B6_init] by auto

text \<open>
  Two interrupt pins with the same number on different ports share one line, and the
  driver lets both be set up: it reports success twice, but from then on the dispatch of the
  line never calls the handler of the first pin.
\<close>

theorem same_line_shadows_first_pin:
  fixes s :: "'a gpio_state_scheme"
  assumes "gpio_wf s" "n < 16" "p \<noteq> q" "pin_mapped p n" "pin_mapped q n"
    "hwGPIO_Pin_of p n \<notin> pin_held s" "hwGPIO_Pin_of q n \<notin> pin_held s"
    "m \<noteq> hwGPIO_Interrupt_Mode_MAX"
  shows "\<exists>s1 s2. GPIO_Interrupt_Init (hwGPIO_Pin_of p n) m s = Some (hwGPIO_OK, s1) \<and>
    GPIO_Interrupt_Init (hwGPIO_Pin_of q n) m s1 = Some (hwGPIO_OK, s2) \<and>
    {hwGPIO_Pin_of p n, hwGPIO_Pin_of q n} \<subseteq> pin_held s2 \<and>
    \<not> (\<exists>env s3 f a. GPIO_EXTI_Dispatch env n s2 = Some s3 \<and>
        GPIO_HANDLER_CALL f (hwGPIO_Pin_of p n) a \<in> set (drop (length (hw_log s2)) (hw_log s3)))"
proof -
  let ?p = "hwGPIO_Pin_of p n" and ?q = "hwGPIO_Pin_of q n"
  let ?s1 = "int_setup ?p m s" let ?s2 = "int_setup ?q m ?s1"
  note range = pin_number_range [OF assms(2)]
  have ne: "?p \<noteq> ?q" using assms(2,3) by (simp add: hwGPIO_Pin_of_inject)
  have i1: "GPIO_Interrupt_Init ?p m s = Some (hwGPIO_OK, ?s1)"
    using assms range [of p] by (simp add: Interrupt_Init_eval pin_ok_of)
  have i2: "GPIO_Interrupt_Init ?q m ?s1 = Some (hwGPIO_OK, ?s2)"
    using assms range [of p] range [of q] ne
    by (auto simp: Interrupt_Init_eval pin_ok_of pin_held_int)
  have "desc_irq_pin (gpio_exti_desc ?s2 ! n) = ?q"
    using assms(1,2) by (simp add: gpio_wfD)
  then have "GPIO_HANDLER_CALL f ?p a \<notin> set (line_events P ?s2 n)" for f a P
    using ne by (auto simp: line_events_def Let_def split: if_split_asm option.split_asm)
  then have "\<not> (\<exists>env s3 f a. GPIO_EXTI_Dispatch env n ?s2 = Some s3 \<and>
      GPIO_HANDLER_CALL f ?p a \<in> set (drop (length (hw_log ?s2)) (hw_log s3)))"
    using assms(1,2) by (auto simp: dispatch_eval)
  with i1 i2 show ?thesis
    using assms(1) range [of p] range [of q] by (auto simp: pin_held_int)
qed

theorem same_line_shadows_first_pin_witness:
  "\<exists>s1 s2. GPIO_Interrupt_Init 3 hwGPIO_Interrupt_Mode_Both_Edge gpio_init_memory =
      Some (hwGPIO_OK, s1) \<and>
    GPIO_Interrupt_Init 19 hwGPIO_Interrupt_Mode_Both_Edge s1 = Some (hwGPIO_OK, s2)"
  using same_line_shadows_first_pin [OF gpio_init_memory_wf, of 3 GPIOA GPIOB
      hwGPIO_Interrupt_Mode_Both_Edge]
  by (auto simp: pin_mapped_def hwGPIO_Pin_of_def port_index_def)

end
