(* ===== verification/Timer.thy ===== *)
theory Timer
  imports GPIO
begin

text \<open>
  The hardware timer driver of the STM32 boards, \<open>Driver/Timer/Timer_STM32.c\<close>, for the
  STM32F2: fourteen timers, \<open>hwTimer_Index_0\<close> (TIM1) to \<open>hwTimer_Index_13\<close> (TIM14). The C enum
  has no negative value, so an index is a \<open>nat\<close>. A timer handle is named by its index in
  \<open>g_timer\<close>; a registered callback by a number.
\<close>

section \<open>Types and state\<close>

type_synonym hwTimer_Index = nat

abbreviation (input) hwTimer_Index_MAX :: hwTimer_Index where "hwTimer_Index_MAX \<equiv> 14"

datatype hwTimer_OpResult = hwTimer_OK | hwTimer_NotInit | hwTimer_InvalidParameter
  | hwTimer_HwError | hwTimer_MemoryError | hwTimer_MutexTimeout | hwTimer_Unsupport

record timer_state = gpio_state +
  Timer_Init_Status :: "bool list"
  Timer_IsPeriodic :: "bool list"
  Timer_Expired_Handler :: "nat option list"
  g_timer :: "TIM_HandleTypeDef list"

definition TIM_Handle_zero :: TIM_HandleTypeDef where
  "TIM_Handle_zero = \<lparr>tim_Instance = None, tim_Prescaler = 0, tim_CounterMode = 0, tim_Period = 0,
     tim_ClockDivision = 0, tim_AutoReloadPreload = 0\<rparr>"

section \<open>Handles and clocks\<close>

text \<open>The loop over \<open>g_timer\<close>; a handle that is none of the array's is a number from 14 on.\<close>

definition Timer_IndexFromHandle :: "nat \<Rightarrow> hwTimer_Index" where
  "Timer_IndexFromHandle htimer =
     (case find (\<lambda>i. i = htimer) [0..<14] of Some i \<Rightarrow> i | None \<Rightarrow> hwTimer_Index_MAX)"

definition Timer_Map_Soc_Base :: "hwTimer_Index \<Rightarrow> nat option" where
  "Timer_Map_Soc_Base index = switch
     [([0], Some 1), ([1], Some 2), ([2], Some 3), ([3], Some 4), ([4], Some 5), ([5], Some 6),
      ([6], Some 7), ([7], Some 8), ([8], Some 9), ([9], Some 10), ([10], Some 11),
      ([11], Some 12), ([12], Some 13), ([13], Some 14)] None index"

definition GetAPB1TimerClock :: "hal_env \<Rightarrow> u32" where
  "GetAPB1TimerClock env = (if \<not> ppre1_div1 env then pclk1 env * 2 else pclk1 env)"

definition GetAPB2TimerClock :: "hal_env \<Rightarrow> u32" where
  "GetAPB2TimerClock env = (if \<not> ppre2_div1 env then pclk2 env * 2 else pclk2 env)"

definition Timer_GetInputClock :: "hal_env \<Rightarrow> hwTimer_Index \<Rightarrow> u32" where
  "Timer_GetInputClock env index =
     switch [([0, 7, 8, 9, 10], GetAPB2TimerClock env)] (GetAPB1TimerClock env) index"

section \<open>Interrupts\<close>

text \<open>\<open>HAL_TIM_PeriodElapsedCallback\<close>: the loop over \<open>g_timer\<close> up to the handle, with its \<open>break\<close>.\<close>

fun elapsed_loop :: "nat list \<Rightarrow> nat \<Rightarrow> 'a timer_state_scheme \<Rightarrow> 'a timer_state_scheme option" where
  "elapsed_loop [] htim s = Some s"
| "elapsed_loop (i # is) htim s =
     (if i = htim
      then do {
        h \<leftarrow> cread (Timer_Expired_Handler s) (int i);
        let s1 = (case h of None \<Rightarrow> s | Some f \<Rightarrow> emit (TIMER_HANDLER_CALL f i) s);
        p \<leftarrow> cread (Timer_IsPeriodic s1) (int i);
        Some (if \<not> p then emit (HAL_TIM_Base_Stop_IT htim) s1 else s1)
      }
      else elapsed_loop is htim s)"

definition HAL_TIM_PeriodElapsedCallback ::
  "nat \<Rightarrow> 'a timer_state_scheme \<Rightarrow> 'a timer_state_scheme option" where
  "HAL_TIM_PeriodElapsedCallback htim s = elapsed_loop [0..<14] htim s"

text \<open>
  \<open>HAL_TIM_IRQHandler\<close> belongs to the vendor layer; as its documentation says, it calls the
  callback above when the update interrupt of the timer is pending.
\<close>

definition Timer_HAL_IRQHandler ::
  "hal_env \<Rightarrow> hwTimer_Index \<Rightarrow> 'a timer_state_scheme \<Rightarrow> 'a timer_state_scheme option" where
  "Timer_HAL_IRQHandler env index s =
     (let s1 = emit (HAL_TIM_IRQHandler index) s in
      if tim_update env (hw_log s) index then HAL_TIM_PeriodElapsedCallback index s1 else Some s1)"

text \<open>The twelve interrupt entry points: the timers each one serves, in order.\<close>

definition irq_timers :: "irqn \<Rightarrow> hwTimer_Index list" where
  "irq_timers q = switch
     [([TIM1_UP_TIM10_IRQn], [0, 9]), ([TIM2_IRQn], [1]), ([TIM3_IRQn], [2]), ([TIM4_IRQn], [3]),
      ([TIM5_IRQn], [4]), ([TIM6_DAC_IRQn], [5]), ([TIM7_IRQn], [6]),
      ([TIM8_UP_TIM13_IRQn], [7, 12]), ([TIM1_BRK_TIM9_IRQn], [8]),
      ([TIM1_TRG_COM_TIM11_IRQn], [10]), ([TIM8_BRK_TIM12_IRQn], [11]),
      ([TIM8_TRG_COM_TIM14_IRQn], [13])] [] q"

fun serve_timers ::
  "hal_env \<Rightarrow> hwTimer_Index list \<Rightarrow> 'a timer_state_scheme \<Rightarrow> 'a timer_state_scheme option" where
  "serve_timers env [] s = Some s"
| "serve_timers env (i # is) s =
     do { s1 \<leftarrow> Timer_HAL_IRQHandler env i s; serve_timers env is s1 }"

definition TIM_IRQHandler ::
  "hal_env \<Rightarrow> irqn \<Rightarrow> 'a timer_state_scheme \<Rightarrow> 'a timer_state_scheme option" where
  "TIM_IRQHandler env q s = serve_timers env (irq_timers q) s"

section \<open>Operations\<close>

definition timer_clk_enable :: "hwTimer_Index \<Rightarrow> 'a mcu_state_scheme \<Rightarrow> 'a mcu_state_scheme" where
  "timer_clk_enable index s = (case switch
     [([0], Some 1), ([1], Some 2), ([2], Some 3), ([3], Some 4), ([4], Some 5), ([5], Some 6),
      ([6], Some 7), ([7], Some 8), ([8], Some 9), ([9], Some 10), ([10], Some 11),
      ([11], Some 12), ([12], Some 13), ([13], Some 14)] None index of
        None \<Rightarrow> s | Some n \<Rightarrow> emit (RCC_CLK_ENABLE (RCC_TIM n)) s)"

definition timer_clk_disable :: "hwTimer_Index \<Rightarrow> 'a mcu_state_scheme \<Rightarrow> 'a mcu_state_scheme" where
  "timer_clk_disable index s = (case switch
     [([0], Some 1), ([1], Some 2), ([2], Some 3), ([3], Some 4), ([4], Some 5), ([5], Some 6),
      ([6], Some 7), ([7], Some 8), ([8], Some 9), ([9], Some 10), ([10], Some 11),
      ([11], Some 12), ([12], Some 13), ([13], Some 14)] None index of
        None \<Rightarrow> s | Some n \<Rightarrow> emit (RCC_CLK_DISABLE (RCC_TIM n)) s)"

text \<open>The interrupt of a timer, and the timers that share it, as the two switches have them.\<close>

definition timer_irq :: "hwTimer_Index \<Rightarrow> irqn option" where
  "timer_irq index = switch
     [([0, 9], Some TIM1_UP_TIM10_IRQn), ([1], Some TIM2_IRQn), ([2], Some TIM3_IRQn),
      ([3], Some TIM4_IRQn), ([4], Some TIM5_IRQn), ([5], Some TIM6_DAC_IRQn),
      ([6], Some TIM7_IRQn), ([7, 12], Some TIM8_UP_TIM13_IRQn), ([8], Some TIM1_BRK_TIM9_IRQn),
      ([10], Some TIM1_TRG_COM_TIM11_IRQn), ([11], Some TIM8_BRK_TIM12_IRQn),
      ([13], Some TIM8_TRG_COM_TIM14_IRQn)] None index"

definition timer_nvic_enable :: "hwTimer_Index \<Rightarrow> 'a mcu_state_scheme \<Rightarrow> 'a mcu_state_scheme" where
  "timer_nvic_enable index s = (case timer_irq index of None \<Rightarrow> s
     | Some q \<Rightarrow> emit (HAL_NVIC_EnableIRQ q) (emit (HAL_NVIC_SetPriority q 5 0) s))"

definition timer_nvic_disable ::
  "hwTimer_Index \<Rightarrow> 'a timer_state_scheme \<Rightarrow> 'a timer_state_scheme option" where
  "timer_nvic_disable index s =
     (if index = 0 \<or> index = 9 then do {
        a \<leftarrow> cread (Timer_Init_Status s) 0;
        b \<leftarrow> cread (Timer_Init_Status s) 9;
        Some (if \<not> a \<and> \<not> b then emit (HAL_NVIC_DisableIRQ TIM1_UP_TIM10_IRQn) s else s)
      }
      else if index = 7 \<or> index = 12 then do {
        a \<leftarrow> cread (Timer_Init_Status s) 7;
        b \<leftarrow> cread (Timer_Init_Status s) 12;
        Some (if \<not> a \<and> \<not> b then emit (HAL_NVIC_DisableIRQ TIM8_UP_TIM13_IRQn) s else s)
      }
      else Some (case timer_irq index of None \<Rightarrow> s | Some q \<Rightarrow> emit (HAL_NVIC_DisableIRQ q) s))"

definition Timer_Init ::
  "hal_env \<Rightarrow> hwTimer_Index \<Rightarrow> 'a timer_state_scheme \<Rightarrow>
   (hwTimer_OpResult \<times> 'a timer_state_scheme) option" where
  "Timer_Init env index s =
     (if index \<ge> hwTimer_Index_MAX then Some (hwTimer_InvalidParameter, s)
      else do {
        st \<leftarrow> cread (Timer_Init_Status s) (int index);
        if st then Some (hwTimer_OK, s)
        else if Timer_Map_Soc_Base index = None then Some (hwTimer_InvalidParameter, s)
        else do {
          let s1 = timer_nvic_enable index (timer_clk_enable index s);
          g \<leftarrow> cread (g_timer s1) (int index);
          let h = g\<lparr>tim_Instance := Timer_Map_Soc_Base index,
                    tim_Prescaler := Timer_GetInputClock env index div 1000000 - 1,
                    tim_CounterMode := TIM_COUNTERMODE_UP,
                    tim_Period := 1000 - 1,
                    tim_ClockDivision := TIM_CLOCKDIVISION_DIV1,
                    tim_AutoReloadPreload := TIM_AUTORELOAD_PRELOAD_ENABLE\<rparr>;
          gs \<leftarrow> cwrite (g_timer s1) (int index) h;
          let s2 = emit (HAL_TIM_Base_Init index h) (s1\<lparr>g_timer := gs\<rparr>);
          st' \<leftarrow> cwrite (Timer_Init_Status s2) (int index) True;
          Some (hwTimer_OK, s2\<lparr>Timer_Init_Status := st'\<rparr>)
        }
      })"

definition Timer_DeInit ::
  "hwTimer_Index \<Rightarrow> 'a timer_state_scheme \<Rightarrow>
   (hwTimer_OpResult \<times> 'a timer_state_scheme) option" where
  "Timer_DeInit index s =
     (if index \<ge> hwTimer_Index_MAX then Some (hwTimer_InvalidParameter, s)
      else do {
        st \<leftarrow> cread (Timer_Init_Status s) (int index);
        if \<not> st then Some (hwTimer_OK, s)
        else do {
          st' \<leftarrow> cwrite (Timer_Init_Status s) (int index) False;
          let s1 = s\<lparr>Timer_Init_Status := st'\<rparr>;
          let s2 = emit (HAL_TIM_Base_DeInit index) (emit (HAL_TIM_Base_Stop_IT index) s1);
          s3 \<leftarrow> timer_nvic_disable index s2;
          Some (hwTimer_OK, timer_clk_disable index s3)
        }
      })"

text \<open>The common tail of the start and reload functions: stop, program the period, start.\<close>

definition timer_restart ::
  "hwTimer_Index \<Rightarrow> u32 \<Rightarrow> 'a timer_state_scheme \<Rightarrow> 'a timer_state_scheme option" where
  "timer_restart index duration_us s = do {
     let s1 = emit (HAL_TIM_Base_Stop_IT index) s;
     g \<leftarrow> cread (g_timer s1) (int index);
     let h = g\<lparr>tim_Period := duration_us - 1\<rparr>;
     gs \<leftarrow> cwrite (g_timer s1) (int index) h;
     Some (emit (HAL_TIM_Base_Start_IT index)
             (emit (HAL_TIM_Base_Init index h) (s1\<lparr>g_timer := gs\<rparr>)))
   }"

definition Timer_Start_OneShout ::
  "hwTimer_Index \<Rightarrow> u32 \<Rightarrow> nat option \<Rightarrow> 'a timer_state_scheme \<Rightarrow>
   (hwTimer_OpResult \<times> 'a timer_state_scheme) option" where
  "Timer_Start_OneShout index duration_us timer_exp_cb s =
     (if index \<ge> hwTimer_Index_MAX then Some (hwTimer_InvalidParameter, s)
      else do {
        st \<leftarrow> cread (Timer_Init_Status s) (int index);
        if \<not> st then Some (hwTimer_NotInit, s)
        else if duration_us = 0 then Some (hwTimer_InvalidParameter, s)
        else do {
          hs \<leftarrow> cwrite (Timer_Expired_Handler s) (int index) timer_exp_cb;
          ps \<leftarrow> cwrite (Timer_IsPeriodic s) (int index) False;
          s1 \<leftarrow> timer_restart index duration_us
                  (s\<lparr>Timer_Expired_Handler := hs, Timer_IsPeriodic := ps\<rparr>);
          Some (hwTimer_OK, s1)
        }
      })"

definition Timer_Start_Period ::
  "hwTimer_Index \<Rightarrow> u32 \<Rightarrow> nat option \<Rightarrow> 'a timer_state_scheme \<Rightarrow>
   (hwTimer_OpResult \<times> 'a timer_state_scheme) option" where
  "Timer_Start_Period index duration_us timer_exp_cb s =
     (if index \<ge> hwTimer_Index_MAX then Some (hwTimer_InvalidParameter, s)
      else do {
        st \<leftarrow> cread (Timer_Init_Status s) (int index);
        if \<not> st then Some (hwTimer_NotInit, s)
        else if duration_us = 0 then Some (hwTimer_InvalidParameter, s)
        else do {
          hs \<leftarrow> cwrite (Timer_Expired_Handler s) (int index) timer_exp_cb;
          ps \<leftarrow> cwrite (Timer_IsPeriodic s) (int index) True;
          s1 \<leftarrow> timer_restart index duration_us
                  (s\<lparr>Timer_Expired_Handler := hs, Timer_IsPeriodic := ps\<rparr>);
          Some (hwTimer_OK, s1)
        }
      })"

definition Timer_Reload ::
  "hwTimer_Index \<Rightarrow> u32 \<Rightarrow> 'a timer_state_scheme \<Rightarrow>
   (hwTimer_OpResult \<times> 'a timer_state_scheme) option" where
  "Timer_Reload index duration_us s =
     (if index \<ge> hwTimer_Index_MAX then Some (hwTimer_InvalidParameter, s)
      else do {
        st \<leftarrow> cread (Timer_Init_Status s) (int index);
        if \<not> st then Some (hwTimer_NotInit, s)
        else if duration_us = 0 then Some (hwTimer_InvalidParameter, s)
        else do {
          s1 \<leftarrow> timer_restart index duration_us s;
          Some (hwTimer_OK, s1)
        }
      })"

definition Timer_Stop ::
  "hwTimer_Index \<Rightarrow> 'a timer_state_scheme \<Rightarrow>
   (hwTimer_OpResult \<times> 'a timer_state_scheme) option" where
  "Timer_Stop index s =
     (if index \<ge> hwTimer_Index_MAX then Some (hwTimer_InvalidParameter, s)
      else do {
        st \<leftarrow> cread (Timer_Init_Status s) (int index);
        if \<not> st then Some (hwTimer_NotInit, s)
        else Some (hwTimer_OK, emit (HAL_TIM_Base_Stop_IT index) s)
      })"

definition Timer_Read_Ticks ::
  "hal_env \<Rightarrow> hwTimer_Index \<Rightarrow> u32 option \<Rightarrow> 'a timer_state_scheme \<Rightarrow>
   (hwTimer_OpResult \<times> u32 option) option" where
  "Timer_Read_Ticks env index ticks s =
     (if index \<ge> hwTimer_Index_MAX then Some (hwTimer_InvalidParameter, ticks)
      else if ticks = None then Some (hwTimer_InvalidParameter, ticks)
      else do {
        st \<leftarrow> cread (Timer_Init_Status s) (int index);
        if \<not> st then Some (hwTimer_NotInit, ticks)
        else Some (hwTimer_OK, Some (tim_counter env (hw_log s) index))
      })"

definition Timer_Read_uSec ::
  "hal_env \<Rightarrow> hwTimer_Index \<Rightarrow> u32 option \<Rightarrow> 'a timer_state_scheme \<Rightarrow>
   (hwTimer_OpResult \<times> u32 option) option" where
  "Timer_Read_uSec env index uSec s =
     (if index \<ge> hwTimer_Index_MAX then Some (hwTimer_InvalidParameter, uSec)
      else if uSec = None then Some (hwTimer_InvalidParameter, uSec)
      else do {
        st \<leftarrow> cread (Timer_Init_Status s) (int index);
        if \<not> st then Some (hwTimer_NotInit, uSec)
        else Timer_Read_Ticks env index uSec s
      })"

definition Timer_is_Init :: "hwTimer_Index \<Rightarrow> 'a timer_state_scheme \<Rightarrow> bool option" where
  "Timer_is_Init hw_index s =
     (if hw_index \<ge> hwTimer_Index_MAX then Some False
      else cread (Timer_Init_Status s) (int hw_index))"

section \<open>Well-formed memory, the tables entry by entry\<close>

definition timer_wf :: "'a timer_state_scheme \<Rightarrow> bool" where
  "timer_wf s \<longleftrightarrow> length (Timer_Init_Status s) = 14 \<and> length (Timer_IsPeriodic s) = 14 \<and>
     length (Timer_Expired_Handler s) = 14 \<and> length (g_timer s) = 14"

lemma timer_wfD:
  assumes "timer_wf s"
  shows "length (Timer_Init_Status s) = 14" "length (Timer_IsPeriodic s) = 14"
    "length (Timer_Expired_Handler s) = 14" "length (g_timer s) = 14"
  using assms by (simp_all add: timer_wf_def)

lemma emit_timer [simp]:
  fixes s :: "'a timer_state_scheme"
  shows "Timer_Init_Status (emit e s) = Timer_Init_Status s"
    "Timer_IsPeriodic (emit e s) = Timer_IsPeriodic s"
    "Timer_Expired_Handler (emit e s) = Timer_Expired_Handler s"
    "g_timer (emit e s) = g_timer s" "timer_wf (emit e s) = timer_wf s"
  by (simp_all add: emit_def timer_wf_def)

lemma Timer_Map_Soc_Base_eq: "i < 14 \<Longrightarrow> Timer_Map_Soc_Base i = Some (Suc i)"
  by (drule nat_less_cases_14, unfold insert_iff empty_iff) (elim disjE; simp add: Timer_Map_Soc_Base_def)

lemma timer_clk_eq:
  assumes "i < 14"
  shows "timer_clk_enable i s = emit (RCC_CLK_ENABLE (RCC_TIM (Suc i))) s"
    "timer_clk_disable i s = emit (RCC_CLK_DISABLE (RCC_TIM (Suc i))) s"
  using Timer_Map_Soc_Base_eq [OF assms]
  by (simp_all only: timer_clk_enable_def timer_clk_disable_def Timer_Map_Soc_Base_def option.case)

definition tirq :: "hwTimer_Index \<Rightarrow> irqn" where
  "tirq i = the (timer_irq i)"

lemma timer_irq_Some: "i < 14 \<Longrightarrow> timer_irq i = Some (tirq i)"
  by (drule nat_less_cases_14, unfold insert_iff empty_iff) (elim disjE; simp add: timer_irq_def tirq_def)

text \<open>Only TIM1 and TIM10, and TIM8 and TIM13, share an interrupt.\<close>

lemma tirq_eq_iff:
  assumes "i < 14" "j < 14"
  shows "tirq i = tirq j \<longleftrightarrow> i = j \<or> {i, j} = {0, 9} \<or> {i, j} = {7, 12}"
  using nat_less_cases_14 [OF assms(1)] nat_less_cases_14 [OF assms(2)]
  unfolding insert_iff empty_iff by (elim disjE; simp add: tirq_def timer_irq_def doubleton_eq_iff)

lemma timer_nvic_disable_eq:
  assumes "timer_wf s" "i < 14" "\<not> Timer_Init_Status s ! i"
  shows "timer_nvic_disable i s =
    Some (if \<exists>j<14. tirq j = tirq i \<and> Timer_Init_Status s ! j then s
          else emit (HAL_NVIC_DisableIRQ (tirq i)) s)"
proof -
  have irq: "tirq 0 = TIM1_UP_TIM10_IRQn" "tirq 9 = TIM1_UP_TIM10_IRQn"
    "tirq 7 = TIM8_UP_TIM13_IRQn" "tirq 12 = TIM8_UP_TIM13_IRQn"
    by (simp_all add: tirq_def timer_irq_def)
  have shared: "(\<exists>j<14. tirq j = tirq i \<and> Timer_Init_Status s ! j) \<longleftrightarrow>
      (i = 0 \<and> Timer_Init_Status s ! 9) \<or> (i = 9 \<and> Timer_Init_Status s ! 0) \<or>
      (i = 7 \<and> Timer_Init_Status s ! 12) \<or> (i = 12 \<and> Timer_Init_Status s ! 7)"
    (is "?L = ?R")
  proof
    assume ?L
    then show ?R using assms(2,3) by (auto simp: tirq_eq_iff doubleton_eq_iff)
  next
    assume ?R
    then consider "i = 0" "Timer_Init_Status s ! 9" | "i = 9" "Timer_Init_Status s ! 0" |
      "i = 7" "Timer_Init_Status s ! 12" | "i = 12" "Timer_Init_Status s ! 7" by blast
    then show ?L
    proof cases
      case 1 then show ?thesis by (intro exI [of _ 9]) (simp add: irq)
    next
      case 2 then show ?thesis by (intro exI [of _ 0]) (simp add: irq)
    next
      case 3 then show ?thesis by (intro exI [of _ 12]) (simp add: irq)
    next
      case 4 then show ?thesis by (intro exI [of _ 7]) (simp add: irq)
    qed
  qed
  show ?thesis
    unfolding shared using assms timer_wfD [OF assms(1)] irq
    by (auto simp: timer_nvic_disable_def timer_irq_Some)
qed

section \<open>The operations in closed form\<close>

definition timer_held :: "'a timer_state_scheme \<Rightarrow> hwTimer_Index set" where
  "timer_held s = {i. i < hwTimer_Index_MAX \<and> Timer_Init_Status s ! i}"

definition timer_handle :: "hal_env \<Rightarrow> hwTimer_Index \<Rightarrow> TIM_HandleTypeDef" where
  "timer_handle env i = \<lparr>tim_Instance = Some (Suc i),
     tim_Prescaler = Timer_GetInputClock env i div 1000000 - 1,
     tim_CounterMode = TIM_COUNTERMODE_UP, tim_Period = 999,
     tim_ClockDivision = TIM_CLOCKDIVISION_DIV1,
     tim_AutoReloadPreload = TIM_AUTORELOAD_PRELOAD_ENABLE\<rparr>"

definition timer_setup :: "hal_env \<Rightarrow> hwTimer_Index \<Rightarrow> 'a timer_state_scheme \<Rightarrow> 'a timer_state_scheme" where
  "timer_setup env i s =
     (let h = timer_handle env i;
          s1 = emit (HAL_NVIC_EnableIRQ (tirq i)) (emit (HAL_NVIC_SetPriority (tirq i) 5 0)
                 (emit (RCC_CLK_ENABLE (RCC_TIM (Suc i))) s));
          s2 = emit (HAL_TIM_Base_Init i h) (s1\<lparr>g_timer := (g_timer s)[i := h]\<rparr>)
      in s2\<lparr>Timer_Init_Status := (Timer_Init_Status s)[i := True]\<rparr>)"

definition timer_teardown :: "hwTimer_Index \<Rightarrow> 'a timer_state_scheme \<Rightarrow> 'a timer_state_scheme" where
  "timer_teardown i s =
     (let st = (Timer_Init_Status s)[i := False];
          s2 = emit (HAL_TIM_Base_DeInit i) (emit (HAL_TIM_Base_Stop_IT i)
                 (s\<lparr>Timer_Init_Status := st\<rparr>));
          s3 = (if \<exists>j<14. tirq j = tirq i \<and> st ! j then s2 else emit (HAL_NVIC_DisableIRQ (tirq i)) s2)
      in emit (RCC_CLK_DISABLE (RCC_TIM (Suc i))) s3)"

definition timer_run :: "hwTimer_Index \<Rightarrow> u32 \<Rightarrow> 'a timer_state_scheme \<Rightarrow> 'a timer_state_scheme" where
  "timer_run i d s =
     (let h = (g_timer s ! i)\<lparr>tim_Period := d - 1\<rparr> in
      emit (HAL_TIM_Base_Start_IT i) (emit (HAL_TIM_Base_Init i h)
        ((emit (HAL_TIM_Base_Stop_IT i) s)\<lparr>g_timer := (g_timer s)[i := h]\<rparr>)))"

lemma handle_overwritten:
  "g\<lparr>tim_Instance := a, tim_Prescaler := b, tim_CounterMode := c, tim_Period := d,
     tim_ClockDivision := e, tim_AutoReloadPreload := f\<rparr> =
   \<lparr>tim_Instance = a, tim_Prescaler = b, tim_CounterMode = c, tim_Period = d,
     tim_ClockDivision = e, tim_AutoReloadPreload = f\<rparr>"
  for g :: TIM_HandleTypeDef
  by (cases g) simp

lemma Timer_Init_eval:
  assumes "timer_wf s"
  shows "Timer_Init env i s =
    (if i \<ge> hwTimer_Index_MAX then Some (hwTimer_InvalidParameter, s)
     else if i \<in> timer_held s then Some (hwTimer_OK, s)
     else Some (hwTimer_OK, timer_setup env i s))"
proof (cases "i < 14")
  case True
  then show ?thesis
    using timer_wfD [OF assms]
    by (simp add: Timer_Init_def timer_held_def Timer_Map_Soc_Base_eq timer_nvic_enable_def
        timer_irq_Some timer_clk_eq timer_setup_def timer_handle_def handle_overwritten Let_def)
qed (simp add: Timer_Init_def)

lemma Timer_DeInit_eval:
  assumes "timer_wf s"
  shows "Timer_DeInit i s =
    (if i \<ge> hwTimer_Index_MAX then Some (hwTimer_InvalidParameter, s)
     else if i \<notin> timer_held s then Some (hwTimer_OK, s)
     else Some (hwTimer_OK, timer_teardown i s))"
proof (cases "i < 14")
  case True
  let ?s2 = "emit (HAL_TIM_Base_DeInit i) (emit (HAL_TIM_Base_Stop_IT i)
    (s\<lparr>Timer_Init_Status := (Timer_Init_Status s)[i := False]\<rparr>))"
  have "timer_wf ?s2" using timer_wfD [OF assms] by (simp add: timer_wf_def)
  moreover have "\<not> Timer_Init_Status ?s2 ! i" using True timer_wfD [OF assms] by simp
  ultimately show ?thesis
    using True timer_wfD [OF assms] timer_nvic_disable_eq [of ?s2 i]
    by (simp add: Timer_DeInit_def timer_held_def timer_clk_eq timer_teardown_def Let_def)
qed (simp add: Timer_DeInit_def)

lemma timer_restart_eval:
  "timer_wf s \<Longrightarrow> i < 14 \<Longrightarrow> timer_restart i d s = Some (timer_run i d s)"
  by (simp add: timer_restart_def timer_run_def timer_wfD Let_def)

lemma timer_setup_simps [simp]:
  "Timer_Init_Status (timer_setup env i s) = (Timer_Init_Status s)[i := True]"
  "Timer_IsPeriodic (timer_setup env i s) = Timer_IsPeriodic s"
  "Timer_Expired_Handler (timer_setup env i s) = Timer_Expired_Handler s"
  "g_timer (timer_setup env i s) = (g_timer s)[i := timer_handle env i]"
  "timer_wf (timer_setup env i s) = timer_wf s"
  by (simp_all add: timer_setup_def Let_def timer_wf_def)

lemma timer_teardown_simps [simp]:
  "Timer_Init_Status (timer_teardown i s) = (Timer_Init_Status s)[i := False]"
  "Timer_IsPeriodic (timer_teardown i s) = Timer_IsPeriodic s"
  "Timer_Expired_Handler (timer_teardown i s) = Timer_Expired_Handler s"
  "g_timer (timer_teardown i s) = g_timer s"
  "timer_wf (timer_teardown i s) = timer_wf s"
  by (simp_all add: timer_teardown_def Let_def timer_wf_def)

lemma timer_run_simps [simp]:
  "Timer_Init_Status (timer_run i d s) = Timer_Init_Status s"
  "Timer_IsPeriodic (timer_run i d s) = Timer_IsPeriodic s"
  "Timer_Expired_Handler (timer_run i d s) = Timer_Expired_Handler s"
  "g_timer (timer_run i d s) = (g_timer s)[i := (g_timer s ! i)\<lparr>tim_Period := d - 1\<rparr>]"
  "timer_wf (timer_run i d s) = timer_wf s"
  by (simp_all add: timer_run_def Let_def timer_wf_def)

section \<open>The timers as a resource table\<close>

lemma timer_held_update:
  assumes "timer_wf s" "i < 14"
  shows "timer_held (timer_setup env i s) = insert i (timer_held s)"
    "timer_held (timer_teardown i s) = timer_held s - {i}"
  using assms by (auto simp: timer_held_def nth_list_update timer_wfD split: if_splits)

definition timer_acquire :: "hal_env \<Rightarrow> _" where
  "timer_acquire env i s = Timer_Init env i s"

definition timer_release :: "hal_env \<Rightarrow> _" where
  "timer_release env i s = Timer_DeInit i s"

interpretation timers: resource_table timer_wf timer_held "\<lambda>env i. i < hwTimer_Index_MAX"
  timer_acquire timer_release
proof unfold_locales
  fix s :: "'a timer_state_scheme" and env i
  assume wf: "timer_wf s" and i: "i < hwTimer_Index_MAX"
  show "\<exists>r s'. timer_acquire env i s = Some (r, s') \<and> timer_wf s' \<and>
      timer_held s' = insert i (timer_held s)"
    using wf i by (auto simp: timer_acquire_def Timer_Init_eval timer_held_update)
  show "\<exists>r s'. timer_release env i s = Some (r, s') \<and> timer_wf s' \<and>
      timer_held s' = timer_held s - {i}"
    using wf i by (auto simp: timer_release_def Timer_DeInit_eval timer_held_update)
qed

definition timer_init_memory :: timer_state where
  "timer_init_memory = gpio_state.extend gpio_init_memory (timer_state.fields (replicate 14 False)
     (replicate 14 False) (replicate 14 None) (replicate 14 TIM_Handle_zero))"

definition timer_boot :: "'a timer_state_scheme \<Rightarrow> bool" where
  "timer_boot s \<longleftrightarrow> Timer_Init_Status s = replicate 14 False \<and>
     Timer_IsPeriodic s = replicate 14 False \<and> Timer_Expired_Handler s = replicate 14 None \<and>
     g_timer s = replicate 14 TIM_Handle_zero \<and> hw_log s = []"

lemma timer_boot_memory: "timer_boot timer_init_memory"
  by (simp add: timer_boot_def timer_init_memory_def timer_state.defs gpio_state.defs
      gpio_init_memory_def)

lemma timer_boot_wf: "timer_boot s \<Longrightarrow> timer_wf s"
  by (simp add: timer_boot_def timer_wf_def)

lemma timer_init_memory_simps [simp]:
  "timer_wf timer_init_memory" "timer_held timer_init_memory = {}" "hw_log timer_init_memory = []"
  using timer_boot_memory by (auto simp: timer_boot_wf timer_held_def timer_boot_def)

text \<open>
  Any sequence of Timer_Init and Timer_DeInit calls on existing timers is defined, and
  afterwards a timer is initialised exactly when the last call on it was Timer_Init, or there
  was none and it was initialised before.
\<close>

theorem timers_follow_last_call:
  fixes s :: "'a timer_state_scheme"
  assumes "timer_wf s" "\<forall>oper\<in>set ops. life_key oper < hwTimer_Index_MAX"
  shows "\<exists>s'. life_run timer_acquire timer_release ops s = Some s' \<and> timer_wf s' \<and>
    (\<forall>i. i \<in> timer_held s' \<longleftrightarrow> last_acquired ops i (i \<in> timer_held s))"
  using timers.run_held_iff [of s ops] assms by (simp add: timers.usable_op_def)

theorem timers_follow_last_call_witness:
  "\<exists>s'. life_run timer_acquire timer_release [Acquire board_env 1, Acquire board_env 4, Release board_env 1]
      timer_init_memory = Some s' \<and> 4 \<in> timer_held s' \<and> 1 \<notin> timer_held s'"
  using timers_follow_last_call [of timer_init_memory
      "[Acquire board_env 1, Acquire board_env 4, Release board_env 1]"]
  by fastforce

section \<open>Clocks and interrupts of the timers in use\<close>

text \<open>Whether a timer counts, with its update interrupt on, read off the events.\<close>

fun running_effect :: "nat \<Rightarrow> hw_event \<Rightarrow> bool \<Rightarrow> bool" where
  "running_effect i (HAL_TIM_Base_Start_IT j) b = (i = j \<or> b)"
| "running_effect i (HAL_TIM_Base_Stop_IT j) b = (i \<noteq> j \<and> b)"
| "running_effect i _ b = b"

definition tim_running :: "nat \<Rightarrow> hw_event list \<Rightarrow> bool" where
  "tim_running i es = fold (running_effect i) es False"

lemma tim_running_simps [simp]:
  "\<not> tim_running i []" "tim_running i (es @ fs) = fold (running_effect i) fs (tim_running i es)"
  by (simp_all add: tim_running_def)

text \<open>Whether a timer that is in use needs the interrupt of timer \<open>i\<close>.\<close>

definition irq_needed :: "bool list \<Rightarrow> nat \<Rightarrow> bool" where
  "irq_needed st i \<longleftrightarrow> (\<exists>j<14. tirq j = tirq i \<and> st ! j)"

lemma irq_needed_set:
  "length st = 14 \<Longrightarrow> k < 14 \<Longrightarrow>
     irq_needed (st[k := True]) i \<longleftrightarrow> tirq k = tirq i \<or> irq_needed st i"
  unfolding irq_needed_def by (metis nth_list_update)

lemma irq_needed_clear:
  "tirq k \<noteq> tirq i \<Longrightarrow> irq_needed (st[k := b]) i = irq_needed st i"
  unfolding irq_needed_def by (metis nth_list_update_neq)

lemma irq_needed_cong: "tirq k = tirq i \<Longrightarrow> irq_needed st k = irq_needed st i"
  by (simp add: irq_needed_def)

lemma irq_needed_mono: "irq_needed (st[k := False]) i \<Longrightarrow> irq_needed st i"
  unfolding irq_needed_def by (metis list_update_beyond not_less nth_list_update)

definition timer_ok :: "'a timer_state_scheme \<Rightarrow> nat \<Rightarrow> bool" where
  "timer_ok s i \<longleftrightarrow>
     (Timer_Init_Status s ! i \<longleftrightarrow> rcc_on (RCC_TIM (Suc i)) (hw_log s)) \<and>
     (nvic_on (tirq i) (hw_log s) \<longleftrightarrow> irq_needed (Timer_Init_Status s) i) \<and>
     (Timer_Init_Status s ! i \<longrightarrow> tim_Instance (g_timer s ! i) = Some (Suc i)) \<and>
     (tim_running i (hw_log s) \<longrightarrow> Timer_Init_Status s ! i)"

definition timer_inv :: "'a timer_state_scheme \<Rightarrow> bool" where
  "timer_inv s \<longleftrightarrow> timer_wf s \<and> (\<forall>i<14. timer_ok s i)"

lemma timer_setup_log:
  "hw_log (timer_setup env i s) = hw_log s @ [RCC_CLK_ENABLE (RCC_TIM (Suc i)),
     HAL_NVIC_SetPriority (tirq i) 5 0, HAL_NVIC_EnableIRQ (tirq i),
     HAL_TIM_Base_Init i (timer_handle env i)]"
  by (simp add: timer_setup_def Let_def)

lemma timer_teardown_log:
  "hw_log (timer_teardown i s) = hw_log s @ [HAL_TIM_Base_Stop_IT i, HAL_TIM_Base_DeInit i] @
     (if irq_needed ((Timer_Init_Status s)[i := False]) i then []
      else [HAL_NVIC_DisableIRQ (tirq i)]) @ [RCC_CLK_DISABLE (RCC_TIM (Suc i))]"
  by (simp add: timer_teardown_def Let_def flip: irq_needed_def)

lemma timer_run_log:
  "hw_log (timer_run i d s) = hw_log s @ [HAL_TIM_Base_Stop_IT i,
     HAL_TIM_Base_Init i ((g_timer s ! i)\<lparr>tim_Period := d - 1\<rparr>), HAL_TIM_Base_Start_IT i]"
  by (simp add: timer_run_def Let_def)

lemma timer_inv_setup:
  assumes "timer_inv s" "k < 14"
  shows "timer_inv (timer_setup env k s)"
proof -
  note len = timer_wfD [of s]
  have "timer_ok (timer_setup env k s) i" if "timer_wf s" "timer_ok s i" "i < 14" for i
    using that len assms(2)
    by (cases "i = k")
      (auto simp: timer_ok_def timer_setup_log rcc_on_app nvic_on_app irq_needed_set
        timer_handle_def)
  with assms show ?thesis by (simp add: timer_inv_def)
qed

lemma timer_inv_teardown:
  assumes "timer_inv s" "k < 14"
  shows "timer_inv (timer_teardown k s)"
proof -
  note len = timer_wfD [of s]
  have "timer_ok (timer_teardown k s) i" if "timer_wf s" "timer_ok s i" "i < 14" for i
  proof (cases "tirq i = tirq k")
    case True
    then show ?thesis
      using that len assms(2) irq_needed_cong [OF True] irq_needed_mono [of "Timer_Init_Status s" k k]
      by (cases "i = k") (auto simp: timer_ok_def timer_teardown_log rcc_on_app nvic_on_app)
  next
    case False
    then have "i \<noteq> k" by auto
    with False show ?thesis
      using that irq_needed_clear [of k i "Timer_Init_Status s" False]
      by (auto simp: timer_ok_def timer_teardown_log rcc_on_app nvic_on_app)
  qed
  with assms show ?thesis by (simp add: timer_inv_def)
qed

lemma timer_inv_run:
  assumes "timer_inv s" "k < 14" "Timer_Init_Status s ! k"
  shows "timer_inv (timer_run k d s)"
proof -
  have "timer_ok (timer_run k d s) i" if "timer_wf s" "timer_ok s i" "i < 14" for i
    using that timer_wfD [of s] assms(2,3)
    by (cases "i = k") (auto simp: timer_ok_def timer_run_log rcc_on_app nvic_on_app)
  with assms show ?thesis by (simp add: timer_inv_def)
qed

section \<open>The abstract timer\<close>

text \<open>
  What a timer is to a client: whether it is in use and counting, and what it does when it
  expires. The commands of one timer act on its view alone.
\<close>

record timer_view =
  tv_on :: bool
  tv_running :: bool
  tv_periodic :: bool
  tv_handler :: "nat option"
  tv_period :: u32

datatype timer_cmd = Cmd_Init | Cmd_DeInit | Cmd_OneShout u32 "nat option"
  | Cmd_Period u32 "nat option" | Cmd_Reload u32 | Cmd_Stop | Cmd_Expire

definition view_start :: "u32 \<Rightarrow> timer_view \<Rightarrow> timer_view" where
  "view_start d v = v\<lparr>tv_running := True, tv_period := d - 1\<rparr>"

fun view_step :: "timer_cmd \<Rightarrow> timer_view \<Rightarrow> timer_view" where
  "view_step Cmd_Init v = (if tv_on v then v else v\<lparr>tv_on := True, tv_period := 999\<rparr>)"
| "view_step Cmd_DeInit v = (if tv_on v then v\<lparr>tv_on := False, tv_running := False\<rparr> else v)"
| "view_step (Cmd_OneShout d f) v =
     (if tv_on v \<and> d \<noteq> 0 then view_start d (v\<lparr>tv_periodic := False, tv_handler := f\<rparr>) else v)"
| "view_step (Cmd_Period d f) v =
     (if tv_on v \<and> d \<noteq> 0 then view_start d (v\<lparr>tv_periodic := True, tv_handler := f\<rparr>) else v)"
| "view_step (Cmd_Reload d) v = (if tv_on v \<and> d \<noteq> 0 then view_start d v else v)"
| "view_step Cmd_Stop v = (if tv_on v then v\<lparr>tv_running := False\<rparr> else v)"
| "view_step Cmd_Expire v = (if tv_periodic v then v else v\<lparr>tv_running := False\<rparr>)"

definition timer_view_of :: "'a timer_state_scheme \<Rightarrow> hwTimer_Index \<Rightarrow> timer_view" where
  "timer_view_of s i = \<lparr>tv_on = Timer_Init_Status s ! i, tv_running = tim_running i (hw_log s),
     tv_periodic = Timer_IsPeriodic s ! i, tv_handler = Timer_Expired_Handler s ! i,
     tv_period = tim_Period (g_timer s ! i)\<rparr>"

text \<open>The code's functions behind the commands.\<close>

fun timer_exec ::
  "hal_env \<Rightarrow> hwTimer_Index \<Rightarrow> timer_cmd \<Rightarrow> 'a timer_state_scheme \<Rightarrow> 'a timer_state_scheme option" where
  "timer_exec env i Cmd_Init s = map_option snd (Timer_Init env i s)"
| "timer_exec env i Cmd_DeInit s = map_option snd (Timer_DeInit i s)"
| "timer_exec env i (Cmd_OneShout d f) s = map_option snd (Timer_Start_OneShout i d f s)"
| "timer_exec env i (Cmd_Period d f) s = map_option snd (Timer_Start_Period i d f s)"
| "timer_exec env i (Cmd_Reload d) s = map_option snd (Timer_Reload i d s)"
| "timer_exec env i Cmd_Stop s = map_option snd (Timer_Stop i s)"
| "timer_exec env i Cmd_Expire s = HAL_TIM_PeriodElapsedCallback i s"

lemma elapsed_loop_eval:
  assumes "timer_wf s" "i \<in> set is" "distinct is" "i < 14"
  shows "elapsed_loop is i s =
    (let s1 = (case Timer_Expired_Handler s ! i of None \<Rightarrow> s
               | Some f \<Rightarrow> emit (TIMER_HANDLER_CALL f i) s)
     in Some (if Timer_IsPeriodic s ! i then s1 else emit (HAL_TIM_Base_Stop_IT i) s1))"
  using assms(2,3)
proof (induction "is")
  case (Cons j js)
  then show ?case
    using assms(1,4) timer_wfD [OF assms(1)]
    by (auto simp: Let_def split: option.splits)
qed simp

lemma elapsed_eval:
  assumes "timer_wf s" "i < 14"
  shows "HAL_TIM_PeriodElapsedCallback i s = Some (s\<lparr>hw_log := hw_log s @
    (case Timer_Expired_Handler s ! i of None \<Rightarrow> [] | Some f \<Rightarrow> [TIMER_HANDLER_CALL f i]) @
    (if Timer_IsPeriodic s ! i then [] else [HAL_TIM_Base_Stop_IT i])\<rparr>)"
  using elapsed_loop_eval [OF assms(1), of i "[0..<14]"] assms
  by (auto simp: HAL_TIM_PeriodElapsedCallback_def emit_def simp del: upt_rec_numeral
      split: option.splits)

lemma view_of_setup:
  "timer_wf s \<Longrightarrow> k < 14 \<Longrightarrow> timer_view_of (timer_setup env i s) k =
     (if k = i then (timer_view_of s i)\<lparr>tv_on := True, tv_period := 999\<rparr> else timer_view_of s k)"
  by (simp add: timer_view_of_def timer_setup_log timer_handle_def timer_wfD)

lemma view_of_teardown:
  "timer_wf s \<Longrightarrow> k < 14 \<Longrightarrow> timer_view_of (timer_teardown i s) k =
     (if k = i then (timer_view_of s i)\<lparr>tv_on := False, tv_running := False\<rparr> else timer_view_of s k)"
  by (simp add: timer_view_of_def timer_teardown_log timer_wfD)

lemma view_of_run:
  "timer_wf s \<Longrightarrow> k < 14 \<Longrightarrow> timer_view_of (timer_run i d s) k =
     (if k = i then view_start d (timer_view_of s i) else timer_view_of s k)"
  by (simp add: timer_view_of_def timer_run_log view_start_def timer_wfD)

lemma timer_exec_refines:
  assumes "timer_wf s" "i < 14"
  shows "\<exists>s'. timer_exec env i cmd s = Some s' \<and> timer_wf s' \<and>
    (\<forall>k<14. timer_view_of s' k =
       (if k = i then view_step cmd (timer_view_of s i) else timer_view_of s k))"
proof -
  note len = timer_wfD [OF assms(1)]
  have on: "tv_on (timer_view_of s i) \<longleftrightarrow> i \<in> timer_held s"
    using assms(2) by (simp add: timer_view_of_def timer_held_def)
  have upd: "timer_wf (s\<lparr>Timer_Expired_Handler := (Timer_Expired_Handler s)[i := f],
      Timer_IsPeriodic := (Timer_IsPeriodic s)[i := p]\<rparr>)" for f p
    using len by (simp add: timer_wf_def)
  have view: "timer_view_of (s\<lparr>Timer_Expired_Handler := (Timer_Expired_Handler s)[i := f],
      Timer_IsPeriodic := (Timer_IsPeriodic s)[i := p]\<rparr>) k =
    (if k = i then (timer_view_of s i)\<lparr>tv_periodic := p, tv_handler := f\<rparr>
     else timer_view_of s k)" if "k < 14" for f p k
    using that len by (simp add: timer_view_of_def)
  show ?thesis
  proof (cases cmd)
    case Cmd_Init
    then show ?thesis
      using assms on by (simp add: Timer_Init_eval view_of_setup)
  next
    case Cmd_DeInit
    then show ?thesis
      using assms on by (simp add: Timer_DeInit_eval view_of_teardown)
  next
    case (Cmd_OneShout d f)
    then show ?thesis
      using assms on len upd view
      by (simp add: Timer_Start_OneShout_def timer_restart_eval view_of_run timer_held_def)
  next
    case (Cmd_Period d f)
    then show ?thesis
      using assms on len upd view
      by (simp add: Timer_Start_Period_def timer_restart_eval view_of_run timer_held_def)
  next
    case (Cmd_Reload d)
    then show ?thesis
      using assms on len
      by (simp add: Timer_Reload_def timer_restart_eval view_of_run timer_held_def)
  next
    case Cmd_Stop
    then show ?thesis
      using assms on len
      by (simp add: Timer_Stop_def timer_held_def) (simp add: timer_view_of_def)
  next
    case Cmd_Expire
    then show ?thesis
      using assms len
      by (auto simp: elapsed_eval timer_wf_def timer_view_of_def split: option.splits)
  qed
qed

fun timer_exec_all ::
  "hal_env \<Rightarrow> (hwTimer_Index \<times> timer_cmd) list \<Rightarrow> 'a timer_state_scheme \<Rightarrow> 'a timer_state_scheme option" where
  "timer_exec_all env [] s = Some s"
| "timer_exec_all env ((i, cmd) # cs) s =
     do { s1 \<leftarrow> timer_exec env i cmd s; timer_exec_all env cs s1 }"

text \<open>
  C8: The driver implements fourteen independent abstract timers: running any sequence of
  Timer_Init, Timer_DeInit, Timer_Start_OneShout, Timer_Start_Period, Timer_Reload, Timer_Stop
  and expiry callbacks on the fourteen timers is defined, and each timer's view (in use,
  counting, periodic, handler, period) ends as the abstract machine computes it from the
  commands addressed to that timer alone. In particular a command on a timer that is not
  initialised, and a start with duration 0, change nothing.
\<close>

theorem timers_refine_abstract_timers:
  assumes "timer_wf s" "\<forall>(i, cmd)\<in>set cs. i < hwTimer_Index_MAX"
  shows "\<exists>s'. timer_exec_all env cs s = Some s' \<and> timer_wf s' \<and>
    (\<forall>k<14. timer_view_of s' k =
       fold view_step (map snd (filter (\<lambda>(i, cmd). i = k) cs)) (timer_view_of s k))"
  using assms
proof (induction cs arbitrary: s)
  case (Cons c cs)
  obtain i cmd where c: "c = (i, cmd)" "i < 14" using Cons.prems(2) by (cases c) auto
  obtain s1 where s1: "timer_exec env i cmd s = Some s1" "timer_wf s1"
    "\<forall>k<14. timer_view_of s1 k =
       (if k = i then view_step cmd (timer_view_of s i) else timer_view_of s k)"
    using timer_exec_refines [OF Cons.prems(1) c(2)] by blast
  from Cons.IH [OF s1(2)] Cons.prems(2) show ?case
    using s1 by (auto simp: c)
qed simp

theorem timers_refine_abstract_timers_witness:
  "\<exists>s'. timer_exec_all board_env [(1, Cmd_Init), (4, Cmd_Init), (1, Cmd_OneShout 250 (Some 8)),
      (4, Cmd_Period 20 None), (1, Cmd_Expire), (4, Cmd_Stop), (4, Cmd_Reload 30)]
      timer_init_memory = Some s' \<and>
    \<not> tv_running (timer_view_of s' 1) \<and> tv_period (timer_view_of s' 4) = 29 \<and>
    tv_running (timer_view_of s' 4)"
proof -
  have off: "\<not> tv_on (timer_view_of timer_init_memory k)" if "k < 14" for k
    using that timer_boot_memory by (simp add: timer_view_of_def timer_boot_def)
  show ?thesis
    using timers_refine_abstract_timers [of timer_init_memory "[(1, Cmd_Init), (4, Cmd_Init),
        (1, Cmd_OneShout 250 (Some 8)), (4, Cmd_Period 20 None), (1, Cmd_Expire), (4, Cmd_Stop),
        (4, Cmd_Reload 30)]" board_env] off [of 1] off [of 4]
    by (auto simp: view_start_def)
qed

section \<open>Reachable states\<close>

inductive timer_step :: "hal_env \<Rightarrow> 'a timer_state_scheme \<Rightarrow> 'a timer_state_scheme \<Rightarrow> bool"
  for env where
  command: "timer_exec env i cmd s = Some s' \<Longrightarrow> timer_step env s s'"
| interrupt: "TIM_IRQHandler env q s = Some s' \<Longrightarrow> timer_step env s s'"

inductive timer_reach :: "hal_env \<Rightarrow> 'a timer_state_scheme \<Rightarrow> bool" for env where
  boot: "timer_boot s \<Longrightarrow> timer_reach env s"
| step: "timer_reach env s \<Longrightarrow> timer_step env s s' \<Longrightarrow> timer_reach env s'"

lemma timer_inv_boot: "timer_boot s \<Longrightarrow> timer_inv s"
  by (auto simp: timer_inv_def timer_boot_wf timer_ok_def irq_needed_def)
    (simp_all add: timer_boot_def)

text \<open>Events that only stop timers or are no business of theirs keep the invariant.\<close>

lemma timer_inv_log:
  assumes "timer_inv s" "\<And>i. rcc_on (RCC_TIM (Suc i)) (hw_log s @ es) = rcc_on (RCC_TIM (Suc i)) (hw_log s)"
    "\<And>q. nvic_on q (hw_log s @ es) = nvic_on q (hw_log s)"
    "\<And>i. tim_running i (hw_log s @ es) \<Longrightarrow> tim_running i (hw_log s)"
  shows "timer_inv (s\<lparr>hw_log := hw_log s @ es\<rparr>)"
  using assms by (auto simp: timer_inv_def timer_ok_def timer_wf_def simp del: tim_running_simps)

lemma timer_inv_elapsed:
  assumes "timer_inv s" "HAL_TIM_PeriodElapsedCallback i s = Some s'"
  shows "timer_inv s'"
proof (cases "i < 14")
  case True
  from assms(1) have wf: "timer_wf s" by (simp add: timer_inv_def)
  show ?thesis
    using assms(2) unfolding elapsed_eval [OF wf True] option.inject
    by (elim subst, intro timer_inv_log [OF assms(1)])
      (auto simp: rcc_on_app nvic_on_app split: option.splits if_splits)
next
  case False
  then have "elapsed_loop is i s = Some s" if "set is \<subseteq> {..<14}" for "is"
    using that by (induction "is") auto
  from this [of "[0..<14]"] show ?thesis
    using assms by (simp add: HAL_TIM_PeriodElapsedCallback_def atLeast0LessThan del: upt_rec_numeral)
qed

lemma timer_inv_serve:
  assumes "timer_inv s" "serve_timers env is s = Some s'"
  shows "timer_inv s'"
  using assms
proof (induction env "is" s rule: serve_timers.induct)
  case (2 env i "is" s)
  have e: "timer_inv (emit (HAL_TIM_IRQHandler i) s)"
    using timer_inv_log [OF 2(2), of "[HAL_TIM_IRQHandler i]"]
    by (simp add: emit_def rcc_on_app nvic_on_app)
  from 2(3) obtain s1 where s1: "Timer_HAL_IRQHandler env i s = Some s1" "serve_timers env is s1 = Some s'"
    by (auto simp: bind_eq_Some_conv)
  then have "timer_inv s1"
    using e by (auto simp: Timer_HAL_IRQHandler_def Let_def dest: timer_inv_elapsed split: if_splits)
  with 2(1) s1 show ?case by blast
qed simp

lemma timer_inv_upd:
  "timer_inv s \<Longrightarrow> timer_inv (s\<lparr>Timer_Expired_Handler := (Timer_Expired_Handler s)[i := f],
     Timer_IsPeriodic := (Timer_IsPeriodic s)[i := p]\<rparr>)"
  by (auto simp: timer_inv_def timer_ok_def timer_wf_def)

lemma timer_inv_exec:
  assumes "timer_inv s" "timer_exec env i cmd s = Some s'"
  shows "timer_inv s'"
proof -
  have wf: "timer_wf s" using assms(1) by (simp add: timer_inv_def)
  note len = timer_wfD [OF wf]
  note upd = timer_inv_upd [OF assms(1)]
  have wf': "timer_wf (s\<lparr>Timer_Expired_Handler := (Timer_Expired_Handler s)[i := f],
      Timer_IsPeriodic := (Timer_IsPeriodic s)[i := p]\<rparr>)" for f p
    using len by (simp add: timer_wf_def)
  show ?thesis
  proof (cases cmd)
    case Cmd_Init
    with assms wf show ?thesis
      by (auto simp: Timer_Init_eval timer_inv_setup split: if_splits)
  next
    case Cmd_DeInit
    with assms wf show ?thesis
      by (auto simp: Timer_DeInit_eval timer_inv_teardown split: if_splits)
  next
    case (Cmd_OneShout d f)
    with assms wf wf' len show ?thesis
      by (auto simp: Timer_Start_OneShout_def timer_restart_eval timer_inv_run upd split: if_splits)
  next
    case (Cmd_Period d f)
    with assms wf wf' len show ?thesis
      by (auto simp: Timer_Start_Period_def timer_restart_eval timer_inv_run upd split: if_splits)
  next
    case (Cmd_Reload d)
    with assms wf len show ?thesis
      by (auto simp: Timer_Reload_def timer_restart_eval timer_inv_run split: if_splits)
  next
    case Cmd_Stop
    with assms len show ?thesis
      using timer_inv_log [OF assms(1), of "[HAL_TIM_Base_Stop_IT i]"]
      by (auto simp: Timer_Stop_def emit_def rcc_on_app nvic_on_app split: if_splits)
  next
    case Cmd_Expire
    with assms show ?thesis by (auto dest: timer_inv_elapsed)
  qed
qed

lemma timer_reach_inv: "timer_reach env s \<Longrightarrow> timer_inv s"
proof (induction rule: timer_reach.induct)
  case (step s s')
  from step.hyps(2) step.IH show ?case
    by (cases rule: timer_step.cases)
      (auto simp: TIM_IRQHandler_def dest: timer_inv_exec timer_inv_serve)
qed (rule timer_inv_boot)

text \<open>
  C17: In every reachable state of the timer driver, whatever calls and interrupts led to it, a
  timer is recorded as initialised exactly when its clock is enabled; an interrupt, including
  the two that a pair of timers shares, is enabled in the NVIC exactly while a timer that
  needs it is initialised; an initialised timer's handle points to its own hardware; and only
  initialised timers count.
\<close>

theorem timer_clocks_and_interrupts:
  assumes "timer_reach env s" "i < hwTimer_Index_MAX"
  shows "(Timer_Init_Status s ! i \<longleftrightarrow> rcc_on (RCC_TIM (Suc i)) (hw_log s)) \<and>
    (nvic_on (tirq i) (hw_log s) \<longleftrightarrow> (\<exists>j<14. tirq j = tirq i \<and> Timer_Init_Status s ! j)) \<and>
    (\<not> Timer_Init_Status s ! i \<or> tim_Instance (g_timer s ! i) = Some (Suc i)) \<and>
    (\<not> tim_running i (hw_log s) \<or> Timer_Init_Status s ! i)"
  using timer_reach_inv [OF assms(1)] assms(2)
  by (auto simp: timer_inv_def timer_ok_def irq_needed_def)

text \<open>TIM1 and TIM10 initialised and TIM1 given back.\<close>

definition TIM10_memory :: "hal_env \<Rightarrow> timer_state" where
  "TIM10_memory env = timer_teardown 0 (timer_setup env 9 (timer_setup env 0 timer_init_memory))"

lemma reach_TIM10: "timer_reach env (TIM10_memory env)"
proof -
  have "timer_exec env 0 Cmd_Init timer_init_memory = Some (timer_setup env 0 timer_init_memory)"
    "timer_exec env 9 Cmd_Init (timer_setup env 0 timer_init_memory) =
       Some (timer_setup env 9 (timer_setup env 0 timer_init_memory))"
    "timer_exec env 0 Cmd_DeInit (timer_setup env 9 (timer_setup env 0 timer_init_memory)) =
       Some (TIM10_memory env)"
    by (simp_all add: Timer_Init_eval Timer_DeInit_eval timer_held_update TIM10_memory_def)
  then show ?thesis
    by (meson timer_reach.intros timer_step.command timer_boot_memory)
qed

theorem timer_clocks_and_interrupts_witness:
  "nvic_on TIM1_UP_TIM10_IRQn (hw_log (TIM10_memory board_env)) \<and>
   \<not> rcc_on (RCC_TIM 1) (hw_log (TIM10_memory board_env))"
proof -
  have st: "Timer_Init_Status (TIM10_memory board_env) = (replicate 14 False)[0 := True, 9 := True, 0 := False]"
    using timer_boot_memory by (simp add: TIM10_memory_def timer_boot_def)
  have irq: "tirq 0 = TIM1_UP_TIM10_IRQn" "tirq 9 = TIM1_UP_TIM10_IRQn"
    by (simp_all add: tirq_def timer_irq_def)
  show ?thesis
    using timer_clocks_and_interrupts [OF reach_TIM10, of 0 board_env]
      timer_clocks_and_interrupts [OF reach_TIM10, of 9 board_env] st irq
    by (auto intro: exI [of _ 9])
qed

section \<open>Expiry\<close>

text \<open>
  A timer started as one-shot calls its handler once when it expires and is stopped by
  that expiry; started as periodic it calls its handler at each expiry and keeps counting.
  This holds on every initialised timer and every duration but 0, whatever it did before.
\<close>

theorem expiry_calls_handler:
  fixes s :: "'a timer_state_scheme"
  assumes "timer_wf s" "i \<in> timer_held s" "d \<noteq> 0"
  shows "(\<exists>s1 s2. Timer_Start_OneShout i d (Some f) s = Some (hwTimer_OK, s1) \<and>
      tim_running i (hw_log s1) \<and> HAL_TIM_PeriodElapsedCallback i s1 = Some s2 \<and>
      hw_log s2 = hw_log s1 @ [TIMER_HANDLER_CALL f i, HAL_TIM_Base_Stop_IT i] \<and>
      \<not> tim_running i (hw_log s2)) \<and>
    (\<exists>s1 s2. Timer_Start_Period i d (Some f) s = Some (hwTimer_OK, s1) \<and>
      tim_running i (hw_log s1) \<and> HAL_TIM_PeriodElapsedCallback i s1 = Some s2 \<and>
      hw_log s2 = hw_log s1 @ [TIMER_HANDLER_CALL f i] \<and> tim_running i (hw_log s2))"
proof -
  have i: "i < 14" "Timer_Init_Status s ! i" using assms(2) by (auto simp: timer_held_def)
  note len = timer_wfD [OF assms(1)]
  let ?t = "\<lambda>p. timer_run i d (s\<lparr>Timer_Expired_Handler := (Timer_Expired_Handler s)[i := Some f],
      Timer_IsPeriodic := (Timer_IsPeriodic s)[i := p]\<rparr>)"
  have wf: "timer_wf (?t p)" for p using len by (simp add: timer_wf_def)
  have start: "Timer_Start_OneShout i d (Some f) s = Some (hwTimer_OK, ?t False)"
    "Timer_Start_Period i d (Some f) s = Some (hwTimer_OK, ?t True)"
    using i len assms(3)
    by (simp_all add: Timer_Start_OneShout_def Timer_Start_Period_def timer_restart_eval timer_wf_def)
  have run: "tim_running i (hw_log (?t p))" for p by (simp add: timer_run_log)
  have "HAL_TIM_PeriodElapsedCallback i (?t p) = Some ((?t p)\<lparr>hw_log := hw_log (?t p) @
      TIMER_HANDLER_CALL f i # (if p then [] else [HAL_TIM_Base_Stop_IT i])\<rparr>)" for p
    using i len by (simp add: elapsed_eval [OF wf])
  then show ?thesis using start run by (auto simp del: timer_run_simps)
qed

theorem expiry_calls_handler_witness:
  "\<exists>s1 s2. Timer_Start_OneShout 3 500 (Some 9) (timer_setup board_env 3 timer_init_memory) =
      Some (hwTimer_OK, s1) \<and> HAL_TIM_PeriodElapsedCallback 3 s1 = Some s2 \<and>
      \<not> tim_running 3 (hw_log s2)"
proof -
  have "3 \<in> timer_held (timer_setup board_env 3 timer_init_memory)" by (simp add: timer_held_update)
  from expiry_calls_handler [OF _ this, of 500 9] show ?thesis by auto
qed

section \<open>Time\<close>

text \<open>
  The timers count microseconds: when the input clock of a timer is a multiple of 1 MHz,
  Timer_Init programs the prescaler so that one tick takes one microsecond, and starting or
  reloading the timer with duration d programs a period of d ticks; the two factors multiply
  to d microseconds of the input clock without wrapping, for every d from 1 to 2^32 - 1. This is
  what the handle says; the counters of all timers but TIM2 and TIM5 have 16 bits only, and the
  driver does not check that the period fits.
\<close>

theorem tick_is_one_microsecond:
  fixes s :: "'a timer_state_scheme"
  assumes "timer_wf s" "i < hwTimer_Index_MAX" "i \<notin> timer_held s" "d \<noteq> 0"
    "1000000 dvd unat (Timer_GetInputClock env i)" "Timer_GetInputClock env i \<noteq> 0"
  shows "\<exists>s1 s2. Timer_Init env i s = Some (hwTimer_OK, s1) \<and>
    Timer_Reload i d s1 = Some (hwTimer_OK, s2) \<and>
    (unat (tim_Prescaler (g_timer s1 ! i)) + 1) * 1000000 = unat (Timer_GetInputClock env i) \<and>
    unat (tim_Period (g_timer s2 ! i)) + 1 = unat d \<and>
    (unat (tim_Prescaler (g_timer s2 ! i)) + 1) * (unat (tim_Period (g_timer s2 ! i)) + 1) * 1000000 =
      unat (Timer_GetInputClock env i) * unat d"
proof -
  let ?c = "Timer_GetInputClock env i" and ?s1 = "timer_setup env i s"
  note len = timer_wfD [OF assms(1)]
  have init: "Timer_Init env i s = Some (hwTimer_OK, ?s1)"
    using assms by (simp add: Timer_Init_eval)
  have reload: "Timer_Reload i d ?s1 = Some (hwTimer_OK, timer_run i d ?s1)"
    using assms len by (simp add: Timer_Reload_def timer_restart_eval)
  obtain k where k: "unat ?c = 1000000 * k" using assms(5) by (auto elim: dvdE)
  have "k \<noteq> 0" using assms(6) k by (metis mult_0_right unat_eq_0)
  have q: "unat (?c div 1000000) = k" by (simp add: unat_div k)
  then have "?c div 1000000 \<noteq> 0" using \<open>k \<noteq> 0\<close> by auto
  then have pre: "unat (?c div 1000000 - 1) + 1 = k"
    using q \<open>k \<noteq> 0\<close> by (simp add: unat_minus_one)
  have per: "unat (d - 1) + 1 = unat d"
    using assms(4) by (simp add: unat_minus_one unat_gt_0)
  have prod: "(unat (?c div 1000000 - 1) + 1) * (unat (d - 1) + 1) * 1000000 = unat ?c * unat d"
    unfolding pre per k by simp
  have val: "tim_Prescaler (g_timer ?s1 ! i) = ?c div 1000000 - 1"
    "tim_Prescaler (g_timer (timer_run i d ?s1) ! i) = ?c div 1000000 - 1"
    "tim_Period (g_timer (timer_run i d ?s1) ! i) = d - 1"
    using assms(2) len by (simp_all add: timer_handle_def)
  show ?thesis
    by (rule exI [of _ ?s1], rule exI [of _ "timer_run i d ?s1"], unfold val prod per pre)
      (simp only: init reload k ac_simps simp_thms)
qed

theorem tick_is_one_microsecond_witness:
  "\<exists>s1 s2. Timer_Init board_env 0 timer_init_memory = Some (hwTimer_OK, s1) \<and>
    Timer_Reload 0 2500 s1 = Some (hwTimer_OK, s2) \<and>
    unat (tim_Prescaler (g_timer s1 ! 0)) = 119 \<and> unat (tim_Period (g_timer s2 ! 0)) = 2499"
proof -
  have clk: "Timer_GetInputClock board_env 0 = 120000000"
    by (simp add: Timer_GetInputClock_def GetAPB2TimerClock_def board_env_def)
  show ?thesis
    using tick_is_one_microsecond [of timer_init_memory 0 2500 board_env] unfolding clk by auto
qed

section \<open>Shared interrupts\<close>

text \<open>
  The handlers of the shared interrupts pass both handles to the HAL whether or not both
  timers were initialised: with TIM1 initialised after reset and TIM10 never, serving
  TIM1_UP_TIM10 calls HAL_TIM_IRQHandler on the handle of TIM10, whose Instance is still NULL.
\<close>

theorem shared_interrupt_uses_unset_handle:
  assumes "timer_boot s"
  shows "\<exists>s1 s2. Timer_Init env 0 s = Some (hwTimer_OK, s1) \<and>
    TIM_IRQHandler env TIM1_UP_TIM10_IRQn s1 = Some s2 \<and>
    HAL_TIM_IRQHandler 9 \<in> set (hw_log s2) \<and> tim_Instance (g_timer s2 ! 9) = None"
proof -
  note wf = timer_boot_wf [OF assms]
  let ?s1 = "timer_setup env 0 s"
  have init: "Timer_Init env 0 s = Some (hwTimer_OK, ?s1)"
    using assms wf by (simp add: Timer_Init_eval timer_held_def timer_boot_def)
  have irq: "\<exists>s'. Timer_HAL_IRQHandler env i t = Some s' \<and> timer_wf s' \<and> g_timer s' = g_timer t \<and>
      HAL_TIM_IRQHandler i \<in> set (hw_log s')"
    if "timer_wf t" "i < 14" for i t
    using that elapsed_eval [of "emit (HAL_TIM_IRQHandler i) t" i]
    by (auto simp: Timer_HAL_IRQHandler_def Let_def) (simp_all add: timer_wf_def)
  obtain s2 where s2: "Timer_HAL_IRQHandler env 0 ?s1 = Some s2" "timer_wf s2" "g_timer s2 = g_timer ?s1"
    using irq [of ?s1 0] wf by auto
  obtain s3 where s3: "Timer_HAL_IRQHandler env 9 s2 = Some s3" "g_timer s3 = g_timer s2"
    "HAL_TIM_IRQHandler 9 \<in> set (hw_log s3)"
    using irq [of s2 9] s2 by auto
  have "tim_Instance (g_timer s3 ! 9) = None"
    using assms s2(3) s3(2) by (simp add: timer_boot_def TIM_Handle_zero_def)
  then show ?thesis
    using init s2(1) s3 by (simp add: TIM_IRQHandler_def irq_timers_def)
qed

theorem shared_interrupt_uses_unset_handle_witness:
  "\<exists>s1 s2. Timer_Init board_env 0 timer_init_memory = Some (hwTimer_OK, s1) \<and>
    TIM_IRQHandler board_env TIM1_UP_TIM10_IRQn s1 = Some s2 \<and>
    HAL_TIM_IRQHandler 9 \<in> set (hw_log s2)"
  using shared_interrupt_uses_unset_handle [OF timer_boot_memory] by blast

end
