(* ===== verification/PWM_Pin.thy ===== *)
theory PWM_Pin
  imports GPIO Timer
begin

text \<open>
  The PWM channels of the STM32F207 boards: \<open>Driver/PWM/PWM_Index.h\<close> numbers them, and
  \<open>Driver/PWM/Pin/PWM_Pin_STM32F207xx.h\<close> says which timer, timer channel and pin each one
  uses, for three pin sets a timer, and which alternate function routes a timer to a pin.
\<close>

type_synonym hwPWM_Channel = nat

abbreviation (input) hwPWM_Channel_MAX :: hwPWM_Channel where "hwPWM_Channel_MAX \<equiv> 32"
abbreviation (input) hwPWM_Base_MAX :: nat where "hwPWM_Base_MAX \<equiv> 12"
abbreviation (input) PWM_Pinset_DEFAULT :: nat where "PWM_Pinset_DEFAULT \<equiv> 0"
abbreviation (input) PWM_Pinset_MAX :: nat where "PWM_Pinset_MAX \<equiv> 3"

record PWM_Pin_Def =
  def_channel :: hwPWM_Channel
  def_timer :: hwTimer_Index
  def_pin :: hwGPIO_Pin
  def_chx :: u8
  def_is_n :: u8

record PWM_AF_Map =
  af_timer :: hwTimer_Index
  af_pin :: hwGPIO_Pin
  af_af :: u8

definition pwm_pin :: "hwPWM_Channel \<Rightarrow> hwTimer_Index \<Rightarrow> hwGPIO_Pin \<Rightarrow> u8 \<Rightarrow> u8 \<Rightarrow> PWM_Pin_Def" where
  "pwm_pin c t p x n =
     \<lparr>def_channel = c, def_timer = t, def_pin = p, def_chx = x, def_is_n = n\<rparr>"

text \<open>A row \<open>{ hwPWM_Channel_MAX, t, hwGPIO_Pin_NC, 0, 0 }\<close>.\<close>

definition no_pin :: "hwTimer_Index \<Rightarrow> PWM_Pin_Def" where
  "no_pin t = pwm_pin hwPWM_Channel_MAX t hwGPIO_Pin_NC 0 0"

definition pwm_af :: "hwTimer_Index \<Rightarrow> hwGPIO_Pin \<Rightarrow> u8 \<Rightarrow> PWM_AF_Map" where
  "pwm_af t p f = \<lparr>af_timer = t, af_pin = p, af_af = f\<rparr>"

abbreviation (input) pA :: "nat \<Rightarrow> hwGPIO_Pin" where "pA \<equiv> hwGPIO_Pin_of GPIOA"
abbreviation (input) pB :: "nat \<Rightarrow> hwGPIO_Pin" where "pB \<equiv> hwGPIO_Pin_of GPIOB"
abbreviation (input) pC :: "nat \<Rightarrow> hwGPIO_Pin" where "pC \<equiv> hwGPIO_Pin_of GPIOC"
abbreviation (input) pD :: "nat \<Rightarrow> hwGPIO_Pin" where "pD \<equiv> hwGPIO_Pin_of GPIOD"
abbreviation (input) pE :: "nat \<Rightarrow> hwGPIO_Pin" where "pE \<equiv> hwGPIO_Pin_of GPIOE"
abbreviation (input) pF :: "nat \<Rightarrow> hwGPIO_Pin" where "pF \<equiv> hwGPIO_Pin_of GPIOF"

section \<open>The tables\<close>

text \<open>The pin set of each timer; no build file of the repository overrides the defaults.\<close>

definition PWM_Index_Map_Alt :: "nat list" where
  "PWM_Index_Map_Alt = replicate hwPWM_Base_MAX PWM_Pinset_DEFAULT"

definition PWM_Pins_TIM1 :: "PWM_Pin_Def list list" where
  "PWM_Pins_TIM1 = [
      [pwm_pin 0 0 (pA 8) 1 0,
       pwm_pin 1 0 (pA 9) 2 0,
       pwm_pin 2 0 (pA 10) 3 0,
       pwm_pin 3 0 (pA 11) 4 0],
      [pwm_pin 0 0 (pE 9) 1 0,
       pwm_pin 1 0 (pE 11) 2 0,
       pwm_pin 2 0 (pE 13) 3 0,
       pwm_pin 3 0 (pE 14) 4 0],
      [pwm_pin 0 0 (pB 13) 1 1,
       pwm_pin 1 0 (pB 14) 2 1,
       pwm_pin 2 0 (pB 15) 3 1,
       no_pin 0]]"

definition PWM_Pins_TIM2 :: "PWM_Pin_Def list list" where
  "PWM_Pins_TIM2 = [
      [pwm_pin 4 1 (pA 0) 1 0,
       pwm_pin 5 1 (pA 1) 2 0,
       pwm_pin 6 1 (pA 2) 3 0,
       pwm_pin 7 1 (pA 3) 4 0],
      [pwm_pin 4 1 (pA 5) 1 0,
       pwm_pin 5 1 (pB 3) 2 0,
       pwm_pin 6 1 (pB 10) 3 0,
       pwm_pin 7 1 (pB 11) 4 0],
      replicate 4 (no_pin 1)]"

definition PWM_Pins_TIM3 :: "PWM_Pin_Def list list" where
  "PWM_Pins_TIM3 = [
      [pwm_pin 8 2 (pA 6) 1 0,
       pwm_pin 9 2 (pA 7) 2 0,
       pwm_pin 10 2 (pB 0) 3 0,
       pwm_pin 11 2 (pB 1) 4 0],
      [pwm_pin 8 2 (pC 6) 1 0,
       pwm_pin 9 2 (pC 7) 2 0,
       pwm_pin 10 2 (pC 8) 3 0,
       pwm_pin 11 2 (pC 9) 4 0],
      replicate 4 (no_pin 2)]"

definition PWM_Pins_TIM4 :: "PWM_Pin_Def list list" where
  "PWM_Pins_TIM4 = [
      [pwm_pin 12 3 (pB 6) 1 0,
       pwm_pin 13 3 (pB 7) 2 0,
       pwm_pin 14 3 (pB 8) 3 0,
       pwm_pin 15 3 (pB 9) 4 0],
      [pwm_pin 12 3 (pD 12) 1 0,
       pwm_pin 13 3 (pD 13) 2 0,
       pwm_pin 14 3 (pD 14) 3 0,
       pwm_pin 15 3 (pD 15) 4 0],
      replicate 4 (no_pin 3)]"

definition PWM_Pins_TIM5 :: "PWM_Pin_Def list list" where
  "PWM_Pins_TIM5 = [
      [pwm_pin 16 4 (pA 0) 1 0,
       pwm_pin 17 4 (pA 1) 2 0,
       pwm_pin 18 4 (pA 2) 3 0,
       pwm_pin 19 4 (pA 3) 4 0],
      [pwm_pin 16 3 (pD 12) 1 0,
       pwm_pin 17 3 (pD 13) 2 0,
       pwm_pin 18 3 (pD 14) 3 0,
       pwm_pin 19 3 (pD 15) 4 0],
      replicate 4 (no_pin 3)]"

definition PWM_Pins_TIM8 :: "PWM_Pin_Def list list" where
  "PWM_Pins_TIM8 = [
      [pwm_pin 20 7 (pC 6) 1 0,
       pwm_pin 21 7 (pC 7) 2 0,
       pwm_pin 22 7 (pC 8) 3 0,
       pwm_pin 23 7 (pC 9) 4 0],
      [pwm_pin 20 7 (pA 5) 1 1,
       pwm_pin 21 7 (pB 0) 2 1,
       pwm_pin 22 7 (pB 1) 3 1,
       no_pin 7],
      replicate 4 (no_pin 7)]"

definition PWM_Pins_TIM9 :: "PWM_Pin_Def list list" where
  "PWM_Pins_TIM9 = [
      [pwm_pin 24 8 (pA 2) 1 0,
       pwm_pin 25 8 (pA 3) 2 0,
       no_pin 8,
       no_pin 8],
      [pwm_pin 24 8 (pE 5) 1 0,
       pwm_pin 25 8 (pE 6) 2 0,
       no_pin 8,
       no_pin 8],
      replicate 4 (no_pin 8)]"

definition PWM_Pins_TIM10 :: "PWM_Pin_Def list list" where
  "PWM_Pins_TIM10 = [
      [pwm_pin 26 9 (pF 6) 1 0,
       no_pin 9,
       no_pin 9,
       no_pin 9],
      replicate 4 (no_pin 9),
      replicate 4 (no_pin 9)]"

definition PWM_Pins_TIM11 :: "PWM_Pin_Def list list" where
  "PWM_Pins_TIM11 = [
      [pwm_pin 27 10 (pF 7) 1 0,
       no_pin 10,
       no_pin 10,
       no_pin 10],
      replicate 4 (no_pin 10),
      replicate 4 (no_pin 10)]"

definition PWM_Pins_TIM12 :: "PWM_Pin_Def list list" where
  "PWM_Pins_TIM12 = [
      [pwm_pin 28 11 (pB 14) 1 0,
       pwm_pin 29 11 (pB 15) 2 0,
       no_pin 11,
       no_pin 11],
      replicate 4 (no_pin 11),
      replicate 4 (no_pin 11)]"

definition PWM_Pins_TIM13 :: "PWM_Pin_Def list list" where
  "PWM_Pins_TIM13 = [
      [pwm_pin 30 12 (pF 8) 1 0,
       no_pin 12,
       no_pin 12,
       no_pin 12],
      replicate 4 (no_pin 12),
      replicate 4 (no_pin 12)]"

definition PWM_Pins_TIM14 :: "PWM_Pin_Def list list" where
  "PWM_Pins_TIM14 = [
      [pwm_pin 31 13 (pF 9) 1 0,
       no_pin 13,
       no_pin 13,
       no_pin 13],
      replicate 4 (no_pin 13),
      replicate 4 (no_pin 13)]"

definition PWM_Pin_Def_Table :: "PWM_Pin_Def list list list" where
  "PWM_Pin_Def_Table =
     [PWM_Pins_TIM1, PWM_Pins_TIM2, PWM_Pins_TIM3, PWM_Pins_TIM4, PWM_Pins_TIM5,
      PWM_Pins_TIM8, PWM_Pins_TIM9, PWM_Pins_TIM10,
      PWM_Pins_TIM11, PWM_Pins_TIM12, PWM_Pins_TIM13, PWM_Pins_TIM14]"

definition PWM_Pin_AF_Map :: "PWM_AF_Map list" where
  "PWM_Pin_AF_Map =
     [pwm_af 0 (pA 8) 1, pwm_af 0 (pA 9) 1, pwm_af 0 (pA 10) 1, pwm_af 0 (pA 11) 1,
      pwm_af 0 (pE 9) 1, pwm_af 0 (pE 11) 1, pwm_af 0 (pE 13) 1, pwm_af 0 (pE 14) 1,
      pwm_af 0 (pB 13) 1, pwm_af 0 (pB 14) 1, pwm_af 0 (pB 15) 1, pwm_af 1 (pA 0) 1,
      pwm_af 1 (pA 1) 1, pwm_af 1 (pA 2) 1, pwm_af 1 (pA 3) 1, pwm_af 1 (pA 5) 1,
      pwm_af 1 (pB 3) 1, pwm_af 1 (pB 10) 1, pwm_af 1 (pB 11) 1, pwm_af 2 (pA 6) 2,
      pwm_af 2 (pA 7) 2, pwm_af 2 (pB 0) 2, pwm_af 2 (pB 1) 2, pwm_af 2 (pC 6) 2,
      pwm_af 2 (pC 7) 2, pwm_af 2 (pC 8) 2, pwm_af 2 (pC 9) 2, pwm_af 3 (pB 6) 2,
      pwm_af 3 (pB 7) 2, pwm_af 3 (pB 8) 2, pwm_af 3 (pB 9) 2, pwm_af 3 (pD 12) 2,
      pwm_af 3 (pD 13) 2, pwm_af 3 (pD 14) 2, pwm_af 3 (pD 15) 2, pwm_af 4 (pA 0) 2,
      pwm_af 4 (pA 1) 2, pwm_af 4 (pA 2) 2, pwm_af 4 (pA 3) 2, pwm_af 7 (pC 6) 3,
      pwm_af 7 (pC 7) 3, pwm_af 7 (pC 8) 3, pwm_af 7 (pC 9) 3, pwm_af 7 (pA 5) 3,
      pwm_af 7 (pB 0) 3, pwm_af 7 (pB 1) 3, pwm_af 8 (pA 2) 3, pwm_af 8 (pA 3) 3,
      pwm_af 8 (pE 5) 3, pwm_af 8 (pE 6) 3, pwm_af 9 (pF 6) 3, pwm_af 10 (pF 7) 3,
      pwm_af 11 (pB 14) 9, pwm_af 11 (pB 15) 9, pwm_af 12 (pF 8) 9, pwm_af 13 (pF 9) 9]"

section \<open>The lookups\<close>

text \<open>\<open>STM32_PWM_GetAF\<close>: the first entry for the timer and the pin, 0 if there is none.\<close>

definition STM32_PWM_GetAF :: "hwTimer_Index \<Rightarrow> hwGPIO_Pin \<Rightarrow> u8" where
  "STM32_PWM_GetAF timer pin =
     (case find (\<lambda>m. af_timer m = timer \<and> af_pin m = pin) PWM_Pin_AF_Map of
        Some m \<Rightarrow> af_af m | None \<Rightarrow> 0)"

text \<open>
  \<open>PWM_Find_PinDef\<close>: the two loops, over the timers and the four entries of the pin set
  selected for each; the selection is an argument here so that properties can range over it.
\<close>

definition PWM_Find_PinDef :: "nat list \<Rightarrow> hwPWM_Channel \<Rightarrow> PWM_Pin_Def option" where
  "PWM_Find_PinDef alt channel_index =
     find (\<lambda>d. def_channel d = channel_index)
       (concat (map (\<lambda>i. PWM_Pin_Def_Table ! i ! (alt ! i)) [0..<12]))"

section \<open>What the tables guarantee\<close>

lemmas pwm_tables = PWM_Pins_TIM1_def PWM_Pins_TIM2_def PWM_Pins_TIM3_def PWM_Pins_TIM4_def
  PWM_Pins_TIM5_def PWM_Pins_TIM8_def PWM_Pins_TIM9_def PWM_Pins_TIM10_def PWM_Pins_TIM11_def
  PWM_Pins_TIM12_def PWM_Pins_TIM13_def PWM_Pins_TIM14_def PWM_Pin_Def_Table_def

definition entry_ok :: "PWM_Pin_Def \<Rightarrow> bool" where
  "entry_ok d \<longleftrightarrow> def_channel d = hwPWM_Channel_MAX \<or>
     (def_channel d < hwPWM_Channel_MAX \<and> def_timer d < hwTimer_Index_MAX \<and> pin_ok (def_pin d) \<and>
      STM32_PWM_GetAF (def_timer d) (def_pin d) \<noteq> 0 \<and> def_chx d \<in> {1, 2, 3, 4})"

lemma table_shape:
  "length PWM_Pin_Def_Table = 12" "list_all (\<lambda>t. length t = 3) PWM_Pin_Def_Table"
  by (simp_all add: pwm_tables)

lemma table_entries_ok: "list_all (list_all (list_all entry_ok)) PWM_Pin_Def_Table"
  by code_simp

text \<open>The assignment with the default pin sets.\<close>

definition default_defs :: "PWM_Pin_Def list" where
  "default_defs =
     [pwm_pin 0 0 (pA 8) 1 0, pwm_pin 1 0 (pA 9) 2 0, pwm_pin 2 0 (pA 10) 3 0,
      pwm_pin 3 0 (pA 11) 4 0, pwm_pin 4 1 (pA 0) 1 0, pwm_pin 5 1 (pA 1) 2 0,
      pwm_pin 6 1 (pA 2) 3 0, pwm_pin 7 1 (pA 3) 4 0, pwm_pin 8 2 (pA 6) 1 0,
      pwm_pin 9 2 (pA 7) 2 0, pwm_pin 10 2 (pB 0) 3 0, pwm_pin 11 2 (pB 1) 4 0,
      pwm_pin 12 3 (pB 6) 1 0, pwm_pin 13 3 (pB 7) 2 0, pwm_pin 14 3 (pB 8) 3 0,
      pwm_pin 15 3 (pB 9) 4 0, pwm_pin 16 4 (pA 0) 1 0, pwm_pin 17 4 (pA 1) 2 0,
      pwm_pin 18 4 (pA 2) 3 0, pwm_pin 19 4 (pA 3) 4 0, pwm_pin 20 7 (pC 6) 1 0,
      pwm_pin 21 7 (pC 7) 2 0, pwm_pin 22 7 (pC 8) 3 0, pwm_pin 23 7 (pC 9) 4 0,
      pwm_pin 24 8 (pA 2) 1 0, pwm_pin 25 8 (pA 3) 2 0, pwm_pin 26 9 (pF 6) 1 0,
      pwm_pin 27 10 (pF 7) 1 0, pwm_pin 28 11 (pB 14) 1 0, pwm_pin 29 11 (pB 15) 2 0,
      pwm_pin 30 12 (pF 8) 1 0, pwm_pin 31 13 (pF 9) 1 0]"

lemma find_default_all:
  "map (PWM_Find_PinDef PWM_Index_Map_Alt) [0..<32] = map Some default_defs"
  by code_simp

lemma default_defs_length [simp]: "length default_defs = 32"
  by (simp add: default_defs_def)

lemma find_default: "ch < 32 \<Longrightarrow> PWM_Find_PinDef PWM_Index_Map_Alt ch = Some (default_defs ! ch)"
  using arg_cong [OF find_default_all, of "\<lambda>xs. xs ! ch"] by (simp del: upt_rec_numeral)

lemma default_defs_ok:
  "list_all (\<lambda>d. def_channel d \<noteq> 32 \<and> entry_ok d) default_defs"
  by code_simp

lemma default_def_ok:
  assumes "ch < 32"
  shows "def_timer (default_defs ! ch) < 14" "pin_ok (def_pin (default_defs ! ch))"
    "STM32_PWM_GetAF (def_timer (default_defs ! ch)) (def_pin (default_defs ! ch)) \<noteq> 0"
    "def_chx (default_defs ! ch) \<in> {1, 2, 3, 4}" "def_pin (default_defs ! ch) \<noteq> hwGPIO_Pin_NC"
  using default_defs_ok assms
  by (auto simp: list_all_length entry_ok_def pin_ok_iff)

text \<open>
  Whatever pin sets are selected for the twelve PWM timers, PWM_Find_PinDef on an existing
  channel either finds nothing or finds an entry of that channel whose timer exists, whose pin
  the GPIO driver can translate, which has an alternate function, and whose timer channel is
  1 to 4: the later checks of PWM_Channel_Init on the entry cannot fail.
\<close>

theorem pin_tables_consistent:
  assumes "length alt = hwPWM_Base_MAX" "\<forall>x\<in>set alt. x < PWM_Pinset_MAX" "ch < hwPWM_Channel_MAX"
    "PWM_Find_PinDef alt ch = Some d"
  shows "def_channel d = ch \<and> def_timer d < hwTimer_Index_MAX \<and> pin_ok (def_pin d) \<and>
    STM32_PWM_GetAF (def_timer d) (def_pin d) \<noteq> 0 \<and> def_chx d \<in> {1, 2, 3, 4}"
proof -
  have d: "def_channel d = ch"
    "d \<in> set (concat (map (\<lambda>i. PWM_Pin_Def_Table ! i ! (alt ! i)) [0..<12]))"
    using find_SomeD [OF assms(4) [unfolded PWM_Find_PinDef_def]] by simp_all
  then obtain i where i: "i < 12" "d \<in> set (PWM_Pin_Def_Table ! i ! (alt ! i))"
    by (auto simp del: upt_rec_numeral)
  have "PWM_Pin_Def_Table ! i \<in> set PWM_Pin_Def_Table"
    using i(1) table_shape(1) by simp
  moreover have "alt ! i < 3" using assms(1,2) i(1) by simp
  moreover from calculation have "PWM_Pin_Def_Table ! i ! (alt ! i) \<in> set (PWM_Pin_Def_Table ! i)"
    using table_shape(2) by (auto simp: list_all_iff)
  ultimately have "entry_ok d"
    using table_entries_ok i(2) by (auto simp: list_all_iff)
  with d(1) assms(3) show ?thesis by (auto simp: entry_ok_def)
qed

theorem pin_tables_consistent_witness:
  "PWM_Find_PinDef [2, 0, 0, 0, 0, 0, 0, 0, 0, 0, 0, 0] 1 = Some (pwm_pin 1 0 (pB 14) 2 1) \<and>
   def_timer (pwm_pin 1 0 (pB 14) 2 1) < 14"
proof -
  have f: "PWM_Find_PinDef [2, 0, 0, 0, 0, 0, 0, 0, 0, 0, 0, 0] 1 = Some (pwm_pin 1 0 (pB 14) 2 1)"
    by code_simp
  with pin_tables_consistent [OF _ _ _ f] show ?thesis by simp
qed

text \<open>Channel, timer, timer channel and pin number of the default entries.\<close>

definition default_rows :: "(nat \<times> nat \<times> u8 \<times> int) list" where
  "default_rows =
     [(0, 0, 1, 8), (1, 0, 2, 9), (2, 0, 3, 10), (3, 0, 4, 11), (4, 1, 1, 0), (5, 1, 2, 1),
      (6, 1, 3, 2), (7, 1, 4, 3), (8, 2, 1, 6), (9, 2, 2, 7), (10, 2, 3, 16), (11, 2, 4, 17),
      (12, 3, 1, 22), (13, 3, 2, 23), (14, 3, 3, 24), (15, 3, 4, 25), (16, 4, 1, 0),
      (17, 4, 2, 1), (18, 4, 3, 2), (19, 4, 4, 3), (20, 7, 1, 38), (21, 7, 2, 39),
      (22, 7, 3, 40), (23, 7, 4, 41), (24, 8, 1, 2), (25, 8, 2, 3), (26, 9, 1, 86),
      (27, 10, 1, 87), (28, 11, 1, 30), (29, 11, 2, 31), (30, 12, 1, 88), (31, 13, 1, 89)]"

lemma default_rows_eq:
  "map (\<lambda>c. (c, def_timer (default_defs ! c), def_chx (default_defs ! c), def_pin (default_defs ! c)))
     [0..<32] = default_rows"
  by code_simp

definition shared_pins :: "(hwPWM_Channel \<times> hwPWM_Channel) list" where
  "shared_pins = [(4, 16), (5, 17), (6, 18), (6, 24), (7, 19), (7, 25), (18, 24), (19, 25)]"

lemma default_rows_apart:
  "list_all (\<lambda>(c1, t1, x1, p1). list_all (\<lambda>(c2, t2, x2, p2). c1 < c2 \<longrightarrow>
     (t1, x1) \<noteq> (t2, x2) \<and> (p1 = p2 \<longleftrightarrow> (c1, c2) \<in> set shared_pins)) default_rows) default_rows"
  by (simp add: default_rows_def shared_pins_def)

text \<open>
  With the default pin sets every one of the 32 channels has an entry, no two channels
  drive the same channel of the same timer, and two channels share a pin in exactly the eight
  cases where TIM2, TIM5 and TIM9 meet on A0 to A3.
\<close>

theorem default_channels:
  "\<forall>c1\<in>{..<32}. \<forall>c2\<in>{..<32}. \<exists>d1 d2.
     PWM_Find_PinDef PWM_Index_Map_Alt c1 = Some d1 \<and> PWM_Find_PinDef PWM_Index_Map_Alt c2 = Some d2 \<and>
     (c1 < c2 \<longrightarrow> (def_timer d1, def_chx d1) \<noteq> (def_timer d2, def_chx d2) \<and>
        (def_pin d1 = def_pin d2 \<longleftrightarrow> (c1, c2) \<in> set shared_pins))"
  using default_rows_apart unfolding default_rows_eq [symmetric]
  by (simp add: list_all_iff find_default del: upt_rec_numeral)

theorem default_channels_witness:
  "\<exists>d1 d2. PWM_Find_PinDef PWM_Index_Map_Alt 4 = Some d1 \<and>
     PWM_Find_PinDef PWM_Index_Map_Alt 16 = Some d2 \<and> def_pin d1 = def_pin d2"
  using bspec [OF bspec [OF default_channels, of 4], of 16] by (auto simp: shared_pins_def)

text \<open>
  With its second pin set the channels of TIM5 are entered as channels of TIM4: they have
  the same timer and timer channel as the channels of TIM4, so that setting up one of them
  programs TIM4, and TIM5 is out of reach.
\<close>

theorem tim5_alternate_is_tim4:
  "map (\<lambda>ch. map_option (\<lambda>d. (def_timer d, def_chx d))
      (PWM_Find_PinDef (PWM_Index_Map_Alt[4 := 1]) ch)) [16, 17, 18, 19] =
     [Some (3, 1), Some (3, 2), Some (3, 3), Some (3, 4)] \<and>
   map (\<lambda>ch. map_option (\<lambda>d. (def_timer d, def_chx d))
      (PWM_Find_PinDef (PWM_Index_Map_Alt[4 := 1]) ch)) [12, 13, 14, 15] =
     [Some (3, 1), Some (3, 2), Some (3, 3), Some (3, 4)]"
  by code_simp

end
