(* ===== verification/PWM.thy ===== *)
theory PWM
  imports PWM_Pin
begin

text \<open>
  The PWM driver of the STM32 boards, \<open>Driver/PWM/PWM_STM32.c\<close>. It uses the timer handles of
  the timer driver, and marks its pins in the pin table of the GPIO driver. The unused
  floating-point helper \<open>PWM_Duty_To_CCR\<close> is left out.
\<close>

section \<open>Types and state\<close>

datatype hwPWM_OpResult = hwPWM_OK | hwPWM_InvalidParameter | hwPWM_NotInit | hwPWM_NotTurnOn
  | hwPWM_SlaveTimeout | hwPWM_HwError | hwPWM_Unsupport

datatype hwPWM_Step_Direction = hwPWM_Step_Dir_Down | hwPWM_Step_Dir_Up | hwPWM_Step_Dir_MAX

abbreviation (input) PWM_MAX_DUTY :: u16 where "PWM_MAX_DUTY \<equiv> 1000"
abbreviation (input) PWM_MIN_DUTY :: u16 where "PWM_MIN_DUTY \<equiv> 0"

record pwm_state = timer_state +
  PWM_Channel_Init_Status :: "bool list"
  PWM_Channel_OnOff_Status :: "bool list"
  PWM_Channel_Inverse_Status :: "bool list"
  PWM_Channel_Current_Duty :: "u16 list"

section \<open>Setting a channel up\<close>

text \<open>The lookup that starts most functions: \<open>!def || def->pin == hwGPIO_Pin_NC\<close> is \<open>None\<close>.\<close>

definition pwm_def :: "hwPWM_Channel \<Rightarrow> PWM_Pin_Def option" where
  "pwm_def channel_index = (case PWM_Find_PinDef PWM_Index_Map_Alt channel_index of
       None \<Rightarrow> None
     | Some d \<Rightarrow> if def_pin d = hwGPIO_Pin_NC then None else Some d)"

definition pwm_clk_enable :: "hwTimer_Index \<Rightarrow> 'a mcu_state_scheme \<Rightarrow> 'a mcu_state_scheme" where
  "pwm_clk_enable timer s = (case switch
     [([0], Some 1), ([1], Some 2), ([2], Some 3), ([3], Some 4), ([4], Some 5), ([7], Some 8),
      ([8], Some 9), ([9], Some 10), ([10], Some 11), ([11], Some 12), ([12], Some 13),
      ([13], Some 14)] None timer of
        None \<Rightarrow> s | Some n \<Rightarrow> emit (RCC_CLK_ENABLE (RCC_TIM n)) s)"

definition pwm_gpio_config :: "u16 \<Rightarrow> u8 \<Rightarrow> GPIO_InitTypeDef" where
  "pwm_gpio_config soc_pin af = \<lparr>init_Pin = soc_pin, init_Mode = GPIO_MODE_AF_PP,
     init_Pull = GPIO_NOPULL, init_Speed = GPIO_SPEED_FREQ_HIGH, init_Alternate = af\<rparr>"

definition PWM_Channel_Init ::
  "hal_env \<Rightarrow> hwPWM_Channel \<Rightarrow> bool \<Rightarrow> 'a pwm_state_scheme \<Rightarrow>
   (hwPWM_OpResult \<times> 'a pwm_state_scheme) option" where
  "PWM_Channel_Init env channel_index inverse_PWM s =
     (if channel_index \<ge> hwPWM_Channel_MAX then Some (hwPWM_InvalidParameter, s)
      else do {
        st \<leftarrow> cread (PWM_Channel_Init_Status s) (int channel_index);
        if st then Some (hwPWM_OK, s)
        else case pwm_def channel_index of None \<Rightarrow> Some (hwPWM_InvalidParameter, s)
        | Some d \<Rightarrow> do {
          tinit \<leftarrow> Timer_is_Init (def_timer d) s;
          if tinit then Some (hwPWM_HwError, s)
          else if STM32_PWM_GetAF (def_timer d) (def_pin d) = 0 then Some (hwPWM_InvalidParameter, s)
          else if GPIO_Map_Soc_Base (def_pin d) = None \<or> GPIO_Map_Soc_Pin (def_pin d) = 0
            then Some (hwPWM_InvalidParameter, s)
          else do {
            let base = the (GPIO_Map_Soc_Base (def_pin d));
            let soc_pin = GPIO_Map_Soc_Pin (def_pin d);
            let s1 = pwm_clk_enable (def_timer d) (GPIO_Enable_RCC_Clock base s);
            let s2 = emit (HAL_GPIO_Init base (pwm_gpio_config soc_pin
                       (STM32_PWM_GetAF (def_timer d) (def_pin d)))) s1;
            h \<leftarrow> cread (g_timer s2) (int (def_timer d));
            let (ok, s3) = hal_call env (HAL_TIM_PWM_Init (def_timer d) h) s2;
            if \<not> ok then Some (hwPWM_HwError, emit (HAL_GPIO_DeInit base soc_pin) s3)
            else do {
              is \<leftarrow> cwrite (PWM_Channel_Init_Status s3) (int channel_index) True;
              vs \<leftarrow> cwrite (PWM_Channel_Inverse_Status s3) (int channel_index) inverse_PWM;
              ds \<leftarrow> cwrite (PWM_Channel_Current_Duty s3) (int channel_index) 0;
              ps \<leftarrow> cwrite (gpio_pin_init_status s3) (def_pin d) True;
              Some (hwPWM_OK, s3\<lparr>gpio_pin_init_status := ps, PWM_Channel_Init_Status := is,
                                 PWM_Channel_Inverse_Status := vs, PWM_Channel_Current_Duty := ds\<rparr>)
            }
          }
        }
      })"

text \<open>
  The last \<open>switch\<close> of \<open>PWM_Channel_DeInit\<close>: for each timer the channels that must all be off,
  and the clock macro that is then run. The macros of timers 10 and 13 are as in the source.
\<close>

definition pwm_clk_release :: "hwTimer_Index \<Rightarrow> (hwPWM_Channel list \<times> hw_event) option" where
  "pwm_clk_release timer = switch
     [([0], Some ([0..<4], RCC_CLK_DISABLE (RCC_TIM 1))),
      ([1], Some ([4..<8], RCC_CLK_DISABLE (RCC_TIM 2))),
      ([2], Some ([8..<12], RCC_CLK_DISABLE (RCC_TIM 3))),
      ([3], Some ([12..<16], RCC_CLK_DISABLE (RCC_TIM 4))),
      ([4], Some ([16..<20], RCC_CLK_DISABLE (RCC_TIM 5))),
      ([7], Some ([20..<24], RCC_CLK_DISABLE (RCC_TIM 8))),
      ([8], Some ([24..<26], RCC_CLK_DISABLE (RCC_TIM 9))),
      ([9], Some ([26], RCC_CLK_DISABLE (RCC_TIM 10))),
      ([10], Some ([27], RCC_CLK_DISABLE (RCC_TIM 12))),
      ([11], Some ([28..<30], RCC_CLK_DISABLE (RCC_TIM 12))),
      ([12], Some ([30], RCC_CLK_DISABLE (RCC_TIM 13))),
      ([13], Some ([31], RCC_CLK_ENABLE (RCC_TIM 14)))] None timer"

definition pwm_release_clock :: "hwTimer_Index \<Rightarrow> 'a pwm_state_scheme \<Rightarrow> 'a pwm_state_scheme" where
  "pwm_release_clock timer s = (case pwm_clk_release timer of None \<Rightarrow> s
     | Some (chs, e) \<Rightarrow>
         if list_all (\<lambda>i. \<not> PWM_Channel_Init_Status s ! i) chs then emit e s else s)"

definition PWM_Channel_DeInit ::
  "hal_env \<Rightarrow> hwPWM_Channel \<Rightarrow> 'a pwm_state_scheme \<Rightarrow>
   (hwPWM_OpResult \<times> 'a pwm_state_scheme) option" where
  "PWM_Channel_DeInit env channel_index s =
     (if channel_index \<ge> hwPWM_Channel_MAX then Some (hwPWM_InvalidParameter, s)
      else do {
        st \<leftarrow> cread (PWM_Channel_Init_Status s) (int channel_index);
        if \<not> st then Some (hwPWM_OK, s)
        else case pwm_def channel_index of None \<Rightarrow> Some (hwPWM_InvalidParameter, s)
        | Some d \<Rightarrow> do {
          tinit \<leftarrow> Timer_is_Init (def_timer d) s;
          if tinit then Some (hwPWM_HwError, s)
          else if GPIO_Map_Soc_Base (def_pin d) = None \<or> GPIO_Map_Soc_Pin (def_pin d) = 0
            then Some (hwPWM_InvalidParameter, s)
          else do {
            let s1 = emit (HAL_TIM_PWM_Stop (def_timer d) (def_chx d)) s;
            let (ok, s2) = hal_call env (HAL_TIM_PWM_DeInit (def_timer d)) s1;
            if \<not> ok then Some (hwPWM_HwError, s2)
            else do {
              let s3 = emit (HAL_GPIO_DeInit (the (GPIO_Map_Soc_Base (def_pin d)))
                         (GPIO_Map_Soc_Pin (def_pin d))) s2;
              is \<leftarrow> cwrite (PWM_Channel_Init_Status s3) (int channel_index) False;
              os \<leftarrow> cwrite (PWM_Channel_OnOff_Status s3) (int channel_index) False;
              vs \<leftarrow> cwrite (PWM_Channel_Inverse_Status s3) (int channel_index) False;
              let s4 = pwm_release_clock (def_timer d) (s3\<lparr>PWM_Channel_Init_Status := is,
                         PWM_Channel_OnOff_Status := os, PWM_Channel_Inverse_Status := vs\<rparr>);
              ps \<leftarrow> cwrite (gpio_pin_init_status s4) (def_pin d) False;
              Some (hwPWM_OK, s4\<lparr>gpio_pin_init_status := ps\<rparr>)
            }
          }
        }
      })"

section \<open>Output\<close>

text \<open>The compare value, in 32-bit arithmetic as in the source.\<close>

definition pwm_pulse :: "bool \<Rightarrow> u16 \<Rightarrow> u32 \<Rightarrow> u32" where
  "pwm_pulse inverted duty period =
     (if inverted then period - (ucast duty * period) div 1000
      else (ucast duty * period) div 1000)"

text \<open>The tail of the output functions: configure the channel, then start it.\<close>

definition pwm_output ::
  "hal_env \<Rightarrow> PWM_Pin_Def \<Rightarrow> u32 \<Rightarrow> 'a pwm_state_scheme \<Rightarrow> bool \<times> 'a pwm_state_scheme" where
  "pwm_output env d pulse s =
     (let oc = \<lparr>oc_OCMode = TIM_OCMODE_PWM1, oc_Pulse = pulse,
                oc_OCPolarity = TIM_OCPOLARITY_HIGH, oc_OCFastMode = TIM_OCFAST_DISABLE\<rparr>;
          (ok1, s1) = hal_call env (HAL_TIM_PWM_ConfigChannel (def_timer d) oc (def_chx d)) s
      in if \<not> ok1 then (False, s1) else hal_call env (HAL_TIM_PWM_Start (def_timer d) (def_chx d)) s1)"

definition PWM_Turn_On ::
  "hal_env \<Rightarrow> hwPWM_Channel \<Rightarrow> 'a pwm_state_scheme \<Rightarrow>
   (hwPWM_OpResult \<times> 'a pwm_state_scheme) option" where
  "PWM_Turn_On env channel_index s =
     (if channel_index \<ge> hwPWM_Channel_MAX then Some (hwPWM_InvalidParameter, s)
      else do {
        st \<leftarrow> cread (PWM_Channel_Init_Status s) (int channel_index);
        if \<not> st then Some (hwPWM_NotInit, s)
        else case pwm_def channel_index of None \<Rightarrow> Some (hwPWM_InvalidParameter, s)
        | Some d \<Rightarrow> do {
          tinit \<leftarrow> Timer_is_Init (def_timer d) s;
          if \<not> tinit then Some (hwPWM_NotInit, s)
          else do {
            duty0 \<leftarrow> cread (PWM_Channel_Current_Duty s) (int channel_index);
            let duty = (if duty0 > PWM_MAX_DUTY then PWM_MAX_DUTY else duty0);
            ds \<leftarrow> cwrite (PWM_Channel_Current_Duty s) (int channel_index) duty;
            let s1 = s\<lparr>PWM_Channel_Current_Duty := ds\<rparr>;
            h \<leftarrow> cread (g_timer s1) (int (def_timer d));
            inv \<leftarrow> cread (PWM_Channel_Inverse_Status s1) (int channel_index);
            let (ok, s2) = pwm_output env d (pwm_pulse inv duty (tim_Period h)) s1;
            if \<not> ok then Some (hwPWM_HwError, s2)
            else do {
              os \<leftarrow> cwrite (PWM_Channel_OnOff_Status s2) (int channel_index) True;
              Some (hwPWM_OK, s2\<lparr>PWM_Channel_OnOff_Status := os\<rparr>)
            }
          }
        }
      })"

definition PWM_Turn_On_And_Set_Duty ::
  "hal_env \<Rightarrow> hwPWM_Channel \<Rightarrow> u16 \<Rightarrow> 'a pwm_state_scheme \<Rightarrow>
   (hwPWM_OpResult \<times> 'a pwm_state_scheme) option" where
  "PWM_Turn_On_And_Set_Duty env channel_index duty s =
     (if channel_index \<ge> hwPWM_Channel_MAX then Some (hwPWM_InvalidParameter, s)
      else if duty > PWM_MAX_DUTY then Some (hwPWM_InvalidParameter, s)
      else do {
        st \<leftarrow> cread (PWM_Channel_Init_Status s) (int channel_index);
        if \<not> st then Some (hwPWM_OK, s)
        else case pwm_def channel_index of None \<Rightarrow> Some (hwPWM_InvalidParameter, s)
        | Some d \<Rightarrow> do {
          tinit \<leftarrow> Timer_is_Init (def_timer d) s;
          if \<not> tinit then Some (hwPWM_NotInit, s)
          else do {
            h \<leftarrow> cread (g_timer s) (int (def_timer d));
            inv \<leftarrow> cread (PWM_Channel_Inverse_Status s) (int channel_index);
            let (ok, s2) = pwm_output env d (pwm_pulse inv duty (tim_Period h)) s;
            if \<not> ok then Some (hwPWM_HwError, s2)
            else do {
              os \<leftarrow> cwrite (PWM_Channel_OnOff_Status s2) (int channel_index) True;
              ds \<leftarrow> cwrite (PWM_Channel_Current_Duty s2) (int channel_index) duty;
              Some (hwPWM_OK, s2\<lparr>PWM_Channel_OnOff_Status := os, PWM_Channel_Current_Duty := ds\<rparr>)
            }
          }
        }
      })"

definition PWM_Turn_Off ::
  "hal_env \<Rightarrow> hwPWM_Channel \<Rightarrow> 'a pwm_state_scheme \<Rightarrow>
   (hwPWM_OpResult \<times> 'a pwm_state_scheme) option" where
  "PWM_Turn_Off env channel_index s =
     (if channel_index \<ge> hwPWM_Channel_MAX then Some (hwPWM_InvalidParameter, s)
      else do {
        st \<leftarrow> cread (PWM_Channel_Init_Status s) (int channel_index);
        if \<not> st then Some (hwPWM_OK, s)
        else case pwm_def channel_index of None \<Rightarrow> Some (hwPWM_InvalidParameter, s)
        | Some d \<Rightarrow> do {
          tinit \<leftarrow> Timer_is_Init (def_timer d) s;
          if \<not> tinit then Some (hwPWM_NotInit, s)
          else do {
            h \<leftarrow> cread (g_timer s) (int (def_timer d));
            inv \<leftarrow> cread (PWM_Channel_Inverse_Status s) (int channel_index);
            let (ok, s2) = pwm_output env d (if inv then tim_Period h else 0) s;
            if \<not> ok then Some (hwPWM_HwError, s2)
            else do {
              os \<leftarrow> cwrite (PWM_Channel_OnOff_Status s2) (int channel_index) False;
              Some (hwPWM_OK, s2\<lparr>PWM_Channel_OnOff_Status := os\<rparr>)
            }
          }
        }
      })"

definition PWM_Set_Duty ::
  "hal_env \<Rightarrow> hwPWM_Channel \<Rightarrow> u16 \<Rightarrow> 'a pwm_state_scheme \<Rightarrow>
   (hwPWM_OpResult \<times> 'a pwm_state_scheme) option" where
  "PWM_Set_Duty env channel_index duty s =
     (if channel_index \<ge> hwPWM_Channel_MAX then Some (hwPWM_InvalidParameter, s)
      else if duty > PWM_MAX_DUTY then Some (hwPWM_InvalidParameter, s)
      else do {
        st \<leftarrow> cread (PWM_Channel_Init_Status s) (int channel_index);
        if \<not> st then Some (hwPWM_OK, s)
        else do {
          onoff \<leftarrow> cread (PWM_Channel_OnOff_Status s) (int channel_index);
          if \<not> onoff then Some (hwPWM_NotTurnOn, s)
          else case pwm_def channel_index of None \<Rightarrow> Some (hwPWM_InvalidParameter, s)
          | Some d \<Rightarrow> do {
            tinit \<leftarrow> Timer_is_Init (def_timer d) s;
            if \<not> tinit then Some (hwPWM_NotInit, s)
            else do {
              h \<leftarrow> cread (g_timer s) (int (def_timer d));
              inv \<leftarrow> cread (PWM_Channel_Inverse_Status s) (int channel_index);
              let (ok, s2) = pwm_output env d (pwm_pulse inv duty (tim_Period h)) s;
              if \<not> ok then Some (hwPWM_HwError, s2)
              else do {
                ds \<leftarrow> cwrite (PWM_Channel_Current_Duty s2) (int channel_index) duty;
                Some (hwPWM_OK, s2\<lparr>PWM_Channel_Current_Duty := ds\<rparr>)
              }
            }
          }
        }
      })"

text \<open>
  The \<open>switch(direction)\<close>: \<open>current_duty += step_duty\<close> on a \<open>uint16_t\<close> wraps; the test of the
  downward step is made on \<open>int\<close> values.
\<close>

definition pwm_step :: "hwPWM_Step_Direction \<Rightarrow> u16 \<Rightarrow> u16 \<Rightarrow> u16" where
  "pwm_step direction step_duty current_duty = (case direction of
       hwPWM_Step_Dir_Up \<Rightarrow>
         (let c = current_duty + step_duty in if c > PWM_MAX_DUTY then PWM_MAX_DUTY else c)
     | hwPWM_Step_Dir_Down \<Rightarrow>
         (if uint current_duty - uint PWM_MIN_DUTY < uint step_duty then PWM_MIN_DUTY
          else current_duty - step_duty)
     | hwPWM_Step_Dir_MAX \<Rightarrow> current_duty)"

definition PWM_Step_Duty ::
  "hal_env \<Rightarrow> hwPWM_Channel \<Rightarrow> u16 \<Rightarrow> hwPWM_Step_Direction \<Rightarrow> 'a pwm_state_scheme \<Rightarrow>
   (hwPWM_OpResult \<times> 'a pwm_state_scheme) option" where
  "PWM_Step_Duty env channel_index step_duty direction s =
     (if channel_index \<ge> hwPWM_Channel_MAX then Some (hwPWM_InvalidParameter, s)
      else if direction = hwPWM_Step_Dir_MAX then Some (hwPWM_InvalidParameter, s)
      else do {
        st \<leftarrow> cread (PWM_Channel_Init_Status s) (int channel_index);
        if \<not> st then Some (hwPWM_OK, s)
        else do {
          onoff \<leftarrow> cread (PWM_Channel_OnOff_Status s) (int channel_index);
          if \<not> onoff then Some (hwPWM_NotTurnOn, s)
          else case pwm_def channel_index of None \<Rightarrow> Some (hwPWM_InvalidParameter, s)
          | Some d \<Rightarrow> do {
            tinit \<leftarrow> Timer_is_Init (def_timer d) s;
            if \<not> tinit then Some (hwPWM_NotInit, s)
            else do {
              current_duty \<leftarrow> cread (PWM_Channel_Current_Duty s) (int channel_index);
              let duty = pwm_step direction step_duty current_duty;
              h \<leftarrow> cread (g_timer s) (int (def_timer d));
              inv \<leftarrow> cread (PWM_Channel_Inverse_Status s) (int channel_index);
              let (ok, s2) = pwm_output env d (pwm_pulse inv duty (tim_Period h)) s;
              if \<not> ok then Some (hwPWM_HwError, s2)
              else do {
                ds \<leftarrow> cwrite (PWM_Channel_Current_Duty s2) (int channel_index) duty;
                Some (hwPWM_OK, s2\<lparr>PWM_Channel_Current_Duty := ds\<rparr>)
              }
            }
          }
        }
      })"

section \<open>Queries\<close>

text \<open>They return \<open>hwPWM_OK\<close> and leave the result unwritten on a channel that is not set up.\<close>

definition PWM_Get_Channel_OnOff_Status ::
  "hwPWM_Channel \<Rightarrow> bool option \<Rightarrow> 'a pwm_state_scheme \<Rightarrow> (hwPWM_OpResult \<times> bool option) option" where
  "PWM_Get_Channel_OnOff_Status channel_index onoff_status s =
     (if channel_index \<ge> hwPWM_Channel_MAX then Some (hwPWM_InvalidParameter, onoff_status)
      else if onoff_status = None then Some (hwPWM_InvalidParameter, onoff_status)
      else do {
        st \<leftarrow> cread (PWM_Channel_Init_Status s) (int channel_index);
        if \<not> st then Some (hwPWM_OK, onoff_status)
        else do {
          v \<leftarrow> cread (PWM_Channel_OnOff_Status s) (int channel_index);
          Some (hwPWM_OK, Some v)
        }
      })"

definition PWM_Get_Channel_Current_Duty ::
  "hwPWM_Channel \<Rightarrow> u16 option \<Rightarrow> 'a pwm_state_scheme \<Rightarrow> (hwPWM_OpResult \<times> u16 option) option" where
  "PWM_Get_Channel_Current_Duty channel_index current_duty s =
     (if channel_index \<ge> hwPWM_Channel_MAX then Some (hwPWM_InvalidParameter, current_duty)
      else if current_duty = None then Some (hwPWM_InvalidParameter, current_duty)
      else do {
        st \<leftarrow> cread (PWM_Channel_Init_Status s) (int channel_index);
        if \<not> st then Some (hwPWM_OK, current_duty)
        else do {
          v \<leftarrow> cread (PWM_Channel_Current_Duty s) (int channel_index);
          Some (hwPWM_OK, Some v)
        }
      })"

definition PWM_Get_Channel_Current_OnOff_Duty ::
  "hwPWM_Channel \<Rightarrow> bool option \<Rightarrow> u16 option \<Rightarrow> 'a pwm_state_scheme \<Rightarrow>
   (hwPWM_OpResult \<times> bool option \<times> u16 option) option" where
  "PWM_Get_Channel_Current_OnOff_Duty channel_index onoff_status current_duty s =
     (if channel_index \<ge> hwPWM_Channel_MAX
      then Some (hwPWM_InvalidParameter, onoff_status, current_duty)
      else if onoff_status = None \<or> current_duty = None
        then Some (hwPWM_InvalidParameter, onoff_status, current_duty)
      else do {
        st \<leftarrow> cread (PWM_Channel_Init_Status s) (int channel_index);
        if \<not> st then Some (hwPWM_OK, onoff_status, current_duty)
        else do {
          v \<leftarrow> cread (PWM_Channel_OnOff_Status s) (int channel_index);
          w \<leftarrow> cread (PWM_Channel_Current_Duty s) (int channel_index);
          Some (hwPWM_OK, Some v, Some w)
        }
      })"

definition PWM_is_Init :: "hwPWM_Channel \<Rightarrow> 'a pwm_state_scheme \<Rightarrow> bool option" where
  "PWM_is_Init channel_index s =
     (if channel_index \<ge> hwPWM_Channel_MAX then Some False
      else cread (PWM_Channel_Init_Status s) (int channel_index))"

section \<open>Arithmetic of the duty cycle\<close>

lemma duty_times_period:
  fixes duty :: u16 and period :: u32
  assumes "duty \<le> 1000" "unat period \<le> 4294967"
  shows "unat ((ucast duty * period) div 1000 :: u32) = unat duty * unat period div 1000"
proof -
  have d: "unat duty \<le> 1000" using assms(1) by (simp add: word_le_nat_alt)
  then have "unat duty * unat period \<le> 1000 * 4294967" using assms(2) by (intro mult_le_mono)
  then have "unat duty * unat period < 2 ^ LENGTH(32)" by simp
  moreover have "unat (ucast duty :: u32) = unat duty"
    using d by (simp add: unsigned_ucast_eq take_bit_nat_eq_self)
  ultimately have "unat (ucast duty * period :: u32) = unat duty * unat period"
    by (simp add: unat_mult_lem [THEN iffD1])
  then show ?thesis by (simp add: unat_div)
qed

text \<open>
  For duties up to PWM_MAX_DUTY and periods up to 4294967 ticks the compare value is the
  exact rational share of the period, rounded down, and the inverted one its complement; it
  never exceeds the period, 0 and PWM_MAX_DUTY give the two ends, and it grows with the duty.
\<close>

theorem pulse_proportional:
  assumes "duty \<le> PWM_MAX_DUTY" "unat period \<le> 4294967"
  shows "unat (pwm_pulse False duty period) = unat duty * unat period div 1000 \<and>
    unat (pwm_pulse True duty period) = unat period - unat duty * unat period div 1000 \<and>
    pwm_pulse False duty period \<le> period \<and> pwm_pulse True duty period \<le> period \<and>
    pwm_pulse False 0 period = 0 \<and> pwm_pulse False PWM_MAX_DUTY period = period \<and>
    (\<forall>duty' \<le> duty. pwm_pulse False duty' period \<le> pwm_pulse False duty period)"
proof -
  let ?q = "unat duty * unat period div 1000"
  have d: "unat duty \<le> 1000" using assms(1) by (simp add: word_le_nat_alt)
  have q: "unat (pwm_pulse False e period) = unat e * unat period div 1000" if "e \<le> 1000" for e
    using duty_times_period [OF that assms(2)] by (simp add: pwm_pulse_def)
  have "?q \<le> 1000 * unat period div 1000" using d by (intro div_le_mono mult_le_mono1)
  then have le: "?q \<le> unat period" by simp
  have "(ucast duty * period) div 1000 \<le> period"
    using le duty_times_period [OF assms] by (simp add: word_le_nat_alt)
  then have inv: "unat (pwm_pulse True duty period) = unat period - ?q"
    using duty_times_period [OF assms] by (simp add: pwm_pulse_def unat_sub)
  have mono: "pwm_pulse False e period \<le> pwm_pulse False duty period" if "e \<le> duty" for e
    using that assms q [of e] q [OF assms(1)]
    by (simp add: word_le_nat_alt div_le_mono mult_le_mono1)
  have full: "pwm_pulse False 1000 period = period"
    using q [of 1000] by (simp add: word_unat_eq_iff)
  show ?thesis
    using q [OF assms(1)] inv le mono full by (simp add: word_le_nat_alt) (simp add: pwm_pulse_def)
qed

theorem pulse_proportional_witness:
  "unat (pwm_pulse True 250 999) = 750 \<and> pwm_pulse False 1000 999 = 999"
  using pulse_proportional [of 250 999] by simp

text \<open>
  From a period of 4294968 ticks on the product of duty and period no longer fits in 32
  bits: at that period full duty gives the compare value 0, the output of duty 0.
\<close>

theorem pulse_wraps:
  "pwm_pulse False PWM_MAX_DUTY 4294968 = 0 \<and> pwm_pulse True PWM_MAX_DUTY 4294968 = 4294968"
  by (simp add: pwm_pulse_def)

lemma pwm_step_Down:
  "pwm_step hwPWM_Step_Dir_Down n c = (if c < n then 0 else c - n)"
  by (simp add: pwm_step_def flip: word_less_alt)

lemma pwm_step_Up:
  "pwm_step hwPWM_Step_Dir_Up n c = (if c + n > 1000 then 1000 else c + n)"
  by (simp add: pwm_step_def Let_def)

lemma pwm_step_le: "c \<le> 1000 \<Longrightarrow> pwm_step dir n c \<le> 1000"
proof (cases dir)
  case hwPWM_Step_Dir_Down
  assume "c \<le> 1000"
  moreover have "c - n \<le> c" if "\<not> c < n"
    using that by (simp add: word_le_nat_alt unat_sub not_less)
  ultimately show ?thesis
    by (auto simp: hwPWM_Step_Dir_Down pwm_step_Down intro: order_trans)
qed (auto simp: pwm_step_def Let_def not_less)

text \<open>
  Stepping a valid duty gives a valid duty. A downward step saturates at 0 for every step
  size; an upward step saturates at PWM_MAX_DUTY for steps up to 64535, the largest that cannot
  overflow the 16-bit sum; the step 65535 takes any duty but 0 one down instead of to the top.
\<close>

theorem step_saturates:
  assumes "c \<le> PWM_MAX_DUTY"
  shows "unat (pwm_step hwPWM_Step_Dir_Down n c) = unat c - unat n \<and>
    (n > 64535 \<or> unat (pwm_step hwPWM_Step_Dir_Up n c) = min 1000 (unat c + unat n)) \<and>
    pwm_step dir n c \<le> PWM_MAX_DUTY \<and>
    (c = 0 \<or> pwm_step hwPWM_Step_Dir_Up 65535 c = c - 1)"
proof (intro conjI)
  have c: "unat c \<le> 1000" using assms by (simp add: word_le_nat_alt)
  show "unat (pwm_step hwPWM_Step_Dir_Down n c) = unat c - unat n"
    by (cases "c < n") (simp_all add: pwm_step_Down not_less unat_sub word_le_nat_alt word_less_nat_alt)
  show "n > 64535 \<or> unat (pwm_step hwPWM_Step_Dir_Up n c) = min 1000 (unat c + unat n)"
  proof (cases "n > 64535")
    case False
    then have "unat n \<le> 64535" by (simp add: word_less_nat_alt)
    then have "unat (c + n) = unat c + unat n"
      using c by (intro unat_add_lem [THEN iffD1]) simp
    then show ?thesis by (simp add: pwm_step_Up word_less_nat_alt)
  qed simp
  show "pwm_step dir n c \<le> PWM_MAX_DUTY" using assms by (rule pwm_step_le)
  have "c + 65535 = c - 1" by (simp add: diff_conv_add_uminus del: add_uminus_conv_diff)
  then have "pwm_step hwPWM_Step_Dir_Up 65535 c = (if c - 1 > 1000 then 1000 else c - 1)"
    by (simp only: pwm_step_Up)
  moreover have "\<not> c - 1 > 1000" if "c \<noteq> 0"
    using that c by (simp add: not_less word_le_nat_alt unat_minus_one)
  ultimately show "c = 0 \<or> pwm_step hwPWM_Step_Dir_Up 65535 c = c - 1"
    by argo
qed

theorem step_saturates_witness:
  "unat (pwm_step hwPWM_Step_Dir_Up 300 900) = 1000 \<and> pwm_step hwPWM_Step_Dir_Up 65535 900 = 899"
  using step_saturates [of 900 300 hwPWM_Step_Dir_Up] by simp

end
