(* ===== verification/PWM_Reach.thy ===== *)
theory PWM_Reach
  imports PWM
begin

text \<open>
  The PWM driver together with the timer driver: well-formed memory, the set-up functions in
  closed form, the channels as a resource table, the invariants of the reachable states, what
  is programmed when a duty is set, and how the clocks of the timers are shared.
\<close>

section \<open>Well-formed memory\<close>

definition pwm_wf :: "'a pwm_state_scheme \<Rightarrow> bool" where
  "pwm_wf s \<longleftrightarrow> timer_wf s \<and> length (gpio_pin_init_status s) = 144 \<and>
     length (PWM_Channel_Init_Status s) = 32 \<and> length (PWM_Channel_OnOff_Status s) = 32 \<and>
     length (PWM_Channel_Inverse_Status s) = 32 \<and> length (PWM_Channel_Current_Duty s) = 32"

lemma pwm_wfD:
  assumes "pwm_wf s"
  shows "timer_wf s" "length (gpio_pin_init_status s) = 144"
    "length (PWM_Channel_Init_Status s) = 32" "length (PWM_Channel_OnOff_Status s) = 32"
    "length (PWM_Channel_Inverse_Status s) = 32" "length (PWM_Channel_Current_Duty s) = 32"
  using assms by (simp_all add: pwm_wf_def)

lemma emit_pwm [simp]:
  fixes s :: "'a pwm_state_scheme"
  shows "PWM_Channel_Init_Status (emit e s) = PWM_Channel_Init_Status s"
    "PWM_Channel_OnOff_Status (emit e s) = PWM_Channel_OnOff_Status s"
    "PWM_Channel_Inverse_Status (emit e s) = PWM_Channel_Inverse_Status s"
    "PWM_Channel_Current_Duty (emit e s) = PWM_Channel_Current_Duty s"
    "pwm_wf (emit e s) = pwm_wf s"
  by (simp_all add: emit_def pwm_wf_def timer_wf_def)

lemma RCC_timer [simp]:
  fixes s :: "'a timer_state_scheme"
  shows "Timer_Init_Status (GPIO_Enable_RCC_Clock p s) = Timer_Init_Status s"
    "Timer_IsPeriodic (GPIO_Enable_RCC_Clock p s) = Timer_IsPeriodic s"
    "Timer_Expired_Handler (GPIO_Enable_RCC_Clock p s) = Timer_Expired_Handler s"
    "g_timer (GPIO_Enable_RCC_Clock p s) = g_timer s"
  by (simp_all add: GPIO_Enable_RCC_Clock_def)

lemma RCC_pwm [simp]:
  fixes s :: "'a pwm_state_scheme"
  shows "PWM_Channel_Init_Status (GPIO_Enable_RCC_Clock p s) = PWM_Channel_Init_Status s"
    "PWM_Channel_OnOff_Status (GPIO_Enable_RCC_Clock p s) = PWM_Channel_OnOff_Status s"
    "PWM_Channel_Inverse_Status (GPIO_Enable_RCC_Clock p s) = PWM_Channel_Inverse_Status s"
    "PWM_Channel_Current_Duty (GPIO_Enable_RCC_Clock p s) = PWM_Channel_Current_Duty s"
  by (simp_all add: GPIO_Enable_RCC_Clock_def)

definition pwm_held :: "'a pwm_state_scheme \<Rightarrow> hwPWM_Channel set" where
  "pwm_held s = {ch. ch < hwPWM_Channel_MAX \<and> PWM_Channel_Init_Status s ! ch}"

section \<open>The functions in closed form\<close>

lemma default_timer:
  assumes "ch < 32"
  shows "def_timer (default_defs ! ch) \<notin> {5, 6}"
proof -
  have "list_all (\<lambda>d. def_timer d \<notin> {5, 6}) default_defs"
    by (simp add: default_defs_def pwm_pin_def)
  with assms show ?thesis by (simp add: list_all_length)
qed

lemma pwm_def_eq: "ch < 32 \<Longrightarrow> pwm_def ch = Some (default_defs ! ch)"
  using default_def_ok by (simp add: pwm_def_def find_default)

lemma pwm_clk_enable_eq:
  "t < 14 \<Longrightarrow> t \<notin> {5, 6} \<Longrightarrow> pwm_clk_enable t s = emit (RCC_CLK_ENABLE (RCC_TIM (Suc t))) s"
  by (drule nat_less_cases_14, unfold insert_iff empty_iff) (elim disjE; simp add: pwm_clk_enable_def flip: One_nat_def)

text \<open>The port of a channel.\<close>

definition chan_base :: "hwPWM_Channel \<Rightarrow> gpio_port" where
  "chan_base ch = the (GPIO_Map_Soc_Base (def_pin (default_defs ! ch)))"

lemma default_pin:
  assumes "ch < 32"
  shows "0 \<le> def_pin (default_defs ! ch)" "def_pin (default_defs ! ch) < 144"
    "GPIO_Map_Soc_Base (def_pin (default_defs ! ch)) = Some (chan_base ch)"
    "GPIO_Map_Soc_Pin (def_pin (default_defs ! ch)) \<noteq> 0"
  using default_def_ok(2) [OF assms] iffD1 [OF pin_ok_iff default_def_ok(2) [OF assms]]
  by (auto simp: pin_ok_def chan_base_def)

text \<open>What \<open>PWM_Channel_Init\<close> programs before it calls the HAL, and the call.\<close>

definition chan_prog :: "hwPWM_Channel \<Rightarrow> 'a pwm_state_scheme \<Rightarrow> 'a pwm_state_scheme" where
  "chan_prog ch s =
     (let d = default_defs ! ch in
      emit (HAL_GPIO_Init (chan_base ch) (pwm_gpio_config (GPIO_Map_Soc_Pin (def_pin d))
              (STM32_PWM_GetAF (def_timer d) (def_pin d))))
        (emit (RCC_CLK_ENABLE (RCC_TIM (Suc (def_timer d))))
          (GPIO_Enable_RCC_Clock (chan_base ch) s)))"

definition chan_init_call :: "hwPWM_Channel \<Rightarrow> 'a pwm_state_scheme \<Rightarrow> hw_event" where
  "chan_init_call ch s = (let t = def_timer (default_defs ! ch) in HAL_TIM_PWM_Init t (g_timer s ! t))"

definition chan_setup ::
  "hwPWM_Channel \<Rightarrow> bool \<Rightarrow> 'a pwm_state_scheme \<Rightarrow> 'a pwm_state_scheme" where
  "chan_setup ch inverted s = (emit (chan_init_call ch s) (chan_prog ch s))
     \<lparr>gpio_pin_init_status := (gpio_pin_init_status s)[nat (def_pin (default_defs ! ch)) := True],
      PWM_Channel_Init_Status := (PWM_Channel_Init_Status s)[ch := True],
      PWM_Channel_Inverse_Status := (PWM_Channel_Inverse_Status s)[ch := inverted],
      PWM_Channel_Current_Duty := (PWM_Channel_Current_Duty s)[ch := 0]\<rparr>"

lemma chan_prog_simps [simp]:
  fixes s :: "'a pwm_state_scheme"
  shows "PWM_Channel_Init_Status (chan_prog ch s) = PWM_Channel_Init_Status s"
    "PWM_Channel_OnOff_Status (chan_prog ch s) = PWM_Channel_OnOff_Status s"
    "PWM_Channel_Inverse_Status (chan_prog ch s) = PWM_Channel_Inverse_Status s"
    "PWM_Channel_Current_Duty (chan_prog ch s) = PWM_Channel_Current_Duty s"
    "gpio_pin_init_status (chan_prog ch s) = gpio_pin_init_status s"
    "Timer_Init_Status (chan_prog ch s) = Timer_Init_Status s"
    "Timer_IsPeriodic (chan_prog ch s) = Timer_IsPeriodic s"
    "Timer_Expired_Handler (chan_prog ch s) = Timer_Expired_Handler s"
    "g_timer (chan_prog ch s) = g_timer s"
  by (simp_all add: chan_prog_def Let_def GPIO_Enable_RCC_Clock_def)

lemma Timer_is_Init_eval:
  "timer_wf s \<Longrightarrow> t < 14 \<Longrightarrow> Timer_is_Init t s = Some (t \<in> timer_held s)"
  by (simp add: Timer_is_Init_def timer_wfD timer_held_def)

lemma Channel_Init_eval:
  assumes "pwm_wf s"
  shows "PWM_Channel_Init env ch inverted s =
    (if ch \<ge> hwPWM_Channel_MAX then Some (hwPWM_InvalidParameter, s)
     else if ch \<in> pwm_held s then Some (hwPWM_OK, s)
     else if def_timer (default_defs ! ch) \<in> timer_held s then Some (hwPWM_HwError, s)
     else if hal_ok env (hw_log (chan_prog ch s)) (chan_init_call ch s)
       then Some (hwPWM_OK, chan_setup ch inverted s)
     else Some (hwPWM_HwError, emit (HAL_GPIO_DeInit (chan_base ch)
            (GPIO_Map_Soc_Pin (def_pin (default_defs ! ch))))
            (emit (chan_init_call ch s) (chan_prog ch s))))"
proof (cases "ch < 32")
  case True
  note ok = default_def_ok [OF True] and len = pwm_wfD [OF assms]
  note pin = default_pin [OF True]
  show ?thesis
    using True ok pin len default_timer [OF True]
    by (simp add: PWM_Channel_Init_def pwm_def_eq Timer_is_Init_eval pwm_held_def Let_def
        chan_init_call_def chan_setup_def timer_wfD hal_call_def pwm_clk_enable_eq chan_prog_def)
qed (simp add: PWM_Channel_Init_def)

text \<open>What \<open>PWM_Channel_DeInit\<close> leaves when the HAL agrees.\<close>

definition chan_teardown :: "hwPWM_Channel \<Rightarrow> 'a pwm_state_scheme \<Rightarrow> 'a pwm_state_scheme" where
  "chan_teardown ch s =
     (let d = default_defs ! ch;
          s3 = emit (HAL_GPIO_DeInit (chan_base ch) (GPIO_Map_Soc_Pin (def_pin d)))
                 (emit (HAL_TIM_PWM_DeInit (def_timer d))
                   (emit (HAL_TIM_PWM_Stop (def_timer d) (def_chx d)) s));
          s4 = pwm_release_clock (def_timer d) (s3
                 \<lparr>PWM_Channel_Init_Status := (PWM_Channel_Init_Status s)[ch := False],
                  PWM_Channel_OnOff_Status := (PWM_Channel_OnOff_Status s)[ch := False],
                  PWM_Channel_Inverse_Status := (PWM_Channel_Inverse_Status s)[ch := False]\<rparr>)
      in s4\<lparr>gpio_pin_init_status := (gpio_pin_init_status s)[nat (def_pin d) := False]\<rparr>)"

lemma release_clock_simps [simp]:
  fixes s :: "'a pwm_state_scheme"
  shows "PWM_Channel_Init_Status (pwm_release_clock t s) = PWM_Channel_Init_Status s"
    "PWM_Channel_OnOff_Status (pwm_release_clock t s) = PWM_Channel_OnOff_Status s"
    "PWM_Channel_Inverse_Status (pwm_release_clock t s) = PWM_Channel_Inverse_Status s"
    "PWM_Channel_Current_Duty (pwm_release_clock t s) = PWM_Channel_Current_Duty s"
    "gpio_pin_init_status (pwm_release_clock t s) = gpio_pin_init_status s"
    "Timer_Init_Status (pwm_release_clock t s) = Timer_Init_Status s"
    "Timer_IsPeriodic (pwm_release_clock t s) = Timer_IsPeriodic s"
    "Timer_Expired_Handler (pwm_release_clock t s) = Timer_Expired_Handler s"
    "g_timer (pwm_release_clock t s) = g_timer s"
  by (simp_all add: pwm_release_clock_def split: option.split)

lemma Channel_DeInit_eval:
  assumes "pwm_wf s"
  shows "PWM_Channel_DeInit env ch s =
    (if ch \<ge> hwPWM_Channel_MAX then Some (hwPWM_InvalidParameter, s)
     else if ch \<notin> pwm_held s then Some (hwPWM_OK, s)
     else let d = default_defs ! ch; s1 = emit (HAL_TIM_PWM_Stop (def_timer d) (def_chx d)) s in
       if def_timer d \<in> timer_held s then Some (hwPWM_HwError, s)
       else if hal_ok env (hw_log s1) (HAL_TIM_PWM_DeInit (def_timer d))
         then Some (hwPWM_OK, chan_teardown ch s)
       else Some (hwPWM_HwError, emit (HAL_TIM_PWM_DeInit (def_timer d)) s1))"
proof (cases "ch < 32")
  case True
  note ok = default_def_ok [OF True] and len = pwm_wfD [OF assms]
  note pin = default_pin [OF True]
  show ?thesis
    using True ok pin len
    by (simp add: PWM_Channel_DeInit_def pwm_def_eq Timer_is_Init_eval pwm_held_def Let_def
        chan_teardown_def hal_call_def)
qed (simp add: PWM_Channel_DeInit_def)

lemma chan_setup_simps [simp]:
  "PWM_Channel_Init_Status (chan_setup ch v s) = (PWM_Channel_Init_Status s)[ch := True]"
  "PWM_Channel_OnOff_Status (chan_setup ch v s) = PWM_Channel_OnOff_Status s"
  "PWM_Channel_Inverse_Status (chan_setup ch v s) = (PWM_Channel_Inverse_Status s)[ch := v]"
  "PWM_Channel_Current_Duty (chan_setup ch v s) = (PWM_Channel_Current_Duty s)[ch := 0]"
  "Timer_Init_Status (chan_setup ch v s) = Timer_Init_Status s"
  "g_timer (chan_setup ch v s) = g_timer s"
  "timer_wf (chan_setup ch v s) = timer_wf s"
  "pwm_wf (chan_setup ch v s) = pwm_wf s"
  by (simp_all add: chan_setup_def pwm_wf_def timer_wf_def)

lemma chan_teardown_simps [simp]:
  "PWM_Channel_Init_Status (chan_teardown ch s) = (PWM_Channel_Init_Status s)[ch := False]"
  "PWM_Channel_OnOff_Status (chan_teardown ch s) = (PWM_Channel_OnOff_Status s)[ch := False]"
  "PWM_Channel_Inverse_Status (chan_teardown ch s) = (PWM_Channel_Inverse_Status s)[ch := False]"
  "PWM_Channel_Current_Duty (chan_teardown ch s) = PWM_Channel_Current_Duty s"
  "Timer_Init_Status (chan_teardown ch s) = Timer_Init_Status s"
  "g_timer (chan_teardown ch s) = g_timer s"
  "timer_wf (chan_teardown ch s) = timer_wf s"
  "pwm_wf (chan_teardown ch s) = pwm_wf s"
  by (simp_all add: chan_teardown_def Let_def pwm_wf_def timer_wf_def)

section \<open>The channels as a resource table\<close>

lemma pwm_held_update:
  assumes "pwm_wf s" "ch < 32"
  shows "pwm_held (chan_setup ch v s) = insert ch (pwm_held s)"
    "pwm_held (chan_teardown ch s) = pwm_held s - {ch}"
  using assms by (auto simp: pwm_held_def nth_list_update pwm_wfD split: if_splits)

lemma timer_held_chan [simp]:
  "timer_held (chan_setup ch v s) = timer_held s" "timer_held (chan_teardown ch s) = timer_held s"
  by (simp_all add: timer_held_def)

text \<open>
  The contract holds while no timer is initialised by the timer driver and the HAL succeeds:
  \<open>PWM_Channel_Init\<close> and \<open>PWM_Channel_DeInit\<close> both refuse a channel whose timer is.
\<close>

definition pwm_table_inv :: "'a pwm_state_scheme \<Rightarrow> bool" where
  "pwm_table_inv s \<longleftrightarrow> pwm_wf s \<and> timer_held s = {}"

definition pwm_usable :: "hal_env \<times> bool \<Rightarrow> hwPWM_Channel \<Rightarrow> bool" where
  "pwm_usable c ch \<longleftrightarrow> ch < hwPWM_Channel_MAX \<and> hal_ok (fst c) = (\<lambda>_ _. True)"

definition pwm_acquire where
  "pwm_acquire c ch s = PWM_Channel_Init (fst c) ch (snd c) s"

definition pwm_release :: "hal_env \<times> bool \<Rightarrow> _" where
  "pwm_release c ch s = PWM_Channel_DeInit (fst c) ch s"

interpretation pwm_channels: resource_table pwm_table_inv pwm_held pwm_usable pwm_acquire pwm_release
proof unfold_locales
  fix s :: "'a pwm_state_scheme" and c ch
  assume "pwm_table_inv s" and u: "pwm_usable c ch"
  then have wf: "pwm_wf s" and free: "timer_held s = {}" by (simp_all add: pwm_table_inv_def)
  show "\<exists>r s'. pwm_acquire c ch s = Some (r, s') \<and> pwm_table_inv s' \<and>
      pwm_held s' = insert ch (pwm_held s)"
    using wf free u
    by (auto simp: pwm_acquire_def Channel_Init_eval pwm_usable_def pwm_table_inv_def pwm_held_update)
  show "\<exists>r s'. pwm_release c ch s = Some (r, s') \<and> pwm_table_inv s' \<and>
      pwm_held s' = pwm_held s - {ch}"
    using wf free u
    by (auto simp: pwm_release_def Channel_DeInit_eval pwm_usable_def pwm_table_inv_def
        pwm_held_update Let_def)
qed

definition pwm_init_memory :: pwm_state where
  "pwm_init_memory = timer_state.extend timer_init_memory (pwm_state.fields (replicate 32 False)
     (replicate 32 False) (replicate 32 False) (replicate 32 0))"

definition pwm_boot :: "'a pwm_state_scheme \<Rightarrow> bool" where
  "pwm_boot s \<longleftrightarrow> timer_boot s \<and> gpio_pin_init_status s = replicate 144 False \<and>
     PWM_Channel_Init_Status s = replicate 32 False \<and>
     PWM_Channel_OnOff_Status s = replicate 32 False \<and>
     PWM_Channel_Inverse_Status s = replicate 32 False \<and>
     PWM_Channel_Current_Duty s = replicate 32 0"

lemma pwm_boot_memory: "pwm_boot pwm_init_memory"
  by (simp add: pwm_boot_def timer_boot_def pwm_init_memory_def timer_init_memory_def
      pwm_state.defs timer_state.defs gpio_state.defs gpio_init_memory_def)

lemma pwm_boot_wf: "pwm_boot s \<Longrightarrow> pwm_wf s"
  by (simp add: pwm_boot_def pwm_wf_def timer_boot_wf)

lemma pwm_boot_held: "pwm_boot s \<Longrightarrow> pwm_held s = {} \<and> timer_held s = {}"
  by (auto simp: pwm_boot_def timer_boot_def pwm_held_def timer_held_def)

text \<open>
  C33: While no timer is in use by the timer driver and the HAL reports success, any sequence of
  PWM_Channel_Init and PWM_Channel_DeInit calls on the 32 channels is defined, and afterwards a
  channel is set up exactly when the last call on it was PWM_Channel_Init.
\<close>

theorem pwm_channels_follow_last_call:
  fixes s :: "'a pwm_state_scheme"
  assumes "pwm_wf s" "timer_held s = {}"
    "\<forall>oper\<in>set ops. life_key oper < hwPWM_Channel_MAX \<and> hal_ok (fst (life_cfg oper)) = (\<lambda>_ _. True)"
  shows "\<exists>s'. life_run pwm_acquire pwm_release ops s = Some s' \<and> pwm_wf s' \<and>
    (\<forall>ch. ch \<in> pwm_held s' \<longleftrightarrow> last_acquired ops ch (ch \<in> pwm_held s))"
  using pwm_channels.run_held_iff [of s ops] assms
  by (auto simp: pwm_channels.usable_op_def pwm_usable_def pwm_table_inv_def)

theorem pwm_channels_follow_last_call_witness:
  "\<exists>s'. life_run pwm_acquire pwm_release
      [Acquire (board_env, False) 4, Acquire (board_env, True) 31, Release (board_env, True) 4]
      pwm_init_memory = Some s' \<and> 31 \<in> pwm_held s' \<and> 4 \<notin> pwm_held s'"
  using pwm_channels_follow_last_call [OF pwm_boot_wf [OF pwm_boot_memory]
      pwm_boot_held [OF pwm_boot_memory, THEN conjunct2], of
      "[Acquire (board_env, False) 4, Acquire (board_env, True) 31, Release (board_env, True) 4]"]
  by (fastforce simp: board_env_def)

section \<open>What is programmed\<close>

definition chan_config :: "hwPWM_Channel \<Rightarrow> u32 \<Rightarrow> hw_event" where
  "chan_config ch pulse = HAL_TIM_PWM_ConfigChannel (def_timer (default_defs ! ch))
     \<lparr>oc_OCMode = TIM_OCMODE_PWM1, oc_Pulse = pulse, oc_OCPolarity = TIM_OCPOLARITY_HIGH,
      oc_OCFastMode = TIM_OCFAST_DISABLE\<rparr> (def_chx (default_defs ! ch))"

definition chan_start :: "hwPWM_Channel \<Rightarrow> hw_event" where
  "chan_start ch = HAL_TIM_PWM_Start (def_timer (default_defs ! ch)) (def_chx (default_defs ! ch))"

lemma pwm_output_cases:
  assumes "pwm_output env (default_defs ! ch) pulse s = (ok, s')"
  obtains es where "s' = s\<lparr>hw_log := hw_log s @ es\<rparr>"
    "ok \<longrightarrow> es = [chan_config ch pulse, chan_start ch]"
    "set es \<subseteq> {chan_config ch pulse, chan_start ch}"
  using assms that [of "[chan_config ch pulse]"] that [of "[chan_config ch pulse, chan_start ch]"]
  by (auto simp: pwm_output_def hal_call_def Let_def chan_config_def chan_start_def emit_def
      split: if_splits)

abbreviation (input) chan_period :: "hwPWM_Channel \<Rightarrow> 'a pwm_state_scheme \<Rightarrow> u32" where
  "chan_period ch s \<equiv> tim_Period (g_timer s ! def_timer (default_defs ! ch))"

lemma Turn_On_eval:
  assumes "pwm_wf s" "ch < 32"
  shows "PWM_Turn_On env ch s =
    (if ch \<notin> pwm_held s \<or> def_timer (default_defs ! ch) \<notin> timer_held s then Some (hwPWM_NotInit, s)
     else let duty = min 1000 (PWM_Channel_Current_Duty s ! ch);
       (ok, s2) = pwm_output env (default_defs ! ch)
         (pwm_pulse (PWM_Channel_Inverse_Status s ! ch) duty (chan_period ch s))
         (s\<lparr>PWM_Channel_Current_Duty := (PWM_Channel_Current_Duty s)[ch := duty]\<rparr>)
       in if ok then Some (hwPWM_OK, s2\<lparr>PWM_Channel_OnOff_Status := (PWM_Channel_OnOff_Status s)[ch := True]\<rparr>)
          else Some (hwPWM_HwError, s2))"
proof -
  note len = pwm_wfD [OF assms(1)] and ok = default_def_ok [OF assms(2)]
  have duty: "(if 1000 < x then 1000 else x) = min 1000 x" for x :: u16 by (auto simp: min_def)
  show ?thesis
    using assms(2) len ok
    by (auto simp: PWM_Turn_On_def pwm_def_eq Timer_is_Init_eval pwm_held_def duty Let_def timer_wfD
        split: prod.split elim!: pwm_output_cases)
qed

lemma Turn_On_And_Set_Duty_eval:
  assumes "pwm_wf s" "ch < 32" "duty \<le> 1000"
  shows "PWM_Turn_On_And_Set_Duty env ch duty s =
    (if ch \<notin> pwm_held s then Some (hwPWM_OK, s)
     else if def_timer (default_defs ! ch) \<notin> timer_held s then Some (hwPWM_NotInit, s)
     else let (ok, s2) = pwm_output env (default_defs ! ch)
         (pwm_pulse (PWM_Channel_Inverse_Status s ! ch) duty (chan_period ch s)) s
       in if ok then Some (hwPWM_OK, s2\<lparr>PWM_Channel_OnOff_Status := (PWM_Channel_OnOff_Status s)[ch := True],
              PWM_Channel_Current_Duty := (PWM_Channel_Current_Duty s)[ch := duty]\<rparr>)
          else Some (hwPWM_HwError, s2))"
  using assms pwm_wfD [OF assms(1)] default_def_ok [OF assms(2)]
  by (auto simp: PWM_Turn_On_And_Set_Duty_def pwm_def_eq Timer_is_Init_eval pwm_held_def Let_def
      timer_wfD not_less split: prod.split elim!: pwm_output_cases)

lemma Turn_Off_eval:
  assumes "pwm_wf s" "ch < 32"
  shows "PWM_Turn_Off env ch s =
    (if ch \<notin> pwm_held s then Some (hwPWM_OK, s)
     else if def_timer (default_defs ! ch) \<notin> timer_held s then Some (hwPWM_NotInit, s)
     else let (ok, s2) = pwm_output env (default_defs ! ch)
         (if PWM_Channel_Inverse_Status s ! ch then chan_period ch s else 0) s
       in if ok then Some (hwPWM_OK, s2\<lparr>PWM_Channel_OnOff_Status := (PWM_Channel_OnOff_Status s)[ch := False]\<rparr>)
          else Some (hwPWM_HwError, s2))"
  using assms pwm_wfD [OF assms(1)] default_def_ok [OF assms(2)]
  by (auto simp: PWM_Turn_Off_def pwm_def_eq Timer_is_Init_eval pwm_held_def Let_def
      timer_wfD not_less split: prod.split elim!: pwm_output_cases)

lemma Set_Duty_eval:
  assumes "pwm_wf s" "ch < 32" "duty \<le> 1000"
  shows "PWM_Set_Duty env ch duty s =
    (if ch \<notin> pwm_held s then Some (hwPWM_OK, s)
     else if \<not> PWM_Channel_OnOff_Status s ! ch then Some (hwPWM_NotTurnOn, s)
     else if def_timer (default_defs ! ch) \<notin> timer_held s then Some (hwPWM_NotInit, s)
     else let (ok, s2) = pwm_output env (default_defs ! ch)
         (pwm_pulse (PWM_Channel_Inverse_Status s ! ch) duty (chan_period ch s)) s
       in if ok then Some (hwPWM_OK, s2\<lparr>PWM_Channel_Current_Duty := (PWM_Channel_Current_Duty s)[ch := duty]\<rparr>)
          else Some (hwPWM_HwError, s2))"
  using assms pwm_wfD [OF assms(1)] default_def_ok [OF assms(2)]
  by (auto simp: PWM_Set_Duty_def pwm_def_eq Timer_is_Init_eval pwm_held_def Let_def
      timer_wfD not_less split: prod.split elim!: pwm_output_cases)

lemma Step_Duty_eval:
  assumes "pwm_wf s" "ch < 32" "dir \<noteq> hwPWM_Step_Dir_MAX"
  shows "PWM_Step_Duty env ch n dir s =
    (if ch \<notin> pwm_held s then Some (hwPWM_OK, s)
     else if \<not> PWM_Channel_OnOff_Status s ! ch then Some (hwPWM_NotTurnOn, s)
     else if def_timer (default_defs ! ch) \<notin> timer_held s then Some (hwPWM_NotInit, s)
     else let duty = pwm_step dir n (PWM_Channel_Current_Duty s ! ch);
       (ok, s2) = pwm_output env (default_defs ! ch)
         (pwm_pulse (PWM_Channel_Inverse_Status s ! ch) duty (chan_period ch s)) s
       in if ok then Some (hwPWM_OK, s2\<lparr>PWM_Channel_Current_Duty := (PWM_Channel_Current_Duty s)[ch := duty]\<rparr>)
          else Some (hwPWM_HwError, s2))"
  using assms pwm_wfD [OF assms(1)] default_def_ok [OF assms(2)]
  by (auto simp: PWM_Step_Duty_def pwm_def_eq Timer_is_Init_eval pwm_held_def Let_def
      timer_wfD not_less split: prod.split elim!: pwm_output_cases)

text \<open>The hardware was last told the compare value that belongs to the recorded duty.\<close>

definition shows_duty :: "hwPWM_Channel \<Rightarrow> 'a pwm_state_scheme \<Rightarrow> 'a pwm_state_scheme \<Rightarrow> bool" where
  "shows_duty ch s s' \<longleftrightarrow> hw_log s' = hw_log s @ [chan_config ch (pwm_pulse
     (PWM_Channel_Inverse_Status s' ! ch) (PWM_Channel_Current_Duty s' ! ch)
     (tim_Period (g_timer s' ! def_timer (default_defs ! ch)))), chan_start ch]"


section \<open>The timer driver leaves the channels alone\<close>

definition same_rest :: "'a timer_state_scheme \<Rightarrow> 'a timer_state_scheme \<Rightarrow> bool" where
  "same_rest s s' \<longleftrightarrow> timer_state.more s' = timer_state.more s \<and>
     gpio_pin_init_status s' = gpio_pin_init_status s"

lemma same_rest_simps [simp]:
  "same_rest s s" "same_rest s (emit e s') = same_rest s s'"
  "same_rest s (s'\<lparr>hw_log := es\<rparr>) = same_rest s s'"
  "same_rest s (s'\<lparr>Timer_Init_Status := a\<rparr>) = same_rest s s'"
  "same_rest s (s'\<lparr>Timer_IsPeriodic := a\<rparr>) = same_rest s s'"
  "same_rest s (s'\<lparr>Timer_Expired_Handler := h\<rparr>) = same_rest s s'"
  "same_rest s (s'\<lparr>g_timer := g\<rparr>) = same_rest s s'"
  by (simp_all add: same_rest_def emit_def)

lemma same_rest_trans: "same_rest s t \<Longrightarrow> same_rest t u \<Longrightarrow> same_rest s u"
  by (simp add: same_rest_def)

lemma same_rest_closed [simp]:
  "same_rest s (timer_setup env i s)" "same_rest s (timer_teardown i s)"
  "same_rest s (timer_run i d s') = same_rest s s'"
  by (simp_all add: timer_setup_def timer_teardown_def timer_run_def Let_def)

lemma elapsed_same_rest:
  assumes "HAL_TIM_PeriodElapsedCallback i s = Some s'"
  shows "same_rest s s'"
proof -
  have "same_rest s s'" if "elapsed_loop is i s = Some s'" for "is"
    using that
    by (induction "is") (auto simp: bind_eq_Some_conv Let_def split: if_splits option.splits)
  with assms show ?thesis by (auto simp: HAL_TIM_PeriodElapsedCallback_def)
qed

lemma serve_same_rest: "serve_timers env is s = Some s' \<Longrightarrow> same_rest s s'"
proof (induction env "is" s rule: serve_timers.induct)
  case (2 env i "is" s)
  then obtain s1 where s1: "Timer_HAL_IRQHandler env i s = Some s1" "serve_timers env is s1 = Some s'"
    by (auto simp: bind_eq_Some_conv)
  have "same_rest (emit (HAL_TIM_IRQHandler i) s) s1"
    using s1(1) by (auto simp: Timer_HAL_IRQHandler_def Let_def dest: elapsed_same_rest split: if_splits)
  then have "same_rest s s1" by (auto simp: same_rest_def emit_def)
  with 2 s1 show ?case by (auto intro: same_rest_trans)
qed simp

lemma timer_exec_same_rest:
  assumes "timer_wf s" "timer_exec env i cmd s = Some s'"
  shows "same_rest s s'"
proof -
  note len = timer_wfD [OF assms(1)]
  have wf': "timer_wf (s\<lparr>Timer_Expired_Handler := (Timer_Expired_Handler s)[i := f],
      Timer_IsPeriodic := (Timer_IsPeriodic s)[i := p]\<rparr>)" for f p
    using len by (simp add: timer_wf_def)
  show ?thesis
    using assms len wf'
    by (cases cmd) (auto simp: Timer_Init_eval Timer_DeInit_eval Timer_Start_OneShout_def
        Timer_Start_Period_def Timer_Reload_def Timer_Stop_def timer_restart_eval
        dest: elapsed_same_rest split: if_splits)
qed

lemma timer_exec_wf: "timer_wf s \<Longrightarrow> timer_exec env i cmd s = Some s' \<Longrightarrow> timer_wf s'"
proof (cases "i < 14")
  case False
  assume "timer_wf s" and exec: "timer_exec env i cmd s = Some s'"
  have "elapsed_loop is i s = Some s" if "set is \<subseteq> {..<14}" for "is"
    using that False by (induction "is") auto
  from this [of "[0..<14]"] have "HAL_TIM_PeriodElapsedCallback i s = Some s"
    by (simp add: HAL_TIM_PeriodElapsedCallback_def atLeast0LessThan del: upt_rec_numeral)
  with False exec \<open>timer_wf s\<close> show ?thesis
    by (cases cmd) (auto simp: Timer_Init_def Timer_DeInit_def Timer_Start_OneShout_def
        Timer_Start_Period_def Timer_Reload_def Timer_Stop_def)
qed (use timer_exec_refines [of s i env cmd] in auto)

lemma elapsed_wf:
  assumes "timer_wf s" "HAL_TIM_PeriodElapsedCallback i s = Some s'"
  shows "timer_wf s'"
  using timer_exec_wf [of s undefined i Cmd_Expire] assms by simp

lemma serve_wf: "timer_wf s \<Longrightarrow> serve_timers env is s = Some s' \<Longrightarrow> timer_wf s'"
proof (induction env "is" s rule: serve_timers.induct)
  case (2 env i "is" s)
  then obtain s1 where s1: "Timer_HAL_IRQHandler env i s = Some s1" "serve_timers env is s1 = Some s'"
    by (auto simp: bind_eq_Some_conv)
  have "timer_wf s1"
    using s1(1) 2(2) by (auto simp: Timer_HAL_IRQHandler_def Let_def dest: elapsed_wf [rotated]
        split: if_splits)
  with 2 s1 show ?case by auto
qed simp

lemma timer_step_frame:
  assumes "timer_step env s s'" "timer_wf s"
  shows "same_rest s s' \<and> timer_wf s'"
  using assms
  by (cases rule: timer_step.cases)
    (auto simp: TIM_IRQHandler_def dest: timer_exec_same_rest timer_exec_wf serve_same_rest serve_wf)

lemma same_rest_pwm:
  fixes s :: "'a pwm_state_scheme"
  assumes "same_rest s s'"
  shows "PWM_Channel_Init_Status s' = PWM_Channel_Init_Status s"
    "PWM_Channel_OnOff_Status s' = PWM_Channel_OnOff_Status s"
    "PWM_Channel_Inverse_Status s' = PWM_Channel_Inverse_Status s"
    "PWM_Channel_Current_Duty s' = PWM_Channel_Current_Duty s"
    "timer_wf s' \<Longrightarrow> pwm_wf s \<Longrightarrow> pwm_wf s'"
  using assms by (cases s; cases s'; simp add: same_rest_def pwm_wf_def)+

text \<open>Channel 4 (TIM2, pin A0) set up, then its timer.\<close>

definition ch4_memory :: pwm_state where
  "ch4_memory = timer_setup board_env 1 (chan_setup 4 False pwm_init_memory)"

lemma default_4: "default_defs ! 4 = pwm_pin 4 1 (pA 0) 1 0"
  by (simp add: default_defs_def)

lemma ch4_memory_facts:
  "pwm_wf ch4_memory" "4 \<in> pwm_held ch4_memory" "1 \<in> timer_held ch4_memory"
  "PWM_Channel_OnOff_Status ch4_memory ! 4 = False"
proof -
  let ?s = "chan_setup 4 False pwm_init_memory"
  note wf = pwm_boot_wf [OF pwm_boot_memory]
  have s: "pwm_wf ?s" using wf by simp
  have rest: "same_rest ?s ch4_memory" by (simp add: ch4_memory_def)
  show "pwm_wf ch4_memory"
    by (rule same_rest_pwm(5) [OF rest]) (use s in \<open>simp_all add: ch4_memory_def pwm_wfD\<close>)
  show "4 \<in> pwm_held ch4_memory"
    using pwm_held_update(1) [OF wf, of 4 False] by (simp add: pwm_held_def same_rest_pwm(1) [OF rest])
  show "1 \<in> timer_held ch4_memory"
    using timer_held_update(1) [of ?s 1 board_env] pwm_wfD(1) [OF s] by (simp add: ch4_memory_def)
  show "PWM_Channel_OnOff_Status ch4_memory ! 4 = False"
    using pwm_boot_memory by (simp add: same_rest_pwm(2) [OF rest] pwm_boot_def)
qed

lemma ch4_turn_on:
  "\<exists>s'. PWM_Turn_On_And_Set_Duty board_env 4 250 ch4_memory = Some (hwPWM_OK, s')"
  using ch4_memory_facts
  by (simp add: Turn_On_And_Set_Duty_eval default_4 pwm_pin_def pwm_output_def hal_call_def Let_def
      board_env_def)


section \<open>Reachable states\<close>

inductive pwm_call :: "hal_env \<Rightarrow> 'a pwm_state_scheme \<Rightarrow> 'a pwm_state_scheme \<Rightarrow> bool" for env where
  init: "PWM_Channel_Init env ch v s = Some (r, s') \<Longrightarrow> pwm_call env s s'"
| deinit: "PWM_Channel_DeInit env ch s = Some (r, s') \<Longrightarrow> pwm_call env s s'"
| turn_on: "PWM_Turn_On env ch s = Some (r, s') \<Longrightarrow> pwm_call env s s'"
| turn_on_set: "PWM_Turn_On_And_Set_Duty env ch duty s = Some (r, s') \<Longrightarrow> pwm_call env s s'"
| turn_off: "PWM_Turn_Off env ch s = Some (r, s') \<Longrightarrow> pwm_call env s s'"
| set_duty: "PWM_Set_Duty env ch duty s = Some (r, s') \<Longrightarrow> pwm_call env s s'"
| step_duty: "PWM_Step_Duty env ch n dir s = Some (r, s') \<Longrightarrow> pwm_call env s s'"

inductive pwm_reach :: "hal_env \<Rightarrow> 'a pwm_state_scheme \<Rightarrow> bool" for env where
  boot: "pwm_boot s \<Longrightarrow> pwm_reach env s"
| pwm: "pwm_reach env s \<Longrightarrow> pwm_call env s s' \<Longrightarrow> pwm_reach env s'"
| timer: "pwm_reach env s \<Longrightarrow> timer_step env s s' \<Longrightarrow> pwm_reach env s'"

inductive pwm_only_reach :: "hal_env \<Rightarrow> 'a pwm_state_scheme \<Rightarrow> bool" for env where
  boot: "pwm_boot s \<Longrightarrow> pwm_only_reach env s"
| pwm: "pwm_only_reach env s \<Longrightarrow> pwm_call env s s' \<Longrightarrow> pwm_only_reach env s'"

text \<open>A call in terms of the closed forms.\<close>

inductive pwm_effect :: "hal_env \<Rightarrow> 'a pwm_state_scheme \<Rightarrow> 'a pwm_state_scheme \<Rightarrow> bool" for env where
  none: "pwm_effect env s s"
| set_up: "ch < 32 \<Longrightarrow> def_timer (default_defs ! ch) \<notin> timer_held s \<Longrightarrow>
    pwm_effect env s (chan_setup ch v s)"
| set_up_failed: "ch < 32 \<Longrightarrow> pwm_effect env s (emit (HAL_GPIO_DeInit b p)
    (emit (chan_init_call ch s) (chan_prog ch s)))"
| tear_down: "ch < 32 \<Longrightarrow> pwm_effect env s (chan_teardown ch s)"
| tear_down_failed: "pwm_effect env s (emit (HAL_TIM_PWM_DeInit t) (emit (HAL_TIM_PWM_Stop t x) s))"
| drive: "ch \<in> pwm_held s \<Longrightarrow> def_timer (default_defs ! ch) \<in> timer_held s \<Longrightarrow>
    set es \<subseteq> {chan_config ch pulse, chan_start ch} \<Longrightarrow>
    duty \<le> 1000 \<or> duty = PWM_Channel_Current_Duty s ! ch \<or>
      (\<exists>dir n. duty = pwm_step dir n (PWM_Channel_Current_Duty s ! ch)) \<Longrightarrow>
    pwm_effect env s (s\<lparr>hw_log := hw_log s @ es,
      PWM_Channel_OnOff_Status := (PWM_Channel_OnOff_Status s)[ch := b],
      PWM_Channel_Current_Duty := (PWM_Channel_Current_Duty s)[ch := duty]\<rparr>)"

lemma drive_same:
  assumes "ch \<in> pwm_held s" "def_timer (default_defs ! ch) \<in> timer_held s"
    "set es \<subseteq> {chan_config ch pulse, chan_start ch}"
  shows "pwm_effect env s (s\<lparr>hw_log := hw_log s @ es\<rparr>)"
    "pwm_effect env s (s\<lparr>hw_log := hw_log s @ es,
       PWM_Channel_OnOff_Status := (PWM_Channel_OnOff_Status s)[ch := b]\<rparr>)"
    "duty \<le> 1000 \<or> (\<exists>dir n. duty = pwm_step dir n (PWM_Channel_Current_Duty s ! ch)) \<Longrightarrow>
     pwm_effect env s (s\<lparr>hw_log := hw_log s @ es,
       PWM_Channel_Current_Duty := (PWM_Channel_Current_Duty s)[ch := duty]\<rparr>)"
proof -
  let ?on = "PWM_Channel_OnOff_Status s" and ?du = "PWM_Channel_Current_Duty s"
  have same: "s\<lparr>hw_log := l, PWM_Channel_OnOff_Status := ?on, PWM_Channel_Current_Duty := d\<rparr> =
      s\<lparr>hw_log := l, PWM_Channel_Current_Duty := d\<rparr>"
    "s\<lparr>hw_log := l, PWM_Channel_OnOff_Status := o', PWM_Channel_Current_Duty := ?du\<rparr> =
      s\<lparr>hw_log := l, PWM_Channel_OnOff_Status := o'\<rparr>"
    "s\<lparr>hw_log := l, PWM_Channel_Current_Duty := ?du\<rparr> = s\<lparr>hw_log := l\<rparr>" for l d o'
    by (cases s; simp)+
  note d = pwm_effect.drive [OF assms, of _ env]
  show "pwm_effect env s (s\<lparr>hw_log := hw_log s @ es\<rparr>)"
    using d [of "?du ! ch" "?on ! ch"] by (simp add: same)
  show "pwm_effect env s (s\<lparr>hw_log := hw_log s @ es, PWM_Channel_OnOff_Status := ?on[ch := b]\<rparr>)"
    using d [of "?du ! ch" b] by (simp add: same)
  show "pwm_effect env s (s\<lparr>hw_log := hw_log s @ es, PWM_Channel_Current_Duty := ?du[ch := duty]\<rparr>)"
    if "duty \<le> 1000 \<or> (\<exists>dir n. duty = pwm_step dir n (?du ! ch))"
  proof -
    have "duty \<le> 1000 \<or> duty = ?du ! ch \<or> (\<exists>dir n. duty = pwm_step dir n (?du ! ch))"
      using that by blast
    from d [OF this, of "?on ! ch"] show ?thesis by (simp add: same)
  qed
qed

lemma update_order:
  fixes s :: "'a pwm_state_scheme"
  shows "s\<lparr>PWM_Channel_Current_Duty := d, hw_log := l\<rparr> = s\<lparr>hw_log := l, PWM_Channel_Current_Duty := d\<rparr>"
    "s\<lparr>PWM_Channel_Current_Duty := d, PWM_Channel_OnOff_Status := b\<rparr> =
     s\<lparr>PWM_Channel_OnOff_Status := b, PWM_Channel_Current_Duty := d\<rparr>"
  by (cases s; simp)+

lemma pwm_call_effect:
  assumes "pwm_call env s s'" "pwm_wf s"
  shows "pwm_effect env s s'"
  using assms(1)
proof cases
  case (init ch v r)
  then show ?thesis
    using assms(2) by (auto simp: Channel_Init_eval split: if_splits intro: pwm_effect.intros)
next
  case (deinit ch r)
  then show ?thesis
    using assms(2) by (auto simp: Channel_DeInit_eval Let_def split: if_splits intro: pwm_effect.intros)
next
  case (turn_on ch r)
  show ?thesis
  proof (cases "ch < 32")
    case True
    then show ?thesis
      using turn_on assms(2)
      by (auto simp: Turn_On_eval Let_def update_order split: if_splits prod.splits
          intro!: pwm_effect.none pwm_effect.drive drive_same elim!: pwm_output_cases)
  qed (use turn_on in \<open>auto simp: PWM_Turn_On_def intro: pwm_effect.none\<close>)
next
  case (turn_on_set ch duty r)
  show ?thesis
  proof (cases "ch < 32 \<and> duty \<le> 1000")
    case True
    then show ?thesis
      using turn_on_set assms(2)
      by (auto simp: Turn_On_And_Set_Duty_eval split: if_splits prod.splits
          intro!: pwm_effect.intros drive_same elim!: pwm_output_cases)
  qed (use turn_on_set in \<open>auto simp: PWM_Turn_On_And_Set_Duty_def intro: pwm_effect.none split: if_splits\<close>)
next
  case (turn_off ch r)
  show ?thesis
  proof (cases "ch < 32")
    case True
    then show ?thesis
      using turn_off assms(2)
      by (auto simp: Turn_Off_eval split: if_splits prod.splits
          intro!: pwm_effect.none drive_same elim!: pwm_output_cases)
  qed (use turn_off in \<open>auto simp: PWM_Turn_Off_def intro: pwm_effect.none\<close>)
next
  case (set_duty ch duty r)
  show ?thesis
  proof (cases "ch < 32 \<and> duty \<le> 1000")
    case True
    then show ?thesis
      using set_duty assms(2)
      by (auto simp: Set_Duty_eval split: if_splits prod.splits
          intro!: pwm_effect.none drive_same elim!: pwm_output_cases)
  qed (use set_duty in \<open>auto simp: PWM_Set_Duty_def intro: pwm_effect.none split: if_splits\<close>)
next
  case (step_duty ch n dir r)
  show ?thesis
  proof (cases "ch < 32 \<and> dir \<noteq> hwPWM_Step_Dir_MAX")
    case True
    then show ?thesis
      using step_duty assms(2)
      by (auto simp: Step_Duty_eval Let_def split: if_splits prod.splits
          intro!: pwm_effect.none drive_same elim!: pwm_output_cases)
  qed (use step_duty in \<open>auto simp: PWM_Step_Duty_def intro: pwm_effect.none split: if_splits\<close>)
qed

section \<open>Invariants\<close>

definition pwm_inv :: "'a pwm_state_scheme \<Rightarrow> bool" where
  "pwm_inv s \<longleftrightarrow> pwm_wf s \<and> (\<forall>ch<32. PWM_Channel_Current_Duty s ! ch \<le> 1000 \<and>
     (PWM_Channel_OnOff_Status s ! ch \<longrightarrow> PWM_Channel_Init_Status s ! ch))"

lemma pwm_inv_effect:
  assumes "pwm_effect env s s'" "pwm_inv s"
  shows "pwm_inv s'"
  using assms
proof cases
  case none
  with assms(2) show ?thesis by simp
next
  case (set_up ch v)
  with assms(2) show ?thesis by (auto simp: pwm_inv_def nth_list_update pwm_wfD)
next
  case (set_up_failed ch b p)
  with assms(2) show ?thesis by (simp add: pwm_inv_def pwm_wf_def timer_wf_def)
next
  case (tear_down ch)
  with assms(2) show ?thesis by (auto simp: pwm_inv_def nth_list_update pwm_wfD)
next
  case (tear_down_failed t x)
  with assms(2) show ?thesis by (simp add: pwm_inv_def)
next
  case (drive ch es pulse duty b)
  have ch: "ch < 32" "PWM_Channel_Init_Status s ! ch" using drive(2) by (auto simp: pwm_held_def)
  then have "duty \<le> 1000"
    using drive(5) assms(2) by (auto simp: pwm_inv_def pwm_step_le)
  then show ?thesis
    using assms(2) ch unfolding drive(1)
    by (auto simp: pwm_inv_def pwm_wf_def timer_wf_def nth_list_update)
qed

lemma pwm_reach_inv: "pwm_reach env s \<Longrightarrow> pwm_inv s"
proof (induction rule: pwm_reach.induct)
  case (boot s)
  then show ?case by (auto simp: pwm_inv_def pwm_boot_wf) (simp_all add: pwm_boot_def)
next
  case (pwm s s')
  then show ?case by (meson pwm_call_effect pwm_inv_effect pwm_inv_def)
next
  case (timer s s')
  then have "same_rest s s'" "timer_wf s'"
    using timer_step_frame by (auto simp: pwm_inv_def pwm_wf_def)
  with timer.IH show ?case by (simp add: pwm_inv_def same_rest_pwm)
qed

text \<open>
  C27: In every state that calls of the PWM and timer drivers and timer interrupts can reach,
  every recorded duty is at most PWM_MAX_DUTY and every channel recorded as on is set up, and
  a further call of any of the functions never touches memory outside the arrays.
\<close>

theorem duty_bounded_and_on_implies_init:
  assumes "pwm_reach env s"
  shows "(\<forall>ch<32. PWM_Channel_Current_Duty s ! ch \<le> PWM_MAX_DUTY \<and>
      (\<not> PWM_Channel_OnOff_Status s ! ch \<or> ch \<in> pwm_held s)) \<and>
    (\<exists>r s'. PWM_Channel_Init env ch v s = Some (r, s')) \<and>
    (\<exists>r s'. PWM_Channel_DeInit env ch s = Some (r, s')) \<and>
    (\<exists>r s'. PWM_Turn_On env ch s = Some (r, s')) \<and>
    (\<exists>r s'. PWM_Turn_On_And_Set_Duty env ch duty s = Some (r, s')) \<and>
    (\<exists>r s'. PWM_Turn_Off env ch s = Some (r, s')) \<and>
    (\<exists>r s'. PWM_Set_Duty env ch duty s = Some (r, s')) \<and>
    (\<exists>r s'. PWM_Step_Duty env ch n dir s = Some (r, s'))"
proof -
  have inv: "pwm_inv s" using assms by (rule pwm_reach_inv)
  then have wf: "pwm_wf s" by (simp add: pwm_inv_def)
  have "\<exists>r s'. PWM_Channel_Init env ch v s = Some (r, s')"
    "\<exists>r s'. PWM_Channel_DeInit env ch s = Some (r, s')"
    using wf by (simp_all add: Channel_Init_eval Channel_DeInit_eval Let_def)
  moreover have "\<exists>r s'. PWM_Turn_On env ch s = Some (r, s')"
  proof (cases "ch < 32")
    case True
    with wf show ?thesis by (simp add: Turn_On_eval Let_def split: prod.split)
  qed (simp add: PWM_Turn_On_def)
  moreover have "\<exists>r s'. PWM_Turn_Off env ch s = Some (r, s')"
  proof (cases "ch < 32")
    case True
    with wf show ?thesis by (simp add: Turn_Off_eval split: prod.split)
  qed (simp add: PWM_Turn_Off_def)
  moreover have "\<exists>r s'. PWM_Turn_On_And_Set_Duty env ch duty s = Some (r, s')"
  proof (cases "ch < 32 \<and> duty \<le> 1000")
    case True
    with wf show ?thesis by (simp add: Turn_On_And_Set_Duty_eval split: prod.split)
  qed (auto simp: PWM_Turn_On_And_Set_Duty_def not_less not_le)
  moreover have "\<exists>r s'. PWM_Set_Duty env ch duty s = Some (r, s')"
  proof (cases "ch < 32 \<and> duty \<le> 1000")
    case True
    with wf show ?thesis by (simp add: Set_Duty_eval split: prod.split)
  qed (auto simp: PWM_Set_Duty_def not_less not_le)
  moreover have "\<exists>r s'. PWM_Step_Duty env ch n dir s = Some (r, s')"
  proof (cases "ch < 32 \<and> dir \<noteq> hwPWM_Step_Dir_MAX")
    case True
    with wf show ?thesis by (simp add: Step_Duty_eval Let_def split: prod.split)
  qed (auto simp: PWM_Step_Duty_def)
  ultimately show ?thesis using inv by (auto simp: pwm_inv_def pwm_held_def)
qed

lemma reach_ch4: "pwm_reach board_env ch4_memory"
proof -
  note held = pwm_boot_held [OF pwm_boot_memory]
  have "PWM_Channel_Init board_env 4 False pwm_init_memory =
      Some (hwPWM_OK, chan_setup 4 False pwm_init_memory)"
    using held by (simp add: Channel_Init_eval [OF pwm_boot_wf [OF pwm_boot_memory]]) (simp add: board_env_def)
  moreover have "timer_exec board_env 1 Cmd_Init (chan_setup 4 False pwm_init_memory) = Some ch4_memory"
    using held pwm_boot_wf [OF pwm_boot_memory]
    by (simp add: Timer_Init_eval pwm_wfD(1) ch4_memory_def)
  ultimately show ?thesis
    by (meson pwm_reach.intros pwm_call.init timer_step.command pwm_boot_memory)
qed

theorem duty_bounded_and_on_implies_init_witness:
  "\<exists>s'. PWM_Turn_On_And_Set_Duty board_env 4 250 ch4_memory = Some (hwPWM_OK, s') \<and>
     PWM_Channel_Current_Duty s' ! 4 \<le> 1000 \<and> 4 \<in> pwm_held s'"
proof -
  obtain s' where s': "PWM_Turn_On_And_Set_Duty board_env 4 250 ch4_memory = Some (hwPWM_OK, s')"
    using ch4_turn_on by blast
  have "pwm_reach board_env s'"
    by (rule pwm_reach.pwm [OF reach_ch4 pwm_call.turn_on_set [OF s']])
  moreover have "PWM_Channel_OnOff_Status s' ! 4"
    using s' ch4_memory_facts pwm_wfD [OF ch4_memory_facts(1)]
    by (auto simp: Turn_On_And_Set_Duty_eval split: if_splits prod.splits)
  ultimately show ?thesis
    using duty_bounded_and_on_implies_init [of board_env s'] s' by auto
qed

section \<open>Without the timer driver nothing is ever output\<close>

fun silent_event :: "hw_event \<Rightarrow> bool" where
  "silent_event (HAL_TIM_PWM_Start t x) = False"
| "silent_event (HAL_TIM_PWM_Init t h) = (tim_Instance h = None)"
| "silent_event e = True"

definition pwm_idle :: "'a pwm_state_scheme \<Rightarrow> bool" where
  "pwm_idle s \<longleftrightarrow> pwm_wf s \<and> Timer_Init_Status s = replicate 14 False \<and>
     g_timer s = replicate 14 TIM_Handle_zero \<and> PWM_Channel_OnOff_Status s = replicate 32 False \<and>
     list_all silent_event (hw_log s)"

lemma silent_prog [simp]:
  "list_all silent_event (hw_log (chan_prog ch s)) = list_all silent_event (hw_log s)"
  by (simp add: chan_prog_def Let_def GPIO_Enable_RCC_Clock_def)

lemma pwm_release_event:
  "pwm_clk_release t = Some (chs, e) \<Longrightarrow> silent_event e"
  unfolding pwm_clk_release_def by (drule switch_cases) auto

lemma pwm_idle_effect:
  assumes "pwm_effect env s s'" "pwm_idle s"
  shows "pwm_idle s'"
  using assms(1)
proof cases
  case (drive ch es pulse duty b)
  have "timer_held s = {}" using assms(2) by (auto simp: pwm_idle_def timer_held_def)
  with drive show ?thesis by simp
next
  case (set_up ch v)
  have "silent_event (chan_init_call ch s)"
    using assms(2) default_def_ok(1) [OF set_up(2)]
    by (simp add: chan_init_call_def pwm_idle_def TIM_Handle_zero_def Let_def)
  with set_up assms(2) show ?thesis by (auto simp: pwm_idle_def) (simp add: chan_setup_def)
next
  case (set_up_failed ch b p)
  have "silent_event (chan_init_call ch s)"
    using assms(2) default_def_ok(1) [OF set_up_failed(2)]
    by (simp add: chan_init_call_def pwm_idle_def TIM_Handle_zero_def Let_def)
  with set_up_failed assms(2) show ?thesis by (simp add: pwm_idle_def pwm_wf_def timer_wf_def)
next
  case (tear_down ch)
  have "list_all silent_event (hw_log (chan_teardown ch s))"
    using assms(2)
    by (auto simp: pwm_idle_def chan_teardown_def Let_def pwm_release_clock_def
        dest: pwm_release_event split: option.split)
  moreover have "(replicate 32 False)[ch := False] = replicate 32 False"
    using tear_down(2) by (simp add: list_update_same_conv)
  ultimately show ?thesis
    using tear_down assms(2) by (simp add: pwm_idle_def)
qed (use assms(2) in \<open>simp_all add: pwm_idle_def\<close>)

text \<open>
  C40: As long as nothing calls Timer_Init, as is the case in the repository outside the timer
  driver itself, no sequence of PWM calls ever starts an output or records a channel as on,
  and the handle that PWM_Channel_Init passes to HAL_TIM_PWM_Init always has the Instance NULL.
\<close>

theorem no_output_without_timer_init:
  assumes "pwm_only_reach env s"
  shows "HAL_TIM_PWM_Start t x \<notin> set (hw_log s) \<and>
    (HAL_TIM_PWM_Init t h \<notin> set (hw_log s) \<or> tim_Instance h = None) \<and>
    PWM_Channel_OnOff_Status s = replicate 32 False"
proof -
  have "pwm_idle s"
    using assms
  proof (induction rule: pwm_only_reach.induct)
    case (boot s)
    then show ?case using pwm_boot_wf [of s] by (simp add: pwm_idle_def pwm_boot_def timer_boot_def)
  next
    case (pwm s s')
    then show ?case by (meson pwm_call_effect pwm_idle_effect pwm_idle_def)
  qed
  then show ?thesis
    by (auto simp: pwm_idle_def list_all_iff)
qed

theorem no_output_without_timer_init_witness:
  "HAL_TIM_PWM_Init 1 TIM_Handle_zero \<in> set (hw_log (chan_setup 4 False pwm_init_memory)) \<and>
   PWM_Channel_OnOff_Status (chan_setup 4 False pwm_init_memory) = replicate 32 False"
proof -
  note held = pwm_boot_held [OF pwm_boot_memory]
  have "PWM_Channel_Init board_env 4 False pwm_init_memory =
      Some (hwPWM_OK, chan_setup 4 False pwm_init_memory)"
    using held by (simp add: Channel_Init_eval [OF pwm_boot_wf [OF pwm_boot_memory]]) (simp add: board_env_def)
  then have "pwm_only_reach board_env (chan_setup 4 False pwm_init_memory)"
    by (meson pwm_only_reach.intros pwm_call.init pwm_boot_memory)
  from no_output_without_timer_init [OF this] show ?thesis
    using pwm_boot_memory
    by (simp add: chan_setup_def chan_init_call_def default_4 pwm_pin_def Let_def pwm_boot_def
        timer_boot_def)
qed

section \<open>The clocks of the timers\<close>

definition release_ok :: "hwPWM_Channel \<Rightarrow> bool" where
  "release_ok ch = (let t = def_timer (default_defs ! ch) in case pwm_clk_release t of None \<Rightarrow> False
     | Some (chs, e) \<Rightarrow> ch \<in> set chs \<and> list_all (\<lambda>k. k < 32 \<and> def_timer (default_defs ! k) = t) chs \<and>
         e = (if t = 10 then RCC_CLK_DISABLE (RCC_TIM 12) else if t = 13 then RCC_CLK_ENABLE (RCC_TIM 14)
              else RCC_CLK_DISABLE (RCC_TIM (Suc t))))"

lemma release_table: "list_all release_ok [0..<32]"
  by code_simp

lemma release_entry:
  assumes "ch < 32"
  obtains chs e where "pwm_clk_release (def_timer (default_defs ! ch)) = Some (chs, e)" "ch \<in> set chs"
    "e = (if def_timer (default_defs ! ch) = 10 then RCC_CLK_DISABLE (RCC_TIM 12)
      else if def_timer (default_defs ! ch) = 13 then RCC_CLK_ENABLE (RCC_TIM 14)
      else RCC_CLK_DISABLE (RCC_TIM (Suc (def_timer (default_defs ! ch)))))"
proof -
  have "release_ok ch" using release_table assms by (simp add: list_all_iff del: upt_rec_numeral)
  then show thesis
    by (auto simp: release_ok_def Let_def split: option.splits intro: that simp del: if_split)
qed

lemma only_27_on_TIM11: "ch < 32 \<Longrightarrow> def_timer (default_defs ! ch) = 10 \<Longrightarrow> ch = 27"
proof -
  have "list_all (\<lambda>k. def_timer (default_defs ! k) = 10 \<longrightarrow> k = 27) [0..<32]" by code_simp
  then show "ch < 32 \<Longrightarrow> def_timer (default_defs ! ch) = 10 \<Longrightarrow> ch = 27"
    by (simp add: list_all_iff del: upt_rec_numeral)
qed

lemma teardown_log:
  assumes "pwm_clk_release (def_timer (default_defs ! ch)) = Some (chs, e)"
  shows "rcc_on (RCC_TIM n) (hw_log (chan_teardown ch s)) =
    (if list_all (\<lambda>i. \<not> (PWM_Channel_Init_Status s)[ch := False] ! i) chs
     then rcc_effect (RCC_TIM n) e (rcc_on (RCC_TIM n) (hw_log s)) else rcc_on (RCC_TIM n) (hw_log s))"
  using assms by (simp add: chan_teardown_def Let_def pwm_release_clock_def rcc_on_app)

text \<open>
  Giving back a channel other than channel 28 never changes the clock of a timer that
  still has a channel in use: the clock of a shared timer goes off only with its last channel.
\<close>

theorem shared_timer_keeps_clock:
  assumes "pwm_wf s" "PWM_Channel_DeInit env ch s = Some (hwPWM_OK, s')" "ch \<noteq> 27"
    "other \<in> pwm_held s'"
  shows "rcc_on (RCC_TIM (Suc (def_timer (default_defs ! other)))) (hw_log s') =
    rcc_on (RCC_TIM (Suc (def_timer (default_defs ! other)))) (hw_log s)"
proof (cases "ch < 32 \<and> ch \<in> pwm_held s")
  case False
  with assms(1,2) show ?thesis by (auto simp: Channel_DeInit_eval split: if_splits)
next
  case True
  then have s': "s' = chan_teardown ch s"
    using assms(1,2) by (auto simp: Channel_DeInit_eval Let_def split: if_splits)
  have o: "other < 32" "PWM_Channel_Init_Status s' ! other" using assms(4) by (auto simp: pwm_held_def)
  let ?t = "def_timer (default_defs ! ch)" and ?u = "def_timer (default_defs ! other)"
  obtain chs e where r: "pwm_clk_release ?t = Some (chs, e)"
    "e = (if ?t = 10 then RCC_CLK_DISABLE (RCC_TIM 12) else if ?t = 13 then RCC_CLK_ENABLE (RCC_TIM 14)
      else RCC_CLK_DISABLE (RCC_TIM (Suc ?t)))"
    using release_entry [of ch] True by blast
  have "?t \<noteq> 10" using only_27_on_TIM11 assms(3) True by auto
  show ?thesis
  proof (cases "?t = ?u")
    case True
    then have "other \<in> set chs" using release_entry [OF o(1)] r(1) by auto
    then have "\<not> list_all (\<lambda>i. \<not> (PWM_Channel_Init_Status s)[ch := False] ! i) chs"
      using o(2) s' by (auto simp: list_all_iff)
    then show ?thesis by (simp add: s' teardown_log [OF r(1)])
  next
    case False
    with \<open>?t \<noteq> 10\<close> show ?thesis by (auto simp: s' teardown_log [OF r(1)] r(2))
  qed
qed

lemma default_28_27: "def_timer (default_defs ! 27) = 10" "def_timer (default_defs ! 28) = 11"
  "def_timer (default_defs ! 31) = 13"
  by (simp_all add: default_defs_def pwm_pin_def)

text \<open>
  Giving back channel 28 (on TIM11) disables the clock of TIM12 instead, although channels
  of TIM12 may be in use, and leaves TIM11 clocked; giving back channel 32 enables the clock
  of TIM14, which is never disabled again.
\<close>

theorem wrong_clock_released:
  assumes "pwm_wf s" "PWM_Channel_DeInit env ch s = Some (hwPWM_OK, s')" "ch \<in> pwm_held s"
  shows "(ch \<noteq> 27 \<or> \<not> rcc_on (RCC_TIM 12) (hw_log s') \<and>
      rcc_on (RCC_TIM 11) (hw_log s') = rcc_on (RCC_TIM 11) (hw_log s)) \<and>
    (ch \<noteq> 31 \<or> rcc_on (RCC_TIM 14) (hw_log s'))"
proof -
  have s': "s' = chan_teardown ch s"
    using assms by (auto simp: Channel_DeInit_eval Let_def pwm_held_def split: if_splits)
  have len: "length (PWM_Channel_Init_Status s) = 32" by (rule pwm_wfD(3) [OF assms(1)])
  have r: "pwm_clk_release 10 = Some ([27], RCC_CLK_DISABLE (RCC_TIM 12))"
    "pwm_clk_release 13 = Some ([31], RCC_CLK_ENABLE (RCC_TIM 14))"
    by (simp_all add: pwm_clk_release_def)
  show ?thesis
    using len r by (auto simp: s' teardown_log default_28_27)
qed

text \<open>Channels 28 (TIM11) and 29 (TIM12) set up.\<close>

definition ch28_29_memory :: pwm_state where
  "ch28_29_memory = chan_setup 28 False (chan_setup 27 False pwm_init_memory)"

lemma ch28_29_facts:
  "pwm_wf ch28_29_memory" "pwm_held ch28_29_memory = {27, 28}" "timer_held ch28_29_memory = {}"
  using pwm_boot_wf [OF pwm_boot_memory] pwm_boot_held [OF pwm_boot_memory]
  by (auto simp: ch28_29_memory_def pwm_held_update)

lemma ch28_29_deinit:
  "ch \<in> {27, 28} \<Longrightarrow>
     PWM_Channel_DeInit board_env ch ch28_29_memory = Some (hwPWM_OK, chan_teardown ch ch28_29_memory)"
  using ch28_29_facts
  by (auto simp: Channel_DeInit_eval Let_def) (simp_all add: board_env_def)

theorem wrong_clock_released_witness:
  "\<exists>s'. PWM_Channel_DeInit board_env 27 ch28_29_memory = Some (hwPWM_OK, s') \<and>
     28 \<in> pwm_held s' \<and> \<not> rcc_on (RCC_TIM 12) (hw_log s')"
  using wrong_clock_released [OF ch28_29_facts(1) ch28_29_deinit [of 27]] ch28_29_deinit [of 27]
    ch28_29_facts
  by (auto simp: pwm_held_update)

theorem shared_timer_keeps_clock_witness:
  "\<exists>s'. PWM_Channel_DeInit board_env 28 ch28_29_memory = Some (hwPWM_OK, s') \<and>
     rcc_on (RCC_TIM 11) (hw_log s') = rcc_on (RCC_TIM 11) (hw_log ch28_29_memory)"
  using shared_timer_keeps_clock [OF ch28_29_facts(1) ch28_29_deinit [of 28], of 27]
    ch28_29_deinit [of 28] ch28_29_facts
  by (auto simp: pwm_held_update default_28_27)

section \<open>Timer channel numbers\<close>

text \<open>The HAL's constants \<open>TIM_CHANNEL_1\<close> to \<open>TIM_CHANNEL_4\<close>: 0, 4, 8 and 12.\<close>

definition TIM_CHANNEL :: "u8 \<Rightarrow> u8" where
  "TIM_CHANNEL n = 4 * (n - 1)"

text \<open>
  The driver passes the number of the timer channel, 1 to 4, where the HAL expects its
  constant for the channel: on no channel do the two agree, and the fourth channel of a timer
  is programmed as TIM_CHANNEL_2.
\<close>

theorem channel_number_is_not_hal_constant:
  assumes "ch < hwPWM_Channel_MAX" "PWM_Find_PinDef PWM_Index_Map_Alt ch = Some d"
  shows "def_chx d \<noteq> TIM_CHANNEL (def_chx d) \<and> (def_chx d \<noteq> 4 \<or> def_chx d = TIM_CHANNEL 2)"
proof -
  have "d = default_defs ! ch" using assms by (simp add: find_default)
  with default_def_ok(4) [OF assms(1)] show ?thesis
    by (auto simp: TIM_CHANNEL_def)
qed

theorem channel_number_is_not_hal_constant_witness:
  "PWM_Find_PinDef PWM_Index_Map_Alt 3 = Some (pwm_pin 3 0 (pA 11) 4 0) \<and>
   def_chx (pwm_pin 3 0 (pA 11) 4 0) = TIM_CHANNEL 2"
proof -
  have f: "PWM_Find_PinDef PWM_Index_Map_Alt 3 = Some (pwm_pin 3 0 (pA 11) 4 0)"
    by (simp add: find_default default_defs_def)
  with channel_number_is_not_hal_constant [OF _ f] show ?thesis by (simp add: pwm_pin_def)
qed

end
