(* ===== verification/LED_API.thy ===== *)
theory LED_API
  imports PWM_Reach
begin

text \<open>
  The LED controller of the application, \<open>APP/LED_PWM_API.c\<close>: four LEDs on the first four PWM
  channels, with a status record each. Its functions ignore what the PWM driver returns.
\<close>

section \<open>State\<close>

abbreviation (input) MAX_NUM_OF_LED_PWM_SW :: nat where "MAX_NUM_OF_LED_PWM_SW \<equiv> 4"

record LED_PWM_Status =
  led_index :: u8
  led_on_off :: bool
  led_level :: u16

record led_state = pwm_state +
  All_LED_Status :: "LED_PWM_Status list"

definition LED_zero :: LED_PWM_Status where
  "LED_zero = \<lparr>led_index = 0, led_on_off = False, led_level = 0\<rparr>"

definition PWM_Channels :: "hwPWM_Channel list" where
  "PWM_Channels = [0, 1, 2, 3]"

section \<open>Loops over the LEDs\<close>

fun sweep :: "('i \<Rightarrow> 's \<Rightarrow> 's option) \<Rightarrow> 'i list \<Rightarrow> 's \<Rightarrow> 's option" where
  "sweep body [] s = Some s"
| "sweep body (i # is) s = do { s1 \<leftarrow> body i s; sweep body is s1 }"

text \<open>
  A loop whose body at \<open>i\<close> changes the view of \<open>i\<close> alone changes the view of every index it
  visits, each once, whatever the order.
\<close>

locale independent_steps =
  fixes inv :: "'s \<Rightarrow> bool"
    and view :: "'s \<Rightarrow> 'i \<Rightarrow> 'v"
    and idx :: "'i set"
    and body :: "'i \<Rightarrow> 's \<Rightarrow> 's option"
    and upd :: "'i \<Rightarrow> 'v \<Rightarrow> 'v"
  assumes body_law: "inv s \<Longrightarrow> i \<in> idx \<Longrightarrow> \<exists>s'. body i s = Some s' \<and> inv s' \<and>
      view s' i = upd i (view s i) \<and> (\<forall>j\<in>idx. j \<noteq> i \<longrightarrow> view s' j = view s j)"
begin

lemma sweep_view:
  assumes "inv s" "distinct is" "set is \<subseteq> idx"
  shows "\<exists>s'. sweep body is s = Some s' \<and> inv s' \<and>
    (\<forall>j\<in>idx. view s' j = (if j \<in> set is then upd j (view s j) else view s j))"
  using assms
proof (induction "is" arbitrary: s)
  case (Cons i "is")
  then obtain s1 where s1: "body i s = Some s1" "inv s1" "view s1 i = upd i (view s i)"
    "\<forall>j\<in>idx. j \<noteq> i \<longrightarrow> view s1 j = view s j"
    using body_law [of s i] by auto
  from Cons.IH [OF s1(2)] Cons.prems obtain s2 where s2: "sweep body is s1 = Some s2" "inv s2"
    "\<forall>j\<in>idx. view s2 j = (if j \<in> set is then upd j (view s1 j) else view s1 j)"
    by auto
  then show ?case using s1 Cons.prems by auto
qed simp

end

section \<open>Operations\<close>

definition led_init_body :: "hal_env \<Rightarrow> nat \<Rightarrow> 'a led_state_scheme \<Rightarrow> 'a led_state_scheme option" where
  "led_init_body env i s = do {
     ch \<leftarrow> cread PWM_Channels (int i);
     (r, s1) \<leftarrow> PWM_Channel_Init env ch False s;
     ls \<leftarrow> cwrite (All_LED_Status s1) (int i) LED_zero;
     Some (s1\<lparr>All_LED_Status := ls\<rparr>)
   }"

definition LED_PWM_Init :: "hal_env \<Rightarrow> 'a led_state_scheme \<Rightarrow> 'a led_state_scheme option" where
  "LED_PWM_Init env s = sweep (led_init_body env) [0, 1, 2, 3] s"

definition LED_PWM_Get_Num_Of_LED :: "u8 option \<Rightarrow> int \<times> u8 option" where
  "LED_PWM_Get_Num_Of_LED Num_Of_LED =
     (if Num_Of_LED = None then (-1, Num_Of_LED) else (0, Some 4))"

text \<open>Recording a LED as on (off) and then turning its channel on (off).\<close>

definition led_switch ::
  "hal_env \<Rightarrow> nat \<Rightarrow> bool \<Rightarrow> 'a led_state_scheme \<Rightarrow> 'a led_state_scheme option" where
  "led_switch env i on_off s = do {
     l \<leftarrow> cread (All_LED_Status s) (int i);
     ls \<leftarrow> cwrite (All_LED_Status s) (int i) (l\<lparr>led_on_off := on_off\<rparr>);
     ch \<leftarrow> cread PWM_Channels (int i);
     (r, s1) \<leftarrow> (if on_off then PWM_Turn_On env ch (s\<lparr>All_LED_Status := ls\<rparr>)
                else PWM_Turn_Off env ch (s\<lparr>All_LED_Status := ls\<rparr>));
     Some s1
   }"

definition led_set_level ::
  "hal_env \<Rightarrow> nat \<Rightarrow> u16 \<Rightarrow> 'a led_state_scheme \<Rightarrow> 'a led_state_scheme option" where
  "led_set_level env i level s = do {
     l \<leftarrow> cread (All_LED_Status s) (int i);
     if led_on_off l then do {
       ls \<leftarrow> cwrite (All_LED_Status s) (int i) (l\<lparr>led_level := level\<rparr>);
       ch \<leftarrow> cread PWM_Channels (int i);
       (r, s1) \<leftarrow> PWM_Set_Duty env ch level (s\<lparr>All_LED_Status := ls\<rparr>);
       Some s1
     }
     else Some s
   }"

definition LED_PWM_Set_LED_On_Off_Status ::
  "hal_env \<Rightarrow> u8 \<Rightarrow> bool \<Rightarrow> 'a led_state_scheme \<Rightarrow> 'a led_state_scheme option" where
  "LED_PWM_Set_LED_On_Off_Status env led on_off s =
     (if led \<ge> 4 then Some s else led_switch env (unat led) on_off s)"

definition LED_PWM_Set_LED_Level_Status ::
  "hal_env \<Rightarrow> u8 \<Rightarrow> u16 \<Rightarrow> 'a led_state_scheme \<Rightarrow> 'a led_state_scheme option" where
  "LED_PWM_Set_LED_Level_Status env led level s =
     (if led \<ge> 4 then Some s else led_set_level env (unat led) level s)"

definition LED_PWM_Toggle_LED_On_Off_Status ::
  "hal_env \<Rightarrow> u8 \<Rightarrow> 'a led_state_scheme \<Rightarrow> 'a led_state_scheme option" where
  "LED_PWM_Toggle_LED_On_Off_Status env led s =
     (if led \<ge> 4 then Some s
      else do {
        l \<leftarrow> cread (All_LED_Status s) (int (unat led));
        LED_PWM_Set_LED_On_Off_Status env led (\<not> led_on_off l) s
      })"

text \<open>The three loops: the body is guarded by \<open>bit_map & (1 << i)\<close>.\<close>

definition selected :: "u16 \<Rightarrow> nat \<Rightarrow> bool" where
  "selected bit_map i \<longleftrightarrow> bit_map AND push_bit i 1 \<noteq> 0"

definition LED_PWM_Set_Selected_LED_On_Off_Status ::
  "hal_env \<Rightarrow> u16 \<Rightarrow> bool \<Rightarrow> 'a led_state_scheme \<Rightarrow> 'a led_state_scheme option" where
  "LED_PWM_Set_Selected_LED_On_Off_Status env led_bit_map on_off s =
     sweep (\<lambda>i s. if selected led_bit_map i then led_switch env i on_off s else Some s)
       [0, 1, 2, 3] s"

definition LED_PWM_Set_Selected_LED_Level_Status ::
  "hal_env \<Rightarrow> u16 \<Rightarrow> u16 \<Rightarrow> 'a led_state_scheme \<Rightarrow> 'a led_state_scheme option" where
  "LED_PWM_Set_Selected_LED_Level_Status env led_bit_map level s =
     sweep (\<lambda>i s. if selected led_bit_map i then led_set_level env i level s else Some s)
       [0, 1, 2, 3] s"

definition led_toggle :: "hal_env \<Rightarrow> nat \<Rightarrow> 'a led_state_scheme \<Rightarrow> 'a led_state_scheme option" where
  "led_toggle env i s = do {
     l \<leftarrow> cread (All_LED_Status s) (int i);
     if \<not> led_on_off l then led_switch env i True s else led_switch env i False s
   }"

definition LED_PWM_Toggle_Selected_LED_On_Off_Status ::
  "hal_env \<Rightarrow> u16 \<Rightarrow> 'a led_state_scheme \<Rightarrow> 'a led_state_scheme option" where
  "LED_PWM_Toggle_Selected_LED_On_Off_Status env toggle_bit_map s =
     sweep (\<lambda>i s. if selected toggle_bit_map i then led_toggle env i s else Some s)
       [0, 1, 2, 3] s"

section \<open>The PWM driver leaves the LED records alone\<close>

definition led_wf :: "'a led_state_scheme \<Rightarrow> bool" where
  "led_wf s \<longleftrightarrow> pwm_inv s \<and> length (All_LED_Status s) = 4"

lemma effect_more:
  fixes s :: "'a pwm_state_scheme"
  assumes "pwm_effect env s s'"
  shows "pwm_state.more s' = pwm_state.more s"
  using assms
  by cases (auto simp: chan_setup_def chan_prog_def chan_teardown_def emit_def Let_def
      GPIO_Enable_RCC_Clock_def pwm_release_clock_def split: option.split prod.split)

lemma call_more:
  fixes s :: "'a pwm_state_scheme"
  assumes "pwm_call env s s'" "pwm_inv s"
  shows "pwm_state.more s' = pwm_state.more s" "pwm_inv s'"
proof -
  have e: "pwm_effect env s s'"
    using pwm_call_effect [OF assms(1)] assms(2) by (simp add: pwm_inv_def)
  show "pwm_state.more s' = pwm_state.more s" by (rule effect_more [OF e])
  show "pwm_inv s'" by (rule pwm_inv_effect [OF e assms(2)])
qed

lemma more_led:
  fixes s s' :: "'a led_state_scheme"
  assumes "pwm_state.more s' = pwm_state.more s"
  shows "All_LED_Status s' = All_LED_Status s"
  using assms by (cases s; cases s') simp

lemma call_led:
  fixes s :: "'a led_state_scheme"
  assumes "pwm_call env s s'" "led_wf s"
  shows "All_LED_Status s' = All_LED_Status s" "led_wf s'"
  using assms call_more [of env s s'] more_led [of s' s] by (simp_all add: led_wf_def)

lemma pwm_inv_led [simp]:
  fixes s :: "'a led_state_scheme"
  shows "pwm_inv (s\<lparr>All_LED_Status := ls\<rparr>) = pwm_inv s"
  by (simp add: pwm_inv_def pwm_wf_def timer_wf_def)

lemma PWM_Channels_read: "i < 4 \<Longrightarrow> cread PWM_Channels (int i) = Some i"
  by (auto simp: PWM_Channels_def less_Suc_eq numeral_eq_Suc)

section \<open>What the operations record\<close>

lemma switch_records:
  fixes s :: "'a led_state_scheme"
  assumes "led_wf s" "i < 4"
  shows "\<exists>s'. led_switch env i b s = Some s' \<and> led_wf s' \<and>
    All_LED_Status s' = (All_LED_Status s)[i := (All_LED_Status s ! i)\<lparr>led_on_off := b\<rparr>]"
proof -
  let ?ls = "(All_LED_Status s)[i := (All_LED_Status s ! i)\<lparr>led_on_off := b\<rparr>]"
  let ?s = "s\<lparr>All_LED_Status := ?ls\<rparr>"
  have wf: "led_wf ?s" using assms(1) by (simp add: led_wf_def)
  then have total: "\<exists>r s'. PWM_Turn_On env i ?s = Some (r, s')"
    "\<exists>r s'. PWM_Turn_Off env i ?s = Some (r, s')"
    using assms(2)
    by (simp_all add: led_wf_def pwm_inv_def Turn_On_eval Turn_Off_eval Let_def split: prod.split)
  then obtain r s' where c: "(if b then PWM_Turn_On env i ?s else PWM_Turn_Off env i ?s) = Some (r, s')"
    by (cases b) auto
  then have "pwm_call env ?s s'" by (cases b) (auto intro: pwm_call.intros)
  from call_led [OF this wf] c show ?thesis
    using assms by (auto simp: led_switch_def PWM_Channels_read led_wf_def)
qed

lemma Set_Duty_total:
  assumes "pwm_wf s" "ch < 32"
  shows "\<exists>r s'. PWM_Set_Duty env ch duty s = Some (r, s')"
proof (cases "duty \<le> 1000")
  case True
  with assms show ?thesis by (simp add: Set_Duty_eval split: prod.split)
qed (auto simp: PWM_Set_Duty_def not_le)

lemma set_level_records:
  fixes s :: "'a led_state_scheme"
  assumes "led_wf s" "i < 4"
  shows "\<exists>s'. led_set_level env i level s = Some s' \<and> led_wf s' \<and>
    All_LED_Status s' = (if led_on_off (All_LED_Status s ! i)
      then (All_LED_Status s)[i := (All_LED_Status s ! i)\<lparr>led_level := level\<rparr>]
      else All_LED_Status s)"
proof -
  let ?ls = "(All_LED_Status s)[i := (All_LED_Status s ! i)\<lparr>led_level := level\<rparr>]"
  let ?s = "s\<lparr>All_LED_Status := ?ls\<rparr>"
  have wf: "led_wf ?s" using assms(1) by (simp add: led_wf_def)
  then obtain r s' where c: "PWM_Set_Duty env i level ?s = Some (r, s')"
    using assms(2) Set_Duty_total [of ?s i env level] by (auto simp: led_wf_def pwm_inv_def)
  then have "pwm_call env ?s s'" by (rule pwm_call.set_duty)
  from call_led [OF this wf] c show ?thesis
    using assms by (auto simp: led_set_level_def PWM_Channels_read led_wf_def)
qed

lemma toggle_is_switch:
  assumes "led_wf s" "i < 4"
  shows "led_toggle env i s = led_switch env i (\<not> led_on_off (All_LED_Status s ! i)) s"
  using assms by (simp add: led_toggle_def led_wf_def)

section \<open>The three loops as independent steps\<close>

lemma selected_bit: "selected bm i \<longleftrightarrow> bit bm i"
  by (simp add: selected_def bit_iff_and_push_bit_not_eq_0)

abbreviation (input) on_off_body where
  "on_off_body env bm b \<equiv> \<lambda>i s. if selected bm i then led_switch env i b s else Some s"

abbreviation (input) level_body where
  "level_body env bm level \<equiv> \<lambda>i s. if selected bm i then led_set_level env i level s else Some s"

abbreviation (input) toggle_body where
  "toggle_body env bm \<equiv> \<lambda>i s. if selected bm i then led_toggle env i s else Some s"

text \<open>The record of a LED, and what each loop makes of it.\<close>

definition led_view :: "'a led_state_scheme \<Rightarrow> nat \<Rightarrow> bool \<times> u16" where
  "led_view s i = (led_on_off (All_LED_Status s ! i), led_level (All_LED_Status s ! i))"

definition on_off_upd :: "u16 \<Rightarrow> bool \<Rightarrow> nat \<Rightarrow> bool \<times> u16 \<Rightarrow> bool \<times> u16" where
  "on_off_upd bm b i v = (if bit bm i then (b, snd v) else v)"

definition level_upd :: "u16 \<Rightarrow> u16 \<Rightarrow> nat \<Rightarrow> bool \<times> u16 \<Rightarrow> bool \<times> u16" where
  "level_upd bm level i v = (if bit bm i \<and> fst v then (fst v, level) else v)"

definition toggle_upd :: "u16 \<Rightarrow> nat \<Rightarrow> bool \<times> u16 \<Rightarrow> bool \<times> u16" where
  "toggle_upd bm i v = (if bit bm i then (\<not> fst v, snd v) else v)"

lemma led_view_update:
  assumes "led_wf s" "i < 4" "All_LED_Status s' = (All_LED_Status s)[i := r]"
  shows "led_view s' i = (led_on_off r, led_level r)" "j \<noteq> i \<Longrightarrow> led_view s' j = led_view s j"
  using assms by (simp_all add: led_view_def led_wf_def)

lemma switch_view:
  assumes "led_wf s" "i < 4"
  shows "\<exists>s'. led_switch env i b s = Some s' \<and> led_wf s' \<and>
    led_view s' i = (b, snd (led_view s i)) \<and> (\<forall>j. j \<noteq> i \<longrightarrow> led_view s' j = led_view s j)"
proof -
  from switch_records [OF assms, of env b] obtain s' where s':
    "led_switch env i b s = Some s'" "led_wf s'"
    "All_LED_Status s' = (All_LED_Status s)[i := (All_LED_Status s ! i)\<lparr>led_on_off := b\<rparr>]"
    by auto
  with led_view_update [OF assms s'(3)] show ?thesis by (auto simp: led_view_def [of s i])
qed

interpretation led_on_off_loop:
  independent_steps led_wf led_view "{..<4}" "on_off_body env bm b" "on_off_upd bm b" for env bm b
proof unfold_locales
  fix s :: "'a led_state_scheme" and i :: nat
  assume "led_wf s" "i \<in> {..<4}"
  with switch_view [of s i env b] show "\<exists>s'. on_off_body env bm b i s = Some s' \<and> led_wf s' \<and>
      led_view s' i = on_off_upd bm b i (led_view s i) \<and>
      (\<forall>j\<in>{..<4}. j \<noteq> i \<longrightarrow> led_view s' j = led_view s j)"
    by (auto simp: selected_bit on_off_upd_def)
qed

interpretation led_toggle_loop:
  independent_steps led_wf led_view "{..<4}" "toggle_body env bm" "toggle_upd bm" for env bm
proof unfold_locales
  fix s :: "'a led_state_scheme" and i :: nat
  assume "led_wf s" "i \<in> {..<4}"
  with switch_view [of s i env "\<not> fst (led_view s i)"]
  show "\<exists>s'. toggle_body env bm i s = Some s' \<and> led_wf s' \<and>
      led_view s' i = toggle_upd bm i (led_view s i) \<and>
      (\<forall>j\<in>{..<4}. j \<noteq> i \<longrightarrow> led_view s' j = led_view s j)"
    by (auto simp: selected_bit toggle_upd_def toggle_is_switch led_view_def [of s i])
qed

interpretation led_level_loop:
  independent_steps led_wf led_view "{..<4}" "level_body env bm level" "level_upd bm level"
  for env bm level
proof unfold_locales
  fix s :: "'a led_state_scheme" and i :: nat
  assume a: "led_wf s" "i \<in> {..<4}"
  then obtain s' where s': "led_set_level env i level s = Some s'" "led_wf s'"
    "All_LED_Status s' = (if led_on_off (All_LED_Status s ! i)
      then (All_LED_Status s)[i := (All_LED_Status s ! i)\<lparr>led_level := level\<rparr>]
      else All_LED_Status s)"
    using set_level_records [of s i env level] by auto
  then show "\<exists>s'. level_body env bm level i s = Some s' \<and> led_wf s' \<and>
      led_view s' i = level_upd bm level i (led_view s i) \<and>
      (\<forall>j\<in>{..<4}. j \<noteq> i \<longrightarrow> led_view s' j = led_view s j)"
    using a by (auto simp: selected_bit level_upd_def led_view_def led_wf_def)
qed

lemma four_LEDs: "distinct [0, 1, 2, 3 :: nat]" "set [0, 1, 2, 3 :: nat] \<subseteq> {..<4}"
  "j < 4 \<Longrightarrow> j \<in> set [0, 1, 2, 3 :: nat]"
  by auto

text \<open>
  From any well-formed memory, whatever the PWM driver answers, the three functions on a bit
  map of LEDs are defined, change the records of exactly the LEDs whose bit is set (the level of
  those among them that are on), each as the function says, and leave the others alone.
\<close>

theorem selected_LEDs_are_recorded:
  assumes "led_wf s"
  shows "(\<exists>s'. LED_PWM_Set_Selected_LED_On_Off_Status env bm b s = Some s' \<and> led_wf s' \<and>
      list_all (\<lambda>i. led_view s' i = on_off_upd bm b i (led_view s i)) [0..<4]) \<and>
    (\<exists>s'. LED_PWM_Set_Selected_LED_Level_Status env bm level s = Some s' \<and> led_wf s' \<and>
      list_all (\<lambda>i. led_view s' i = level_upd bm level i (led_view s i)) [0..<4]) \<and>
    (\<exists>s'. LED_PWM_Toggle_Selected_LED_On_Off_Status env bm s = Some s' \<and> led_wf s' \<and>
      list_all (\<lambda>i. led_view s' i = toggle_upd bm i (led_view s i)) [0..<4])"
  using led_on_off_loop.sweep_view [where env = env and bm = bm and b = b, OF assms four_LEDs(1,2)]
    led_level_loop.sweep_view [where env = env and bm = bm and level = level, OF assms four_LEDs(1,2)]
    led_toggle_loop.sweep_view [where env = env and bm = bm, OF assms four_LEDs(1,2)]
  unfolding LED_PWM_Set_Selected_LED_On_Off_Status_def LED_PWM_Set_Selected_LED_Level_Status_def
    LED_PWM_Toggle_Selected_LED_On_Off_Status_def list_all_iff
  by (fastforce simp del: sweep.simps)

lemma LED_init_memory_wf:
  "led_wf (pwm_state.extend pwm_init_memory (led_state.fields (replicate 4 LED_zero)))"
  using pwm_boot_memory pwm_boot_wf [OF pwm_boot_memory]
  by (simp add: led_wf_def pwm_inv_def pwm_state.defs led_state.defs pwm_boot_def pwm_wf_def
      timer_wf_def timer_boot_def)

definition led_init_memory :: led_state where
  "led_init_memory = pwm_state.extend pwm_init_memory (led_state.fields (replicate 4 LED_zero))"

lemma led_init_facts:
  "led_wf led_init_memory" "All_LED_Status led_init_memory = replicate 4 LED_zero"
  using LED_init_memory_wf
  by (simp_all add: led_init_memory_def pwm_state.defs led_state.defs)

theorem selected_LEDs_are_recorded_witness:
  "\<exists>s'. LED_PWM_Set_Selected_LED_On_Off_Status board_env 5 True led_init_memory = Some s' \<and>
     led_view s' 0 = (True, 0) \<and> led_view s' 1 = (False, 0) \<and> led_view s' 2 = (True, 0)"
proof -
  have v: "led_view led_init_memory i = (False, 0)" if "i < 4" for i
    using that by (simp add: led_view_def led_init_facts LED_zero_def)
  obtain s' where s': "LED_PWM_Set_Selected_LED_On_Off_Status board_env 5 True led_init_memory = Some s'"
    "list_all (\<lambda>i. led_view s' i = on_off_upd 5 True i (led_view led_init_memory i)) [0..<4]"
    using selected_LEDs_are_recorded [OF led_init_facts(1), of board_env 5 True] by blast
  then have "led_view s' i = on_off_upd 5 True i (led_view led_init_memory i)" if "i < 4" for i
    using that by (simp add: list_all_iff del: upt_rec_numeral)
  with s'(1) show ?thesis by (simp add: v on_off_upd_def bit_numeral_rec)
qed

section \<open>What the outputs show\<close>

text \<open>The controller with its channels and their timer set up, and a HAL that succeeds.\<close>

definition led_ready :: "hal_env \<Rightarrow> 'a led_state_scheme \<Rightarrow> bool" where
  "led_ready env s \<longleftrightarrow> led_wf s \<and> 0 \<in> timer_held s \<and> {..<4} \<subseteq> pwm_held s \<and>
     hal_ok env = (\<lambda>_ _. True)"

definition hw_view :: "'a led_state_scheme \<Rightarrow> nat \<Rightarrow> (bool \<times> u16) \<times> bool \<times> u16" where
  "hw_view s i = (led_view s i, PWM_Channel_OnOff_Status s ! i, PWM_Channel_Current_Duty s ! i)"

definition on_off_hw :: "u16 \<Rightarrow> bool \<Rightarrow> nat \<Rightarrow> (bool \<times> u16) \<times> bool \<times> u16 \<Rightarrow> (bool \<times> u16) \<times> bool \<times> u16" where
  "on_off_hw bm b i v = (on_off_upd bm b i (fst v),
     if bit bm i then (b, snd (snd v)) else snd v)"

definition level_hw :: "u16 \<Rightarrow> u16 \<Rightarrow> nat \<Rightarrow> (bool \<times> u16) \<times> bool \<times> u16 \<Rightarrow> (bool \<times> u16) \<times> bool \<times> u16" where
  "level_hw bm level i v = (level_upd bm level i (fst v),
     if bit bm i \<and> fst (fst v) \<and> fst (snd v) \<and> level \<le> 1000 then (fst (snd v), level) else snd v)"

definition toggle_hw :: "u16 \<Rightarrow> nat \<Rightarrow> (bool \<times> u16) \<times> bool \<times> u16 \<Rightarrow> (bool \<times> u16) \<times> bool \<times> u16" where
  "toggle_hw bm i v = (toggle_upd bm i (fst v),
     if bit bm i then (\<not> fst (fst v), snd (snd v)) else snd v)"

lemma default_LED: "i < 4 \<Longrightarrow> def_timer (default_defs ! i) = 0"
  by (auto simp: less_Suc_eq numeral_eq_Suc default_defs_def pwm_pin_def)

lemma output_ok:
  assumes "hal_ok env = (\<lambda>_ _. True)"
  shows "pwm_output env (default_defs ! ch) pulse s =
    (True, s\<lparr>hw_log := hw_log s @ [chan_config ch pulse, chan_start ch]\<rparr>)"
  using assms
  by (simp add: pwm_output_def hal_call_def Let_def emit_def chan_config_def chan_start_def)

lemma led_held [simp]:
  fixes s :: "'a led_state_scheme"
  shows "timer_held (s\<lparr>All_LED_Status := ls\<rparr>) = timer_held s"
    "pwm_held (s\<lparr>All_LED_Status := ls\<rparr>) = pwm_held s"
    "pwm_wf (s\<lparr>All_LED_Status := ls\<rparr>) = pwm_wf s"
  by (simp_all add: timer_held_def pwm_held_def pwm_wf_def timer_wf_def)

lemma switch_hw:
  assumes "led_ready env s" "i < 4"
  shows "\<exists>s'. led_switch env i b s = Some s' \<and> led_ready env s' \<and>
    hw_view s' i = ((b, snd (led_view s i)), b, PWM_Channel_Current_Duty s ! i) \<and>
    (\<forall>j. j \<noteq> i \<longrightarrow> hw_view s' j = hw_view s j)"
proof -
  from assms have r: "led_wf s" "0 \<in> timer_held s" "i \<in> pwm_held s" "hal_ok env = (\<lambda>_ _. True)"
    "pwm_wf s" "length (All_LED_Status s) = 4" "PWM_Channel_Current_Duty s ! i \<le> 1000"
    by (auto simp: led_ready_def led_wf_def pwm_inv_def)
  obtain s' where s': "led_switch env i b s = Some s'" "led_wf s'" using switch_records r(1) assms(2) by blast
  then have "timer_held s' = timer_held s" "pwm_held s' = pwm_held s"
    using r assms(2) default_LED [OF assms(2)]
    by (auto simp: led_switch_def PWM_Channels_read Turn_On_eval Turn_Off_eval output_ok Let_def
        timer_held_def pwm_held_def split: if_splits)
  with s' have "led_ready env s'" using assms(1) by (simp add: led_ready_def)
  with s' show ?thesis
    using r assms(2) default_LED [OF assms(2)] pwm_wfD [OF r(5)]
    by (auto simp: led_switch_def PWM_Channels_read Turn_On_eval Turn_Off_eval output_ok Let_def
        hw_view_def led_view_def min_absorb2 split: if_splits)
qed

lemma set_level_hw:
  assumes "led_ready env s" "i < 4"
  shows "\<exists>s'. led_set_level env i level s = Some s' \<and> led_ready env s' \<and>
    (let (on, l) = led_view s i; (out, d) = snd (hw_view s i) in
     hw_view s' i = ((on, if on then level else l), out, if on \<and> out \<and> level \<le> 1000 then level else d)) \<and>
    (\<forall>j. j \<noteq> i \<longrightarrow> hw_view s' j = hw_view s j)"
proof -
  from assms have r: "led_wf s" "0 \<in> timer_held s" "i \<in> pwm_held s" "hal_ok env = (\<lambda>_ _. True)"
    "pwm_wf s" "length (All_LED_Status s) = 4"
    by (auto simp: led_ready_def led_wf_def pwm_inv_def)
  have big: "PWM_Set_Duty env i level t = Some (hwPWM_InvalidParameter, t)"
    if "\<not> level \<le> 1000" for t :: "'a led_state_scheme"
    using that assms(2) by (simp add: PWM_Set_Duty_def not_le)
  obtain s' where s': "led_set_level env i level s = Some s'" "led_wf s'"
    using set_level_records [of s i env level] r(1) assms(2) by blast
  have "timer_held s' = timer_held s \<and> pwm_held s' = pwm_held s"
    using s' r assms(2) default_LED [OF assms(2)] big
    by (cases "level \<le> 1000") (auto simp: led_set_level_def PWM_Channels_read Set_Duty_eval
        output_ok timer_held_def pwm_held_def split: if_splits)
  with s' have "led_ready env s'" using assms(1) by (simp add: led_ready_def)
  with s' show ?thesis
    using r assms(2) default_LED [OF assms(2)] pwm_wfD [OF r(5)] big
    by (cases "level \<le> 1000") (auto simp: led_set_level_def PWM_Channels_read Set_Duty_eval
        output_ok hw_view_def led_view_def split: if_splits)
qed

interpretation led_on_off_hw:
  independent_steps "led_ready env" hw_view "{..<4}" "on_off_body env bm b" "on_off_hw bm b" for env bm b
proof unfold_locales
  fix s :: "'a led_state_scheme" and i :: nat
  assume "led_ready env s" "i \<in> {..<4}"
  with switch_hw [of env s i b] show "\<exists>s'. on_off_body env bm b i s = Some s' \<and> led_ready env s' \<and>
      hw_view s' i = on_off_hw bm b i (hw_view s i) \<and>
      (\<forall>j\<in>{..<4}. j \<noteq> i \<longrightarrow> hw_view s' j = hw_view s j)"
    by (auto simp: selected_bit on_off_hw_def on_off_upd_def hw_view_def [of s i])
qed

interpretation led_toggle_hw:
  independent_steps "led_ready env" hw_view "{..<4}" "toggle_body env bm" "toggle_hw bm" for env bm
proof unfold_locales
  fix s :: "'a led_state_scheme" and i :: nat
  assume a: "led_ready env s" "i \<in> {..<4}"
  then have "led_toggle env i s = led_switch env i (\<not> fst (led_view s i)) s"
    by (simp add: toggle_is_switch led_ready_def led_view_def)
  with a switch_hw [of env s i "\<not> fst (led_view s i)"]
  show "\<exists>s'. toggle_body env bm i s = Some s' \<and> led_ready env s' \<and>
      hw_view s' i = toggle_hw bm i (hw_view s i) \<and>
      (\<forall>j\<in>{..<4}. j \<noteq> i \<longrightarrow> hw_view s' j = hw_view s j)"
    by (auto simp: selected_bit toggle_hw_def toggle_upd_def hw_view_def [of s i])
qed

interpretation led_level_hw:
  independent_steps "led_ready env" hw_view "{..<4}" "level_body env bm level" "level_hw bm level"
  for env bm level
proof unfold_locales
  fix s :: "'a led_state_scheme" and i :: nat
  assume a: "led_ready env s" "i \<in> {..<4}"
  obtain on l out d where v: "hw_view s i = ((on, l), out, d)" by (metis surj_pair)
  then have "led_view s i = (on, l)" by (simp add: hw_view_def)
  with a v set_level_hw [of env s i level]
  show "\<exists>s'. level_body env bm level i s = Some s' \<and> led_ready env s' \<and>
      hw_view s' i = level_hw bm level i (hw_view s i) \<and>
      (\<forall>j\<in>{..<4}. j \<noteq> i \<longrightarrow> hw_view s' j = hw_view s j)"
    by (auto simp: selected_bit level_hw_def level_upd_def)
qed

text \<open>Each LED record is what its channel shows.\<close>

definition led_shown :: "'a led_state_scheme \<Rightarrow> bool" where
  "led_shown s = list_all (\<lambda>i. led_view s i = snd (hw_view s i)) [0..<4]"

lemma led_shown_iff: "led_shown s \<longleftrightarrow> (\<forall>i<4. fst (hw_view s i) = snd (hw_view s i))"
  by (auto simp: led_shown_def list_all_iff hw_view_def simp del: upt_rec_numeral)

lemma led_shown_sweep:
  fixes body :: "nat \<Rightarrow> _"
  assumes "\<exists>s'. sweep body [0, 1, 2, 3] s = Some s' \<and> led_ready env s' \<and>
      (\<forall>j\<in>{..<4}. hw_view s' j = (if j \<in> set [0, 1, 2, 3] then upd j (hw_view s j) else hw_view s j))"
    "led_shown s" "\<And>j v. j < 4 \<Longrightarrow> fst v = snd v \<Longrightarrow> fst (upd j v) = snd (upd j v)"
  shows "\<exists>s'. sweep body [0, 1, 2, 3] s = Some s' \<and> led_ready env s' \<and> led_shown s'"
proof -
  from assms(1) obtain s' where s': "sweep body [0, 1, 2, 3] s = Some s'" "led_ready env s'"
    "\<forall>j\<in>{..<4}. hw_view s' j = (if j \<in> set [0, 1, 2, 3] then upd j (hw_view s j) else hw_view s j)"
    by blast
  then have "hw_view s' j = upd j (hw_view s j)" if "j < 4" for j
    using that four_LEDs(3) [OF that] by simp
  with assms(2,3) have "led_shown s'" by (simp add: led_shown_iff)
  with s' show ?thesis by blast
qed


section \<open>Initialisation\<close>

definition led_fresh :: "hal_env \<Rightarrow> 'a led_state_scheme \<Rightarrow> bool" where
  "led_fresh env s \<longleftrightarrow> led_wf s \<and> timer_held s = {} \<and> hal_ok env = (\<lambda>_ _. True)"

definition init_view :: "'a led_state_scheme \<Rightarrow> nat \<Rightarrow> bool \<times> LED_PWM_Status \<times> bool \<times> u16" where
  "init_view s i = (i \<in> pwm_held s, All_LED_Status s ! i, PWM_Channel_OnOff_Status s ! i,
     PWM_Channel_Current_Duty s ! i)"

definition init_upd :: "nat \<Rightarrow> bool \<times> LED_PWM_Status \<times> bool \<times> u16 \<Rightarrow> bool \<times> LED_PWM_Status \<times> bool \<times> u16" where
  "init_upd i v = (case v of (h, r, out, d) \<Rightarrow> (True, LED_zero, out, if h then d else 0))"

lemma led_init_body_eval:
  fixes s :: "'a led_state_scheme"
  assumes "led_fresh env s" "i < 4"
  shows "led_init_body env i s =
    Some ((if i \<in> pwm_held s then s else chan_setup i False s)
      \<lparr>All_LED_Status := (All_LED_Status s)[i := LED_zero]\<rparr>)"
proof -
  have "All_LED_Status (chan_setup i False s) = All_LED_Status s"
    by (rule more_led) (simp add: effect_more [OF pwm_effect.set_up [of i s env False]] assms
        led_fresh_def [THEN iffD1, OF assms(1)] less_trans [OF assms(2)])
  with assms show ?thesis
    by (auto simp: led_init_body_def PWM_Channels_read led_fresh_def led_wf_def pwm_inv_def
        Channel_Init_eval)
qed

interpretation led_init_loop:
  independent_steps "led_fresh env" init_view "{..<4}" "led_init_body env" init_upd for env
proof unfold_locales
  fix s :: "'a led_state_scheme" and i :: nat
  assume f: "led_fresh env s" and "i \<in> {..<4}"
  then have i: "i < 4" by simp
  let ?t = "if i \<in> pwm_held s then s else chan_setup i False s"
  let ?s = "?t\<lparr>All_LED_Status := (All_LED_Status s)[i := LED_zero]\<rparr>"
  from f have wf: "pwm_wf s" "pwm_inv s" "timer_held s = {}" "length (All_LED_Status s) = 4"
    by (simp_all add: led_fresh_def led_wf_def pwm_inv_def)
  have "pwm_inv ?t"
    using pwm_inv_effect [OF pwm_effect.set_up [of i s env False] wf(2)] wf i by simp
  then have "led_fresh env ?s"
    using f wf by (simp add: led_fresh_def led_wf_def timer_held_def)
  moreover have "init_view ?s i = init_upd i (init_view s i)"
    using wf i pwm_wfD [OF wf(1)] by (simp add: init_view_def init_upd_def pwm_held_update)
  moreover have "init_view ?s j = init_view s j" if "j \<noteq> i" for j
    using wf i that by (simp add: init_view_def pwm_held_update)
  ultimately show "\<exists>s'. led_init_body env i s = Some s' \<and> led_fresh env s' \<and>
      init_view s' i = init_upd i (init_view s i) \<and> (\<forall>j\<in>{..<4}. j \<noteq> i \<longrightarrow> init_view s' j = init_view s j)"
    using led_init_body_eval [OF f i] by (intro exI [of _ ?s]) simp
qed

lemma Timer_Init_led:
  fixes s :: "'a led_state_scheme"
  assumes "led_wf s" "0 \<notin> timer_held s"
  shows "\<exists>s'. Timer_Init env 0 s = Some (hwTimer_OK, s') \<and> led_wf s' \<and> 0 \<in> timer_held s' \<and>
    pwm_held s' = pwm_held s \<and> hw_view s' = hw_view s"
proof -
  let ?s = "timer_setup env 0 s"
  have wf: "pwm_wf s" "pwm_inv s" "length (All_LED_Status s) = 4"
    using assms(1) by (simp_all add: led_wf_def pwm_inv_def)
  have rest: "same_rest s ?s" by simp
  note eqs = same_rest_pwm(1-4) [OF rest]
  have wf': "pwm_wf ?s" using pwm_wfD [OF wf(1)] by (intro same_rest_pwm(5) [OF rest]) (simp_all add: wf(1))
  have "All_LED_Status ?s = All_LED_Status s"
    using rest by (cases s; cases ?s) (simp add: same_rest_def)
  then have "led_wf ?s \<and> 0 \<in> timer_held ?s \<and> pwm_held ?s = pwm_held s \<and> hw_view ?s = hw_view s"
    using wf wf' eqs pwm_wfD [OF wf(1)]
    by (simp add: led_wf_def pwm_inv_def timer_held_update pwm_held_def hw_view_def led_view_def fun_eq_iff)
  with assms pwm_wfD [OF wf(1)] show ?thesis by (simp add: Timer_Init_eval)
qed

lemma LED_init_ready:
  assumes "led_wf s" "hal_ok env = (\<lambda>_ _. True)" "pwm_held s = {}" "timer_held s = {}"
  shows "\<exists>s1 s2. LED_PWM_Init env s = Some s1 \<and> {..<4} \<subseteq> pwm_held s1 \<and>
    Timer_Init env 0 s1 = Some (hwTimer_OK, s2) \<and> led_ready env s2 \<and> led_shown s2 \<and>
    (\<forall>j<4. hw_view s2 j = ((False, 0), False, 0))"
proof -
  have "led_fresh env s" using assms by (simp add: led_fresh_def)
  from led_init_loop.sweep_view [OF this four_LEDs(1,2)] obtain s1 where
    s1: "LED_PWM_Init env s = Some s1" "led_fresh env s1"
    "\<And>j. j < 4 \<Longrightarrow> init_view s1 j = init_upd j (init_view s j)"
    using four_LEDs(3) by (auto simp: LED_PWM_Init_def simp del: sweep.simps)
  have off: "\<not> PWM_Channel_OnOff_Status s ! j" if "j < 4" for j
    using assms(1,3) that by (auto simp: led_wf_def pwm_inv_def pwm_held_def)
  have view: "j \<in> pwm_held s1 \<and> hw_view s1 j = ((False, 0), False, 0)" if "j < 4" for j
    using s1(3) [OF that] off [OF that] assms(3)
    by (simp add: init_view_def init_upd_def hw_view_def led_view_def LED_zero_def)
  from s1(2) obtain s2 where s2: "Timer_Init env 0 s1 = Some (hwTimer_OK, s2)" "led_wf s2"
    "0 \<in> timer_held s2" "pwm_held s2 = pwm_held s1" "hw_view s2 = hw_view s1"
    using Timer_Init_led [of s1 env] by (auto simp: led_fresh_def)
  have "led_ready env s2" "led_shown s2"
    using s2 view assms(2) by (auto simp: led_ready_def led_shown_iff)
  with s1 s2 view show ?thesis by auto
qed

lemma LED_init_too_late:
  fixes s :: "'a led_state_scheme"
  assumes "led_wf s" "pwm_held s = {}" "0 \<in> timer_held s"
  shows "\<exists>s1. LED_PWM_Init env s = Some s1 \<and> pwm_held s1 = {} \<and>
    All_LED_Status s1 = replicate 4 LED_zero"
proof -
  have body: "led_init_body env i t = Some (t\<lparr>All_LED_Status := (All_LED_Status t)[i := LED_zero]\<rparr>)"
    if "i < 4" "pwm_wf t" "length (All_LED_Status t) = 4" "pwm_held t = {}" "0 \<in> timer_held t"
    for i and t :: "'a led_state_scheme"
    using that default_LED [OF that(1)]
    by (simp add: led_init_body_def PWM_Channels_read Channel_Init_eval)
  obtain a b c d where "All_LED_Status s = [a, b, c, d]"
    using assms(1) by (auto simp: led_wf_def length_Suc_conv numeral_eq_Suc)
  with assms show ?thesis
    by (simp add: LED_PWM_Init_def body led_wf_def pwm_inv_def numeral_eq_Suc)
qed

text \<open>
  When no timer is in use, no channel is set up and the HAL succeeds, LED_PWM_Init sets up
  the four channels and clears the records; a Timer_Init of timer 1 then succeeds and makes the
  controller ready, its outputs in step with its records. The other order fails: after
  Timer_Init, LED_PWM_Init clears the records but sets up none of the channels.
\<close>

theorem LED_init_before_timer:
  assumes "led_wf s" "hal_ok env = (\<lambda>_ _. True)" "pwm_held s = {}"
  shows "(timer_held s \<noteq> {} \<or> (\<exists>s1 s2. LED_PWM_Init env s = Some s1 \<and> {..<4} \<subseteq> pwm_held s1 \<and>
      Timer_Init env 0 s1 = Some (hwTimer_OK, s2) \<and> led_ready env s2 \<and> led_shown s2)) \<and>
    (0 \<notin> timer_held s \<or> (\<exists>s1. LED_PWM_Init env s = Some s1 \<and> pwm_held s1 = {} \<and>
      All_LED_Status s1 = replicate 4 LED_zero))"
  using LED_init_ready [OF assms] LED_init_too_late [OF assms(1,3)] by blast

lemma led_init_held: "pwm_held led_init_memory = {}" "timer_held led_init_memory = {}"
proof -
  have "PWM_Channel_Init_Status led_init_memory = PWM_Channel_Init_Status pwm_init_memory"
    "Timer_Init_Status led_init_memory = Timer_Init_Status pwm_init_memory"
    by (simp_all add: led_init_memory_def pwm_state.defs)
  then show "pwm_held led_init_memory = {}" "timer_held led_init_memory = {}"
    using pwm_boot_held [OF pwm_boot_memory] by (simp_all add: pwm_held_def timer_held_def)
qed

lemma board_ok: "hal_ok board_env = (\<lambda>_ _. True)"
  by (simp add: board_env_def)

theorem LED_init_before_timer_witness:
  "\<exists>s1 s2. LED_PWM_Init board_env led_init_memory = Some s1 \<and> 3 \<in> pwm_held s1 \<and>
     Timer_Init board_env 0 s1 = Some (hwTimer_OK, s2) \<and> led_shown s2"
  using LED_init_before_timer [OF led_init_facts(1) board_ok led_init_held(1)] led_init_held(2)
  by fastforce


text \<open>
  While the timer driver has not set up timer 1, which nothing in the repository does, a LED
  that is switched on is recorded as on with no effect at all on its channel or the hardware.
\<close>

theorem LED_reported_on_without_output:
  assumes "led_wf s" "0 \<notin> timer_held s" "led < 4"
  shows "\<exists>s'. LED_PWM_Set_LED_On_Off_Status env led True s = Some s' \<and>
    fst (led_view s' (unat led)) \<and> hw_log s' = hw_log s \<and>
    PWM_Channel_OnOff_Status s' = PWM_Channel_OnOff_Status s"
proof -
  let ?i = "unat led"
  have i: "?i < 4" using assms(3) by (simp add: word_less_nat_alt)
  have wf: "pwm_wf s" "length (All_LED_Status s) = 4" using assms(1) by (simp_all add: led_wf_def pwm_inv_def)
  have "led_switch env j True s =
      Some (s\<lparr>All_LED_Status := (All_LED_Status s)[j := (All_LED_Status s ! j)\<lparr>led_on_off := True\<rparr>]\<rparr>)"
    if "j < 4" for j
    using that wf assms(2) default_LED [OF that]
    by (simp add: led_switch_def PWM_Channels_read Turn_On_eval)
  from this [OF i] assms(3) wf i show ?thesis
    by (simp add: LED_PWM_Set_LED_On_Off_Status_def led_view_def not_le [symmetric])
qed

text \<open>
  A level above PWM_MAX_DUTY set on lit LEDs is recorded as their level although the PWM
  driver refuses it: the duties of the channels stay what they were.
\<close>

theorem excessive_level_recorded_not_applied:
  assumes "led_ready env s" "level > PWM_MAX_DUTY"
  shows "\<exists>s'. LED_PWM_Set_Selected_LED_Level_Status env bm level s = Some s' \<and>
    list_all (\<lambda>i. snd (hw_view s' i) = snd (hw_view s i) \<and>
      (snd (led_view s' i) = (if bit bm i \<and> fst (led_view s i) then level else snd (led_view s i)))) [0..<4]"
proof -
  from led_level_hw.sweep_view [where bm = bm and level = level, OF assms(1) four_LEDs(1,2)]
  obtain s' where s': "LED_PWM_Set_Selected_LED_Level_Status env bm level s = Some s'"
    "\<And>j. j < 4 \<Longrightarrow> hw_view s' j = level_hw bm level j (hw_view s j)"
    using four_LEDs(3)
    by (auto simp: LED_PWM_Set_Selected_LED_Level_Status_def simp del: sweep.simps)
  have "snd (hw_view s' j) = snd (hw_view s j) \<and>
      snd (led_view s' j) = (if bit bm j \<and> fst (led_view s j) then level else snd (led_view s j))"
    if "j < 4" for j
  proof -
    have "\<not> level \<le> 1000" using assms(2) by (simp add: not_le)
    with s'(2) [OF that] show ?thesis by (auto simp: level_hw_def level_upd_def hw_view_def)
  qed
  with s'(1) show ?thesis by (auto simp: list_all_iff simp del: upt_rec_numeral)
qed

theorem LED_reported_on_without_output_witness:
  "\<exists>s'. LED_PWM_Set_LED_On_Off_Status board_env 2 True led_init_memory = Some s' \<and>
     fst (led_view s' 2) \<and> hw_log s' = hw_log led_init_memory"
  using LED_reported_on_without_output [OF led_init_facts(1), of 2 board_env] led_init_held(2) by auto

theorem excessive_level_recorded_not_applied_witness:
  "\<exists>s :: led_state. led_ready board_env s \<and>
     (\<exists>s'. LED_PWM_Set_Selected_LED_Level_Status board_env 1 2000 s = Some s' \<and>
       snd (led_view s' 0) = 2000 \<and> snd (hw_view s' 0) = (True, 0))"
proof -
  obtain s2 :: led_state where s2: "led_ready board_env s2" "\<forall>j<4. hw_view s2 j = ((False, 0), False, 0)"
    using LED_init_ready [OF led_init_facts(1) board_ok led_init_held] by auto
  from switch_hw [OF s2(1), of 0 True] obtain s3 :: led_state where s3: "led_ready board_env s3"
    "hw_view s3 0 = ((True, snd (led_view s2 0)), True, PWM_Channel_Current_Duty s2 ! 0)"
    by auto
  have v: "led_view s3 0 = (True, 0)" "snd (hw_view s3 0) = (True, 0)"
    using s3(2) s2(2) by (simp_all add: hw_view_def)
  obtain s' where s': "LED_PWM_Set_Selected_LED_Level_Status board_env 1 2000 s3 = Some s'"
    "list_all (\<lambda>i. snd (hw_view s' i) = snd (hw_view s3 i) \<and> snd (led_view s' i) =
      (if bit (1::u16) i \<and> fst (led_view s3 i) then 2000 else snd (led_view s3 i))) [0..<4]"
    using excessive_level_recorded_not_applied [OF s3(1), of 2000 1] by auto
  then have "snd (hw_view s' 0) = snd (hw_view s3 0) \<and> snd (led_view s' 0) =
      (if bit (1::u16) 0 \<and> fst (led_view s3 0) then 2000 else snd (led_view s3 0))"
    by (simp add: list_all_iff del: upt_rec_numeral)
  with s3(1) s'(1) v show ?thesis by (intro exI [of _ s3] conjI exI [of _ s']) auto
qed

end
