(* ===== verification/HTTP_Builder.thy ===== *)
theory HTTP_Builder
  imports Prelude
begin

text \<open>
  The response builder of \<open>NeonRTOS/HTTPd/HTTPd_Utils.c\<close>: every function appends to a buffer at a
  write pointer and returns the new pointer. The buffer is the bytes before the pointer together
  with its capacity; a store past the capacity is undefined (\<open>None\<close>).
\<close>

section \<open>The strings\<close>

definition HTTP_Status :: "(int \<times> string) list" where
  "HTTP_Status = [(100, ''Continue''), (101, ''Switching Protocols''), (102, ''Processing''),
    (200, ''OK''), (201, ''Created''), (202, ''Accepted''), (203, ''Non - Authoritative Information''),
    (204, ''No Content''), (205, ''Reset Content''), (206, ''Partial Content''), (207, ''Multi - Status''),
    (300, ''Multiple Choices''), (301, ''Moved Permanently''), (302, ''Found''), (303, ''See Other''),
    (304, ''Not Modified''), (305, ''Use Proxy''), (306, ''Switch Proxy''), (307, ''Temporary Redirect''),
    (400, ''Bad Request''), (401, ''Unauthorized''), (402, ''Payment Required''), (403, ''Forbidden''),
    (404, ''Not Found''), (405, ''Method Not Allowed''), (406, ''Not Acceptable''),
    (407, ''Proxy Authentication Required''), (408, ''Request Timeout''), (409, ''Conflict''),
    (410, ''Gone''), (411, ''Length Required''), (412, ''Precondition Failed''),
    (413, ''Request Entity Too Large''), (414, ''Request - URI Too Long''),
    (415, ''Unsupported Media Type''), (416, ''Requested Range Not Satisfiable''),
    (417, ''Expectation Failed''), (418, ''I'' @ [CHR 0x27] @ ''m a teapot''),
    (421, ''There are too many connections from your internet address''),
    (422, ''Unprocessable Entity''), (423, ''Locked''), (424, ''Failed Dependency''),
    (425, ''Unordered Collection''), (426, ''Upgrade Required''), (449, ''Retry With''),
    (451, ''Unavailable For Legal Reasons''), (500, ''Internal Server Error''),
    (501, ''Not Implemented''), (502, ''Bad Gateway''), (503, ''Service Unavailable''),
    (504, ''Gateway Timeout''), (505, ''HTTP Version Not Supported''),
    (506, ''Variant Also Negotiates''), (507, ''Insufficient Storage''),
    (509, ''Bandwidth Limit Exceeded''), (510, ''Not Extended'')]"

abbreviation (input) HTTP_Version_1P1 :: string where "HTTP_Version_1P1 \<equiv> ''HTTP/1.1''"

definition CRLF :: "u8 list" where
  "CRLF = [13, 10]"

section \<open>Appending\<close>

text \<open>\<open>memcpy\<close> of a string at the write pointer, and \<open>sprintf\<close>, which also stores a zero byte.\<close>

definition append_bytes :: "nat \<Rightarrow> u8 list \<Rightarrow> u8 list \<Rightarrow> u8 list option" where
  "append_bytes cap bs out = (if length out + length bs \<le> cap then Some (out @ bs) else None)"

definition append_print :: "nat \<Rightarrow> u8 list \<Rightarrow> u8 list \<Rightarrow> u8 list option" where
  "append_print cap bs out = (if length out + length bs < cap then Some (out @ bs) else None)"

text \<open>\<open>%d\<close>.\<close>

fun digits :: "nat \<Rightarrow> u8 list" where
  "digits n = (if n < 10 then [of_nat (48 + n)] else digits (n div 10) @ [of_nat (48 + n mod 10)])"

definition decimal :: "int \<Rightarrow> u8 list" where
  "decimal n = (if n < 0 then 45 # digits (nat (- n)) else digits (nat n))"

definition HTTPd_Parse_Status_Code :: "nat \<Rightarrow> u8 list \<Rightarrow> int \<Rightarrow> u8 list option" where
  "HTTPd_Parse_Status_Code cap out status_code = do {
     out1 \<leftarrow> append_bytes cap (chars HTTP_Version_1P1) out;
     out2 \<leftarrow> append_print cap ([32] @ decimal status_code @ [32]) out1;
     (case map_of HTTP_Status status_code of
        Some status_str \<Rightarrow> append_bytes cap (chars status_str) out2 \<bind> append_print cap CRLF
      | None \<Rightarrow> Some out) }"

definition HTTPd_Parse_Headers :: "nat \<Rightarrow> u8 list \<Rightarrow> u8 list \<Rightarrow> u8 list \<Rightarrow> u8 list option" where
  "HTTPd_Parse_Headers cap out header_str header_val = do {
     out1 \<leftarrow> append_bytes cap header_str out;
     out2 \<leftarrow> append_print cap [58, 32] out1;
     out3 \<leftarrow> append_bytes cap header_val out2;
     append_print cap CRLF out3 }"

definition HTTPd_Parse_End_Of_Headers :: "nat \<Rightarrow> u8 list \<Rightarrow> u8 list option" where
  "HTTPd_Parse_End_Of_Headers cap out =
     (if length out < 2 then None
      else if drop (length out - 2) out \<noteq> CRLF then append_print cap (CRLF @ CRLF) out
      else append_print cap CRLF out)"

definition mimeTypes :: "(u8 list \<times> u8 list) list" where
  "mimeTypes = map (\<lambda>(ext, mimetype). (chars ext, chars mimetype)) [(''htm'', ''text/htm''), (''html'', ''text/html''), (''css'', ''text/css''),
    (''js'', ''text/javascript''), (''txt'', ''text/plain''), (''csv'', ''text/csv''),
    (''ico'', ''image/x-icon''), (''jpg'', ''image/jpeg''), (''jpeg'', ''image/jpeg''),
    (''png'', ''image/png''), (''svg'', ''image/svg+xml''), (''xml'', ''text/xml''),
    (''json'', ''application/json'')]"

declare digits.simps [simp del]


section \<open>What the builder appends\<close>

definition header_line :: "u8 list \<Rightarrow> u8 list \<Rightarrow> u8 list" where
  "header_line h v = h @ [58, 32] @ v @ CRLF"

definition status_line :: "int \<Rightarrow> u8 list" where
  "status_line code = (case map_of HTTP_Status code of
     Some s \<Rightarrow> chars HTTP_Version_1P1 @ [32] @ decimal code @ [32] @ chars s @ CRLF
   | None \<Rightarrow> [])"

lemma length_header_line [simp]: "length (header_line h v) = length h + length v + 4"
  by (simp add: header_line_def CRLF_def)

lemma parse_headers [simp]:
  "length out + length h + length v + 4 < cap \<Longrightarrow>
     HTTPd_Parse_Headers cap out h v = Some (out @ header_line h v)"
  by (simp add: HTTPd_Parse_Headers_def append_bytes_def append_print_def header_line_def CRLF_def)

lemma parse_headers_overflow:
  "cap \<le> length out + length h + length v + 4 \<Longrightarrow> HTTPd_Parse_Headers cap out h v = None"
  by (auto simp: HTTPd_Parse_Headers_def append_bytes_def append_print_def CRLF_def)

lemma end_of_headers:
  "length out + length h + length v + 6 < cap \<Longrightarrow>
     HTTPd_Parse_End_Of_Headers cap (out @ header_line h v) = Some (out @ header_line h v @ CRLF)"
  by (simp add: HTTPd_Parse_End_Of_Headers_def append_print_def header_line_def CRLF_def)

lemma status_table: "map_of HTTP_Status code = Some s \<Longrightarrow> length s \<le> 57 \<and> length (decimal code) = 3"
proof -
  have "\<forall>(c, s)\<in>set HTTP_Status. length s \<le> 57 \<and> 100 \<le> c \<and> c < 1000"
    by (simp add: HTTP_Status_def)
  moreover assume "map_of HTTP_Status code = Some s"
  then have "(code, s) \<in> set HTTP_Status" by (rule map_of_SomeD)
  ultimately have "length s \<le> 57" "100 \<le> code" "code < 1000" by auto
  moreover from this(2,3) obtain n where n: "code = int n" "100 \<le> n" "n < 1000"
    by (metis nat_0_le nat_less_iff nat_le_iff order_trans zero_le_numeral of_nat_numeral of_nat_less_iff of_nat_le_iff)
  then have "\<not> n < 10" "\<not> n div 10 < 10" "n div 10 div 10 < 10" by simp_all
  ultimately show ?thesis by (simp add: decimal_def n digits.simps [of n] digits.simps [of "n div 10"]
    digits.simps [of "n div 10 div 10"])
qed

lemma length_status_line: "length (status_line code) \<le> 73"
  by (auto simp: status_line_def CRLF_def split: option.splits dest: status_table)

lemma length_digits: "n < 10 ^ k \<Longrightarrow> 0 < k \<Longrightarrow> length (digits n) \<le> k"
proof (induction k arbitrary: n)
  case (Suc k)
  show ?case
  proof (cases "n < 10")
    case False
    then have "0 < k" using Suc.prems by (cases k) auto
    moreover have "n div 10 < 10 ^ k" using Suc.prems by (simp add: less_mult_imp_div_less mult.commute)
    ultimately have "length (digits (n div 10)) \<le> k" using Suc.IH by blast
    then show ?thesis using False by (simp add: digits.simps [of n])
  qed (simp add: digits.simps [of n])
qed simp

lemma length_decimal: "\<bar>n\<bar> < 10 ^ k \<Longrightarrow> 0 < k \<Longrightarrow> length (decimal n) \<le> Suc k"
  using length_digits [of "nat \<bar>n\<bar>" k] by (auto simp: decimal_def nat_less_iff split: if_splits)

lemma parse_status_code [simp]:
  assumes "128 \<le> cap" "0 \<le> code" "code < 65536"
  shows "HTTPd_Parse_Status_Code cap [] code = Some (status_line code)"
proof (cases "map_of HTTP_Status code")
  case None
  have "length (decimal code) \<le> 6" using length_decimal [of code 5] assms by simp
  with None assms show ?thesis
    by (simp add: HTTPd_Parse_Status_Code_def append_bytes_def append_print_def status_line_def)
next
  case (Some s)
  with assms(1) status_table [OF this] show ?thesis
    by (simp add: HTTPd_Parse_Status_Code_def append_bytes_def append_print_def CRLF_def status_line_def)
qed

end
