(* ===== verification/HTTPd_Conn.thy ===== *)
theory HTTPd_Conn
  imports HTTP_Builder
begin

text \<open>
  The client connections of the HTTP server (\<open>NeonRTOS/HTTPd/HTTPd.c\<close>): the table of at most
  twenty connections, its lookups, and the responses written to a connection. What a function
  sends is returned as a list of events; the results of \<open>malloc\<close> and \<open>send\<close> are arguments.
\<close>

section \<open>State\<close>

datatype HTTPd_Method = HTTPd_Method_UNKNOWN | HTTPd_Method_POST | HTTPd_Method_GET | HTTPd_Method_PUT
  | HTTPd_Method_DELETE

datatype HTTPd_Connection_Mode = HTTPd_Connection_Mode_Close | HTTPd_Connection_Mode_Keep_Alive
  | HTTPd_Connection_Mode_Upgrade | HTTPd_Connection_Mode_MAX

text \<open>\<open>'h\<close> is the type of the handlers that a URL can be bound to.\<close>

record 'h connection =
  socket_id :: int
  connetion_mode :: HTTPd_Connection_Mode
  connection_keep_alive_time :: u32
  connection_destruct_flag :: bool
  websocket_client :: bool
  websocket_auth :: bool
  client_key :: "u8 list option"
  requestType :: HTTPd_Method
  url :: "u8 list option"
  hostName :: "u8 list option"
  isLargeData :: bool
  data_len :: u32
  data_buff :: "u8 list option"
  accept_encoding :: "u8 list"
  getArgs :: "u8 list option"
  cgi :: "'h option"

type_synonym 'h clients = "'h connection option list"

abbreviation (input) HTTPD_MAX_CLIENTS :: nat where "HTTPD_MAX_CLIENTS \<equiv> 20"
abbreviation (input) HTTPD_CGI_MORE :: int where "HTTPD_CGI_MORE \<equiv> 0"
abbreviation (input) HTTPD_CGI_DONE :: int where "HTTPD_CGI_DONE \<equiv> 1"
abbreviation (input) HTTPD_CGI_NOTFOUND :: int where "HTTPD_CGI_NOTFOUND \<equiv> 2"
abbreviation (input) HTTPD_CMD_BUF_SIZE :: nat where "HTTPD_CMD_BUF_SIZE \<equiv> 1024"

datatype net_event = Send int "u8 list"

section \<open>The table of connections\<close>

definition HTTPd_Restore_Variables :: "nat \<Rightarrow> 'h clients \<Rightarrow> 'h clients option" where
  "HTTPd_Restore_Variables client_index cs = do {
     slot \<leftarrow> cread cs (int client_index);
     c \<leftarrow> slot;
     cwrite cs (int client_index) (Some (c\<lparr>socket_id := -1,
       connetion_mode := HTTPd_Connection_Mode_Close, connection_keep_alive_time := 0,
       connection_destruct_flag := False, websocket_client := False, websocket_auth := False,
       cgi := None\<rparr>)) }"

text \<open>Freeing the body of a request.\<close>

definition free_data :: "'h connection \<Rightarrow> 'h connection" where
  "free_data c = (if data_buff c \<noteq> None then c\<lparr>isLargeData := False, data_buff := None\<rparr> else c)"

lemma free_data_simps [simp]:
  "data_buff (free_data c) = None" "socket_id (free_data c) = socket_id c" "websocket_client (free_data c) = websocket_client c"
  "connection_destruct_flag (free_data c) = connection_destruct_flag c" "websocket_auth (free_data c) = websocket_auth c"
  by (auto simp: free_data_def)

lemma free_data_None: "data_buff c = None \<Longrightarrow> free_data c = c"
  by (simp add: free_data_def)

fun GetNumOfHttpdClient :: "'h clients \<Rightarrow> u8" where
  "GetNumOfHttpdClient [] = 0"
| "GetNumOfHttpdClient (slot # cs) = (case slot of
     None \<Rightarrow> GetNumOfHttpdClient cs
   | Some c \<Rightarrow> if socket_id c < 0 then GetNumOfHttpdClient cs else GetNumOfHttpdClient cs + 1)"

fun find_client :: "int \<Rightarrow> nat \<Rightarrow> 'h clients \<Rightarrow> int" where
  "find_client sock k [] = -1"
| "find_client sock k (slot # cs) = (case slot of
     None \<Rightarrow> find_client sock (k + 1) cs
   | Some c \<Rightarrow> if socket_id c = sock then int k else find_client sock (k + 1) cs)"

definition FindHttpdClient :: "'h clients \<Rightarrow> int \<Rightarrow> int" where
  "FindHttpdClient cs http_client_sockID = find_client http_client_sockID 0 cs"

text \<open>The timer's number is the index of the client plus one; the result tells whether the timer is
  deleted because the client is gone.\<close>

definition HTTPd_Connection_Timeout_CB :: "u32 \<Rightarrow> 'h clients \<Rightarrow> ('h clients \<times> bool) option" where
  "HTTPd_Connection_Timeout_CB TimerID cs = do {
     slot \<leftarrow> cread cs (uint (TimerID - 1));
     (case slot of
        Some c \<Rightarrow> do {
          cs1 \<leftarrow> cwrite cs (uint (TimerID - 1)) (Some (c\<lparr>connection_destruct_flag := True\<rparr>));
          Some (cs1, False) }
      | None \<Rightarrow> Some (cs, True)) }"

section \<open>Responses\<close>

definition HTTP_Server_line :: "nat \<Rightarrow> u8 list \<Rightarrow> u8 list option" where
  "HTTP_Server_line cap out = HTTPd_Parse_Headers cap out (chars ''Server'') (chars ''NeonRT - httpd / 1.1'')"

definition connection_lines :: "HTTPd_Connection_Mode \<Rightarrow> nat \<Rightarrow> u8 list \<Rightarrow> u8 list option" where
  "connection_lines mode cap out = (case mode of
     HTTPd_Connection_Mode_Keep_Alive \<Rightarrow> do {
       out1 \<leftarrow> HTTPd_Parse_Headers cap out (chars ''Connection'') (chars ''Keep-Alive'');
       HTTPd_Parse_Headers cap out1 (chars ''Keep-Alive'') (chars ''timeout=5, max=1'') }
   | HTTPd_Connection_Mode_Upgrade \<Rightarrow> HTTPd_Parse_Headers cap out (chars ''Connection'') (chars ''Upgrade'')
   | _ \<Rightarrow> HTTPd_Parse_Headers cap out (chars ''Connection'') (chars ''Close''))"

definition mime_of :: "u8 list \<Rightarrow> u8 list" where
  "mime_of ext = (case map_of mimeTypes ext of Some mimetype \<Rightarrow> mimetype | None \<Rightarrow> chars ''text/html'')"

definition HTTPd_Send_CGI_Response ::
  "'h connection option \<Rightarrow> u16 \<Rightarrow> u8 list \<Rightarrow> u8 list \<Rightarrow> 64 word \<Rightarrow> bool \<Rightarrow> int \<Rightarrow> (net_event list \<times> int) option"
where
  "HTTPd_Send_CGI_Response connData status_code rsp_type rsp_data rsp_len mem_ok socket_status =
     (case connData of
        None \<Rightarrow> Some ([], HTTPD_CGI_DONE)
      | Some c \<Rightarrow>
        if \<not> mem_ok then Some ([], HTTPD_CGI_DONE)
        else do {
          out \<leftarrow> HTTPd_Parse_Status_Code HTTPD_CMD_BUF_SIZE [] (uint status_code);
          out \<leftarrow> HTTP_Server_line HTTPD_CMD_BUF_SIZE out;
          out \<leftarrow> connection_lines (connetion_mode c) HTTPD_CMD_BUF_SIZE out;
          out \<leftarrow> HTTPd_Parse_Headers HTTPD_CMD_BUF_SIZE out (chars ''Content-Type'') (mime_of rsp_type);
          out \<leftarrow> HTTPd_Parse_Headers HTTPD_CMD_BUF_SIZE out (chars ''Access-Control-Allow-Origin'') (chars ''*'');
          out \<leftarrow> HTTPd_Parse_End_Of_Headers HTTPD_CMD_BUF_SIZE out;
          if socket_status < 0 then Some ([Send (socket_id c) out], HTTPD_CGI_DONE)
          else if rsp_len = 0 then Some ([Send (socket_id c) out], HTTPD_CGI_DONE)
          else if length rsp_data < unat rsp_len then None
          else Some ([Send (socket_id c) out, Send (socket_id c) (take (unat rsp_len) rsp_data)],
            HTTPD_CGI_DONE) })"

definition HTTP_SendHeader ::
  "'h connection \<Rightarrow> int \<Rightarrow> u8 list \<Rightarrow> u32 \<Rightarrow> bool \<Rightarrow> u8 list option \<Rightarrow> bool \<Rightarrow> int \<Rightarrow> (net_event list \<times> int) option"
where
  "HTTP_SendHeader c statusCode pContentTypeStr contentLength isGzip pNewUrl mem_ok socket_status =
     (if \<not> mem_ok then Some ([], HTTPD_CGI_DONE)
      else do {
        out \<leftarrow> HTTPd_Parse_Status_Code HTTPD_CMD_BUF_SIZE [] statusCode;
        out \<leftarrow> HTTP_Server_line HTTPD_CMD_BUF_SIZE out;
        out \<leftarrow> connection_lines (connetion_mode c) HTTPD_CMD_BUF_SIZE out;
        out \<leftarrow> (case pNewUrl of
            Some newUrl \<Rightarrow> HTTPd_Parse_Headers HTTPD_CMD_BUF_SIZE out (chars ''Location'') newUrl
          | None \<Rightarrow> Some out);
        out \<leftarrow> HTTPd_Parse_Headers HTTPD_CMD_BUF_SIZE out (chars ''Content-Type'') pContentTypeStr;
        out \<leftarrow> HTTPd_Parse_Headers HTTPD_CMD_BUF_SIZE out (chars ''Content-Length'') (decimal (sint contentLength));
        out \<leftarrow> (if isGzip
          then HTTPd_Parse_Headers HTTPD_CMD_BUF_SIZE out (chars ''Content-Encoding'') (chars ''gzip'')
          else Some out);
        out \<leftarrow> HTTPd_Parse_End_Of_Headers HTTPD_CMD_BUF_SIZE out;
        Some ([Send (socket_id c) out], if socket_status < 0 then HTTPD_CGI_DONE else HTTPD_CGI_MORE) })"

text \<open>\<open>HTTPdGetMimetype\<close> looks backwards for a dot from the last character of the URL.\<close>

fun mime_ext_from :: "u8 list \<Rightarrow> nat \<Rightarrow> u8 list" where
  "mime_ext_from u i =
     (if i \<noteq> 0 \<and> u ! i \<noteq> 46 then mime_ext_from u (i - 1)
      else if u ! i = 46 then drop (i + 1) u else drop i u)"

definition HTTPdGetMimetype :: "u8 list \<Rightarrow> u8 list option" where
  "HTTPdGetMimetype u = (if u = [] then None else Some (mime_of (mime_ext_from u (length u - 1))))"

declare mime_ext_from.simps [simp del]


section \<open>What is sent\<close>

definition server_header :: "u8 list" where
  "server_header = header_line (chars ''Server'') (chars ''NeonRT - httpd / 1.1'')"

definition connection_headers :: "HTTPd_Connection_Mode \<Rightarrow> u8 list" where
  "connection_headers mode = (case mode of
     HTTPd_Connection_Mode_Keep_Alive \<Rightarrow>
       header_line (chars ''Connection'') (chars ''Keep-Alive'') @
       header_line (chars ''Keep-Alive'') (chars ''timeout=5, max=1'')
   | HTTPd_Connection_Mode_Upgrade \<Rightarrow> header_line (chars ''Connection'') (chars ''Upgrade'')
   | _ \<Rightarrow> header_line (chars ''Connection'') (chars ''Close''))"

lemma server_line: "length out + 30 < cap \<Longrightarrow> HTTP_Server_line cap out = Some (out @ server_header)"
  by (simp add: HTTP_Server_line_def server_header_def)

lemma length_server_header: "length server_header = 30"
  by (simp add: server_header_def)

lemma length_connection_headers: "length (connection_headers mode) \<le> 54"
  by (cases mode) (simp_all add: connection_headers_def)

lemma connection_lines_append:
  "length out + 54 < cap \<Longrightarrow> connection_lines mode cap out = Some (out @ connection_headers mode)"
  by (cases mode) (simp_all add: connection_lines_def connection_headers_def)

lemma length_mime_of: "length (mime_of ext) \<le> 16"
  by (auto simp: mime_of_def mimeTypes_def)

lemma send_CGI_response:
  "HTTPd_Send_CGI_Response (Some c) status_code rsp_type rsp_data rsp_len True socket_status =
     (let head = status_line (uint status_code) @ server_header @ connection_headers (connetion_mode c) @
        header_line (chars ''Content-Type'') (mime_of rsp_type) @
        header_line (chars ''Access-Control-Allow-Origin'') (chars ''*'') @ CRLF
      in if socket_status < 0 \<or> rsp_len = 0 then Some ([Send (socket_id c) head], HTTPD_CGI_DONE)
         else if length rsp_data < unat rsp_len then None
         else Some ([Send (socket_id c) head, Send (socket_id c) (take (unat rsp_len) rsp_data)], HTTPD_CGI_DONE))"
proof -
  have code: "uint status_code < 65536" using unsigned_less [of status_code, where ?'a = int] by simp
  let ?out1 = "status_line (uint status_code)"
  let ?out2 = "?out1 @ server_header"
  let ?out3 = "?out2 @ connection_headers (connetion_mode c)"
  let ?out4 = "?out3 @ header_line (chars ''Content-Type'') (mime_of rsp_type)"
  note len = length_status_line [of "uint status_code"] length_server_header
    length_connection_headers [of "connetion_mode c"] length_mime_of [of rsp_type]
  have "HTTPd_Parse_Status_Code 1024 [] (uint status_code) = Some ?out1" using code by simp
  moreover have "HTTP_Server_line 1024 ?out1 = Some ?out2" using len by (simp add: server_line)
  moreover have "connection_lines (connetion_mode c) 1024 ?out2 = Some ?out3"
    using len by (simp add: connection_lines_append)
  moreover have "HTTPd_Parse_Headers 1024 ?out3 (chars ''Content-Type'') (mime_of rsp_type) = Some ?out4"
    using len by simp
  moreover have "HTTPd_Parse_Headers 1024 ?out4 (chars ''Access-Control-Allow-Origin'') (chars ''*'') =
    Some (?out4 @ header_line (chars ''Access-Control-Allow-Origin'') (chars ''*''))" using len by simp
  moreover have "HTTPd_Parse_End_Of_Headers 1024
      (?out4 @ header_line (chars ''Access-Control-Allow-Origin'') (chars ''*'')) =
    Some (?out4 @ header_line (chars ''Access-Control-Allow-Origin'') (chars ''*'') @ CRLF)"
    using len by (intro end_of_headers) simp
  ultimately show ?thesis unfolding HTTPd_Send_CGI_Response_def
    by (simp only: option.case if_False if_True not_True_eq_False bind.simps Let_def append_assoc) auto
qed


definition web_head :: "'h connection \<Rightarrow> int \<Rightarrow> u8 list \<Rightarrow> u32 \<Rightarrow> bool \<Rightarrow> u8 list option \<Rightarrow> u8 list" where
  "web_head c statusCode content_type contentLength isGzip newUrl =
     status_line statusCode @ server_header @ connection_headers (connetion_mode c) @
     (case newUrl of Some u \<Rightarrow> header_line (chars ''Location'') u | None \<Rightarrow> []) @
     header_line (chars ''Content-Type'') content_type @
     header_line (chars ''Content-Length'') (decimal (sint contentLength)) @
     (if isGzip then header_line (chars ''Content-Encoding'') (chars ''gzip'') else []) @ CRLF"

lemma length_content_length: "length (decimal (sint (n :: u32))) \<le> 11"
proof -
  have "\<bar>sint n\<bar> < 10 ^ 10"
    using sint_ge [of n] sint_lt [of n] by simp
  then show ?thesis using length_decimal [of "sint n" 10] by simp
qed

lemma web_head_sent:
  assumes "0 \<le> statusCode" "statusCode < 65536" "length pContentTypeStr \<le> 64"
    "case pNewUrl of Some u \<Rightarrow> length u \<le> 512 | None \<Rightarrow> True"
  shows "HTTP_SendHeader c statusCode pContentTypeStr contentLength isGzip pNewUrl True socket_status =
    Some ([Send (socket_id c) (web_head c statusCode pContentTypeStr contentLength isGzip pNewUrl)],
      if socket_status < 0 then HTTPD_CGI_DONE else HTTPD_CGI_MORE)"
proof -
  note len = length_status_line [of statusCode] length_server_header
    length_connection_headers [of "connetion_mode c"] length_content_length [of contentLength]
  let ?loc = "case pNewUrl of Some u \<Rightarrow> header_line (chars ''Location'') u | None \<Rightarrow> []"
  have loc: "length ?loc \<le> 524" using assms(4) by (auto split: option.splits)
  let ?out2 = "status_line statusCode @ server_header @ connection_headers (connetion_mode c)"
  let ?out3 = "?out2 @ ?loc"
  let ?out4 = "?out3 @ header_line (chars ''Content-Type'') pContentTypeStr"
  let ?out5 = "?out4 @ header_line (chars ''Content-Length'') (decimal (sint contentLength))"
  have "HTTPd_Parse_Status_Code 1024 [] statusCode = Some (status_line statusCode)" using assms by simp
  moreover have "HTTP_Server_line 1024 (status_line statusCode) = Some (status_line statusCode @ server_header)"
    using len by (simp add: server_line)
  moreover have "connection_lines (connetion_mode c) 1024 (status_line statusCode @ server_header) = Some ?out2"
    using len by (simp add: connection_lines_append)
  moreover have "(case pNewUrl of
      Some newUrl \<Rightarrow> HTTPd_Parse_Headers 1024 ?out2 (chars ''Location'') newUrl | None \<Rightarrow> Some ?out2) = Some ?out3"
    using len assms(4) by (auto split: option.splits)
  moreover have "HTTPd_Parse_Headers 1024 ?out3 (chars ''Content-Type'') pContentTypeStr = Some ?out4"
    using len loc assms(3) by simp
  moreover have "HTTPd_Parse_Headers 1024 ?out4 (chars ''Content-Length'') (decimal (sint contentLength)) = Some ?out5"
    using len loc assms(3) by simp
  moreover have "HTTPd_Parse_Headers 1024 ?out5 (chars ''Content-Encoding'') (chars ''gzip'') =
      Some (?out5 @ header_line (chars ''Content-Encoding'') (chars ''gzip''))"
    using len loc assms(3) by simp
  moreover have "HTTPd_Parse_End_Of_Headers 1024 (?out5 @ header_line (chars ''Content-Encoding'') (chars ''gzip'')) =
      Some (?out5 @ header_line (chars ''Content-Encoding'') (chars ''gzip'') @ CRLF)"
    using len loc assms(3) by (intro end_of_headers) simp
  moreover have "HTTPd_Parse_End_Of_Headers 1024 ?out5 = Some (?out5 @ CRLF)"
    using len loc assms(3) end_of_headers [of ?out4 "chars ''Content-Length''" "decimal (sint contentLength)" 1024]
    by (simp only: append_assoc) simp
  ultimately show ?thesis
    unfolding HTTP_SendHeader_def web_head_def by (cases isGzip) (simp_all only: if_True if_False
      not_True_eq_False bind.simps append_assoc append_Nil)
qed

text \<open>A redirection to a URL that does not fit the command buffer writes past it.\<close>

lemma redirect_overflow:
  assumes "1016 \<le> length u"
  shows "HTTP_SendHeader c 302 pContentTypeStr contentLength isGzip (Some u) True socket_status = None"
proof -
  note len = length_status_line [of 302] length_server_header
    length_connection_headers [of "connetion_mode c"]
  let ?out2 = "status_line 302 @ server_header @ connection_headers (connetion_mode c)"
  have "connection_lines (connetion_mode c) 1024 (status_line 302 @ server_header) = Some ?out2"
    using len by (simp add: connection_lines_append)
  moreover have "HTTP_Server_line 1024 (status_line 302) = Some (status_line 302 @ server_header)"
    using len by (simp add: server_line)
  moreover have "HTTPd_Parse_Headers 1024 ?out2 (chars ''Location'') u = None"
    using assms by (intro parse_headers_overflow) simp
  ultimately show ?thesis by (simp add: HTTP_SendHeader_def)
qed

section \<open>Types of files\<close>

lemma mime_ext_from_dot:
  "46 \<notin> set ext \<Longrightarrow> length base \<le> i \<Longrightarrow> i \<le> length base + length ext \<Longrightarrow>
     mime_ext_from (base @ 46 # ext) i = ext"
proof (induction i)
  case (Suc i)
  show ?case
  proof (cases "Suc i = length base")
    case False
    then have "(base @ 46 # ext) ! Suc i \<in> set ext" using Suc.prems
      by (auto simp: nth_append nth_Cons split: nat.splits intro!: nth_mem)
    then have "(base @ 46 # ext) ! Suc i \<noteq> 46" using Suc.prems(1) by metis
    then show ?thesis using Suc False by (simp add: mime_ext_from.simps [of _ "Suc i"])
  qed (simp add: mime_ext_from.simps [of _ "length base"])
qed (simp add: mime_ext_from.simps [of _ 0])


section \<open>Looking up clients\<close>

lemma find_client_found:
  "find_client sock k cs = int i \<Longrightarrow> k \<le> i \<and> i < k + length cs \<and>
     (\<exists>c. cs ! (i - k) = Some c \<and> socket_id c = sock) \<and>
     (\<forall>j<i - k. \<forall>d. cs ! j = Some d \<longrightarrow> socket_id d \<noteq> sock)"
proof (induction cs arbitrary: k)
  case (Cons slot cs)
  show ?case
  proof (cases "\<exists>c. slot = Some c \<and> socket_id c = sock")
    case False
    then have "find_client sock (k + 1) cs = int i" using Cons.prems by (auto split: option.splits)
    from Cons.IH [OF this] False show ?thesis
      by (auto simp: nth_Cons split: nat.splits) (metis Suc_diff_Suc diff_Suc_1 less_eq_Suc_le)+
  qed (use Cons.prems in auto)
qed simp

lemma find_client_none:
  "find_client sock k cs = -1 \<longleftrightarrow> (\<forall>c. Some c \<in> set cs \<longrightarrow> socket_id c \<noteq> sock)"
  by (induction cs arbitrary: k) (auto split: option.splits)

section \<open>Properties\<close>

definition closed_client :: "int \<Rightarrow> unit connection" where
  "closed_client sock = \<lparr>socket_id = sock, connetion_mode = HTTPd_Connection_Mode_Close,
     connection_keep_alive_time = 0, connection_destruct_flag = False, websocket_client = False,
     websocket_auth = False, client_key = None, requestType = HTTPd_Method_GET, url = None,
     hostName = None, isLargeData = False, data_len = 0, data_buff = None, accept_encoding = [], getArgs = None, cgi = None\<rparr>"

text \<open>
  An answer to a CGI request is sent as one block made of the status line, the server,
  connection, content-type and cross-origin headers and the empty line, followed by the data in a
  second block when the first was accepted: for every status code, connection mode and type the
  headers fit the command buffer of 1024 bytes.
\<close>

theorem CGI_response_sent:
  assumes "length rsp_data < 2 ^ 64"
  shows
  "HTTPd_Send_CGI_Response (Some c) status_code rsp_type rsp_data (of_nat (length rsp_data)) True socket_status =
     (let head = status_line (uint status_code) @ server_header @ connection_headers (connetion_mode c) @
        header_line (chars ''Content-Type'') (mime_of rsp_type) @
        header_line (chars ''Access-Control-Allow-Origin'') (chars ''*'') @ CRLF
      in Some (Send (socket_id c) head #
        (if socket_status < 0 \<or> rsp_data = [] then [] else [Send (socket_id c) rsp_data]), HTTPD_CGI_DONE))"
proof -
  have "unat (of_nat (length rsp_data) :: 64 word) = length rsp_data"
    using assms by (simp add: unat_of_nat take_bit_nat_eq_self)
  moreover from this have "of_nat (length rsp_data) = (0 :: 64 word) \<longleftrightarrow> rsp_data = []" by force
  ultimately show ?thesis by (simp add: send_CGI_response Let_def)
qed

theorem CGI_response_sent_witness:
  "\<exists>head. HTTPd_Send_CGI_Response (Some (closed_client 5)) 200 (chars ''json'') (chars ''{}'') (of_nat (length (chars ''{}''))) True 1 =
     Some ([Send 5 head, Send 5 (chars ''{}'')], HTTPD_CGI_DONE)"
  using CGI_response_sent [of "chars ''{}''" "closed_client 5" 200 "chars ''json''" 1]
  by (auto simp: Let_def closed_client_def)

text \<open>
  The header of a web file or of a redirection is sent whole: with a content type of at most 64
  characters and a redirection URL of at most 512 bytes it fits the command buffer, whatever the
  status code, the length and the connection mode, and the result tells whether it was accepted.
\<close>

theorem web_header_sent:
  assumes "0 \<le> statusCode" "statusCode < 65536" "length pContentTypeStr \<le> 64"
    "case pNewUrl of Some u \<Rightarrow> length u \<le> 512 | None \<Rightarrow> True"
  shows "HTTP_SendHeader c statusCode pContentTypeStr contentLength isGzip pNewUrl True socket_status =
    Some ([Send (socket_id c) (web_head c statusCode pContentTypeStr contentLength isGzip pNewUrl)],
      if socket_status < 0 then HTTPD_CGI_DONE else HTTPD_CGI_MORE)"
  using assms by (rule web_head_sent)

theorem web_header_sent_witness:
  "HTTP_SendHeader (closed_client 5) 302 (chars ''text/plain'') 13 False (Some (chars ''/login'')) True 1 =
    Some ([Send 5 (web_head (closed_client 5) 302 (chars ''text/plain'') 13 False (Some (chars ''/login'')))], HTTPD_CGI_MORE)"
  using web_header_sent [of 302 "chars ''text/plain''" "Some (chars ''/login'')" "closed_client 5" 13 False 1]
  by (simp add: closed_client_def)

text \<open>
  The type of a file is found from what follows the last dot of its URL, and is text/html when
  the table has no such extension.
\<close>

theorem mimetype_of_extension:
  "46 \<notin> set ext \<Longrightarrow> HTTPdGetMimetype (base @ 46 # ext) = Some (mime_of ext)"
  using mime_ext_from_dot [of ext base "length base + length ext"] by (simp add: HTTPdGetMimetype_def)

theorem mimetype_of_extension_witness:
  "HTTPdGetMimetype (chars ''/js/jquery.min.js'') = Some (chars ''text/javascript'')"
  using mimetype_of_extension [of "chars ''js''" "chars ''/js/jquery.min''"] by (simp add: mime_of_def mimeTypes_def)


text \<open>
  Looking up a socket gives the first connection of the table that uses it, and -1 exactly when
  no connection does.
\<close>

theorem find_client_first:
  "(FindHttpdClient cs sock = -1 \<longleftrightarrow> (\<forall>c. Some c \<in> set cs \<longrightarrow> socket_id c \<noteq> sock)) \<and>
   (FindHttpdClient cs sock = int i \<longrightarrow> i < length cs \<and>
      (\<exists>c. cs ! i = Some c \<and> socket_id c = sock) \<and>
      (\<forall>j<i. \<forall>d. cs ! j = Some d \<longrightarrow> socket_id d \<noteq> sock))"
  using find_client_found [of sock 0 cs i] by (auto simp: FindHttpdClient_def find_client_none)

theorem find_client_first_witness:
  "FindHttpdClient [None, Some (closed_client 7)] 7 \<noteq> -1"
  using find_client_first [of "[None, Some (closed_client 7)]" 7 1]
  by (auto simp: closed_client_def)

end
