(* ===== verification/Base64.thy ===== *)
theory Base64
  imports Prelude "HOL-Library.Char_ord"
begin

text \<open>
  The base-64 codec of \<open>Drivers/W-Link/Misc/Base64.c\<close>. Both functions shift bytes into a 32-bit
  accumulator \<open>v\<close> of which \<open>rem\<close> bits are still to be written, and write to a buffer of \<open>out_len\<close>
  bytes; the return value -1 is \<open>None\<close>, otherwise the result is the bytes written.
\<close>

section \<open>The functions\<close>

definition base64dec_tab :: "nat list" where
  "base64dec_tab =
     replicate 43 255 @ [62] @ replicate 3 255 @ [63] @
     [52, 53, 54, 55, 56, 57, 58, 59, 60, 61] @ replicate 3 255 @ [0] @ replicate 3 255 @
     [0..<26] @ replicate 6 255 @ [26..<52] @ replicate 133 255"

definition base64enc_tab :: "u8 list" where
  "base64enc_tab = chars ''ABCDEFGHIJKLMNOPQRSTUVWXYZabcdefghijklmnopqrstuvwxyz0123456789+/''"

text \<open>\<open>out[io++] = b\<close> after its check \<open>io >= out_len\<close>.\<close>

definition put :: "nat \<Rightarrow> u8 \<Rightarrow> u8 list \<Rightarrow> u8 list option" where
  "put out_len b out = (if out_len \<le> length out then None else Some (out @ [b]))"

fun enc_flush :: "nat \<Rightarrow> u32 \<Rightarrow> nat \<Rightarrow> u8 list \<Rightarrow> (nat \<times> u8 list) option" where
  "enc_flush out_len v rem out =
     (if 6 \<le> rem then do {
        out1 \<leftarrow> put out_len (base64enc_tab ! unat (drop_bit (rem - 6) v AND 63)) out;
        enc_flush out_len v (rem - 6) out1 }
      else Some (rem, out))"

fun enc_loop :: "nat \<Rightarrow> u8 list \<Rightarrow> u32 \<Rightarrow> nat \<Rightarrow> u8 list \<Rightarrow> (u32 \<times> nat \<times> u8 list) option" where
  "enc_loop out_len [] v rem out = Some (v, rem, out)"
| "enc_loop out_len (ch # in') v rem out = (let v1 = (push_bit 8 v OR ucast ch) in
     do { (rem1, out1) \<leftarrow> enc_flush out_len v1 (rem + 8) out;
          enc_loop out_len in' v1 rem1 out1 })"

function enc_pad :: "nat \<Rightarrow> u8 list \<Rightarrow> u8 list option" where
  "enc_pad out_len out =
     (if length out AND 3 \<noteq> 0 then do {
        out1 \<leftarrow> put out_len (of_char CHR ''='') out; enc_pad out_len out1 }
      else Some out)"
  by pat_completeness auto
termination
  by (relation "measure (\<lambda>(n, out). n - length out)") (auto simp: put_def split: if_splits)

definition base64_encode :: "u8 list \<Rightarrow> nat \<Rightarrow> u8 list option" where
  "base64_encode in' out_len = do {
     (v, rem, out) \<leftarrow> enc_loop out_len in' 0 0 [];
     out1 \<leftarrow> (if rem \<noteq> 0
       then put out_len (base64enc_tab ! unat (push_bit (6 - rem) v AND 63)) out
       else Some out);
     out2 \<leftarrow> enc_pad out_len out1;
     if out_len \<le> length out2 then None else Some out2 }"

definition isspace :: "u8 \<Rightarrow> bool" where
  "isspace ch \<longleftrightarrow> ch = 32 \<or> (9 \<le> ch \<and> ch \<le> 13)"

fun dec_loop :: "nat \<Rightarrow> u8 list \<Rightarrow> u32 \<Rightarrow> nat \<Rightarrow> u8 list \<Rightarrow> (u32 \<times> nat \<times> u8 list) option" where
  "dec_loop out_len [] v rem out = Some (v, rem, out)"
| "dec_loop out_len (c # in') v rem out =
     (if isspace c then dec_loop out_len in' v rem out
      else if c = of_char CHR ''='' then Some (v, rem, out)
      else let ch = (of_nat (base64dec_tab ! unat c) :: u8) in
        if ch = 255 then Some (v, rem, out)
        else let v1 = (push_bit 6 v OR ucast ch); rem1 = rem + 6 in
          if 8 \<le> rem1 then do {
            out1 \<leftarrow> put out_len (ucast (drop_bit (rem1 - 8) v1 AND 255)) out;
            dec_loop out_len in' v1 (rem1 - 8) out1 }
          else dec_loop out_len in' v1 rem1 out)"

definition base64_decode :: "u8 list \<Rightarrow> nat \<Rightarrow> u8 list option" where
  "base64_decode in' out_len = do {
     (v, rem, out) \<leftarrow> dec_loop out_len in' 0 0 [];
     if 8 \<le> rem then put out_len (ucast (drop_bit (rem - 8) v AND 255)) out else Some out }"

declare enc_flush.simps [simp del] enc_pad.simps [simp del]


section \<open>Bounded writes\<close>

definition puts :: "nat \<Rightarrow> u8 list \<Rightarrow> u8 list \<Rightarrow> u8 list option" where
  "puts out_len bs out =
     (if bs = [] \<or> length out + length bs \<le> out_len then Some (out @ bs) else None)"

lemma puts_Nil [simp]: "puts n [] out = Some out"
  by (simp add: puts_def)

lemma put_is_puts: "put n b out = puts n [b] out"
  by (simp add: put_def puts_def)

lemma puts_puts [simp]: "puts n bs out \<bind> puts n cs = puts n (bs @ cs) out"
  by (auto simp: puts_def)

lemma puts_puts_then [simp]:
  "puts n bs out \<bind> (\<lambda>out1. puts n cs out1 \<bind> k) = puts n (bs @ cs) out \<bind> k"
  by (simp flip: puts_puts)

section \<open>The encoder against its three-byte form\<close>

definition enc6 :: "u8 \<Rightarrow> u8" where
  "enc6 w = base64enc_tab ! unat w"

text \<open>The six-bit groups of three bytes.\<close>

definition sx1 :: "u8 \<Rightarrow> u8" where "sx1 a = drop_bit 2 a"
definition sx2 :: "u8 \<Rightarrow> u8 \<Rightarrow> u8" where "sx2 a b = push_bit 4 (a AND 3) OR drop_bit 4 b"
definition sx3 :: "u8 \<Rightarrow> u8 \<Rightarrow> u8" where "sx3 b c = push_bit 2 (b AND 15) OR drop_bit 6 c"
definition sx4 :: "u8 \<Rightarrow> u8" where "sx4 c = c AND 63"

lemmas sx_defs = sx1_def sx2_def sx3_def sx4_def

fun b64_text :: "u8 list \<Rightarrow> u8 list" where
  "b64_text [] = []"
| "b64_text [a] = [enc6 (sx1 a), enc6 (sx2 a 0), of_char CHR ''='', of_char CHR ''='']"
| "b64_text [a, b] = [enc6 (sx1 a), enc6 (sx2 a b),
     enc6 (sx3 b 0), of_char CHR ''='']"
| "b64_text (a # b # c # rest) = [enc6 (sx1 a), enc6 (sx2 a b),
     enc6 (sx3 b c), enc6 (sx4 c)] @ b64_text rest"

text \<open>The accumulator after a byte, and the character for its six bits above the lowest \<open>r\<close>.\<close>

definition shift_in :: "u32 \<Rightarrow> u8 \<Rightarrow> u32" where
  "shift_in v ch = push_bit 8 v OR ucast ch"

definition sextet :: "nat \<Rightarrow> u32 \<Rightarrow> u8" where
  "sextet r v = base64enc_tab ! unat (drop_bit r v AND 63)"

definition last_sextet :: "nat \<Rightarrow> u32 \<Rightarrow> u8" where
  "last_sextet r v = base64enc_tab ! unat (push_bit r v AND 63)"

lemma unat_ucast_u8: "unat (ucast (w :: u8) :: u32) = unat w"
proof -
  have "unat w < 2 ^ LENGTH(8)" by (rule unsigned_less)
  then show ?thesis by (simp add: unsigned_ucast_eq take_bit_nat_eq_self)
qed

lemma sextet_eq: "drop_bit r v AND 63 = ucast w \<Longrightarrow> sextet r v = enc6 w"
  by (simp add: sextet_def enc6_def unat_ucast_u8)

lemma last_sextet_eq: "push_bit r v AND 63 = ucast w \<Longrightarrow> last_sextet r v = enc6 w"
  by (simp add: last_sextet_def enc6_def unat_ucast_u8)

lemma sextets:
  "sextet 2 (shift_in v a) = enc6 (sx1 a)"
  "sextet 4 (shift_in (shift_in v a) b) = enc6 (sx2 a b)"
  "sextet 6 (shift_in (shift_in v b) c) = enc6 (sx3 b c)"
  "sextet 0 (shift_in v c) = enc6 (sx4 c)"
  "last_sextet 4 (shift_in v a) = enc6 (sx2 a 0)"
  "last_sextet 2 (shift_in v b) = enc6 (sx3 b 0)"
  by (rule sextet_eq last_sextet_eq bit_word_eqI;
      auto simp: shift_in_def sx_defs bit_simps masks dest: bit_imp_le_length)+

lemma enc_flush_eq:
  "enc_flush n v rem out =
     (if 6 \<le> rem then puts n [sextet (rem - 6) v] out \<bind> enc_flush n v (rem - 6) else Some (rem, out))"
  by (subst enc_flush.simps) (simp add: put_is_puts sextet_def)

lemma enc_loop_Cons:
  "enc_loop n (ch # in') v rem out =
     enc_flush n (shift_in v ch) (rem + 8) out \<bind> (\<lambda>(r, out1). enc_loop n in' (shift_in v ch) r out1)"
  by (simp add: shift_in_def Let_def)

lemmas enc_unfold = enc_loop_Cons enc_flush_eq sextets

lemma enc_loop_three:
  "\<exists>v'. enc_loop n (a # b # c # rest) v 0 out =
     puts n [enc6 (sx1 a), enc6 (sx2 a b),
       enc6 (sx3 b c), enc6 (sx4 c)] out \<bind>
     enc_loop n rest v' 0"
  by (rule exI [of _ "shift_in (shift_in (shift_in v a) b) c"])
    (simp add: enc_unfold del: enc_loop.simps)

lemma and_3_nat: "(k :: nat) AND 3 = k mod 4"
  using take_bit_eq_mask [of 2 k] by (simp add: take_bit_eq_mod mask_eq_exp_minus_1 and.commute)


lemma enc_pad_step:
  "enc_pad n out = (if length out mod 4 = 0 then Some out
     else puts n [of_char CHR ''=''] out \<bind> enc_pad n)"
  by (subst enc_pad.simps) (simp add: and_3_nat put_is_puts)

lemma puts_length: "puts n bs out = Some out1 \<Longrightarrow> length out1 = length out + length bs"
  by (auto simp: puts_def split: if_splits)

lemma puts_cong:
  "(\<And>out1. length out1 = length out + length bs \<Longrightarrow> f out1 = g out1) \<Longrightarrow>
    puts n bs out \<bind> f = puts n bs out \<bind> g"
  by (auto simp: puts_def)

lemma enc_pad_0: "length out mod 4 = 0 \<Longrightarrow> enc_pad n out = Some out"
  by (simp add: enc_pad_step)

lemma enc_pad_3:
  assumes "length out mod 4 = 3"
  shows "enc_pad n out = puts n [of_char CHR ''=''] out"
proof -
  have "puts n [of_char CHR ''=''] out \<bind> enc_pad n = puts n [of_char CHR ''=''] out \<bind> puts n []"
    using assms by (intro puts_cong) (simp add: enc_pad_0 mod_Suc)
  with assms show ?thesis by (simp add: enc_pad_step [of n out])
qed

lemma enc_pad_2:
  assumes "length out mod 4 = 2"
  shows "enc_pad n out = puts n [of_char CHR ''='', of_char CHR ''=''] out"
proof -
  have "puts n [of_char CHR ''=''] out \<bind> enc_pad n =
    puts n [of_char CHR ''=''] out \<bind> puts n [of_char CHR ''='']"
    using assms by (intro puts_cong) (simp add: enc_pad_3 mod_Suc)
  with assms show ?thesis by (simp add: enc_pad_step [of n out])
qed

definition enc_finish :: "nat \<Rightarrow> u32 \<times> nat \<times> u8 list \<Rightarrow> u8 list option" where
  "enc_finish n = (\<lambda>(v, rem, out).
     (if rem \<noteq> 0 then puts n [last_sextet (6 - rem) v] out else Some out) \<bind> enc_pad n)"

lemma enc_finish_eval:
  "enc_finish n (v, 0, out) = enc_pad n out"
  "enc_finish n (v, 2, out) = puts n [last_sextet 4 v] out \<bind> enc_pad n"
  "enc_finish n (v, 4, out) = puts n [last_sextet 2 v] out \<bind> enc_pad n"
  by (simp_all add: enc_finish_def)

lemma enc_loop_text:
  "length out mod 4 = 0 \<Longrightarrow> enc_loop n xs v 0 out \<bind> enc_finish n = puts n (b64_text xs) out"
proof (induction xs arbitrary: v out rule: b64_text.induct)
  case 1
  then show ?case by (simp add: enc_finish_eval enc_pad_0)
next
  case (2 a)
  let ?bs = "[enc6 (sx1 a), enc6 (sx2 a 0)]"
  have "enc_loop n [a] v 0 out \<bind> enc_finish n = puts n ?bs out \<bind> enc_pad n"
    by (simp add: enc_unfold enc_finish_eval bind_assoc del: enc_loop.simps(2))
  also have "\<dots> = puts n ?bs out \<bind> puts n [of_char CHR ''='', of_char CHR ''='']"
    using 2 by (intro puts_cong enc_pad_2) (simp, presburger)
  finally show ?case by simp
next
  case (3 a b)
  let ?bs = "[enc6 (sx1 a), enc6 (sx2 a b), enc6 (sx3 b 0)]"
  have "enc_loop n [a, b] v 0 out \<bind> enc_finish n = puts n ?bs out \<bind> enc_pad n"
    by (simp add: enc_unfold enc_finish_eval bind_assoc del: enc_loop.simps(2))
  also have "\<dots> = puts n ?bs out \<bind> puts n [of_char CHR ''='']"
    using 3 by (intro puts_cong enc_pad_3) (simp, presburger)
  finally show ?case by simp
next
  case (4 a b c rest)
  let ?bs = "[enc6 (sx1 a), enc6 (sx2 a b),
     enc6 (sx3 b c), enc6 (sx4 c)]"
  obtain v' where "enc_loop n (a # b # c # rest) v 0 out = puts n ?bs out \<bind> enc_loop n rest v' 0"
    using enc_loop_three by blast
  then have "enc_loop n (a # b # c # rest) v 0 out \<bind> enc_finish n =
    puts n ?bs out \<bind> (\<lambda>out1. enc_loop n rest v' 0 out1 \<bind> enc_finish n)"
    by (simp only: Option.bind_assoc)
  also have "\<dots> = puts n ?bs out \<bind> puts n (b64_text rest)"
    using 4 by (intro puts_cong) simp
  finally show ?case by simp
qed

lemma length_b64_text: "length (b64_text xs) = 4 * ((length xs + 2) div 3)"
  by (induction xs rule: b64_text.induct) (simp, simp, simp, simp, presburger)

lemma base64_encode_eq:
  "base64_encode xs n =
     (if 4 * ((length xs + 2) div 3) < n then Some (b64_text xs) else None)"
proof -
  have "base64_encode xs n = (enc_loop n xs 0 0 [] \<bind> enc_finish n) \<bind>
    (\<lambda>out2. if n \<le> length out2 then None else Some out2)"
    by (simp add: base64_encode_def enc_finish_def put_is_puts last_sextet_def Option.bind_assoc
      case_prod_unfold cong: if_cong)
  then show ?thesis by (auto simp: enc_loop_text puts_def length_b64_text)
qed


section \<open>The decoder\<close>


lemma base64enc_tab_eq: "base64enc_tab = map of_nat ([65..<91] @ [97..<123] @ [48..<58] @ [43, 47])"
  by (simp add: base64enc_tab_def chars_def upt_rec)

lemma base64enc_tab_nth:
  "k < 26 \<Longrightarrow> base64enc_tab ! k = of_nat (65 + k)"
  "k < 26 \<Longrightarrow> base64enc_tab ! (26 + k) = of_nat (97 + k)"
  "k < 10 \<Longrightarrow> base64enc_tab ! (52 + k) = of_nat (48 + k)"
  "base64enc_tab ! 62 = of_nat 43" "base64enc_tab ! 63 = of_nat 47"
  by (simp_all add: base64enc_tab_eq nth_append del: upt_rec_numeral)

lemma base64dec_tab_nth:
  "k < 26 \<Longrightarrow> base64dec_tab ! (65 + k) = k"
  "k < 26 \<Longrightarrow> base64dec_tab ! (97 + k) = 26 + k"
  "base64dec_tab ! 43 = 62" "base64dec_tab ! 47 = 63"
  by (simp_all add: base64dec_tab_def nth_append del: upt_rec_numeral)

lemma base64dec_tab_digit: "k < 10 \<Longrightarrow> base64dec_tab ! (48 + k) = 52 + k"
proof -
  assume "k < 10"
  then have "k \<in> {0, 1, 2, 3, 4, 5, 6, 7, 8, 9}" by auto
  then show ?thesis by (auto simp: base64dec_tab_def nth_append del: upt_rec_numeral)
qed

text \<open>What the two tables have to do with each other, for the code \<open>c\<close> of the value \<open>k\<close>.\<close>

definition codes :: "nat \<Rightarrow> u8 \<Rightarrow> bool" where
  "codes k c \<longleftrightarrow> \<not> isspace c \<and> c \<noteq> 61 \<and> base64dec_tab ! unat c = k"

lemma codes_of_nat:
  "32 < c \<Longrightarrow> c < 256 \<Longrightarrow> c \<noteq> 61 \<Longrightarrow> base64dec_tab ! c = k \<Longrightarrow> codes k (of_nat c)"
  by (auto simp: codes_def isspace_def word_le_nat_alt unat_of_nat take_bit_nat_eq_self
      dest!: arg_cong [of "of_nat c" _ unat])

lemma base64_tables: "k < 64 \<Longrightarrow> codes k (base64enc_tab ! k)"
proof -
  assume "k < 64"
  then consider "k < 26" | "26 \<le> k" "k - 26 < 26" | "52 \<le> k" "k - 52 < 10" | "k = 62" | "k = 63"
    by linarith
  then show ?thesis
  proof cases
    case 2
    then show ?thesis
      using base64enc_tab_nth(2) [of "k - 26"] base64dec_tab_nth(2) [of "k - 26"]
        codes_of_nat [of "97 + (k - 26)" k] by simp
  next
    case 3
    then show ?thesis
      using base64enc_tab_nth(3) [of "k - 52"] base64dec_tab_digit [of "k - 52"]
        codes_of_nat [of "48 + (k - 52)" k] by simp
  qed (auto simp only: base64enc_tab_nth base64dec_tab_nth intro!: codes_of_nat)
qed

lemma base64enc_tab_entry:
  "w < 64 \<Longrightarrow> \<not> isspace (enc6 w) \<and> enc6 w \<noteq> of_char CHR ''='' \<and>
     base64dec_tab ! unat (enc6 w) = unat w"
  using base64_tables [of "unat w"] by (simp add: codes_def enc6_def word_less_nat_alt)

lemma small_word: "take_bit 6 w = w \<Longrightarrow> (w :: u8) < 64"
proof -
  assume "take_bit 6 w = w"
  then have "unat w = take_bit 6 (unat w)" by (metis unsigned_take_bit_eq)
  also have "\<dots> < 64" using take_bit_nat_less_exp [of 6 "unat w"] by simp
  finally show ?thesis by (simp add: word_less_nat_alt)
qed

lemma sextet_small: "sx1 a < 64" "sx2 a b < 64" "sx3 b c < 64" "sx4 c < 64"
  by (rule small_word, rule bit_word_eqI, auto simp: sx_defs bit_simps masks dest: bit_imp_le_length)+

definition shift_in6 :: "u32 \<Rightarrow> u8 \<Rightarrow> u32" where
  "shift_in6 v ch = push_bit 6 v OR ucast ch"

definition octet :: "nat \<Rightarrow> u32 \<Rightarrow> u8" where
  "octet r v = ucast (drop_bit r v AND 255)"

lemma dec_loop_enc6:
  assumes "w < 64"
  shows "dec_loop n (enc6 w # in') v rem =
     (if 2 \<le> rem
      then (\<lambda>out. puts n [octet (rem - 2) (shift_in6 v w)] out \<bind>
        dec_loop n in' (shift_in6 v w) (rem - 2))
      else dec_loop n in' (shift_in6 v w) (rem + 6))"
proof -
  have "unat w < 64" using assms by (simp add: word_less_nat_alt)
  then have "(of_nat (unat w) :: u8) \<noteq> 255" using assms by auto
  then show ?thesis using base64enc_tab_entry [OF assms]
    by (simp add: fun_eq_iff Let_def put_is_puts octet_def shift_in6_def Suc_le_eq numeral_eq_Suc)
qed

lemma bit_minus_2: "bit w (Suc (Suc (n - 2))) = (if 2 \<le> n then bit w n else bit w 2)"
proof (cases "2 \<le> n")
  case True
  then have "Suc (Suc (n - 2)) = n" by simp
  then show ?thesis using True by (simp only: if_True)
qed (simp add: numeral_2_eq_2)

lemma bit_minus_4: "bit w (4 + (n - 4)) = (if 4 \<le> n then bit w n else bit w 4)"
  by (cases "4 \<le> n") simp_all

lemma octets:
  "octet 4 (shift_in6 (shift_in6 v (sx1 a)) (sx2 a b)) = a"
  "octet 2 (shift_in6 (shift_in6 v (sx2 a b)) (sx3 b c)) = b"
  "octet 0 (shift_in6 (shift_in6 v (sx3 b c)) (sx4 c)) = c"
  by (rule bit_word_eqI;
      auto simp: octet_def shift_in6_def sx_defs bit_simps masks bit_minus_2 bit_minus_4 dest: bit_imp_le_length)+

lemma dec_loop_pad: "dec_loop n (61 # in') v rem = (\<lambda>out. Some (v, rem, out))"
  by (simp add: isspace_def fun_eq_iff)

lemmas dec_unfold = dec_loop_enc6 sextet_small octets dec_loop_pad

lemma dec_loop_text:
  "\<exists>v' rem. rem < 8 \<and>
     (\<forall>out. dec_loop n (b64_text xs) v 0 out = puts n xs out \<bind> (\<lambda>out1. Some (v', rem, out1)))"
proof (induction xs arbitrary: v rule: b64_text.induct)
  case (4 a b c rest)
  define v1 where "v1 = shift_in6 (shift_in6 (shift_in6 (shift_in6 v (sx1 a)) (sx2 a b)) (sx3 b c)) (sx4 c)"
  obtain v' rem where IH: "rem < 8"
    "dec_loop n (b64_text rest) v1 0 = (\<lambda>out. puts n rest out \<bind> (\<lambda>out1. Some (v', rem, out1)))"
    using 4 [of v1] by (auto simp: fun_eq_iff)
  have "dec_loop n (b64_text (a # b # c # rest)) v 0 out =
    puts n [a, b, c] out \<bind> dec_loop n (b64_text rest) v1 0" for out
    by (simp add: dec_unfold v1_def del: dec_loop.simps(2))
  also have "\<dots> out = puts n (a # b # c # rest) out \<bind> (\<lambda>out1. Some (v', rem, out1))" for out
    by (simp add: IH(2))
  finally show ?case using IH by blast
next
  case (2 a)
  show ?case
    by (rule exI [of _ "shift_in6 (shift_in6 v (sx1 a)) (sx2 a 0)"], rule exI [of _ 4])
      (simp add: dec_unfold del: dec_loop.simps(2))
next
  case (3 a b)
  show ?case
    by (rule exI [of _ "shift_in6 (shift_in6 (shift_in6 v (sx1 a)) (sx2 a b)) (sx3 b 0)"], rule exI [of _ 2])
      (simp add: dec_unfold del: dec_loop.simps(2))
qed auto

lemma base64_decode_text: "length xs \<le> n \<Longrightarrow> base64_decode (b64_text xs) n = Some xs"
proof -
  obtain v rem where "rem < 8" "dec_loop n (b64_text xs) 0 0 [] = puts n xs [] \<bind> (\<lambda>out1. Some (v, rem, out1))"
    using dec_loop_text by blast
  moreover assume "length xs \<le> n"
  ultimately show ?thesis by (simp add: base64_decode_def puts_def)
qed

text \<open>White space anywhere in the text is skipped.\<close>

lemma dec_loop_spaces:
  "dec_loop n (filter (\<lambda>c. \<not> isspace c) in') v rem out = dec_loop n in' v rem out"
proof (induction n in' v rem out rule: dec_loop.induct)
  case (2 out_len c in' v rem out)
  then show ?case by (cases "isspace c") (auto simp: Let_def cong: Option.bind_cong)
qed simp

text \<open>At most seven bits are left over, so the test after the loop never fires.\<close>

lemma dec_loop_bound:
  "dec_loop n in' v rem out = Some (v', rem', out') \<Longrightarrow> rem < 8 \<Longrightarrow>
     rem' < 8 \<and> 8 * length out' + rem' \<le> 8 * length out + rem + 6 * length in'"
proof (induction n in' v rem out arbitrary: v' rem' out' rule: dec_loop.induct)
  case (2 out_len c in' v rem out)
  then show ?case
    by (auto simp: Let_def put_def bind_eq_Some_conv split: if_splits) (fastforce)+
qed simp

lemma dec_loop_fits:
  "dec_loop n in' v rem out = Some (v', rem', out') \<Longrightarrow> length out \<le> n \<Longrightarrow> length out' \<le> n"
  by (induction n in' v rem out arbitrary: v' rem' out' rule: dec_loop.induct)
    (auto simp: Let_def put_def bind_eq_Some_conv split: if_splits)

lemma dec_loop_total:
  "8 * length out + rem + 6 * length in' \<le> 8 * n \<Longrightarrow> rem < 8 \<Longrightarrow> \<exists>r. dec_loop n in' v rem out = Some r"
proof (induction n in' v rem out rule: dec_loop.induct)
  case (2 out_len c in' v rem out)
  then show ?case
    by (auto simp: Let_def put_def)
qed simp

lemma base64_decode_bound:
  "base64_decode in' n = Some out \<Longrightarrow> length out \<le> n \<and> 8 * length out \<le> 6 * length in'"
proof -
  assume "base64_decode in' n = Some out"
  then obtain v rem out1 where dec: "dec_loop n in' 0 0 [] = Some (v, rem, out1)"
    and out: "(if 8 \<le> rem then put n (ucast (drop_bit (rem - 8) v AND 255)) out1 else Some out1) = Some out"
    by (auto simp: base64_decode_def bind_eq_Some_conv)
  from dec_loop_bound [OF dec] out dec_loop_fits [OF dec] show ?thesis by simp
qed

section \<open>Properties\<close>

text \<open>
  C18: What the encoder writes is decoded to the bytes it came from, also when white space has
  been put anywhere into the text, for every buffer that has room for them.
\<close>

theorem base64_roundtrip:
  "base64_encode xs n = Some ys \<Longrightarrow> filter (\<lambda>c. \<not> isspace c) zs = ys \<Longrightarrow> length xs \<le> m \<Longrightarrow>
     base64_decode zs m = Some xs"
  using base64_decode_text [of xs m] dec_loop_spaces [of m zs 0 0 "[]"]
  by (auto simp: base64_encode_eq base64_decode_def split: if_splits)

theorem base64_roundtrip_witness:
  "base64_decode (chars '' TWFu IQ= ='') 4 = Some (chars ''Man!'')"
  by (rule base64_roundtrip [where n = 9 and ys = "chars ''TWFuIQ==''"]) code_simp+

text \<open>
  The encoder writes the text made of four characters for every three bytes, padded with
  equal signs, when that text and its final zero byte fit the buffer, and returns -1
  otherwise: it never writes past the buffer.
\<close>

theorem base64_encode_text:
  "base64_encode xs n =
     (if 4 * ((length xs + 2) div 3) < n then Some (b64_text xs) else None)"
  by (rule base64_encode_eq)

text \<open>
  The decoder never writes past its buffer, its result has at most three bytes for four
  characters of input, and with a buffer of that size it does not fail, whatever the input.
\<close>

theorem base64_decode_bounds:
  "(base64_decode in' n = Some out \<longrightarrow> length out \<le> n \<and> 8 * length out \<le> 6 * length in') \<and>
   (6 * length in' \<le> 8 * n \<longrightarrow> (\<exists>out. base64_decode in' n = Some out))"
proof (intro conjI impI)
  assume "6 * length in' \<le> 8 * n"
  then obtain v rem out1 where dec: "dec_loop n in' 0 0 [] = Some (v, rem, out1)"
    using dec_loop_total [of "[]" 0 in' n 0] by auto
  with dec_loop_bound [OF dec] show "\<exists>out. base64_decode in' n = Some out"
    by (simp add: base64_decode_def)
qed (auto dest: base64_decode_bound)

theorem base64_decode_bounds_witness:
  "\<exists>out. base64_decode (chars ''TWFu'') 3 = Some out"
  using base64_decode_bounds [of "chars ''TWFu''" 3] by (simp add: chars_def)

end
