(* ===== verification/SHA1.thy ===== *)
theory SHA1
  imports Prelude
begin

text \<open>
  SHA-1 and HMAC as \<open>Drivers/W-Link/Misc/sha1.c\<close> compute them: bytes are stored into the block
  buffer one at a time, in the byte order of the processor, and the message schedule is computed
  in place in a window of sixteen words. The reference is the standard's: a padded message cut
  into blocks, a schedule of eighty words, and the compression function.
\<close>

section \<open>The functions\<close>

record sha1nfo =
  buffer :: "u32 list"
  state :: "u32 list"
  byteCount :: u32
  bufferOffset :: u8
  keyBuffer :: "u8 list"
  innerHash :: "u8 list"

abbreviation (input) BLOCK_LENGTH :: nat where "BLOCK_LENGTH \<equiv> 64"
abbreviation (input) HASH_LENGTH :: nat where "HASH_LENGTH \<equiv> 20"

definition sha1_init :: "sha1nfo \<Rightarrow> sha1nfo" where
  "sha1_init s = s\<lparr>state := [0x67452301, 0xefcdab89, 0x98badcfe, 0x10325476, 0xc3d2e1f0],
     byteCount := 0, bufferOffset := 0\<rparr>"

definition sha1_rol32 :: "u32 \<Rightarrow> nat \<Rightarrow> u32" where
  "sha1_rol32 number bits = push_bit bits number OR drop_bit (32 - bits) number"

type_synonym working = "u32 list \<times> u32 \<times> u32 \<times> u32 \<times> u32 \<times> u32"

text \<open>The body of the loop of \<open>sha1_hashBlock\<close>.\<close>

definition sha1_round :: "nat \<Rightarrow> working \<Rightarrow> working" where
  "sha1_round i = (\<lambda>(buf, a, b, c, d, e). let
     buf1 = (if 16 \<le> i then buf[i AND 15 := sha1_rol32 (buf ! ((i + 13) AND 15) XOR
         buf ! ((i + 8) AND 15) XOR buf ! ((i + 2) AND 15) XOR buf ! (i AND 15)) 1] else buf);
     t = (if i < 20 then (d XOR (b AND (c XOR d))) + 0x5a827999
       else if i < 40 then (b XOR c XOR d) + 0x6ed9eba1
       else if i < 60 then ((b AND c) OR (d AND (b OR c))) + 0x8f1bbcdc
       else (b XOR c XOR d) + 0xca62c1d6);
     t1 = t + (sha1_rol32 a 5 + e + buf1 ! (i AND 15))
     in (buf1, t1, a, sha1_rol32 b 30, c, d))"

definition sha1_hashBlock :: "sha1nfo \<Rightarrow> sha1nfo" where
  "sha1_hashBlock s = (let
     (buf, a, b, c, d, e) = fold sha1_round [0..<80]
       (buffer s, state s ! 0, state s ! 1, state s ! 2, state s ! 3, state s ! 4)
     in s\<lparr>buffer := buf,
          state := [state s ! 0 + a, state s ! 1 + b, state s ! 2 + c, state s ! 3 + d, state s ! 4 + e]\<rparr>)"

text \<open>The store \<open>((uint8_t*) buffer)[j] = data\<close> on a little-endian processor.\<close>

definition store_byte :: "u32 list \<Rightarrow> nat \<Rightarrow> u8 \<Rightarrow> u32 list option" where
  "store_byte ws j v = do {
     w \<leftarrow> cread ws (int (j div 4));
     cwrite ws (int (j div 4))
       ((w AND NOT (push_bit (8 * (j mod 4)) 255)) OR push_bit (8 * (j mod 4)) (ucast v)) }"

definition sha1_addUncounted :: "u8 \<Rightarrow> sha1nfo \<Rightarrow> sha1nfo option" where
  "sha1_addUncounted v s = do {
     buf \<leftarrow> store_byte (buffer s) (unat (bufferOffset s) XOR 3) v;
     let s1 = s\<lparr>buffer := buf, bufferOffset := bufferOffset s + 1\<rparr>;
     Some (if bufferOffset s1 = 64 then (sha1_hashBlock s1)\<lparr>bufferOffset := 0\<rparr> else s1) }"

definition sha1_writebyte :: "u8 \<Rightarrow> sha1nfo \<Rightarrow> sha1nfo option" where
  "sha1_writebyte v s = sha1_addUncounted v (s\<lparr>byteCount := byteCount s + 1\<rparr>)"

fun sha1_write :: "u8 list \<Rightarrow> sha1nfo \<Rightarrow> sha1nfo option" where
  "sha1_write [] s = Some s"
| "sha1_write (v # in') s = sha1_writebyte v s \<bind> sha1_write in'"

partial_function (option) pad_zeros :: "sha1nfo \<Rightarrow> sha1nfo option" where
  "pad_zeros s =
     (if bufferOffset s \<noteq> 56 then do { s1 \<leftarrow> sha1_addUncounted 0 s; pad_zeros s1 } else Some s)"

declare pad_zeros.simps [code]

definition sha1_pad :: "sha1nfo \<Rightarrow> sha1nfo option" where
  "sha1_pad s = do {
     s \<leftarrow> sha1_addUncounted 0x80 s;
     s \<leftarrow> pad_zeros s;
     s \<leftarrow> sha1_addUncounted 0 s;
     s \<leftarrow> sha1_addUncounted 0 s;
     s \<leftarrow> sha1_addUncounted 0 s;
     s \<leftarrow> sha1_addUncounted (ucast (drop_bit 29 (byteCount s))) s;
     s \<leftarrow> sha1_addUncounted (ucast (drop_bit 21 (byteCount s))) s;
     s \<leftarrow> sha1_addUncounted (ucast (drop_bit 13 (byteCount s))) s;
     s \<leftarrow> sha1_addUncounted (ucast (drop_bit 5 (byteCount s))) s;
     sha1_addUncounted (ucast (push_bit 3 (byteCount s))) s }"

definition swap_word :: "u32 \<Rightarrow> u32" where
  "swap_word w = (push_bit 24 w AND 0xff000000) OR (push_bit 8 w AND 0x00ff0000) OR
     (drop_bit 8 w AND 0x0000ff00) OR (drop_bit 24 w AND 0x000000ff)"

text \<open>\<open>sha1_result\<close> returns a pointer to the state: the result is the bytes it points to.\<close>

definition sha1_result :: "sha1nfo \<Rightarrow> (sha1nfo \<times> u8 list) option" where
  "sha1_result s = do {
     s \<leftarrow> sha1_pad s;
     let s1 = s\<lparr>state := map swap_word (state s)\<rparr>;
     Some (s1, concat (map memory_bytes (state s1))) }"

definition sha1_initHmac :: "u8 list \<Rightarrow> sha1nfo \<Rightarrow> sha1nfo option" where
  "sha1_initHmac key s = do {
     s \<leftarrow> (if BLOCK_LENGTH < length key
       then do {
         s \<leftarrow> sha1_write key (sha1_init s);
         (s, h) \<leftarrow> sha1_result s;
         Some (s\<lparr>keyBuffer := take HASH_LENGTH h @ replicate (BLOCK_LENGTH - HASH_LENGTH) 0\<rparr>) }
       else Some (s\<lparr>keyBuffer := key @ replicate (BLOCK_LENGTH - length key) 0\<rparr>));
     sha1_write (map (\<lambda>i. keyBuffer s ! i XOR 0x36) [0..<BLOCK_LENGTH]) (sha1_init s) }"

definition sha1_resultHmac :: "sha1nfo \<Rightarrow> (sha1nfo \<times> u8 list) option" where
  "sha1_resultHmac s = do {
     (s, h) \<leftarrow> sha1_result s;
     let s = sha1_init (s\<lparr>innerHash := take HASH_LENGTH h\<rparr>);
     s \<leftarrow> sha1_write (map (\<lambda>i. keyBuffer s ! i XOR 0x5c) [0..<BLOCK_LENGTH]) s;
     s \<leftarrow> sha1_write (map (\<lambda>i. innerHash s ! i) [0..<HASH_LENGTH]) s;
     sha1_result s }"

section \<open>The reference\<close>

definition be_word :: "u8 \<Rightarrow> u8 \<Rightarrow> u8 \<Rightarrow> u8 \<Rightarrow> u32" where
  "be_word a b c d = push_bit 24 (ucast a) OR push_bit 16 (ucast b) OR push_bit 8 (ucast c) OR ucast d"

definition be_words :: "u8 list \<Rightarrow> u32 list" where
  "be_words bs = map (\<lambda>i. be_word (bs ! (4 * i)) (bs ! (4 * i + 1)) (bs ! (4 * i + 2)) (bs ! (4 * i + 3))) [0..<16]"

fun schedule :: "u32 list \<Rightarrow> nat \<Rightarrow> u32" where
  "schedule M t = (if t < 16 then M ! t else
     word_rotl 1 (schedule M (t - 3) XOR schedule M (t - 8) XOR schedule M (t - 14) XOR schedule M (t - 16)))"

definition f_sha :: "nat \<Rightarrow> u32 \<Rightarrow> u32 \<Rightarrow> u32 \<Rightarrow> u32" where
  "f_sha t x y z =
     (if t < 20 then (x AND y) XOR (NOT x AND z)
      else if 40 \<le> t \<and> t < 60 then (x AND y) XOR (x AND z) XOR (y AND z)
      else x XOR y XOR z)"

definition K_sha :: "nat \<Rightarrow> u32" where
  "K_sha t = (if t < 20 then 0x5a827999 else if t < 40 then 0x6ed9eba1
     else if t < 60 then 0x8f1bbcdc else 0xca62c1d6)"

definition step_sha :: "u32 list \<Rightarrow> nat \<Rightarrow> u32 \<times> u32 \<times> u32 \<times> u32 \<times> u32 \<Rightarrow> u32 \<times> u32 \<times> u32 \<times> u32 \<times> u32" where
  "step_sha M t = (\<lambda>(a, b, c, d, e).
     (word_rotl 5 a + f_sha t b c d + e + K_sha t + schedule M t, a, word_rotl 30 b, c, d))"

definition compress :: "u32 list \<Rightarrow> u8 list \<Rightarrow> u32 list" where
  "compress H bs = (let (a, b, c, d, e) = fold (step_sha (be_words bs)) [0..<80] (H ! 0, H ! 1, H ! 2, H ! 3, H ! 4)
     in [H ! 0 + a, H ! 1 + b, H ! 2 + c, H ! 3 + d, H ! 4 + e])"

fun blocks :: "u32 list \<Rightarrow> u8 list \<Rightarrow> u32 list" where
  "blocks H bs = (if length bs < 64 then H else blocks (compress H (take 64 bs)) (drop 64 bs))"

definition H0 :: "u32 list" where
  "H0 = [0x67452301, 0xefcdab89, 0x98badcfe, 0x10325476, 0xc3d2e1f0]"

definition padded :: "u8 list \<Rightarrow> u8 list" where
  "padded m = m @ [0x80] @ replicate ((119 - length m mod 64) mod 64) 0 @
     map (\<lambda>i. of_nat (8 * length m div 256 ^ (7 - i))) [0..<8]"

definition sha1 :: "u8 list \<Rightarrow> u8 list" where
  "sha1 m = concat (map (\<lambda>w. rev (memory_bytes w)) (blocks H0 (padded m)))"

definition hmac_key :: "u8 list \<Rightarrow> u8 list" where
  "hmac_key key = (let k = (if 64 < length key then sha1 key else key) in k @ replicate (64 - length k) 0)"

definition hmac_sha1 :: "u8 list \<Rightarrow> u8 list \<Rightarrow> u8 list" where
  "hmac_sha1 key m =
     sha1 (map ((XOR) 0x5c) (hmac_key key) @ sha1 (map ((XOR) 0x36) (hmac_key key) @ m))"

declare schedule.simps [simp del] blocks.simps [simp del]


section \<open>The compression function\<close>

lemma sha1_rol32_rotl: "0 < k \<Longrightarrow> k < 32 \<Longrightarrow> sha1_rol32 w k = word_rotl k w"
proof (rule bit_word_eqI)
  fix n assume k: "0 < k" "k < 32" and n: "n < LENGTH(32)"
  have rotl: "bit (word_rotl k w) n = bit w ((n + (32 - k)) mod 32)"
    using k n by (simp add: bit_word_rotl_iff)
  have rol: "bit (sha1_rol32 w k) n = (k \<le> n \<and> bit w (n - k) \<or> bit w (n + (32 - k)))"
    using n by (auto simp: sha1_rol32_def bit_simps add.commute)
  show "bit (sha1_rol32 w k) n = bit (word_rotl k w) n"
  proof (cases "n < k")
    case True
    with k n have "(n + (32 - k)) mod 32 = n + (32 - k)" by simp
    with True show ?thesis unfolding rotl rol by simp
  next
    case False
    with k n have "(n + (32 - k)) mod 32 = n - k" "32 \<le> n + (32 - k)" by (simp_all add: mod_if)
    with False show ?thesis unfolding rotl rol by (auto dest: bit_imp_le_length)
  qed
qed

lemma and_15_nat: "(k :: nat) AND 15 = k mod 16"
  using take_bit_eq_mask [of 4 k] by (simp add: take_bit_eq_mod mask_eq_exp_minus_1 and.commute)

lemma f_sha_code:
  "(d XOR (b AND (c XOR d))) = (b AND c) XOR (NOT b AND (d :: u32))"
  "((b AND c) OR (d AND (b OR c))) = (b AND c) XOR (b AND d) XOR (c AND (d :: u32))"
  by (rule bit_word_eqI; auto simp: bit_simps)+

definition window :: "u32 list \<Rightarrow> nat \<Rightarrow> u32 list \<Rightarrow> bool" where
  "window M i buf \<longleftrightarrow> length buf = 16 \<and> (\<forall>t. t < max i 16 \<longrightarrow> i \<le> t + 16 \<longrightarrow> buf ! (t mod 16) = schedule M t)"

lemma window_0: "length M = 16 \<Longrightarrow> window M 0 M"
  by (simp add: window_def schedule.simps)

lemma mod_16_shift:
  assumes "16 \<le> (i :: nat)" "k + l = 16"
  shows "(i + k) mod 16 = (i - l) mod 16"
proof -
  have "i + k = (i - l) + 16" using assms by simp
  then show ?thesis by (simp only: mod_add_self2)
qed

lemma mod_16_neq: "t < i \<Longrightarrow> i < t + 16 \<Longrightarrow> t mod 16 \<noteq> (i mod 16 :: nat)"
  by (metis less_diff_conv2 mod_eq_dvd_iff_nat nat_dvd_not_less zero_less_diff less_imp_le_nat add.commute)

lemma sha1_round_window:
  "fst (sha1_round i (buf, a, b, c, d, e)) =
     (if 16 \<le> i then buf[i AND 15 := sha1_rol32 (buf ! ((i + 13) AND 15) XOR
         buf ! ((i + 8) AND 15) XOR buf ! ((i + 2) AND 15) XOR buf ! (i AND 15)) 1] else buf)"
  unfolding sha1_round_def Let_def by (simp only: prod.case fst_conv)

lemma window_step:
  assumes "window M i buf"
  shows "sha1_round i (buf, a, b, c, d, e) = (let buf1 = fst (sha1_round i (buf, a, b, c, d, e)) in
      (buf1, step_sha M i (a, b, c, d, e)))"
    and "window M (Suc i) (fst (sha1_round i (buf, a, b, c, d, e)))"
proof -
  let ?buf1 = "fst (sha1_round i (buf, a, b, c, d, e))"
  have len: "length buf = 16" and old: "\<And>t. t < max i 16 \<Longrightarrow> i \<le> t + 16 \<Longrightarrow> buf ! (t mod 16) = schedule M t"
    using assms by (auto simp: window_def)
  have new: "?buf1 = (if 16 \<le> i then buf[i mod 16 := schedule M i] else buf)"
  proof (cases "16 \<le> i")
    case True
    then have old': "buf ! ((i - 3) mod 16) = schedule M (i - 3)" "buf ! ((i - 8) mod 16) = schedule M (i - 8)"
      "buf ! ((i - 14) mod 16) = schedule M (i - 14)" "buf ! ((i - 16) mod 16) = schedule M (i - 16)"
      by (simp_all add: old)
    have idx: "(i + 13) mod 16 = (i - 3) mod 16" "(i + 8) mod 16 = (i - 8) mod 16"
      "(i + 2) mod 16 = (i - 14) mod 16"
      by (rule mod_16_shift; use True in simp)+
    have "i mod 16 = (i - 16) mod 16" using mod_16_shift [of i 0 16] True by simp
    then have "buf ! (i mod 16) = schedule M (i - 16)" by (simp only: old'(4))
    moreover have "schedule M i = word_rotl 1 (schedule M (i - 3) XOR schedule M (i - 8) XOR
        schedule M (i - 14) XOR schedule M (i - 16))"
      using True by (subst schedule.simps) simp
    ultimately show ?thesis
      using True by (simp only: sha1_round_window if_True idx old' and_15_nat sha1_rol32_rotl less_numeral_extra(1) one_less_numeral_iff semiring_norm)
  qed (simp add: sha1_round_window)
  have at_i: "?buf1 ! (i mod 16) = schedule M i"
    using old [of i] len by (auto simp: new)
  then show "sha1_round i (buf, a, b, c, d, e) = (let buf1 = ?buf1 in (buf1, step_sha M i (a, b, c, d, e)))"
    by (simp add: sha1_round_def Let_def and_15_nat step_sha_def f_sha_def K_sha_def f_sha_code
      sha1_rol32_rotl ac_simps)
  show "window M (Suc i) ?buf1"
    unfolding window_def
  proof (intro conjI allI impI)
    show "length ?buf1 = 16" by (simp add: new len)
    fix t assume t: "t < max (Suc i) 16" "Suc i \<le> t + 16"
    show "?buf1 ! (t mod 16) = schedule M t"
    proof (cases "t = i")
      case False
      then have "16 \<le> i \<Longrightarrow> t mod 16 \<noteq> i mod 16" using t by (intro mod_16_neq) auto
      then show ?thesis using t False old [of t] by (auto simp: new)
    qed (use at_i in simp)
  qed
qed

lemma rounds:
  assumes "length M = 16"
  shows "\<exists>buf. window M n buf \<and> fold sha1_round [0..<n] (M, r) = (buf, fold (step_sha M) [0..<n] r)"
proof (induction n)
  case 0
  then show ?case using window_0 [OF assms] by simp
next
  case (Suc n)
  then obtain buf a b c d e where IH: "window M n buf" "fold (step_sha M) [0..<n] r = (a, b, c, d, e)"
    "fold sha1_round [0..<n] (M, r) = (buf, a, b, c, d, e)" by (metis prod_cases5)
  from window_step [OF IH(1), of a b c d e] IH(2,3) show ?case
    by (intro exI [of _ "fst (sha1_round n (buf, a, b, c, d, e))"]) (simp add: Let_def)
qed

lemma hashBlock_compress:
  assumes "length bs = 64" "buffer s = be_words bs"
  shows "\<exists>buf. length buf = 16 \<and> sha1_hashBlock s = s\<lparr>buffer := buf, state := compress (state s) bs\<rparr>"
proof -
  have "length (be_words bs) = 16" by (simp add: be_words_def)
  from rounds [OF this, of 80 "(state s ! 0, state s ! 1, state s ! 2, state s ! 3, state s ! 4)"]
  show ?thesis
    by (auto simp: sha1_hashBlock_def compress_def assms window_def case_prod_unfold Let_def simp del: upt_rec_numeral)
qed


section \<open>The block buffer\<close>

text \<open>The \<open>k\<close>-th byte of the block, high byte of each word first.\<close>

definition block_byte :: "u32 list \<Rightarrow> nat \<Rightarrow> u8" where
  "block_byte ws k = ucast (drop_bit (24 - 8 * (k mod 4)) (ws ! (k div 4)))"

lemma xor_3_nat: "(k XOR 3 :: nat) div 4 = k div 4" "(k XOR 3 :: nat) mod 4 = 3 - k mod 4"
proof -
  have "drop_bit 2 (k XOR 3) = drop_bit 2 k" by (simp add: drop_bit_xor)
  then show "(k XOR 3) div 4 = k div 4" by (simp add: drop_bit_eq_div)
  have "take_bit 2 (k XOR 3) = take_bit 2 k XOR 3" by (simp add: take_bit_xor)
  then have "(k XOR 3) mod 4 = (k mod 4) XOR 3" by (simp add: take_bit_eq_mod)
  moreover have "k mod 4 \<in> {0, 1, 2, 3}" by auto
  ultimately show "(k XOR 3) mod 4 = 3 - k mod 4" by auto
qed

lemma byte_stored:
  fixes w :: u32 and v :: u8
  assumes "j < 4" "l < 4"
  shows "(ucast (drop_bit (8 * l) ((w AND NOT (push_bit (8 * j) 255)) OR push_bit (8 * j) (ucast v))) :: u8) =
     (if l = j then v else ucast (drop_bit (8 * l) w))"
proof (rule bit_word_eqI)
  fix n assume n: "n < LENGTH(8)"
  then have "8 * j \<le> 8 * l + n \<and> 8 * l + n - 8 * j < 8 \<longleftrightarrow> l = j" by auto
  moreover have "8 * l + n < 32" using n assms by simp
  ultimately show "bit (ucast (drop_bit (8 * l) ((w AND NOT (push_bit (8 * j) 255)) OR push_bit (8 * j) (ucast v))) :: u8) n =
     bit (if l = j then v else ucast (drop_bit (8 * l) w)) n"
    using n by (cases "l = j") (auto simp: bit_simps masks dest: bit_imp_le_length)
qed

lemma same_byte: "i div 4 = k div 4 \<Longrightarrow> 3 - i mod 4 = 3 - k mod 4 \<longleftrightarrow> i = (k :: nat)"
proof -
  assume "i div 4 = k div 4"
  then have "i mod 4 = k mod 4 \<longleftrightarrow> i = k" by (metis div_mult_mod_eq)
  moreover have "i mod 4 < 4" "k mod 4 < 4" by simp_all
  ultimately show ?thesis by linarith
qed

lemma block_byte_store:
  assumes "k div 4 < length ws"
  shows "block_byte (ws[k div 4 := (ws ! (k div 4) AND NOT (push_bit (8 * (3 - k mod 4)) 255)) OR
      push_bit (8 * (3 - k mod 4)) (ucast v)]) i = (if i = k then v else block_byte ws i)"
proof (cases "i div 4 = k div 4")
  case True
  have "24 - 8 * (i mod 4) = 8 * (3 - i mod 4)" by simp
  then show ?thesis
    using True assms byte_stored [of "3 - k mod 4" "3 - i mod 4" "ws ! (k div 4)" v] same_byte [OF True]
    by (simp add: block_byte_def)
next
  case False
  then show ?thesis by (auto simp: block_byte_def)
qed

lemma store_byte_block:
  assumes "length ws = 16" "k < 64"
  shows "\<exists>ws'. store_byte ws (k XOR 3) v = Some ws' \<and> length ws' = 16 \<and>
    (\<forall>i. block_byte ws' i = (if i = k then v else block_byte ws i))"
proof -
  have "k div 4 < length ws" using assms by simp
  with assms block_byte_store [OF this, of v] show ?thesis
    by (simp add: store_byte_def xor_3_nat)
qed

lemma be_word_bytes:
  "be_word (ucast (drop_bit 24 w)) (ucast (drop_bit 16 w)) (ucast (drop_bit 8 w)) (ucast w) = w"
proof (rule bit_word_eqI)
  fix n assume "n < LENGTH(32)"
  then consider "n < 8" | "8 \<le> n" "n < 16" | "16 \<le> n" "n < 24" | "24 \<le> n" "n < 32" by fastforce
  then show "bit (be_word (ucast (drop_bit 24 w)) (ucast (drop_bit 16 w)) (ucast (drop_bit 8 w)) (ucast w)) n = bit w n"
    by cases (auto simp: be_word_def bit_simps)
qed

lemma div_mod_4: "(4 * i + 1) div 4 = i" "(4 * i + 1) mod 4 = 1" "(4 * i + 2) div 4 = i"
  "(4 * i + 2) mod 4 = 2" "(4 * i + 3) div 4 = i" "(4 * i + 3) mod 4 = (3 :: nat)"
  by presburger+

lemma be_words_block:
  assumes "length ws = 16" "length bs = 64" "\<And>k. k < 64 \<Longrightarrow> block_byte ws k = bs ! k"
  shows "ws = be_words bs"
proof (rule nth_equalityI)
  fix i assume "i < length ws"
  then have i: "i < 16" using assms by simp
  have "ws ! i = be_word (block_byte ws (4 * i)) (block_byte ws (4 * i + 1)) (block_byte ws (4 * i + 2))
      (block_byte ws (4 * i + 3))"
    by (simp only: block_byte_def div_mod_4) (simp add: be_word_bytes)
  then show "ws ! i = be_words bs ! i" using i by (simp add: be_words_def assms(3) del: upt_rec_numeral)
qed (use assms in \<open>simp add: be_words_def\<close>)


section \<open>Absorbing bytes\<close>

lemma blocks_append: "64 dvd length bs \<Longrightarrow> blocks H (bs @ cs) = blocks (blocks H bs) cs"
proof (induction H bs rule: blocks.induct)
  case (1 H bs)
  show ?case
  proof (cases "length bs < 64")
    case True
    with 1 have "bs = []" by (auto elim: dvdE)
    then show ?thesis by (simp add: blocks.simps [of H "[]"])
  next
    case False
    then have "64 dvd length (drop 64 bs)" using 1 by (simp add: dvd_diff_nat)
    with 1 False show ?thesis
      by (simp add: blocks.simps [of H bs] blocks.simps [of H "bs @ cs"])
  qed
qed

lemma blocks_one: "length bs = 64 \<Longrightarrow> blocks H bs = compress H bs"
  by (simp add: blocks.simps)

text \<open>The state after the bytes \<open>bs\<close>: the chaining value of the complete blocks, and the rest of the
  bytes in the buffer.\<close>

definition absorbed :: "u32 list \<Rightarrow> u8 list \<Rightarrow> sha1nfo \<Rightarrow> bool" where
  "absorbed H bs s \<longleftrightarrow> (\<exists>front rest. bs = front @ rest \<and> 64 dvd length front \<and> length rest < 64 \<and>
     state s = blocks H front \<and> bufferOffset s = of_nat (length rest) \<and> length (buffer s) = 16 \<and>
     (\<forall>k < length rest. block_byte (buffer s) k = rest ! k))"

lemma absorbed_init: "length (buffer s) = 16 \<Longrightarrow> absorbed H0 [] (sha1_init s)"
  by (simp add: absorbed_def sha1_init_def H0_def blocks.simps)

lemma sha1_hashBlock_other [simp]:
  "byteCount (sha1_hashBlock s) = byteCount s" "keyBuffer (sha1_hashBlock s) = keyBuffer s"
  "innerHash (sha1_hashBlock s) = innerHash s"
  by (simp_all add: sha1_hashBlock_def case_prod_unfold Let_def)

definition rest_kept :: "sha1nfo \<Rightarrow> sha1nfo \<Rightarrow> bool" where
  "rest_kept s s' \<longleftrightarrow> byteCount s' = byteCount s \<and> keyBuffer s' = keyBuffer s \<and> innerHash s' = innerHash s"

lemma addUncounted_absorbed:
  assumes "absorbed H bs s"
  shows "\<exists>s'. sha1_addUncounted v s = Some s' \<and> absorbed H (bs @ [v]) s' \<and> rest_kept s s'"
proof -
  obtain front rest where bs: "bs = front @ rest" and front: "64 dvd length front" "state s = blocks H front"
    and rest: "length rest < 64" "bufferOffset s = of_nat (length rest)" "length (buffer s) = 16"
      "\<forall>k < length rest. block_byte (buffer s) k = rest ! k"
    using assms by (auto simp: absorbed_def)
  have off: "unat (bufferOffset s) = length rest" using rest by (simp add: unat_of_nat take_bit_nat_eq_self)
  obtain ws where ws: "store_byte (buffer s) (length rest XOR 3) v = Some ws" "length ws = 16"
    "\<forall>i. block_byte ws i = (if i = length rest then v else block_byte (buffer s) i)"
    using store_byte_block [OF rest(3,1)] by blast
  define s1 where "s1 = s\<lparr>buffer := ws, bufferOffset := bufferOffset s + 1\<rparr>"
  have stored: "\<forall>k < length (rest @ [v]). block_byte ws k = (rest @ [v]) ! k"
    using ws(3) rest(4) by (auto simp: nth_append)
  have run: "sha1_addUncounted v s =
    Some (if bufferOffset s1 = 64 then (sha1_hashBlock s1)\<lparr>bufferOffset := 0\<rparr> else s1)"
    by (simp add: sha1_addUncounted_def off ws s1_def)
  show ?thesis
  proof (cases "length rest = 63")
    case True
    then have full: "bufferOffset s1 = 64" using rest by (simp add: s1_def)
    have "ws = be_words (rest @ [v])" using ws(2) stored True by (intro be_words_block) auto
    with hashBlock_compress [of "rest @ [v]" s1] True obtain buf where buf: "length buf = 16"
      "sha1_hashBlock s1 = s1\<lparr>buffer := buf, state := compress (state s) (rest @ [v])\<rparr>"
      by (auto simp: s1_def)
    have "64 dvd length (bs @ [v])" using front True by (simp add: bs)
    moreover have "compress (state s) (rest @ [v]) = blocks H (bs @ [v])"
      using front True by (simp add: bs blocks_append blocks_one)
    ultimately have "absorbed H (bs @ [v]) ((sha1_hashBlock s1)\<lparr>bufferOffset := 0\<rparr>)"
      unfolding absorbed_def using buf by (intro exI [of _ "bs @ [v]"] exI [of _ "[]"]) simp
    then show ?thesis using run full by (simp add: rest_kept_def) (simp add: s1_def)
  next
    case False
    have "bufferOffset s \<noteq> 63" using False off by auto
    then have "bufferOffset s1 \<noteq> 64" by (auto simp: s1_def)
    moreover have "absorbed H (bs @ [v]) s1"
      unfolding absorbed_def using front rest ws stored False
      by (intro exI [of _ front] exI [of _ "rest @ [v]"]) (simp add: bs s1_def add.commute)
    ultimately show ?thesis using run by (simp add: rest_kept_def s1_def)
  qed
qed


lemma rest_kept_trans: "rest_kept s1 s2 \<Longrightarrow> rest_kept s2 s3 \<Longrightarrow> rest_kept s1 s3"
  by (simp add: rest_kept_def)

lemma addUncounted_obtain:
  assumes "absorbed H bs s"
  obtains s' where "sha1_addUncounted v s = Some s'" "absorbed H (bs @ [v]) s'" "rest_kept s s'"
  using addUncounted_absorbed [OF assms] by blast

lemma absorbed_byteCount [simp]: "absorbed H bs (s\<lparr>byteCount := n\<rparr>) = absorbed H bs s"
  by (simp add: absorbed_def)

lemma absorbed_keyBuffer [simp]: "absorbed H bs (s\<lparr>keyBuffer := k\<rparr>) = absorbed H bs s"
  by (simp add: absorbed_def)

text \<open>Counted bytes: the message so far.\<close>

definition message_so_far :: "u8 list \<Rightarrow> sha1nfo \<Rightarrow> bool" where
  "message_so_far bs s \<longleftrightarrow> absorbed H0 bs s \<and> byteCount s = of_nat (length bs)"

definition same_keys :: "sha1nfo \<Rightarrow> sha1nfo \<Rightarrow> bool" where
  "same_keys s s' \<longleftrightarrow> keyBuffer s' = keyBuffer s \<and> innerHash s' = innerHash s"

lemma write_message:
  "message_so_far bs s \<Longrightarrow> \<exists>s'. sha1_write xs s = Some s' \<and> message_so_far (bs @ xs) s' \<and> same_keys s s'"
proof (induction xs arbitrary: bs s)
  case (Cons v xs)
  then have "absorbed H0 bs (s\<lparr>byteCount := byteCount s + 1\<rparr>)" by (simp add: message_so_far_def)
  from addUncounted_obtain [OF this, of v] obtain s1 where s1:
    "sha1_writebyte v s = Some s1" "absorbed H0 (bs @ [v]) s1" "rest_kept (s\<lparr>byteCount := byteCount s + 1\<rparr>) s1"
    unfolding sha1_writebyte_def by blast
  then have "message_so_far (bs @ [v]) s1"
    using Cons.prems by (simp add: message_so_far_def rest_kept_def add.commute)
  from Cons.IH [OF this] obtain s2 where "sha1_write xs s1 = Some s2" "message_so_far ((bs @ [v]) @ xs) s2"
    "same_keys s1 s2" by blast
  with s1 show ?case by (simp add: rest_kept_def same_keys_def)
qed (simp add: same_keys_def)

lemma init_message: "length (buffer s) = 16 \<Longrightarrow> message_so_far [] (sha1_init s) \<and> same_keys s (sha1_init s)"
  by (simp add: message_so_far_def absorbed_init same_keys_def) (simp add: sha1_init_def)

section \<open>Padding\<close>

lemma absorbed_offset: "absorbed H bs s \<Longrightarrow> unat (bufferOffset s) = length bs mod 64"
  by (auto simp: absorbed_def unat_of_nat take_bit_nat_eq_self mod_add_eq elim!: dvdE)

lemma pad_zeros_eq: "pad_zeros s = (if bufferOffset s = 56 then Some s else sha1_addUncounted 0 s \<bind> pad_zeros)"
  by (subst pad_zeros.simps) simp

text \<open>The loop ends: at most 63 zero bytes lead to the offset 56.\<close>

lemma pad_zeros_absorbed:
  "absorbed H bs s \<Longrightarrow> (length bs + n) mod 64 = 56 \<Longrightarrow> n < 64 \<Longrightarrow>
     \<exists>s'. pad_zeros s = Some s' \<and> absorbed H (bs @ replicate n 0) s' \<and> rest_kept s s'"
proof (induction n arbitrary: bs s)
  case 0
  then have "bufferOffset s = 56" using absorbed_offset [of H bs s] by (simp add: word_unat_eq_iff)
  with 0 show ?case by (simp add: pad_zeros_eq rest_kept_def)
next
  case (Suc n)
  have "length bs mod 64 \<noteq> 56"
  proof
    assume "length bs mod 64 = 56"
    then have "(56 + Suc n) mod 64 = 56" using Suc.prems(2) mod_add_left_eq [of "length bs" 64 "Suc n"] by simp
    with Suc.prems(3) show False by (simp add: mod_if split: if_splits)
  qed
  then have "bufferOffset s \<noteq> 56" using absorbed_offset [OF Suc.prems(1)] by auto
  moreover obtain s1 where s1: "sha1_addUncounted 0 s = Some s1" "absorbed H (bs @ [0]) s1" "rest_kept s s1"
    using addUncounted_obtain [OF Suc.prems(1)] by blast
  moreover obtain s2 where "pad_zeros s1 = Some s2" "absorbed H ((bs @ [0]) @ replicate n 0) s2" "rest_kept s1 s2"
    using Suc.IH [OF s1(2)] Suc.prems by auto
  ultimately show ?case by (auto simp: pad_zeros_eq [of s] replicate_app_Cons_same intro: rest_kept_trans)
qed

lemma addUncounted_byteCount: "sha1_addUncounted v s = Some s' \<Longrightarrow> byteCount s' = byteCount s"
  by (auto simp: sha1_addUncounted_def Let_def bind_eq_Some_conv)

fun add_all :: "u8 list \<Rightarrow> sha1nfo \<Rightarrow> sha1nfo option" where
  "add_all [] s = Some s"
| "add_all (v # vs) s = sha1_addUncounted v s \<bind> add_all vs"

lemma add_all_absorbed:
  "absorbed H bs s \<Longrightarrow> \<exists>s'. add_all vs s = Some s' \<and> absorbed H (bs @ vs) s' \<and> rest_kept s s'"
proof (induction vs arbitrary: bs s)
  case (Cons v vs)
  obtain s1 where s1: "sha1_addUncounted v s = Some s1" "absorbed H (bs @ [v]) s1" "rest_kept s s1"
    using addUncounted_obtain [OF Cons.prems] by blast
  with Cons.IH [OF s1(2)] show ?case by (auto intro: rest_kept_trans)
qed (simp add: rest_kept_def)

definition length_bytes :: "u32 \<Rightarrow> u8 list" where
  "length_bytes n = [0, 0, 0, ucast (drop_bit 29 n), ucast (drop_bit 21 n), ucast (drop_bit 13 n),
     ucast (drop_bit 5 n), ucast (push_bit 3 n)]"

lemma add_length_bytes:
  assumes "add_all (length_bytes (byteCount s)) s = Some s'"
  shows "do {
     s \<leftarrow> sha1_addUncounted 0 s;
     s \<leftarrow> sha1_addUncounted 0 s;
     s \<leftarrow> sha1_addUncounted 0 s;
     s \<leftarrow> sha1_addUncounted (ucast (drop_bit 29 (byteCount s))) s;
     s \<leftarrow> sha1_addUncounted (ucast (drop_bit 21 (byteCount s))) s;
     s \<leftarrow> sha1_addUncounted (ucast (drop_bit 13 (byteCount s))) s;
     s \<leftarrow> sha1_addUncounted (ucast (drop_bit 5 (byteCount s))) s;
     sha1_addUncounted (ucast (push_bit 3 (byteCount s))) s } = Some s'"
proof -
  obtain t1 t2 t3 t4 t5 t6 t7 where t: "sha1_addUncounted 0 s = Some t1" "sha1_addUncounted 0 t1 = Some t2"
    "sha1_addUncounted 0 t2 = Some t3" "sha1_addUncounted (ucast (drop_bit 29 (byteCount s))) t3 = Some t4"
    "sha1_addUncounted (ucast (drop_bit 21 (byteCount s))) t4 = Some t5"
    "sha1_addUncounted (ucast (drop_bit 13 (byteCount s))) t5 = Some t6"
    "sha1_addUncounted (ucast (drop_bit 5 (byteCount s))) t6 = Some t7"
    "sha1_addUncounted (ucast (push_bit 3 (byteCount s))) t7 = Some s'"
    using assms unfolding length_bytes_def add_all.simps bind_eq_Some_conv by auto
  then show ?thesis by (simp add: addUncounted_byteCount [OF t(1)] addUncounted_byteCount [OF t(2)]
    addUncounted_byteCount [OF t(3)] addUncounted_byteCount [OF t(4)] addUncounted_byteCount [OF t(5)]
    addUncounted_byteCount [OF t(6)] addUncounted_byteCount [OF t(7)])
qed

lemma pad_count: "(n + 1 + (119 - n mod 64) mod 64) mod 64 = (56 :: nat)"
proof -
  have r: "n mod 64 < 64" by simp
  have "(n + 1 + (119 - n mod 64) mod 64) mod 64 = (n + (1 + (119 - n mod 64))) mod 64"
    using mod_add_right_eq [of "n + 1" "119 - n mod 64" 64] by (simp only: add.assoc)
  also have "\<dots> = (n mod 64 + (1 + (119 - n mod 64))) mod 64" by (simp only: mod_add_left_eq)
  also have "n mod 64 + (1 + (119 - n mod 64)) = 120" using r by linarith
  finally show ?thesis by simp
qed

lemma sha1_pad_absorbed:
  assumes "absorbed H m s"
  shows "\<exists>s'. sha1_pad s = Some s' \<and> rest_kept s s' \<and>
    absorbed H (m @ [0x80] @ replicate ((119 - length m mod 64) mod 64) 0 @ length_bytes (byteCount s)) s'"
proof -
  let ?z = "replicate ((119 - length m mod 64) mod 64) (0 :: u8)"
  from addUncounted_obtain [OF assms, of "0x80"] obtain s1 where s1:
    "sha1_addUncounted 0x80 s = Some s1" "absorbed H (m @ [0x80]) s1" "rest_kept s s1" .
  have "(length (m @ [0x80]) + (119 - length m mod 64) mod 64) mod 64 = 56"
    using pad_count [of "length m"] by simp
  from pad_zeros_absorbed [OF s1(2) this] obtain s2 where s2:
    "pad_zeros s1 = Some s2" "absorbed H ((m @ [0x80]) @ ?z) s2" "rest_kept s1 s2" by auto
  from add_all_absorbed [OF s2(2), of "length_bytes (byteCount s)"] obtain s3 where s3:
    "add_all (length_bytes (byteCount s)) s2 = Some s3"
    "absorbed H (((m @ [0x80]) @ ?z) @ length_bytes (byteCount s)) s3" "rest_kept s2 s3" by blast
  have "byteCount s2 = byteCount s" using s1(3) s2(3) by (simp add: rest_kept_def)
  then have "sha1_pad s = Some s3" using add_length_bytes [of s2 s3] s3(1) by (simp add: sha1_pad_def s1(1) s2(1))
  with s1(3) s2(3) s3(2,3) show ?thesis by (auto intro: rest_kept_trans)
qed


section \<open>The digest\<close>

text \<open>The last eight bytes are the length of the message in bits.\<close>

lemma ucast_push_bit_3: "ucast (push_bit 3 (of_nat n :: u32)) = (of_nat (8 * n) :: u8)"
proof -
  have "ucast (push_bit 3 (of_nat n :: u32)) = (push_bit 3 (of_nat n) :: u8)"
    by (rule bit_word_eqI) (auto simp: bit_push_bit_iff bit_unsigned_iff bit_of_nat_iff simp del: push_bit_of_nat)
  then show ?thesis by (simp add: push_bit_of_nat push_bit_eq_mult mult.commute)
qed

lemma bits_of_length:
  assumes "n < 2 ^ 32"
  shows "map (\<lambda>i. of_nat (8 * n div 256 ^ (7 - i))) [0..<8] = length_bytes (of_nat n)"
proof -
  have u: "unat (of_nat n :: u32) = n" using assms by (simp add: unat_of_nat take_bit_nat_eq_self)
  have shr: "ucast (drop_bit k (of_nat n :: u32)) = (of_nat (n div 2 ^ k) :: u8)" for k
  proof -
    have "unat (drop_bit k (of_nat n :: u32)) = n div 2 ^ k"
      unfolding unat_drop_bit_eq u by (rule drop_bit_eq_div)
    then show ?thesis by (metis of_nat_unat)
  qed
  have big: "8 * n div 256 ^ 7 = 0" "8 * n div 256 ^ 6 = 0" "8 * n div 256 ^ 5 = 0"
    using assms by (simp_all add: div_less)
  have mid: "8 * n div 256 ^ 4 = n div 2 ^ 29" "8 * n div 256 ^ 3 = n div 2 ^ 21"
    "8 * n div 256 ^ 2 = n div 2 ^ 13" "8 * n div 256 ^ 1 = n div 2 ^ 5" by simp_all
  have "map (\<lambda>i. f (7 - i)) [0..<8] = [f 7, f 6, f 5, f 4, f 3, f 2, f 1, f 0]" for f :: "nat \<Rightarrow> u8"
    by (simp add: upt_rec)
  note eq = this [of "\<lambda>i. of_nat (8 * n div 256 ^ i)"]
  show ?thesis
    by (simp only: eq length_bytes_def shr ucast_push_bit_3 big mid power_0 div_by_1) simp
qed

lemma pad_multiple: "(n + 1 + (119 - n mod 64) mod 64 + 8) mod 64 = (0 :: nat)"
proof -
  let ?k = "n + 1 + (119 - n mod 64) mod 64"
  have "(?k + 8) mod 64 = (?k mod 64 + 8) mod 64" by (simp only: mod_add_left_eq)
  then show ?thesis by (simp only: pad_count) simp
qed

lemma padded_length: "64 dvd length (padded m)"
proof -
  have "64 dvd length m + 1 + (119 - length m mod 64) mod 64 + 8"
    unfolding dvd_eq_mod_eq_0 by (rule pad_multiple)
  then show ?thesis by (simp add: padded_def ac_simps del: upt_rec_numeral)
qed

lemma swap_bytes: "memory_bytes (swap_word w) = rev (memory_bytes w)"
proof -
  have m: "(0xff000000 :: u32) = push_bit 24 (mask 8)" "(0x00ff0000 :: u32) = push_bit 16 (mask 8)"
    "(0x0000ff00 :: u32) = push_bit 8 (mask 8)" "(0x000000ff :: u32) = mask 8"
    by (simp_all add: mask_eq_exp_minus_1)
  have bit: "bit (swap_word w) n = (if n < 8 then bit w (24 + n) else if n < 16 then bit w (8 + n)
      else if n < 24 then bit w (n - 8) else n < 32 \<and> bit w (n - 24))" for n
    unfolding swap_word_def m by (auto simp: bit_simps dest: bit_imp_le_length)
  show ?thesis by (auto simp: memory_bytes_def bit bit_simps intro!: bit_word_eqI)
qed

lemma result_message:
  assumes "message_so_far m s" "length m < 2 ^ 32"
  shows "\<exists>s'. sha1_result s = Some (s', sha1 m) \<and> same_keys s s' \<and> length (buffer s') = 16"
proof -
  obtain s1 where s1: "sha1_pad s = Some s1" "rest_kept s s1" "absorbed H0 (padded m) s1"
    using sha1_pad_absorbed [of H0 m s] bits_of_length [OF assms(2)] assms(1)
    by (auto simp: padded_def message_so_far_def)
  from s1(3) obtain front rest where f: "padded m = front @ rest" "64 dvd length front" "length rest < 64"
    "state s1 = blocks H0 front" "length (buffer s1) = 16" by (auto simp: absorbed_def)
  have "rest = []" using padded_length [of m] f(1-3) by (auto simp: dvd_add_right_iff dvd_imp_le)
  with f s1 show ?thesis
    by (simp add: sha1_result_def sha1_def swap_bytes Let_def comp_def rest_kept_def same_keys_def)
qed

lemma length_compress: "length (compress H bs) = 5"
  by (simp add: compress_def case_prod_unfold Let_def)

lemma length_blocks: "length H = 5 \<Longrightarrow> length (blocks H bs) = 5"
  by (induction H bs rule: blocks.induct) (subst blocks.simps, simp add: length_compress)

lemma length_sha1: "length (sha1 m) = 20"
proof -
  have "length (blocks H0 (padded m)) = 5" by (rule length_blocks) (simp add: H0_def)
  then show ?thesis by (simp add: sha1_def length_concat comp_def memory_bytes_def sum_list_triv)
qed


lemma message_buffer: "message_so_far m s \<Longrightarrow> length (buffer s) = 16"
  by (auto simp: message_so_far_def absorbed_def)

lemma write_writes: "message_so_far m s \<Longrightarrow>
  \<exists>s'. fold (\<lambda>xs r. r \<bind> sha1_write xs) xss (Some s) = Some s' \<and> message_so_far (m @ concat xss) s' \<and> same_keys s s'"
proof (induction xss arbitrary: m s)
  case (Cons xs xss)
  from write_message [OF Cons.prems, of xs] obtain s1 where s1: "sha1_write xs s = Some s1"
    "message_so_far (m @ xs) s1" "same_keys s s1" by blast
  from Cons.IH [OF s1(2)] s1 show ?case by (auto simp: same_keys_def)
qed (simp add: same_keys_def)

lemma digest_of:
  assumes "length (buffer s) = 16" "length m < 2 ^ 32"
  shows "\<exists>s'. do { s1 \<leftarrow> sha1_write m (sha1_init s); sha1_result s1 } = Some (s', sha1 m) \<and>
    same_keys s s' \<and> length (buffer s') = 16"
proof -
  from init_message [OF assms(1)] have init: "message_so_far [] (sha1_init s)" "same_keys s (sha1_init s)" by auto
  from write_message [OF init(1), of m] obtain s1 where s1: "sha1_write m (sha1_init s) = Some s1"
    "message_so_far m s1" "same_keys (sha1_init s) s1" by auto
  from result_message [OF s1(2) assms(2)] s1 init show ?thesis by (auto simp: same_keys_def)
qed

section \<open>Keyed digests\<close>

lemma length_hmac_key: "length (hmac_key key) = 64"
  by (simp add: hmac_key_def length_sha1 Let_def)

lemma map_xor_key: "length k = 64 \<Longrightarrow> map (\<lambda>i. k ! i XOR c) [0..<64] = map ((XOR) c) k"
  by (rule nth_equalityI) (simp_all add: xor.commute del: upt_rec_numeral)

lemma map_nth_take: "length xs = 20 \<Longrightarrow> map (\<lambda>i. xs ! i) [0..<20] = xs"
  by (metis map_nth)

lemma initHmac_started:
  assumes "length (buffer s) = 16" "length key < 2 ^ 32"
  shows "\<exists>s'. sha1_initHmac key s = Some s' \<and> keyBuffer s' = hmac_key key \<and>
    message_so_far (map ((XOR) 0x36) (hmac_key key)) s'"
proof -
  obtain s1 where s1: "(if BLOCK_LENGTH < length key
       then do {
         s \<leftarrow> sha1_write key (sha1_init s);
         (s, h) \<leftarrow> sha1_result s;
         Some (s\<lparr>keyBuffer := take HASH_LENGTH h @ replicate (BLOCK_LENGTH - HASH_LENGTH) 0\<rparr>) }
       else Some (s\<lparr>keyBuffer := key @ replicate (BLOCK_LENGTH - length key) 0\<rparr>)) = Some s1"
    "keyBuffer s1 = hmac_key key" "length (buffer s1) = 16"
  proof (cases "64 < length key")
    case True
    with digest_of [OF assms] obtain s2 where "do { s1 \<leftarrow> sha1_write key (sha1_init s); sha1_result s1 } = Some (s2, sha1 key)"
      "length (buffer s2) = 16" by blast
    with True that [of "s2\<lparr>keyBuffer := sha1 key @ replicate 44 0\<rparr>"] show thesis
      by (auto simp: bind_eq_Some_conv hmac_key_def length_sha1)
  qed (use assms that in \<open>auto simp: hmac_key_def\<close>)
  from init_message [OF s1(3)] have init: "message_so_far [] (sha1_init s1)" "keyBuffer (sha1_init s1) = hmac_key key"
    by (auto simp: same_keys_def s1(2))
  from write_message [OF init(1), of "map (\<lambda>i. hmac_key key ! i XOR 0x36) [0..<64]"] init(2) s1 show ?thesis
    by (auto simp: sha1_initHmac_def map_xor_key length_hmac_key same_keys_def simp del: upt_rec_numeral)
qed

lemma resultHmac_digest:
  assumes "message_so_far (map ((XOR) 0x36) (hmac_key key) @ m) s" "keyBuffer s = hmac_key key" "length m < 2 ^ 32 - 64"
  shows "\<exists>s'. sha1_resultHmac s = Some (s', hmac_sha1 key m)"
proof -
  let ?inner = "map ((XOR) 0x36) (hmac_key key) @ m" and ?outer = "map ((XOR) 0x5c) (hmac_key key)"
  have "length ?inner < 2 ^ 32" using assms(3) by (simp add: length_hmac_key)
  from result_message [OF assms(1) this] obtain s1 where s1: "sha1_result s = Some (s1, sha1 ?inner)"
    "keyBuffer s1 = hmac_key key" "length (buffer s1) = 16" using assms(2) by (auto simp: same_keys_def)
  define s2 where "s2 = sha1_init (s1\<lparr>innerHash := sha1 ?inner\<rparr>)"
  have s2: "message_so_far [] s2" "keyBuffer s2 = hmac_key key" "innerHash s2 = sha1 ?inner"
    using init_message [of "s1\<lparr>innerHash := sha1 ?inner\<rparr>"] s1 by (auto simp: s2_def same_keys_def)
  from write_message [OF s2(1), of ?outer] obtain s3 where s3: "sha1_write ?outer s2 = Some s3"
    "message_so_far ?outer s3" "innerHash s3 = sha1 ?inner" using s2 by (auto simp: same_keys_def)
  from write_message [OF s3(2), of "sha1 ?inner"] obtain s4 where s4: "sha1_write (sha1 ?inner) s3 = Some s4"
    "message_so_far (?outer @ sha1 ?inner) s4" by auto
  have "length (?outer @ sha1 ?inner) < 2 ^ 32" by (simp add: length_hmac_key length_sha1)
  from result_message [OF s4(2) this] obtain s5 where "sha1_result s4 = Some (s5, sha1 (?outer @ sha1 ?inner))"
    by blast
  then show ?thesis using s1(1) s2 s3(1,3) s4(1)
    by (auto simp: sha1_resultHmac_def Let_def length_sha1 map_xor_key length_hmac_key map_nth_take
      hmac_sha1_def simp flip: s2_def simp del: upt_rec_numeral)
qed


section \<open>Properties\<close>

definition sha1_clean :: sha1nfo where
  "sha1_clean = \<lparr>buffer = replicate 16 0, state = replicate 5 0, byteCount = 0, bufferOffset = 0,
     keyBuffer = replicate 64 0, innerHash = replicate 20 0\<rparr>"

text \<open>
  C24: However a message of less than 2^32 bytes is cut into pieces, initialising, writing the
  pieces one after another and asking for the result gives the SHA-1 digest of the whole message:
  the padded message cut into blocks and compressed with the eighty-word schedule.
\<close>

theorem sha1_digest:
  "length (buffer s) = 16 \<Longrightarrow> length (concat xss) < 2 ^ 32 \<Longrightarrow>
     \<exists>s'. fold (\<lambda>xs r. r \<bind> sha1_write xs) xss (Some (sha1_init s)) \<bind> sha1_result =
       Some (s', sha1 (concat xss))"
proof -
  assume s: "length (buffer s) = 16" and len: "length (concat xss) < 2 ^ 32"
  from write_writes [of "[]" "sha1_init s" xss] init_message [OF s] obtain s1 where
    "fold (\<lambda>xs r. r \<bind> sha1_write xs) xss (Some (sha1_init s)) = Some s1" "message_so_far (concat xss) s1"
    by auto
  with result_message [of "concat xss" s1] len show ?thesis by auto
qed

theorem sha1_digest_witness:
  "\<exists>s'. fold (\<lambda>xs r. r \<bind> sha1_write xs) [[97], [98, 99]] (Some (sha1_init sha1_clean)) \<bind> sha1_result =
       Some (s', sha1 [97, 98, 99])"
  using sha1_digest [of sha1_clean "[[97], [98, 99]]"] by (simp add: sha1_clean_def)

text \<open>
  C34: Padding always ends: from every state whose offset is inside the block, the loop that adds
  zero bytes stops, no store leaves the buffer, and the padded message ends on a block boundary.
\<close>

theorem sha1_pad_terminates:
  "length (buffer s) = 16 \<Longrightarrow> bufferOffset s < 64 \<Longrightarrow>
     \<exists>s'. sha1_pad s = Some s' \<and> bufferOffset s' = 0"
proof -
  assume s: "length (buffer s) = 16" and off: "bufferOffset s < 64"
  let ?m = "map (block_byte (buffer s)) [0..<unat (bufferOffset s)]"
  from off have "unat (bufferOffset s) < 64" by (simp add: word_less_nat_alt)
  with s have "absorbed (state s) ?m s"
    unfolding absorbed_def by (intro exI [of _ "[]"] exI [of _ ?m]) (simp add: blocks.simps)
  from sha1_pad_absorbed [OF this] obtain s' where s': "sha1_pad s = Some s'"
    "absorbed (state s) (?m @ [0x80] @ replicate ((119 - length ?m mod 64) mod 64) 0 @ length_bytes (byteCount s)) s'"
    by blast
  have "length (?m @ [0x80] @ replicate ((119 - length ?m mod 64) mod 64) 0 @ length_bytes (byteCount s)) =
    length ?m + 1 + (119 - length ?m mod 64) mod 64 + 8"
    by (simp only: length_append length_replicate length_bytes_def list.size length_map length_upt)
  with absorbed_offset [OF s'(2)] have "unat (bufferOffset s') = 0" by (simp only: pad_multiple)
  with s' show ?thesis by (simp add: unat_eq_0)
qed

theorem sha1_pad_terminates_witness:
  "\<exists>s'. sha1_pad (sha1_clean\<lparr>bufferOffset := 60\<rparr>) = Some s' \<and> bufferOffset s' = 0"
  by (rule sha1_pad_terminates) (simp_all add: sha1_clean_def)

text \<open>
  Keyed digests follow the HMAC construction: starting with a key of any length below 2^32
  (keys longer than a block are hashed first), writing a message and asking for the keyed result
  gives the digest of the outer key followed by the digest of the inner key and the message.
\<close>

theorem hmac_digest:
  "length (buffer s) = 16 \<Longrightarrow> length key < 2 ^ 32 \<Longrightarrow> length m < 2 ^ 32 - 64 \<Longrightarrow>
     \<exists>s'. (sha1_initHmac key s \<bind> sha1_write m) \<bind> sha1_resultHmac = Some (s', hmac_sha1 key m)"
proof -
  assume a: "length (buffer s) = 16" "length key < 2 ^ 32" "length m < 2 ^ 32 - 64"
  obtain s1 where s1: "sha1_initHmac key s = Some s1" "keyBuffer s1 = hmac_key key"
    "message_so_far (map ((XOR) 0x36) (hmac_key key)) s1" using initHmac_started [OF a(1,2)] by blast
  from write_message [OF s1(3), of m] obtain s2 where s2: "sha1_write m s1 = Some s2"
    "message_so_far (map ((XOR) 0x36) (hmac_key key) @ m) s2" "keyBuffer s2 = hmac_key key"
    using s1(2) by (auto simp: same_keys_def)
  from resultHmac_digest [OF s2(2,3) a(3)] s1 s2 show ?thesis by auto
qed

theorem hmac_digest_witness:
  "\<exists>s'. (sha1_initHmac [107] sha1_clean \<bind> sha1_write [109]) \<bind> sha1_resultHmac = Some (s', hmac_sha1 [107] [109])"
  by (rule hmac_digest) (simp_all add: sha1_clean_def)

end
