(* ===== verification/WebSocket.thy ===== *)
theory WebSocket
  imports HTTPd_Conn Base64 SHA1
begin

text \<open>
  The WebSocket side of \<open>NeonRTOS/HTTPd/HTTPd.c\<close>: the opening handshake, sending and receiving
  frames, and the branch of the server task that serves a WebSocket client. What the socket layer
  answers to the calls of \<open>recv\<close> is a script: for each call its result and the bytes it delivers.
  Reading a byte of a buffer that \<open>recv\<close> did not fill is undefined (\<open>None\<close>).
\<close>

section \<open>Frames\<close>

abbreviation (input) FLAG_FIN :: u8 where "FLAG_FIN \<equiv> 0x80"
abbreviation (input) OPCODE_TEXT :: u8 where "OPCODE_TEXT \<equiv> 1"
abbreviation (input) OPCODE_BINARY :: u8 where "OPCODE_BINARY \<equiv> 2"
abbreviation (input) OPCODE_CLOSE :: u8 where "OPCODE_CLOSE \<equiv> 8"
abbreviation (input) OPCODE_PING :: u8 where "OPCODE_PING \<equiv> 9"
abbreviation (input) OPCODE_PONG :: u8 where "OPCODE_PONG \<equiv> 10"
abbreviation (input) WEBSOCK_FLAG_NONE :: u8 where "WEBSOCK_FLAG_NONE \<equiv> 0"
abbreviation (input) WEBSOCK_FLAG_CONT :: u8 where "WEBSOCK_FLAG_CONT \<equiv> 1"
abbreviation (input) WEBSOCK_FLAG_BIN :: u8 where "WEBSOCK_FLAG_BIN \<equiv> 2"
abbreviation (input) WEBSOCK_FLAG_PONG :: u8 where "WEBSOCK_FLAG_PONG \<equiv> 4"
abbreviation (input) HTTP_WS_SERVER_DAT_BUF_SIZE :: nat where "HTTP_WS_SERVER_DAT_BUF_SIZE \<equiv> 1024"

record HTTPd_WSFrame =
  flags :: u8
  opcode :: u8
  isMasked :: u8
  payloadLength :: "64 word"
  maskingKey :: u32

fun unmask_from :: "nat \<Rightarrow> nat \<Rightarrow> u32 \<Rightarrow> u8 list \<Rightarrow> u8 list option" where
  "unmask_from i 0 key buf = Some buf"
| "unmask_from i (Suc n) key buf = do {
     b \<leftarrow> cread buf (int i);
     buf1 \<leftarrow> cwrite buf (int i) (b XOR memory_bytes key ! (i mod 4));
     unmask_from (i + 1) n key buf1 }"

definition unmaskWsPayload :: "u8 list \<Rightarrow> 64 word \<Rightarrow> u32 \<Rightarrow> u8 list option" where
  "unmaskWsPayload maskedPayload len key =
     unmask_from 0 (min (unat len) HTTP_WS_SERVER_DAT_BUF_SIZE) key maskedPayload"

definition closeWebsocketConnection :: "'h connection \<Rightarrow> net_event list" where
  "closeWebsocketConnection c =
     (if socket_id c \<noteq> -1 then [Send (socket_id c) [FLAG_FIN OR OPCODE_CLOSE, 0x80, 0]] else [])"

text \<open>The header of an outgoing frame.\<close>

definition frame_options :: "u8 \<Rightarrow> u8" where
  "frame_options fl = (let
     options = (if fl AND WEBSOCK_FLAG_BIN \<noteq> 0 then OPCODE_BINARY else OPCODE_TEXT);
     options = (if fl AND WEBSOCK_FLAG_CONT = 0 then options OR FLAG_FIN else options)
     in if fl AND WEBSOCK_FLAG_PONG \<noteq> 0 then options OR OPCODE_PONG else options)"

definition frame_header :: "64 word \<Rightarrow> u8 \<Rightarrow> u8 list" where
  "frame_header len fl = frame_options fl #
     (if 65535 < len then [127, 0, 0, 0, 0, ucast (drop_bit 24 len), ucast (drop_bit 16 len),
        ucast (drop_bit 8 len), ucast len]
      else if 125 < len then [126, ucast (drop_bit 8 len), ucast len]
      else [ucast len])"

definition HTTPd_WebsocketServer_Send_Message ::
  "'h connection option \<Rightarrow> u8 list \<Rightarrow> 64 word \<Rightarrow> u8 \<Rightarrow> net_event list option"
where
  "HTTPd_WebsocketServer_Send_Message ws_client payload len fl = (case ws_client of
     None \<Rightarrow> Some []
   | Some c \<Rightarrow>
       if socket_id c < 0 \<or> \<not> websocket_client c \<or> \<not> websocket_auth c then Some []
       else if len = 0 then Some []
       else if length payload < unat len then None
       else Some [Send (socket_id c) (frame_header len fl), Send (socket_id c) (take (unat len) payload)])"

fun HTTPd_WebsocketServer_Send_Brocast_Message ::
  "'h clients \<Rightarrow> u8 list \<Rightarrow> 64 word \<Rightarrow> u8 \<Rightarrow> net_event list option"
where
  "HTTPd_WebsocketServer_Send_Brocast_Message [] payload len fl = Some []"
| "HTTPd_WebsocketServer_Send_Brocast_Message (slot # cs) payload len fl = (case slot of
     None \<Rightarrow> HTTPd_WebsocketServer_Send_Brocast_Message cs payload len fl
   | Some c \<Rightarrow> do {
       es \<leftarrow> (if 0 \<le> socket_id c then HTTPd_WebsocketServer_Send_Message slot payload len fl else Some []);
       fs \<leftarrow> HTTPd_WebsocketServer_Send_Brocast_Message cs payload len fl;
       Some (es @ fs) })"

section \<open>The handshake\<close>

definition WebSocket_UUID :: "u8 list" where
  "WebSocket_UUID = chars ''258EAFA5-E914-47DA-95CA-C5AB0DC85B11''"

text \<open>The 512 bytes of \<open>concatenatedBuffer\<close> hold the key, the identifier and a zero byte; the digest
  state \<open>s0\<close> is not initialised. The inner option is the result of \<open>base64_encode\<close>.\<close>

definition WebSocketServer_CreateAcceptKey :: "sha1nfo \<Rightarrow> u8 list \<Rightarrow> nat \<Rightarrow> u8 list option option" where
  "WebSocketServer_CreateAcceptKey s0 key bufferSize =
     (if 512 < length key + length WebSocket_UUID + 1 then None
      else do {
        s \<leftarrow> sha1_write (key @ WebSocket_UUID) (sha1_init s0);
        (s, pHash) \<leftarrow> sha1_result s;
        Some (base64_encode (take 20 pHash) bufferSize) })"

section \<open>Receiving\<close>

type_synonym reply = "int \<times> u8 list"

text \<open>One call of \<open>recv\<close>; a script that has run out answers -1.\<close>

definition recv :: "reply list \<Rightarrow> (int \<times> u8 list) \<times> reply list" where
  "recv rs = (case rs of [] \<Rightarrow> ((-1, []), []) | r # rs1 \<Rightarrow> (r, rs1))"

fun big_endian :: "u8 list \<Rightarrow> nat \<Rightarrow> nat \<Rightarrow> 64 word \<Rightarrow> 64 word option" where
  "big_endian bs i 0 acc = Some acc"
| "big_endian bs i (Suc n) acc = do {
     b \<leftarrow> cread bs (int i);
     big_endian bs (i + 1) n (push_bit 8 acc OR ucast b) }"

text \<open>Receive \<open>n\<close> length bytes: the length, or the result to return early.\<close>

definition recv_length :: "nat \<Rightarrow> reply list \<Rightarrow> ((int + 64 word) \<times> reply list) option" where
  "recv_length n rs = (case recv rs of ((ret, bs), rs1) \<Rightarrow>
     if ret \<le> 0 then Some (Inl ret, rs1)
     else do { len \<leftarrow> big_endian bs 0 n 0; Some (Inr len, rs1) })"

definition recv_key :: "HTTPd_WSFrame \<Rightarrow> reply list \<Rightarrow> ((int \<times> HTTPd_WSFrame) \<times> reply list) option" where
  "recv_key frame rs =
     (if isMasked frame \<noteq> 0 then case recv rs of ((ret, bs), rs1) \<Rightarrow>
        if ret \<le> 0 then Some ((ret, frame), rs1)
        else do {
          a \<leftarrow> cread bs 0; b \<leftarrow> cread bs 1; c \<leftarrow> cread bs 2; d \<leftarrow> cread bs 3;
          Some ((0, frame\<lparr>maskingKey := memory_word a b c d\<rparr>), rs1) }
      else Some ((0, frame), rs))"

definition WebSocketServer_ReceiveWsFrame ::
  "'h connection option \<Rightarrow> HTTPd_WSFrame \<Rightarrow> reply list \<Rightarrow> ((int \<times> HTTPd_WSFrame) \<times> reply list) option"
where
  "WebSocketServer_ReceiveWsFrame conn frame rs = (case conn of
     None \<Rightarrow> Some ((-1, frame), rs)
   | Some c \<Rightarrow>
       if connection_destruct_flag c then Some ((-1, frame), rs)
       else if socket_id c < 0 then Some ((-1, frame), rs)
       else case recv rs of ((ret, header_buf), rs1) \<Rightarrow>
         if ret \<le> 0 then Some ((ret, frame), rs1)
         else do {
           b0 \<leftarrow> cread header_buf 0;
           b1 \<leftarrow> cread header_buf 1;
           let frame1 = frame\<lparr>flags := b0 AND 0xF0, opcode := b0 AND 0x0F, isMasked := b1 AND 0x80,
             payloadLength := ucast (b1 AND 0x7F)\<rparr>;
           (r, rs2) \<leftarrow> (if payloadLength frame1 = 126 then recv_length 2 rs1
             else if payloadLength frame1 = 127 then recv_length 8 rs1
             else Some (Inr (payloadLength frame1), rs1));
           (case r of
              Inl ret \<Rightarrow> Some ((ret, frame1), rs2)
            | Inr len \<Rightarrow> recv_key (frame1\<lparr>payloadLength := len\<rparr>) rs2) })"


section \<open>Serving a client\<close>

datatype ws_event = Net net_event | TimerStop | TimerRestart | OnMessage HTTPd_WSFrame "u8 list"

abbreviation (input) EAGAIN :: int where "EAGAIN \<equiv> 11"

text \<open>
  What the server task does with the data of a frame: \<open>mem\<close> is the allocated buffer, \<open>sock_err\<close> the
  result of \<open>getsockopt\<close> and the error it reports. The result is the client, the events, and
  whether the loop over the clients is left.
\<close>

definition ws_received ::
  "'h connection \<Rightarrow> HTTPd_WSFrame \<Rightarrow> u16 \<Rightarrow> u8 list \<Rightarrow> int \<times> u8 list \<Rightarrow> int \<times> int \<Rightarrow>
     ('h connection \<times> ws_event list \<times> bool) option"
where
  "ws_received c frame rec_dat_len mem reply sock_err = (case reply of (ret, bs) \<Rightarrow>
     if ret < 0 then
       (if fst sock_err < 0 then Some (c\<lparr>connection_destruct_flag := True\<rparr>, [], False)
        else if snd sock_err = EAGAIN then Some (c, [], False)
        else Some (c, [], True))
     else if ret = 0 then Some (c\<lparr>connection_destruct_flag := True\<rparr>, [], False)
     else if int HTTP_WS_SERVER_DAT_BUF_SIZE < ret then Some (c\<lparr>connection_destruct_flag := True\<rparr>, [], False)
     else if length mem < length bs then None
     else do {
       buf \<leftarrow> cwrite (bs @ drop (length bs) mem) ret 0;
       buf \<leftarrow> (if isMasked frame \<noteq> 0 then unmaskWsPayload buf (ucast rec_dat_len) (maskingKey frame)
         else Some buf);
       if opcode frame = OPCODE_PING then do {
         es \<leftarrow> HTTPd_WebsocketServer_Send_Message (Some c) buf (ucast rec_dat_len) WEBSOCK_FLAG_PONG;
         Some (c, TimerStop # map Net es @ [TimerRestart], False) }
       else if opcode frame = OPCODE_CLOSE then
         Some (c\<lparr>connection_destruct_flag := True\<rparr>, [TimerStop], False)
       else if 0 < rec_dat_len then Some (c, [TimerStop, OnMessage frame buf, TimerRestart], False)
       else Some (c, [TimerStop, TimerRestart], False) })"

definition ws_serve ::
  "'h connection \<Rightarrow> HTTPd_WSFrame \<Rightarrow> (nat \<Rightarrow> u8 list option) \<Rightarrow> int \<times> int \<Rightarrow> reply list \<Rightarrow>
     (('h connection \<times> ws_event list \<times> bool) \<times> reply list) option"
where
  "ws_serve c frame0 malloc sock_err rs = do {
     ((r, frame), rs1) \<leftarrow> WebSocketServer_ReceiveWsFrame (Some c) frame0 rs;
     if r < 0 then Some ((c, [], False), rs1)
     else if payloadLength frame = 0 then Some ((c, [], False), rs1)
     else do {
       let len16 = (ucast (payloadLength frame) :: u16);
       let rec_dat_len = (if 1024 \<le> len16 then 1024 else len16);
       (case malloc (unat rec_dat_len + 1) of
          None \<Rightarrow> Some ((c, [], False), rs1)
        | Some mem \<Rightarrow> do {
            let (reply, rs2) = recv rs1;
            out \<leftarrow> ws_received c frame rec_dat_len mem reply sock_err;
            Some (out, rs2) }) } }"

section \<open>Masking\<close>

text \<open>The first \<open>n\<close> bytes combined with the key, as the standard defines it.\<close>

definition masked :: "u32 \<Rightarrow> nat \<Rightarrow> u8 list \<Rightarrow> u8 list" where
  "masked key n buf = map (\<lambda>k. if k < n then buf ! k XOR memory_bytes key ! (k mod 4) else buf ! k) [0..<length buf]"

lemma length_masked [simp]: "length (masked key n buf) = length buf"
  by (simp add: masked_def)

lemma masked_masked: "masked key n (masked key n buf) = buf"
  by (rule nth_equalityI) (auto simp: masked_def xor.assoc)

lemma unmask_from_eq:
  "i + n \<le> length buf \<Longrightarrow> unmask_from i n key (masked key i buf) = Some (masked key (i + n) buf)"
proof (induction n arbitrary: i)
  case (Suc n)
  then have "(masked key i buf)[i := (masked key i buf ! i) XOR memory_bytes key ! (i mod 4)] = masked key (i + 1) buf"
    by (intro nth_equalityI) (auto simp: masked_def nth_list_update)
  with Suc.IH [of "i + 1"] Suc.prems show ?case by simp
qed simp

lemma masked_0 [simp]: "masked key 0 buf = buf"
  by (simp add: masked_def map_nth)

lemma unmaskWsPayload_masked:
  "min (unat len) 1024 \<le> length buf \<Longrightarrow>
     unmaskWsPayload buf len key = Some (masked key (min (unat len) 1024) buf)"
  using unmask_from_eq [of 0 "min (unat len) 1024" buf key] by (simp add: unmaskWsPayload_def)

section \<open>The handshake key\<close>

lemma length_UUID: "length WebSocket_UUID = 36"
  by (simp add: WebSocket_UUID_def)

lemma accept_key:
  assumes "length (buffer s0) = 16" "length key \<le> 475" "28 < n"
  shows "WebSocketServer_CreateAcceptKey s0 key n = Some (Some (b64_text (sha1 (key @ WebSocket_UUID))))"
proof -
  have "length (key @ WebSocket_UUID) < 2 ^ 32" using assms by (simp add: length_UUID)
  from digest_of [OF assms(1) this] obtain s' where
    "do { s \<leftarrow> sha1_write (key @ WebSocket_UUID) (sha1_init s0); sha1_result s } =
      Some (s', sha1 (key @ WebSocket_UUID))" by blast
  moreover have "WebSocketServer_CreateAcceptKey s0 key n =
    do { s \<leftarrow> sha1_write (key @ WebSocket_UUID) (sha1_init s0); sha1_result s } \<bind>
      (\<lambda>(s, h). Some (base64_encode (take 20 h) n))"
    using assms(2) by (simp add: WebSocketServer_CreateAcceptKey_def length_UUID Option.bind_assoc)
  ultimately show ?thesis using assms(3) by (simp add: length_sha1 base64_encode_eq)
qed

section \<open>Headers\<close>

lemma big_endian_2: "big_endian [a, b] 0 2 0 = Some (push_bit 8 (ucast a) OR ucast b)"
  by (simp add: numeral_2_eq_2 cread_def)

lemma big_endian_2_len: "big_endian [ucast (drop_bit 8 len), ucast len] 0 2 0 = Some (take_bit 16 len)"
  unfolding big_endian_2 by (auto intro!: bit_word_eqI simp: bit_simps not_bit_u8)


lemma big_endian_8: "big_endian [a, b, c, d, e, f, g, h] 0 8 0 =
  Some (push_bit 8 (push_bit 8 (push_bit 8 (push_bit 8 (push_bit 8 (push_bit 8 (push_bit 8 (ucast a)
    OR ucast b) OR ucast c) OR ucast d) OR ucast e) OR ucast f) OR ucast g) OR ucast h)"
  by (simp add: eval_nat_numeral cread_def)

lemma big_endian_8_len:
  "big_endian [ucast (drop_bit 56 len), ucast (drop_bit 48 len), ucast (drop_bit 40 len), ucast (drop_bit 32 len),
     ucast (drop_bit 24 len), ucast (drop_bit 16 len), ucast (drop_bit 8 len), ucast len] 0 8 0 = Some len"
proof -
  have step: "push_bit 8 (drop_bit (k + 8) len) OR ucast (ucast (drop_bit k len) :: u8) = drop_bit k len" for k
  proof (rule bit_word_eqI)
    fix n assume n: "n < LENGTH(64)"
    show "bit (push_bit 8 (drop_bit (k + 8) len) OR ucast (ucast (drop_bit k len) :: u8)) n = bit (drop_bit k len) n"
    proof (cases "8 \<le> n")
      case True
      then obtain m where "n = 8 + m" using le_Suc_ex by blast
      with n show ?thesis by (simp add: bit_simps not_bit_u8 add.left_commute add.commute)
    qed (use n in \<open>simp add: bit_simps\<close>)
  qed
  have top: "ucast (ucast (drop_bit 56 len) :: u8) = drop_bit 56 len"
    by (rule bit_word_eqI) (auto simp: bit_simps dest: bit_imp_le_length)
  show ?thesis unfolding big_endian_8 top using step [of 48] step [of 40] step [of 32] step [of 24]
    step [of 16] step [of 8] step [of 0] by simp
qed


text \<open>A header is received as its first two bytes, the extended length, and the masking key.\<close>

definition extended_length :: "64 word \<Rightarrow> u8 list" where
  "extended_length len = (if 65535 < len then [ucast (drop_bit 56 len), ucast (drop_bit 48 len),
       ucast (drop_bit 40 len), ucast (drop_bit 32 len), ucast (drop_bit 24 len), ucast (drop_bit 16 len),
       ucast (drop_bit 8 len), ucast len]
     else if 125 < len then [ucast (drop_bit 8 len), ucast len] else [])"

definition length_code :: "64 word \<Rightarrow> u8" where
  "length_code len = (if 65535 < len then 127 else if 125 < len then 126 else ucast len)"

definition reply_of :: "u8 list \<Rightarrow> reply list" where
  "reply_of bs = (if bs = [] then [] else [(int (length bs), bs)])"

lemma recv_Cons [simp]: "recv (r # rs) = (r, rs)"
  by (simp add: recv_def)

lemma length_code_masks:
  "(length_code len OR m) AND 0x7F = length_code len" if "m \<in> {0, 0x80}"
proof -
  have "length_code len AND 0x7F = length_code len"
  proof (cases "125 < len")
    case False
    then have "unat len \<le> 125" by (simp add: word_le_nat_alt not_less)
    then have "take_bit 7 len = len"
      by (simp add: word_unat_eq_iff unsigned_take_bit_eq take_bit_nat_eq_self)
    then have "bit len n \<Longrightarrow> n < 7" for n by (metis bit_take_bit_iff)
    then have "(ucast len :: u8) AND mask 7 = ucast len"
      by (intro bit_word_eqI) (auto simp: bit_simps)
    then show ?thesis using False by (simp add: length_code_def masks)
  qed (simp add: length_code_def)
  with that show ?thesis by (auto simp: word_bw_assocs bit.conj_disj_distrib2)
qed


lemma length_code_value:
  "ucast (length_code len) = (if 65535 < len then 127 else if 125 < len then 126 else len)"
proof -
  have "ucast (ucast len :: u8) = len" if "\<not> 125 < len"
  proof -
    have "unat len \<le> 125" using that by (simp add: word_le_nat_alt not_less)
    then show ?thesis by (simp add: word_unat_eq_iff unsigned_ucast_eq unsigned_take_bit_eq take_bit_nat_eq_self)
  qed
  then show ?thesis by (simp add: length_code_def)
qed

lemma length_code_bit7: "(length_code len OR m) AND 0x80 = m" if "m \<in> {0, 0x80}"
proof -
  have "length_code len AND 0x80 = (length_code len AND 0x7F) AND 0x80"
    using length_code_masks [of 0 len] by simp
  also have "\<dots> = 0" by (simp add: and.assoc)
  finally show ?thesis using that by (auto simp: bit.conj_disj_distrib2)
qed

lemma small_length: "\<not> 65535 < len \<Longrightarrow> take_bit 16 len = (len :: 64 word)"
  by (simp add: word_unat_eq_iff unsigned_take_bit_eq take_bit_nat_eq_self word_less_nat_alt)

lemma receive_header:
  assumes "\<not> connection_destruct_flag c" "0 \<le> socket_id c" "m \<in> {0, 0x80}"
  shows "WebSocketServer_ReceiveWsFrame (Some c) frame
      ((2, [b0, length_code len OR m]) # reply_of (extended_length len) @ rs) =
    recv_key (frame\<lparr>flags := b0 AND 0xF0, opcode := b0 AND 0x0F, isMasked := m, payloadLength := len\<rparr>) rs"
proof -
  let ?start = "\<lambda>r rs2. case r of Inl ret \<Rightarrow> Some ((ret, frame\<lparr>flags := b0 AND 0xF0, opcode := b0 AND 0x0F,
      isMasked := m, payloadLength := ucast (length_code len)\<rparr>), rs2)
    | Inr l \<Rightarrow> recv_key (frame\<lparr>flags := b0 AND 0xF0, opcode := b0 AND 0x0F, isMasked := m, payloadLength := l\<rparr>) rs2"
  have "WebSocketServer_ReceiveWsFrame (Some c) frame
      ((2, [b0, length_code len OR m]) # reply_of (extended_length len) @ rs) =
    (if (ucast (length_code len) :: 64 word) = 126 then recv_length 2 (reply_of (extended_length len) @ rs)
     else if (ucast (length_code len) :: 64 word) = 127 then recv_length 8 (reply_of (extended_length len) @ rs)
     else Some (Inr (ucast (length_code len)), reply_of (extended_length len) @ rs)) \<bind> (\<lambda>(r, rs2). ?start r rs2)"
    using assms(1,2) by (simp add: WebSocketServer_ReceiveWsFrame_def Let_def length_code_masks [OF assms(3)]
      length_code_bit7 [OF assms(3)] cong: if_cong sum.case_cong)
  also have "\<dots> = recv_key (frame\<lparr>flags := b0 AND 0xF0, opcode := b0 AND 0x0F, isMasked := m, payloadLength := len\<rparr>) rs"
  proof (cases "65535 < len")
    case True
    then have "recv_length 8 (reply_of (extended_length len) @ rs) = Some (Inr len, rs)"
      by (simp add: recv_length_def reply_of_def extended_length_def big_endian_8_len)
    with True show ?thesis by (simp add: length_code_value)
  next
    case False
    show ?thesis
    proof (cases "125 < len")
      case True
      then have "recv_length 2 (reply_of (extended_length len) @ rs) = Some (Inr len, rs)"
        using False by (simp add: recv_length_def reply_of_def extended_length_def big_endian_2_len small_length)
      with True False show ?thesis by (simp add: length_code_value)
    next
      case small: False
      then have "len \<noteq> 126" "len \<noteq> 127" by auto
      with small False show ?thesis by (simp add: length_code_value reply_of_def extended_length_def)
    qed
  qed
  finally show ?thesis .
qed


section \<open>Frames of a client\<close>

text \<open>The replies of the socket layer to a client that sends the masked frame of a payload.\<close>

definition client_frame :: "u8 \<Rightarrow> u32 \<Rightarrow> u8 list \<Rightarrow> reply list" where
  "client_frame b0 key p = (let len = of_nat (length p) in
     (2, [b0, length_code len OR 0x80]) # reply_of (extended_length len) @
     [(4, memory_bytes key), (int (length p), masked key (length p) p)])"

lemma recv_key_masked:
  "isMasked frame \<noteq> 0 \<Longrightarrow> recv_key frame ((4, memory_bytes key) # rs) =
     Some ((0, frame\<lparr>maskingKey := key\<rparr>), rs)"
  by (simp add: recv_key_def memory_bytes_def cread_def)

lemma masked_append_zero: "masked key (length p) (masked key (length p) p @ [0]) = p @ [0]"
  by (rule nth_equalityI) (auto simp: masked_def nth_append xor.assoc less_Suc_eq)

lemma ws_received_data:
  assumes "0 < length p" "length p \<le> 1024" "length mem = length p + 1" "isMasked frame \<noteq> 0"
  shows "ws_received c frame (of_nat (length p)) mem
      (int (length p), masked (maskingKey frame) (length p) p) sock_err =
    (if opcode frame = OPCODE_PING then do {
         es \<leftarrow> HTTPd_WebsocketServer_Send_Message (Some c) (p @ [0]) (of_nat (length p)) WEBSOCK_FLAG_PONG;
         Some (c, TimerStop # map Net es @ [TimerRestart], False) }
       else if opcode frame = OPCODE_CLOSE then
         Some (c\<lparr>connection_destruct_flag := True\<rparr>, [TimerStop], False)
       else Some (c, [TimerStop, OnMessage frame (p @ [0]), TimerRestart], False))"
proof -
  let ?m = "masked (maskingKey frame) (length p) p"
  have u16: "unat (of_nat (length p) :: u16) = length p"
    using assms by (simp add: unat_of_nat take_bit_nat_eq_self)
  have len: "unat (ucast (of_nat (length p) :: u16) :: 64 word) = length p"
    using assms by (simp add: unsigned_ucast_eq u16 take_bit_nat_eq_self)
  have len64: "(ucast (of_nat (length p) :: u16) :: 64 word) = of_nat (length p)"
    using assms by (simp add: word_unat_eq_iff len unat_of_nat take_bit_nat_eq_self)
  have pos: "0 < (of_nat (length p) :: u16)" using assms u16 by (simp add: word_less_nat_alt)
  obtain z where z: "drop (length p) mem = [z]"
    using assms(3) by (cases "drop (length p) mem") (auto dest: arg_cong [of _ _ length])
  have "cwrite (?m @ drop (length p) mem) (int (length p)) 0 = Some (?m @ [0])"
    by (simp add: z cwrite_def list_update_append)
  moreover have "unmaskWsPayload (?m @ [0]) (ucast (of_nat (length p) :: u16)) (maskingKey frame) = Some (p @ [0])"
    using assms by (simp add: unmaskWsPayload_masked len masked_append_zero)
  ultimately show ?thesis using assms pos
    by (simp add: ws_received_def len64)
qed


lemma ws_serve_frame:
  assumes c: "\<not> connection_destruct_flag c" "0 \<le> socket_id c"
    and p: "0 < length p" "length p \<le> 1024"
    and mem: "malloc (length p + 1) = Some mem" "length mem = length p + 1"
  shows "ws_serve c frame0 malloc sock_err (client_frame b0 key p @ rs) =
    do { out \<leftarrow> ws_received c \<lparr>flags = b0 AND 0xF0, opcode = b0 AND 0x0F, isMasked = 0x80,
           payloadLength = of_nat (length p), maskingKey = key\<rparr> (of_nat (length p)) mem
           (int (length p), masked key (length p) p) sock_err;
         Some (out, rs) }"
proof -
  let ?len = "of_nat (length p) :: 64 word" and ?l16 = "of_nat (length p) :: u16"
  have u64: "unat ?len = length p" using p by (simp add: unat_of_nat take_bit_nat_eq_self)
  have u16: "unat ?l16 = length p" using p by (simp add: unat_of_nat take_bit_nat_eq_self)
  have c16: "(ucast ?len :: u16) = ?l16"
    using p by (simp add: word_unat_eq_iff unsigned_ucast_eq unsigned_take_bit_eq u64 u16 take_bit_nat_eq_self)
  have clip: "(if 1024 \<le> ?l16 then 1024 else ?l16) = ?l16"
  proof -
    have "1024 \<le> ?l16 \<Longrightarrow> ?l16 = 1024" using p u16 by (simp add: word_unat_eq_iff word_le_nat_alt)
    then show ?thesis by simp
  qed
  have nz: "?len \<noteq> 0" using p u64 by auto
  have "WebSocketServer_ReceiveWsFrame (Some c) frame0 (client_frame b0 key p @ rs) =
    Some ((0, \<lparr>flags = b0 AND 0xF0, opcode = b0 AND 0x0F, isMasked = 0x80,
       payloadLength = ?len, maskingKey = key\<rparr>), (int (length p), masked key (length p) p) # rs)"
    using receive_header [OF c, of "0x80" frame0 b0 ?len] by (simp add: client_frame_def Let_def recv_key_masked)
  then show ?thesis
    by (simp only: ws_serve_def bind.simps prod.case HTTPd_WSFrame.simps c16 Let_def clip u16 mem option.case recv_Cons)
      (simp add: nz)
qed

lemma ws_serve_data:
  assumes "\<not> connection_destruct_flag c" "0 \<le> socket_id c" "0 < length p" "length p \<le> 1024"
    "malloc (length p + 1) = Some mem" "length mem = length p + 1"
  defines "frame \<equiv> \<lambda>b0 key. \<lparr>flags = b0 AND 0xF0, opcode = b0 AND 0x0F, isMasked = 0x80,
       payloadLength = of_nat (length p), maskingKey = key\<rparr>"
  shows "ws_serve c frame0 malloc sock_err (client_frame b0 key p @ rs) =
    (if b0 AND 0x0F = OPCODE_PING then do {
         es \<leftarrow> HTTPd_WebsocketServer_Send_Message (Some c) (p @ [0]) (of_nat (length p)) WEBSOCK_FLAG_PONG;
         Some ((c, TimerStop # map Net es @ [TimerRestart], False), rs) }
       else if b0 AND 0x0F = OPCODE_CLOSE then
         Some ((c\<lparr>connection_destruct_flag := True\<rparr>, [TimerStop], False), rs)
       else Some ((c, [TimerStop, OnMessage (frame b0 key) (p @ [0]), TimerRestart], False), rs))"
  using ws_received_data [of p mem "frame b0 key" c sock_err] assms(3,4,6)
  by (simp add: ws_serve_frame [where malloc = malloc and mem = mem, OF assms(1-6)] frame_def Option.bind_assoc)

lemma length_byte: "ucast (of_nat n :: 64 word) = (of_nat n :: u8)"
  by (rule bit_word_eqI) (auto simp: bit_unsigned_iff bit_of_nat_iff)

section \<open>Properties\<close>

definition ws_client :: "unit connection" where
  "ws_client = (closed_client 3)\<lparr>websocket_client := True, websocket_auth := True\<rparr>"

definition empty_frame :: HTTPd_WSFrame where
  "empty_frame = \<lparr>flags = 0, opcode = 0, isMasked = 0, payloadLength = 0, maskingKey = 0\<rparr>"

text \<open>
  C13: A masked text, binary or continuation frame with 1 to 1024 bytes of payload, delivered
  completely, reaches the message callback exactly as the client sent it: the callback gets the
  frame's opcode and length and the unmasked payload followed by a zero byte, the timeout is
  stopped before and restarted after it, and nothing else is read from the socket.
\<close>

theorem client_message_delivered:
  assumes "\<not> connection_destruct_flag c" "0 \<le> socket_id c" "0 < length p" "length p \<le> 1024"
    "malloc (length p + 1) = Some mem" "length mem = length p + 1" "b0 AND 0x0F \<in> {0, OPCODE_TEXT, OPCODE_BINARY}"
  shows "ws_serve c frame0 malloc sock_err (client_frame b0 key p @ rs) =
    Some ((c, [TimerStop, OnMessage \<lparr>flags = b0 AND 0xF0, opcode = b0 AND 0x0F, isMasked = 0x80,
       payloadLength = of_nat (length p), maskingKey = key\<rparr> (p @ [0]), TimerRestart], False), rs)"
  using assms(7) by (auto simp: ws_serve_data [where malloc = malloc and mem = mem, OF assms(1-6)])

theorem client_message_delivered_witness:
  "\<exists>frame. ws_serve ws_client empty_frame (\<lambda>n. Some (replicate n 7)) (0, 0) (client_frame 0x81 0xCAFE [104, 105]) =
     Some ((ws_client, [TimerStop, OnMessage frame [104, 105, 0], TimerRestart], False), [])"
proof -
  have "ws_serve ws_client empty_frame (\<lambda>n. Some (replicate n 7)) (0, 0) (client_frame 0x81 0xCAFE [104, 105] @ []) =
    Some ((ws_client, [TimerStop, OnMessage \<lparr>flags = 0x81 AND 0xF0, opcode = 0x81 AND 0x0F, isMasked = 0x80,
       payloadLength = of_nat (length [104 :: u8, 105]), maskingKey = 0xCAFE\<rparr> ([104, 105] @ [0]), TimerRestart], False), [])"
    by (rule client_message_delivered [where mem = "replicate (length [104 :: u8, 105] + 1) 7"])
      (simp_all add: ws_client_def closed_client_def)
  then show ?thesis by auto
qed

text \<open>
  C29: What the server sends is a frame that its own receiver reads back: for every length from 1 to
  2^32 - 1 the header that precedes the payload is parsed to the same length, without mask and,
  unless the pong flag is set, with the opcode and the final bit that the flags ask for.
\<close>

theorem sent_header_received:
  assumes "\<not> connection_destruct_flag c" "0 \<le> socket_id c" "len < 2 ^ 32" "fl AND WEBSOCK_FLAG_PONG = 0"
  shows "WebSocketServer_ReceiveWsFrame (Some c) frame
      ((2, take 2 (frame_header len fl)) # reply_of (drop 2 (frame_header len fl)) @ rs) =
    Some ((0, frame\<lparr>flags := (if fl AND WEBSOCK_FLAG_CONT = 0 then FLAG_FIN else 0),
      opcode := (if fl AND WEBSOCK_FLAG_BIN \<noteq> 0 then OPCODE_BINARY else OPCODE_TEXT),
      isMasked := 0, payloadLength := len\<rparr>), rs)"
proof -
  have high: "drop_bit k len = 0" if "32 \<le> k" for k
  proof -
    have "unat len < 2 ^ 32" using assms(3) by (simp add: word_less_nat_alt)
    also have "(2 :: nat) ^ 32 \<le> 2 ^ k" using that by (intro power_increasing) auto
    finally have "unat (drop_bit k len) = 0" unfolding unat_drop_bit_eq by (simp add: drop_bit_eq_div)
    then show ?thesis by (simp only: unat_eq_0)
  qed
  have "take 2 (frame_header len fl) = [frame_options fl, length_code len OR 0]"
    by (simp add: frame_header_def length_code_def)
  moreover have "drop 2 (frame_header len fl) = extended_length len"
    by (simp add: frame_header_def extended_length_def high)
  ultimately have "WebSocketServer_ReceiveWsFrame (Some c) frame
      ((2, take 2 (frame_header len fl)) # reply_of (drop 2 (frame_header len fl)) @ rs) =
    recv_key (frame\<lparr>flags := frame_options fl AND 0xF0, opcode := frame_options fl AND 0x0F,
      isMasked := 0, payloadLength := len\<rparr>) rs"
    using receive_header [OF assms(1,2), of 0 frame "frame_options fl" len rs] by simp
  then show ?thesis using assms(4)
    by (simp add: recv_key_def frame_options_def Let_def)
qed

theorem sent_header_received_witness:
  "WebSocketServer_ReceiveWsFrame (Some ws_client) empty_frame
     ((2, take 2 (frame_header 300 0)) # reply_of (drop 2 (frame_header 300 0)) @ []) =
   Some ((0, empty_frame\<lparr>flags := FLAG_FIN, opcode := OPCODE_TEXT, isMasked := 0, payloadLength := 300\<rparr>), [])"
  using sent_header_received [of ws_client 300 0 empty_frame "[]"] by (simp add: ws_client_def closed_client_def)

text \<open>
  C23: The opening handshake computes the accept key of the standard: for every key that fits the
  buffer it is the base-64 text of the SHA-1 digest of the key followed by the protocol's
  identifier, 28 characters long; a key of more than 475 bytes overruns the 512-byte buffer.
\<close>

theorem accept_key_standard:
  assumes "length (buffer s0) = 16" "28 < n"
  shows "WebSocketServer_CreateAcceptKey s0 key n =
      (if length key \<le> 475 then Some (Some (b64_text (sha1 (key @ WebSocket_UUID)))) else None) \<and>
    length (b64_text (sha1 (key @ WebSocket_UUID))) = 28"
  using assms accept_key [of s0 key n]
  by (auto simp: WebSocketServer_CreateAcceptKey_def length_UUID length_b64_text length_sha1)

theorem accept_key_standard_witness:
  "WebSocketServer_CreateAcceptKey sha1_clean (chars ''dGhlIHNhbXBsZSBub25jZQ=='') 100 =
     Some (Some (b64_text (sha1 (chars ''dGhlIHNhbXBsZSBub25jZQ=='' @ WebSocket_UUID))))"
  using accept_key_standard [of sha1_clean 100 "chars ''dGhlIHNhbXBsZSBub25jZQ==''"]
  by (simp add: sha1_clean_def)

text \<open>
  A broadcast sends one frame to every client of the table that is open, has upgraded and has
  finished the handshake, in the order of the table, and nothing to the others.
\<close>

theorem broadcast_to_clients:
  assumes "len \<noteq> 0" "unat len \<le> length payload"
  shows "HTTPd_WebsocketServer_Send_Brocast_Message cs payload len fl =
    Some (concat (map (\<lambda>c. [Send (socket_id c) (frame_header len fl), Send (socket_id c) (take (unat len) payload)])
      (filter (\<lambda>c. 0 \<le> socket_id c \<and> websocket_client c \<and> websocket_auth c) (List.map_filter id cs))))"
  using assms
  by (induction cs) (auto simp: HTTPd_WebsocketServer_Send_Message_def List.map_filter_simps split: option.splits)

theorem broadcast_to_clients_witness:
  "HTTPd_WebsocketServer_Send_Brocast_Message [None, Some (closed_client 4), Some ws_client] [111, 107] 2 0 =
     Some [Send 3 [0x81, 2], Send 3 [111, 107]]"
  using broadcast_to_clients [of 2 "[111, 107]" "[None, Some (closed_client 4), Some ws_client]" 0]
  by (simp add: ws_client_def closed_client_def List.map_filter_simps frame_header_def frame_options_def Let_def)

text \<open>
  Control frames with a payload: a close frame marks the connection for removal, and a ping is
  answered with its payload, but under the opcode 0xB, which the standard reserves, because the pong
  bit pattern is combined with the text opcode.
\<close>

theorem control_frames:
  assumes "\<not> connection_destruct_flag c" "0 \<le> socket_id c" "0 < length p" "length p \<le> 125"
    "malloc (length p + 1) = Some mem" "length mem = length p + 1" "websocket_client c" "websocket_auth c"
  shows "ws_serve c frame0 malloc sock_err (client_frame 0x88 key p @ rs) =
      Some ((c\<lparr>connection_destruct_flag := True\<rparr>, [TimerStop], False), rs) \<and>
    ws_serve c frame0 malloc sock_err (client_frame 0x89 key p @ rs) =
      Some ((c, [TimerStop, Net (Send (socket_id c) [0x8B, of_nat (length p)]), Net (Send (socket_id c) p),
        TimerRestart], False), rs)"
proof -
  have len: "length p \<le> 1024" "unat (of_nat (length p) :: 64 word) = length p"
    using assms(4) by (simp_all add: unat_of_nat take_bit_nat_eq_self)
  have nz: "(of_nat (length p) :: 64 word) \<noteq> 0" using len(2) assms(3) by auto
  have short: "\<not> 125 < (of_nat (length p) :: 64 word)" "\<not> 65535 < (of_nat (length p) :: 64 word)"
    using len(2) assms(4) by (simp_all add: word_less_nat_alt)
  have "HTTPd_WebsocketServer_Send_Message (Some c) (p @ [0]) (of_nat (length p)) WEBSOCK_FLAG_PONG =
    Some [Send (socket_id c) [0x8B, of_nat (length p)], Send (socket_id c) p]"
    using assms(2,7,8) len nz short
    by (simp add: HTTPd_WebsocketServer_Send_Message_def frame_header_def frame_options_def Let_def length_byte)
  then show ?thesis
    by (simp add: ws_serve_data [where malloc = malloc and mem = mem, OF assms(1-3) len(1) assms(5,6)])
qed

theorem control_frames_witness:
  "ws_serve ws_client empty_frame (\<lambda>n. Some (replicate n 7)) (0, 0) (client_frame 0x89 5 [1] @ []) =
     Some ((ws_client, [TimerStop, Net (Send 3 [0x8B, 1]), Net (Send 3 [1]), TimerRestart], False), [])"
  using control_frames [of ws_client "[1]" "\<lambda>n. Some (replicate n 7)" "replicate 2 7" empty_frame "(0, 0)" 5 "[]"]
  by (simp add: ws_client_def closed_client_def numeral_2_eq_2)

text \<open>
  When the peer has closed the connection (the first read gives 0), the receiver reports success
  and leaves the frame as it was, so the caller goes on with whatever the frame contained.
\<close>

theorem remote_close_taken_for_frame:
  assumes "\<not> connection_destruct_flag c" "0 \<le> socket_id c"
  shows "WebSocketServer_ReceiveWsFrame (Some c) frame ((0, []) # rs) = Some ((0, frame), rs)"
  using assms by (simp add: WebSocketServer_ReceiveWsFrame_def)

theorem remote_close_taken_for_frame_witness:
  "WebSocketServer_ReceiveWsFrame (Some ws_client) empty_frame [(0, [])] = Some ((0, empty_frame), [])"
  using remote_close_taken_for_frame [of ws_client empty_frame "[]"] by (simp add: ws_client_def closed_client_def)

end
