(* ===== verification/HTTPd_JSON.thy ===== *)
theory HTTPd_JSON
  imports WebSocket
begin

text \<open>
  JSON values as the application sees them through cJSON (\<open>Drivers/W-Link/cJSON/cJSON.c\<close>), and the
  functions of \<open>NeonRTOS/HTTPd/HTTPd.c\<close> that send one. The library's parser and printer are
  arguments: \<open>json_print\<close> is the minified text of \<open>cJSON_Print\<close>, or \<open>None\<close> when it has no memory.
\<close>

section \<open>Values\<close>

text \<open>A number is its \<open>valueint\<close>; objects keep their members in order, duplicates included.\<close>

datatype cJSON = cJSON_False | cJSON_True | cJSON_NULL | cJSON_Number int | cJSON_String "u8 list"
  | cJSON_Array "cJSON list" | cJSON_Object "(u8 list \<times> cJSON) list"

definition c_tolower :: "u8 \<Rightarrow> u8" where
  "c_tolower b = (if 65 \<le> b \<and> b \<le> 90 then b + 32 else b)"

text \<open>Both texts end in a zero byte, which the lists leave out.\<close>

fun cJSON_strcasecmp :: "u8 list \<Rightarrow> u8 list \<Rightarrow> int" where
  "cJSON_strcasecmp [] [] = 0"
| "cJSON_strcasecmp (a # s1) [] = uint (c_tolower a)"
| "cJSON_strcasecmp [] (b # s2) = - uint (c_tolower b)"
| "cJSON_strcasecmp (a # s1) (b # s2) =
     (if c_tolower a = c_tolower b then cJSON_strcasecmp s1 s2
      else uint (c_tolower a) - uint (c_tolower b))"

text \<open>The children of an array have no name and match none.\<close>

definition cJSON_GetObjectItem :: "cJSON \<Rightarrow> u8 list \<Rightarrow> cJSON option" where
  "cJSON_GetObjectItem object name = (case object of
     cJSON_Object members \<Rightarrow> map_option snd (find (\<lambda>m. cJSON_strcasecmp (fst m) name = 0) members)
   | _ \<Rightarrow> None)"

text \<open>Building an object: an item that could not be created is left out.\<close>

type_synonym members = "(u8 list \<times> cJSON) list"

definition cJSON_AddItemToObject :: "members \<Rightarrow> string \<Rightarrow> cJSON option \<Rightarrow> members" where
  "cJSON_AddItemToObject object name item = (case item of None \<Rightarrow> object | Some v \<Rightarrow> object @ [(chars name, v)])"

definition cJSON_AddBoolToObject :: "bool \<Rightarrow> members \<Rightarrow> string \<Rightarrow> bool \<Rightarrow> members" where
  "cJSON_AddBoolToObject ok object name b =
     cJSON_AddItemToObject object name (if ok then Some (if b then cJSON_True else cJSON_False) else None)"

definition cJSON_AddNumberToObject :: "bool \<Rightarrow> members \<Rightarrow> string \<Rightarrow> int \<Rightarrow> members" where
  "cJSON_AddNumberToObject ok object name n =
     cJSON_AddItemToObject object name (if ok then Some (cJSON_Number n) else None)"

definition cJSON_AddStringToObject :: "bool \<Rightarrow> members \<Rightarrow> string \<Rightarrow> u8 list \<Rightarrow> members" where
  "cJSON_AddStringToObject ok object name t =
     cJSON_AddItemToObject object name (if ok then Some (cJSON_String t) else None)"

lemmas cJSON_build = cJSON_AddItemToObject_def cJSON_AddBoolToObject_def cJSON_AddNumberToObject_def
  cJSON_AddStringToObject_def

lemma strcasecmp_eq:
  assumes "0 \<notin> set s1" "0 \<notin> set s2"
  shows "cJSON_strcasecmp s1 s2 = 0 \<longleftrightarrow> map c_tolower s1 = map c_tolower s2"
proof -
  have lower: "uint (c_tolower a) \<noteq> 0" if "a \<noteq> 0" for a :: u8
  proof -
    have "c_tolower a \<noteq> 0"
    proof (cases "65 \<le> a \<and> a \<le> 90")
      case True
      then have "unat (a + 32) = unat a + 32" by (subst unat_add_lem [THEN iffD1]) (auto simp: word_le_nat_alt)
      then show ?thesis using True by (auto simp: c_tolower_def)
    qed (use that in \<open>auto simp: c_tolower_def\<close>)
    then show ?thesis by (simp add: uint_0_iff)
  qed
  show ?thesis using assms
    by (induction s1 s2 rule: cJSON_strcasecmp.induct) (auto simp: lower dest: word_uint_eqI)
qed

section \<open>Sending values\<close>

definition HTTPd_Send_CGI_JSON_Response ::
  "(cJSON \<Rightarrow> u8 list option) \<Rightarrow> 'h connection option \<Rightarrow> u16 \<Rightarrow> cJSON option \<Rightarrow> bool \<Rightarrow> int \<Rightarrow>
     (net_event list \<times> int) option"
where
  "HTTPd_Send_CGI_JSON_Response json_print connData status_code rsp_dat mem_ok socket_status =
     (if connData = None then Some ([], HTTPD_CGI_DONE)
      else case rsp_dat of
        None \<Rightarrow> Some ([], HTTPD_CGI_DONE)
      | Some v \<Rightarrow> (case json_print v of
          None \<Rightarrow> Some ([], HTTPD_CGI_DONE)
        | Some json_str \<Rightarrow> HTTPd_Send_CGI_Response connData status_code (chars ''json'') json_str
            (of_nat (length json_str)) mem_ok socket_status))"

definition WebsocketServer_SendJSONMessage ::
  "(cJSON \<Rightarrow> u8 list option) \<Rightarrow> 'h connection option \<Rightarrow> cJSON option \<Rightarrow> net_event list option"
where
  "WebsocketServer_SendJSONMessage json_print c data = (case data of
     None \<Rightarrow> Some []
   | Some v \<Rightarrow> (case json_print v of
       None \<Rightarrow> Some []
     | Some json_str \<Rightarrow> HTTPd_WebsocketServer_Send_Message c json_str
         (of_nat (length json_str)) WEBSOCK_FLAG_NONE))"

definition WebsocketServer_SendBrocastJSONMessage ::
  "(cJSON \<Rightarrow> u8 list option) \<Rightarrow> 'h clients \<Rightarrow> cJSON option \<Rightarrow> net_event list option"
where
  "WebsocketServer_SendBrocastJSONMessage json_print cs data = (case data of
     None \<Rightarrow> Some []
   | Some v \<Rightarrow> (case json_print v of
       None \<Rightarrow> Some []
     | Some json_str \<Rightarrow> HTTPd_WebsocketServer_Send_Brocast_Message cs json_str
         (of_nat (length json_str)) WEBSOCK_FLAG_NONE))"

section \<open>What is sent\<close>

text \<open>The open clients that have upgraded, in the order of the table.\<close>

definition listeners :: "'h clients \<Rightarrow> 'h connection list" where
  "listeners cs = filter (\<lambda>c. 0 \<le> socket_id c \<and> websocket_client c \<and> websocket_auth c) (List.map_filter id cs)"

definition message_to :: "u8 list \<Rightarrow> 'h connection \<Rightarrow> net_event list" where
  "message_to t c = [Send (socket_id c) (frame_header (of_nat (length t)) WEBSOCK_FLAG_NONE), Send (socket_id c) t]"

lemma length_64:
  assumes "length t < 2 ^ 64"
  shows "unat (of_nat (length t) :: 64 word) = length t" "of_nat (length t) = (0 :: 64 word) \<longleftrightarrow> t = []"
proof -
  show u: "unat (of_nat (length t) :: 64 word) = length t"
    using assms by (simp add: unat_of_nat take_bit_nat_eq_self)
  then show "of_nat (length t) = (0 :: 64 word) \<longleftrightarrow> t = []" by force
qed

lemma broadcast_json:
  assumes "json_print v = Some t" "t \<noteq> []" "length t < 2 ^ 64"
  shows "WebsocketServer_SendBrocastJSONMessage json_print cs (Some v) =
    Some (concat (map (message_to t) (listeners cs)))"
proof -
  have "HTTPd_WebsocketServer_Send_Brocast_Message cs t (of_nat (length t)) WEBSOCK_FLAG_NONE =
      Some (concat (map (message_to t) (listeners cs)))"
    using length_64 [OF assms(3)] assms(2)
    by (induction cs) (auto simp: HTTPd_WebsocketServer_Send_Message_def listeners_def message_to_def
        List.map_filter_simps split: option.splits)
  then show ?thesis using assms(1) by (simp add: WebsocketServer_SendBrocastJSONMessage_def)
qed

text \<open>The status line and headers of a JSON response.\<close>

definition json_head :: "'h connection \<Rightarrow> u16 \<Rightarrow> u8 list" where
  "json_head c code = status_line (uint code) @ server_header @ connection_headers (connetion_mode c) @
     header_line (chars ''Content-Type'') (mime_of (chars ''json'')) @
     header_line (chars ''Access-Control-Allow-Origin'') (chars ''*'') @ CRLF"

lemma json_response_sent:
  assumes "json_print v = Some t" "t \<noteq> []" "length t < 2 ^ 64" "0 \<le> socket_status"
  shows "HTTPd_Send_CGI_JSON_Response json_print (Some c) code (Some v) True socket_status =
    Some ([Send (socket_id c) (json_head c code), Send (socket_id c) t], HTTPD_CGI_DONE)"
  using assms length_64 [OF assms(3)]
  by (simp add: HTTPd_Send_CGI_JSON_Response_def send_CGI_response json_head_def Let_def)

end
