(* ===== verification/C_Text.thy ===== *)
theory C_Text
  imports HTTP_Builder "HOL-Library.Sublist"
begin

text \<open>
  The string functions of the C library that the server reads its input with, over a buffer and
  positions in it. A string ends at its zero byte; a search that would run past the buffer because
  there is none is undefined (\<open>None\<close>). A pointer that may be NULL is an option.
\<close>

lemma bind_SomeE:
  assumes "m \<bind> f = Some y"
  obtains x where "m = Some x" "f x = Some y"
  using assms by (auto simp: bind_eq_Some_conv)

section \<open>Numbers\<close>

text \<open>\<open>strtol\<close> with base 10: the value and the text behind the number (all of it when there is none);
  a value out of range is the nearest \<open>long\<close>.\<close>

definition c_space :: "u8 \<Rightarrow> bool" where
  "c_space b \<longleftrightarrow> b = 32 \<or> 9 \<le> b \<and> b \<le> 13"

definition c_digit :: "u8 \<Rightarrow> bool" where
  "c_digit b \<longleftrightarrow> 48 \<le> b \<and> b \<le> 57"

definition digits_value :: "u8 list \<Rightarrow> int" where
  "digits_value ds = foldl (\<lambda>n d. 10 * n + (uint d - 48)) 0 ds"

definition strtol :: "u8 list \<Rightarrow> int \<times> u8 list" where
  "strtol t = (let
     t1 = dropWhile c_space t;
     neg = (t1 \<noteq> [] \<and> hd t1 = 45);
     t2 = (if t1 \<noteq> [] \<and> (hd t1 = 45 \<or> hd t1 = 43) then tl t1 else t1);
     ds = takeWhile c_digit t2;
     n = digits_value ds
     in if ds = [] then (0, t)
        else (max (- (2 ^ 31)) (min (2 ^ 31 - 1) (if neg then - n else n)), dropWhile c_digit t2))"

text \<open>\<open>atoi\<close>.\<close>

definition atoi :: "u8 list \<Rightarrow> int" where
  "atoi t = fst (strtol t)"

lemma digit_char:
  assumes "k < 10"
  shows "uint (of_nat (48 + k) :: u8) = 48 + int k" "c_digit (of_nat (48 + k))"
proof -
  have u: "unat (of_nat (48 + k) :: u8) = 48 + k"
    using assms by (simp only: unat_of_nat) (simp add: take_bit_nat_eq_self)
  then show "uint (of_nat (48 + k) :: u8) = 48 + int k" by (metis uint_nat of_nat_add of_nat_numeral)
  show "c_digit (of_nat (48 + k))" unfolding c_digit_def word_le_nat_alt u using assms by simp
qed

lemma digits_read: "digits n \<noteq> [] \<and> (\<forall>d\<in>set (digits n). c_digit d) \<and> digits_value (digits n) = int n"
proof (induction n rule: digits.induct)
  case (1 n)
  show ?case
  proof (cases "n < 10")
    case True
    then show ?thesis using digit_char [of n] by (simp add: digits_value_def digits.simps [of n] del: digits.simps)
  next
    case False
    have m: "n mod 10 < 10" by simp
    from False 1 [OF False] digits.simps [of n] have "digits n = digits (n div 10) @ [of_nat (48 + n mod 10)]"
      "digits_value (digits (n div 10)) = int (n div 10)" "\<forall>d\<in>set (digits (n div 10)). c_digit d" by auto
    moreover have "10 * int (n div 10) + int (n mod 10) = int n" by presburger
    ultimately show ?thesis using digit_char [OF m] by (simp add: digits_value_def del: digits.simps)
  qed
qed

lemma decimal_not_Nil: "decimal n \<noteq> []"
  using digits_read [of "nat n"] by (simp add: decimal_def)

lemma strtol_decimal:
  assumes "0 \<le> n" "n < 2 ^ 31" "t = [] \<or> \<not> c_digit (hd t)"
  shows "strtol (decimal n @ t) = (n, t)"
proof -
  let ?ds = "digits (nat n)"
  have ds: "?ds \<noteq> []" "\<forall>d\<in>set ?ds. c_digit d" "digits_value ?ds = n"
    using digits_read [of "nat n"] assms by auto
  then have "c_digit (hd ?ds)" by simp
  then have hd: "\<not> c_space (hd ?ds)" "hd ?ds \<noteq> 45" "hd ?ds \<noteq> 43"
    by (auto simp: c_digit_def c_space_def word_le_nat_alt)
  have "dropWhile c_space (?ds @ t) = ?ds @ t" using hd(1) ds(1) by (cases ?ds) auto
  moreover have "takeWhile c_digit (?ds @ t) = ?ds" "dropWhile c_digit (?ds @ t) = t"
    using ds(2) assms(3) by (cases t; simp)+
  moreover have "decimal n = ?ds" using assms(1) by (simp add: decimal_def)
  moreover have "?ds @ t \<noteq> []" "hd (?ds @ t) = hd ?ds" using ds(1) by simp_all
  ultimately show ?thesis using ds(1,3) hd assms(1,2) by (simp add: strtol_def Let_def)
qed

section \<open>Strings in a buffer\<close>

definition c_string :: "u8 list \<Rightarrow> nat \<Rightarrow> u8 list option" where
  "c_string buf p = (if 0 \<in> set (drop p buf) then Some (takeWhile (\<lambda>b. b \<noteq> 0) (drop p buf)) else None)"

fun find_text :: "u8 list \<Rightarrow> u8 list \<Rightarrow> nat option" where
  "find_text needle [] = (if needle = [] then Some 0 else None)"
| "find_text needle (b # t) =
     (if take (length needle) (b # t) = needle then Some 0 else map_option Suc (find_text needle t))"

definition strstr :: "u8 list \<Rightarrow> nat \<Rightarrow> u8 list \<Rightarrow> nat option option" where
  "strstr buf p needle = map_option (\<lambda>t. map_option ((+) p) (find_text needle t)) (c_string buf p)"

text \<open>\<open>strncmp\<close> of the text at a position with a literal of that length, as a test for equality; it
  stops at the first difference.\<close>

fun starts_at :: "u8 list \<Rightarrow> int \<Rightarrow> u8 list \<Rightarrow> bool option" where
  "starts_at buf p [] = Some True"
| "starts_at buf p (c # lit) = do {
     b \<leftarrow> cread buf p;
     if b = c then starts_at buf (p + 1) lit else Some False }"

text \<open>Loops that move a pointer while a character satisfies a test; the backward one counts the bytes
  up to and including the character it looks at.\<close>

function skip_over :: "(u8 \<Rightarrow> bool) \<Rightarrow> u8 list \<Rightarrow> nat \<Rightarrow> nat option" where
  "skip_over P buf p = do {
     b \<leftarrow> cread buf (int p);
     if P b then skip_over P buf (p + 1) else Some p }"
  by pat_completeness auto
termination
  by (relation "measure (\<lambda>(P, buf, p). length buf - p)") (auto simp: cread_Some_iff)

declare skip_over.simps [simp del]

fun skip_back :: "(u8 \<Rightarrow> bool) \<Rightarrow> u8 list \<Rightarrow> nat \<Rightarrow> nat option" where
  "skip_back P buf 0 = None"
| "skip_back P buf (Suc p) = do {
     b \<leftarrow> cread buf (int p);
     if P b then skip_back P buf p else Some (Suc p) }"

section \<open>Searching\<close>

lemma find_text_None: "find_text needle t = None \<longleftrightarrow> \<not> sublist needle t"
proof (induction t)
  case (Cons b t)
  have "prefix needle (b # t) \<longleftrightarrow> take (length needle) (b # t) = needle"
    by (metis append_eq_conv_conj prefix_def append_take_drop_id)
  with Cons show ?case by (simp add: sublist_Cons_right)
qed simp

lemma find_text_prefix: "t \<noteq> [] \<or> needle = [] \<Longrightarrow> prefix needle t \<Longrightarrow> find_text needle t = Some 0"
  by (cases t) (auto simp: prefix_def)

lemma find_text_found:
  assumes "find_text needle t = Some k"
  shows "k + length needle \<le> length t \<and> take (length needle) (drop k t) = needle"
  using assms
proof (induction t arbitrary: k)
  case (Cons b t)
  show ?case
  proof (cases "take (length needle) (b # t) = needle")
    case True
    then have "length needle \<le> length (b # t)" by (metis length_take min.cobounded1)
    with True Cons.prems show ?thesis by simp
  next
    case False
    with Cons.prems obtain j where "find_text needle t = Some j" "k = Suc j" by auto
    with Cons.IH [of j] show ?thesis by simp
  qed
qed (simp split: if_splits)

section \<open>Texts around a separator\<close>

lemma prefix_sep:
  assumes "x \<notin> set n"
  shows "prefix n (a @ x # b) \<longleftrightarrow> prefix n a"
proof
  assume "prefix n (a @ x # b)"
  then consider "prefix n a" | us where "n = a @ us" "prefix us (x # b)" by (auto simp: prefix_append)
  then show "prefix n a"
  proof cases
    case 2
    then have "us = []" using assms by (cases us) auto
    with 2 show ?thesis by simp
  qed
qed (simp add: prefix_append)

lemma sublist_sep:
  assumes "x \<notin> set n"
  shows "sublist n (a @ x # b) \<longleftrightarrow> sublist n a \<or> sublist n b"
proof (induction a)
  case Nil
  have "prefix n (x # b) \<longleftrightarrow> n = []" using prefix_sep [OF assms, of "[]" b] by simp
  then show ?case by (auto simp: sublist_Cons_right)
next
  case (Cons y a)
  then show ?case using prefix_sep [OF assms, of "y # a" b] by (auto simp: sublist_Cons_right)
qed

lemma take_prefix: "take (length n) t = n \<longleftrightarrow> prefix n t"
  by (metis append_eq_conv_conj append_take_drop_id prefix_def)

lemma find_text_Cons:
  "find_text n (b # t) = (if prefix n (b # t) then Some 0 else map_option Suc (find_text n t))"
  by (simp add: take_prefix del: take_Cons)

text \<open>Behind a text without the needle the search goes on, in front of it the needle is found.\<close>

lemma find_text_sep:
  assumes "x \<notin> set n" "n \<noteq> []"
  shows "find_text n (a @ x # b) = (case find_text n a of Some i \<Rightarrow> Some i
    | None \<Rightarrow> map_option ((+) (Suc (length a))) (find_text n b))"
proof (induction a)
  case Nil
  have "\<not> prefix n (x # b)" using assms by (cases n) auto
  then show ?case using assms(2) by (cases "find_text n b") (simp_all add: find_text_Cons del: find_text.simps(2))
next
  case (Cons y a)
  have "find_text n ((y # a) @ x # b) = (if prefix n (y # a) then Some 0 else map_option Suc (find_text n (a @ x # b)))"
    using prefix_sep [OF assms(1), of "y # a" b] by (simp add: find_text_Cons del: find_text.simps(2))
  then show ?case unfolding Cons.IH
    by (cases "find_text n a"; cases "find_text n b") (auto simp: find_text_Cons simp del: find_text.simps(2))
qed

lemma find_text_single: "x \<notin> set a \<Longrightarrow> find_text [x] (a @ x # b) = Some (length a)"
  by (induction a) auto

lemma find_CRLF: "10 \<notin> set a \<Longrightarrow> find_text CRLF (a @ CRLF @ b) = Some (length a)"
proof (induction a)
  case (Cons y a)
  have "\<not> prefix CRLF (y # a @ CRLF @ b)" using Cons.prems by (cases a) (auto simp: CRLF_def)
  then show ?case using Cons by (simp add: find_text_Cons del: find_text.simps(2))
qed (simp add: find_text_prefix CRLF_def)

section \<open>Searches at a position\<close>

lemma drop_Cons_at: "drop p buf = b # r \<Longrightarrow> p < length buf \<and> buf ! p = b \<and> drop (Suc p) buf = r"
  using Cons_nth_drop_Suc [of p buf] by (cases "p < length buf") auto

lemma cread_drop: "drop p buf = b # r \<Longrightarrow> cread buf (int p) = Some b"
  by (simp add: cread_Some_iff drop_Cons_at [of p buf b r])

lemma takeWhile_nonzero: "0 \<notin> set t \<Longrightarrow> takeWhile (\<lambda>b. b \<noteq> 0) (t @ 0 # r) = (t :: u8 list)"
  by (induction t) auto

lemma cread_nat: "k < length buf \<Longrightarrow> cread buf (int k) = Some (buf ! k)"
  by simp

lemma c_string_drop: "drop p buf = t @ 0 # r \<Longrightarrow> 0 \<notin> set t \<Longrightarrow> c_string buf p = Some t"
  using takeWhile_nonzero [of t r] by (simp add: c_string_def)

lemma strstr_drop:
  "drop p buf = t @ 0 # r \<Longrightarrow> 0 \<notin> set t \<Longrightarrow> strstr buf p n = Some (map_option ((+) p) (find_text n t))"
  by (simp add: strstr_def c_string_drop)

lemma starts_at_drop:
  "length lit \<le> length (drop p buf) \<Longrightarrow> starts_at buf (int p) lit = Some (prefix lit (drop p buf))"
proof (induction lit arbitrary: p)
  case (Cons c lit)
  then obtain b r where d: "drop p buf = b # r" by (cases "drop p buf") auto
  then have r: "drop (Suc p) buf = r" using drop_Cons_at [of p buf b r] by simp
  have p: "int p + 1 = int (Suc p)" by simp
  have "starts_at buf (int p) (c # lit) = (if b = c then starts_at buf (int (Suc p)) lit else Some False)"
    unfolding starts_at.simps p cread_drop [OF d] by simp
  also have "starts_at buf (int (Suc p)) lit = Some (prefix lit r)"
    using Cons.IH [of "Suc p"] Cons.prems d unfolding r by simp
  finally show ?case using d by auto
qed simp

lemma skip_over_drop:
  "drop p buf = a @ b # r \<Longrightarrow> \<forall>x\<in>set a. P x \<Longrightarrow> \<not> P b \<Longrightarrow> skip_over P buf p = Some (p + length a)"
proof (induction a arbitrary: p)
  case Nil
  then show ?case using cread_drop [of p buf b r] by (subst skip_over.simps) simp
next
  case (Cons x a)
  then have d: "drop p buf = x # (a @ b # r)" by simp
  then have "drop (p + 1) buf = a @ b # r" using drop_Cons_at by fastforce
  with Cons cread_drop [OF d] show ?case by (subst skip_over.simps) simp
qed

lemma skip_back_take:
  "take p buf = x @ b # a \<Longrightarrow> p \<le> length buf \<Longrightarrow> \<forall>c\<in>set a. P c \<Longrightarrow> \<not> P b \<Longrightarrow>
    skip_back P buf p = Some (Suc (length x))"
proof (induction a arbitrary: p rule: rev_induct)
  case Nil
  then obtain q where q: "p = Suc q" by (cases p) auto
  then have "take q buf @ [buf ! q] = x @ [b]" using Nil by (simp add: take_Suc_conv_app_nth)
  then have "buf ! q = b" "q = length x" using Nil q by (auto simp: min_def)
  with Nil q show ?case by (simp add: cread_def)
next
  case (snoc c a)
  then obtain q where q: "p = Suc q" by (cases p) auto
  then have "take q buf @ [buf ! q] = (x @ b # a) @ [c]" using snoc.prems by (simp add: take_Suc_conv_app_nth)
  then have "take q buf = x @ b # a" "buf ! q = c" by (metis append1_eq_conv)+
  with snoc q show ?case by (simp add: cread_def)
qed

end
