(* ===== verification/JSON_Number.thy ===== *)
theory JSON_Number
  imports HTTPd_JSON C_Text Complex_Main "HOL-Library.Log_Nat"
begin

text \<open>
  Numbers in JSON texts: \<open>parse_number\<close> and \<open>print_number\<close> of \<open>Drivers/W-Link/cJSON/cJSON.c\<close>. The parser
  computes in \<open>double\<close>s: every operation is rounded to the nearest one, ties to even, and what is undefined
  is \<open>None\<close> (an infinite value, an \<open>int\<close> out of its range, a read behind the text). A finite \<open>double\<close> is a
  rational number. \<open>pow10 k\<close> is what the library's \<open>pow(10.0, k)\<close> returns, \<open>None\<close> when it is infinite.
\<close>

section \<open>Calls that fail\<close>

text \<open>What a function of the parser or the printer does: undefined behaviour (\<open>None\<close>), a failure that
  returns NULL (\<open>Inl\<close>) or a result.\<close>

type_synonym ('e, 'a) outcome = "('e + 'a) option"

definition and_then :: "('e, 'a) outcome \<Rightarrow> ('a \<Rightarrow> ('e, 'b) outcome) \<Rightarrow> ('e, 'b) outcome" where
  "and_then r f = (case r of None \<Rightarrow> None | Some (Inl e) \<Rightarrow> Some (Inl e) | Some (Inr x) \<Rightarrow> f x)"

lemma and_then_simps [simp]:
  "and_then None f = None" "and_then (Some (Inl e)) f = Some (Inl e)" "and_then (Some (Inr x)) f = f x"
  by (simp_all add: and_then_def)

lemma and_then_cong [fundef_cong]:
  "r = s \<Longrightarrow> (\<And>x. s = Some (Inr x) \<Longrightarrow> f x = g x) \<Longrightarrow> and_then r f = and_then s g"
  by (cases s; cases "the s") auto

lemma and_then_Inr: "and_then r f = Some (Inr y) \<longleftrightarrow> (\<exists>x. r = Some (Inr x) \<and> f x = Some (Inr y))"
  by (cases r; cases "the r") auto

section \<open>Doubles\<close>

definition round_even :: "rat \<Rightarrow> int" where
  "round_even x = (let q = \<lfloor>x\<rfloor>; r = x - of_int q in if r < 1/2 \<or> r = 1/2 \<and> even q then q else q + 1)"

text \<open>The exponent of a positive number: the \<open>k\<close> with \<open>2\<^sup>k \<le> x < 2\<^sup>k\<^sup>+\<^sup>1\<close>.\<close>

definition binary_exponent :: "rat \<Rightarrow> int" where
  "binary_exponent x = (case quotient_of x of (a, b) \<Rightarrow>
     let k = int (floorlog 2 (nat a)) - int (floorlog 2 (nat b)) in if 2 powi k \<le> x then k else k - 1)"

text \<open>The first power of two that is too large.\<close>

definition double_bound :: rat where
  "double_bound = 2 ^ 1024"

definition to_double :: "rat \<Rightarrow> rat option" where
  "to_double x = (
     if x = 0 then Some 0
     else let u = 2 powi (max (- 1074) (binary_exponent x - 52)); y = of_int (round_even (x / u)) * u
       in if y < double_bound then Some y else None)"

section \<open>Reading a number\<close>

function number_digits :: "u8 list \<Rightarrow> nat \<Rightarrow> rat \<Rightarrow> nat \<Rightarrow> (rat \<times> nat \<times> nat) option" where
  "number_digits buf p n k = do {
     b \<leftarrow> cread buf (int p);
     if c_digit b then do {
       n1 \<leftarrow> to_double (n * 10);
       n2 \<leftarrow> to_double (n1 + of_int (uint b - 48));
       number_digits buf (p + 1) n2 (k + 1) }
     else Some (n, k, p) }"
  by pat_completeness auto
termination
  by (relation "measure (\<lambda>(buf, p, n, k). length buf - p)") (auto simp: cread_Some_iff)

declare number_digits.simps [simp del]

function exponent_digits :: "u8 list \<Rightarrow> nat \<Rightarrow> int \<Rightarrow> (int \<times> nat) option" where
  "exponent_digits buf p e = do {
     b \<leftarrow> cread buf (int p);
     if c_digit b then
       (let e1 = e * 10 + (uint b - 48) in if e1 < 2 ^ 31 then exponent_digits buf (p + 1) e1 else None)
     else Some (e, p) }"
  by pat_completeness auto
termination
  by (relation "measure (\<lambda>(buf, p, e). length buf - p)") (auto simp: cread_Some_iff)

declare exponent_digits.simps [simp del]

text \<open>The parts of a number: digits after an optional zero, a fraction that has at least one digit, whose
  length is counted, and an exponent.\<close>

definition whole_part :: "u8 list \<Rightarrow> nat \<Rightarrow> (rat \<times> nat) option" where
  "whole_part buf p = do {
     b \<leftarrow> cread buf (int p);
     let q = (if b = 48 then p + 1 else p);
     b1 \<leftarrow> cread buf (int q);
     if 49 \<le> b1 \<and> b1 \<le> 57 then do { (n, _, q1) \<leftarrow> number_digits buf q 0 0; Some (n, q1) }
     else Some (0, q) }"

definition fraction_part :: "u8 list \<Rightarrow> nat \<Rightarrow> rat \<Rightarrow> (rat \<times> nat \<times> nat) option" where
  "fraction_part buf p n = do {
     b \<leftarrow> cread buf (int p);
     if b = 46 then do {
       b1 \<leftarrow> cread buf (int (p + 1));
       if c_digit b1 then number_digits buf (p + 1) n 0 else Some (n, 0, p) }
     else Some (n, 0, p) }"

definition exponent_part :: "u8 list \<Rightarrow> nat \<Rightarrow> (int \<times> nat) option" where
  "exponent_part buf p = do {
     b \<leftarrow> cread buf (int p);
     if b = 101 \<or> b = 69 then do {
       b1 \<leftarrow> cread buf (int (p + 1));
       if b1 = 43 then exponent_digits buf (p + 2) 0
       else if b1 = 45 then do { (e, q) \<leftarrow> exponent_digits buf (p + 2) 0; Some (- e, q) }
       else exponent_digits buf (p + 1) 0 }
     else Some (0, p) }"

text \<open>\<open>(int)(sign * n * pow(10.0, k))\<close>.\<close>

definition scaled_int :: "(int \<Rightarrow> rat option) \<Rightarrow> bool \<Rightarrow> rat \<Rightarrow> int \<Rightarrow> int option" where
  "scaled_int pow10 neg n k = do {
     s \<leftarrow> pow10 k;
     x \<leftarrow> to_double (n * s);
     let v = (if neg then - \<lfloor>x\<rfloor> else \<lfloor>x\<rfloor>);
     if - (2 ^ 31) \<le> v \<and> v < 2 ^ 31 then Some v else None }"

text \<open>The \<open>valueint\<close> of the item and the position behind the number.\<close>

definition parse_number :: "(int \<Rightarrow> rat option) \<Rightarrow> u8 list \<Rightarrow> nat \<Rightarrow> (int \<times> nat) option" where
  "parse_number pow10 buf p = do {
     b \<leftarrow> cread buf (int p);
     (n, p1) \<leftarrow> whole_part buf (if b = 45 then p + 1 else p);
     (n1, scale, p2) \<leftarrow> fraction_part buf p1 n;
     (subscale, p3) \<leftarrow> exponent_part buf p2;
     v \<leftarrow> scaled_int pow10 (b = 45) n1 (subscale - int scale);
     Some (v, p3) }"

text \<open>What is printed for a number without a fraction, that is when \<open>valuedouble\<close> is \<open>valueint\<close>, as it is for
  the numbers that the application builds. The formats of other numbers are not modelled.\<close>

definition print_number :: "int \<Rightarrow> u8 list" where
  "print_number valueint = decimal valueint"

section \<open>Whole numbers are exact\<close>

lemma round_even_int: "round_even (of_int i) = i"
  by (simp add: round_even_def)

lemma binary_exponent_nat:
  assumes "0 < m"
  shows "binary_exponent (of_nat m) = int (floorlog 2 m) - 1"
proof -
  have q: "quotient_of (of_nat m) = (int m, 1)" using quotient_of_int [of "int m"] by simp
  obtain f where f: "floorlog 2 m = Suc f" using assms by (cases "floorlog 2 m") (auto simp: floorlog_def split: if_splits)
  have "m < 2 ^ Suc f" using floorlog_bounds [of m 2] assms f by auto
  then have "(of_nat m :: rat) < of_nat (2 ^ Suc f)" by (simp only: of_nat_less_iff)
  then have below: "\<not> (2 :: rat) powi int (Suc f) \<le> of_nat m" unfolding power_int_of_nat by simp
  have le: "2 ^ f \<le> m" using floorlog_bounds [of m 2] assms f by auto
  then have "of_nat (2 ^ f) \<le> (of_nat m :: rat)" by (simp only: of_nat_le_iff)
  then have "(2 :: rat) powi int f \<le> of_nat m" unfolding power_int_of_nat by simp
  moreover have "floorlog 2 1 = 1" by (simp add: floorlog_def)
  ultimately show ?thesis using f by (simp add: binary_exponent_def q)
qed

lemma to_double_nat:
  assumes "m < 2 ^ 53"
  shows "to_double (of_nat m) = Some (of_nat m)"
proof (cases "m = 0")
  case False
  then obtain f where f: "floorlog 2 m = Suc f" by (cases "floorlog 2 m") (auto simp: floorlog_def split: if_splits)
  then have "2 ^ f \<le> m" using floorlog_bounds [of m 2] False by auto
  with assms have "(2 :: nat) ^ f < 2 ^ 53" by linarith
  then have f53: "f < 53" by (simp only: power_strict_increasing_iff)
  then have e: "max (- 1074) (binary_exponent (of_nat m) - 52) = - int (52 - f)"
    using binary_exponent_nat [of m] False f by simp
  have u: "(2 :: rat) powi (- int (52 - f)) = 1 / 2 ^ (52 - f)"
    by (simp only: power_int_minus power_int_of_nat inverse_eq_divide)
  have "of_nat m / (1 / 2 ^ (52 - f)) = (of_int (int m * 2 ^ (52 - f)) :: rat)" by simp
  then have r: "round_even (of_nat m / (1 / 2 ^ (52 - f))) = int m * 2 ^ (52 - f)" by (metis round_even_int)
  have "(of_nat m :: rat) < of_nat (2 ^ 1024)"
    using assms power_strict_increasing [of 53 1024 "2 :: nat"] by (simp only: of_nat_less_iff) linarith
  then have bound: "(of_nat m :: rat) < double_bound" unfolding double_bound_def by (simp only: of_nat_power of_nat_numeral)
  have y: "of_int (int m * 2 ^ (52 - f)) * (1 / 2 ^ (52 - f)) = (of_nat m :: rat)" by simp
  have "to_double (of_nat m) = (if of_nat m < double_bound then Some (of_nat m) else None)"
    using False unfolding to_double_def Let_def e u r y by simp
  with bound show ?thesis by simp
qed (simp add: to_double_def)

section \<open>Reading what was printed\<close>

lemma digits_foldl: "foldl (\<lambda>n d. 10 * n + (uint d - 48)) a ds = a * 10 ^ length ds + digits_value (ds :: u8 list)"
proof (induction ds arbitrary: a)
  case (Cons d ds)
  show ?case using Cons [of "10 * a + (uint d - 48)"] Cons [of "uint d - 48"]
    by (simp add: digits_value_def algebra_simps)
qed (simp add: digits_value_def)

lemma digit_value: "c_digit d \<Longrightarrow> 0 \<le> uint d - 48 \<and> uint d - 48 < 10"
  by (auto simp: c_digit_def word_le_def)

lemma digits_value_Cons: "digits_value (d # ds) = (uint d - 48) * 10 ^ length ds + digits_value ds"
  using digits_foldl [of "uint d - 48" ds] by (simp add: digits_value_def)

lemma digits_value_nonneg: "\<forall>d\<in>set ds. c_digit d \<Longrightarrow> 0 \<le> digits_value ds"
proof (induction ds)
  case (Cons d ds)
  then show ?case using digit_value [of d] by (simp add: digits_value_Cons)
qed (simp add: digits_value_def)

lemma number_digits_read:
  assumes "drop p buf = ds @ c # r" "\<forall>d\<in>set ds. c_digit d" "\<not> c_digit c"
    "int a * 10 ^ length ds + digits_value ds < 2 ^ 53"
  shows "number_digits buf p (of_nat a) k =
    Some (of_int (int a * 10 ^ length ds + digits_value ds), k + length ds, p + length ds)"
  using assms
proof (induction ds arbitrary: p a k)
  case Nil
  then show ?case using cread_drop [of p buf c r] by (subst number_digits.simps) (simp add: digits_value_def)
next
  case (Cons d ds)
  let ?v = "nat (uint d - 48)" let ?a = "a * 10 + ?v"
  have digit: "c_digit d" using Cons.prems by simp
  then have v: "int ?v = uint d - 48" using digit_value by simp
  have d: "cread buf (int p) = Some d" "drop (p + 1) buf = ds @ c # r"
    using cread_drop [of p buf d] drop_Cons_at [of p buf d] Cons.prems(1) by auto
  have total: "int ?a * 10 ^ length ds + digits_value ds = int a * 10 ^ length (d # ds) + digits_value (d # ds)"
    unfolding of_nat_add v by (simp add: digits_value_Cons algebra_simps)
  have "int x \<le> int x * 10 ^ length ds" for x :: nat
    using mult_left_mono [of 1 "10 ^ length ds" "int x"] by simp
  from this [of ?a] have "int ?a < int (2 ^ 53)" using total Cons.prems digits_value_nonneg [of ds] by fastforce
  then have small: "?a < 2 ^ 53" "a * 10 < 2 ^ 53" unfolding of_nat_less_iff by linarith+
  have steps: "to_double (of_nat a * 10) = Some (of_nat (a * 10))"
    "to_double (of_nat (a * 10) + of_int (uint d - 48)) = Some (of_nat ?a)"
    using to_double_nat [OF small(2)] to_double_nat [OF small(1)] v
    by (simp, metis of_nat_add of_int_of_nat_eq)
  have "number_digits buf p (of_nat a) k = number_digits buf (p + 1) (of_nat ?a) (k + 1)"
    using d(1) digit steps by (subst number_digits.simps) (simp del: of_nat_add)
  then show ?case using Cons.IH [of "p + 1" ?a "k + 1"] d(2) Cons.prems unfolding total by simp
qed

text \<open>A printed number starts with a digit other than zero, unless it is zero.\<close>

lemma hd_digits: "0 < n \<Longrightarrow> hd (digits n) \<noteq> 48"
proof (induction n rule: digits.induct)
  case (1 n)
  show ?case
  proof (cases "n < 10")
    case True
    then have "unat (of_nat (48 + n) :: u8) = 48 + n" by (simp only: unat_of_nat) (simp add: take_bit_nat_eq_self)
    then have "(of_nat (48 + n) :: u8) \<noteq> 48" using 1 by force
    then show ?thesis using True by (simp add: digits.simps [of n])
  next
    case False
    then have "0 < n div 10" by (simp add: div_greater_zero_iff)
    then show ?thesis using 1 False digits_read [of "n div 10"] by (simp add: digits.simps [of n])
  qed
qed

text \<open>A digit follows neither a number nor its sign.\<close>

definition ends_number :: "u8 \<Rightarrow> bool" where
  "ends_number c \<longleftrightarrow> \<not> c_digit c \<and> c \<noteq> 46 \<and> c \<noteq> 101 \<and> c \<noteq> 69"

lemma digit_19: "c_digit d \<Longrightarrow> d \<noteq> 48 \<Longrightarrow> 49 \<le> d \<and> d \<le> 57"
  by (auto simp: c_digit_def word_le_nat_alt unat_arith_simps)

lemma whole_part_read:
  assumes "drop p buf = digits n @ c # r" "ends_number c" "n < 2 ^ 53"
  shows "whole_part buf p = Some (of_nat n, p + length (digits n))"
proof (cases "n = 0")
  case True
  then have d: "drop p buf = 48 # c # r" using assms(1) by (simp add: digits.simps [of 0])
  then have "drop (p + 1) buf = c # r" using drop_Cons_at [of p buf] by auto
  moreover have "\<not> (49 \<le> c \<and> c \<le> 57)"
    using assms(2) by (auto simp: ends_number_def c_digit_def word_le_nat_alt)
  ultimately show ?thesis
    using True cread_drop [OF d] cread_drop [of "p + 1" buf c r] by (auto simp: digits.simps [of 0] whole_part_def)
next
  case False
  obtain d ds where ds: "digits n = d # ds" using digits_read [of n] by (cases "digits n") auto
  then have "49 \<le> d \<and> d \<le> 57" "d \<noteq> 48"
    using digits_read [of n] hd_digits [of n] False digit_19 [of d] by auto
  moreover have "cread buf (int p) = Some d" using cread_drop [of p buf d] assms(1) ds by simp
  moreover have "number_digits buf p (of_nat 0) 0 =
      Some (of_int (int 0 * 10 ^ length (digits n) + digits_value (digits n)), 0 + length (digits n), p + length (digits n))"
    using assms digits_read [of n] by (intro number_digits_read) (auto simp: ends_number_def)
  ultimately show ?thesis using digits_read [of n] by (simp add: whole_part_def)
qed

lemma drop_behind: "drop p buf = a @ b \<Longrightarrow> drop (p + length a) buf = b"
  by (metis add.commute append_eq_conv_conj drop_drop)

lemma json_number_read:
  assumes "pow10 0 = Some 1" "drop p buf = print_number v @ c # r" "ends_number c" "- (2 ^ 31) \<le> v" "v < 2 ^ 31"
  shows "parse_number pow10 buf p = Some (v, p + length (print_number v))"
proof -
  define n where "n = nat \<bar>v\<bar>"
  define q where "q = (if v < 0 then p + 1 else p)"
  have n: "n \<le> 2 ^ 31" "n < 2 ^ 53" using assms(4,5) by (auto simp: n_def)
  have len: "q + length (digits n) = p + length (print_number v)"
    by (simp add: q_def n_def print_number_def decimal_def)
  have q: "drop q buf = digits n @ c # r"
  proof (cases "v < 0")
    case True
    then have "drop p buf = 45 # digits n @ c # r" using assms(2) by (simp add: print_number_def decimal_def n_def)
    with True show ?thesis using drop_Cons_at [of p buf] by (auto simp: q_def)
  qed (use assms(2) in \<open>simp add: print_number_def decimal_def n_def q_def\<close>)
  have "\<exists>b. cread buf (int p) = Some b \<and> (b = 45 \<longleftrightarrow> v < 0)"
  proof (cases "v < 0")
    case True
    then show ?thesis using cread_drop [of p buf 45] assms(2) by (auto simp: print_number_def decimal_def)
  next
    case False
    obtain d ds where ds: "digits n = d # ds" using digits_read [of n] by (cases "digits n") auto
    then have "d \<noteq> 45" using digits_read [of n] by (auto simp: c_digit_def)
    then show ?thesis using False q ds cread_drop [of p buf d] by (auto simp: q_def)
  qed
  then obtain b where b: "cread buf (int p) = Some b" "b = 45 \<longleftrightarrow> v < 0" by blast
  have c: "cread buf (int (q + length (digits n))) = Some c" by (rule cread_drop [OF drop_behind [OF q]])
  then have rest: "fraction_part buf (q + length (digits n)) x = Some (x, 0, q + length (digits n))"
    "exponent_part buf (q + length (digits n)) = Some (0, q + length (digits n))" for x
    using assms(3) by (simp_all add: fraction_part_def exponent_part_def ends_number_def)
  have scaled: "scaled_int pow10 (v < 0) (of_nat n) 0 = Some v"
    using to_double_nat [OF n(2)] assms(1,4,5) by (auto simp: scaled_int_def n_def)
  show ?thesis using whole_part_read [OF q assms(3) n(2)] b rest scaled
    by (cases "v < 0") (simp_all add: parse_number_def q_def flip: len)
qed

section \<open>Progress\<close>

text \<open>A number that starts with a sign or a digit takes at least one character.\<close>

lemma number_digits_progress: "number_digits buf p n k = Some (n1, k1, q) \<Longrightarrow> p \<le> q"
proof (induction buf p n k rule: number_digits.induct)
  case (1 buf p n k)
  from 1(2) obtain b where b: "cread buf (int p) = Some b" by (subst (asm) number_digits.simps) (auto elim: bind_SomeE)
  show ?case
  proof (cases "c_digit b")
    case True
    with b 1(2) obtain n1' n2' where "to_double (n * 10) = Some n1'" "to_double (n1' + of_int (uint b - 48)) = Some n2'"
      "number_digits buf (p + 1) n2' (k + 1) = Some (n1, k1, q)"
      by (subst (asm) number_digits.simps) (auto elim!: bind_SomeE)
    with 1(1) [OF b True] show ?thesis by fastforce
  qed (use b 1(2) in \<open>subst (asm) number_digits.simps, simp\<close>)
qed

lemma exponent_digits_progress: "exponent_digits buf p e = Some (e1, q) \<Longrightarrow> p \<le> q"
proof (induction buf p e rule: exponent_digits.induct)
  case (1 buf p e)
  from 1(2) obtain b where b: "cread buf (int p) = Some b" by (subst (asm) exponent_digits.simps) (auto elim: bind_SomeE)
  show ?case
  proof (cases "c_digit b")
    case True
    with b 1(2) have e: "e * 10 + (uint b - 48) < 2 ^ 31"
      "exponent_digits buf (p + 1) (e * 10 + (uint b - 48)) = Some (e1, q)"
      by (subst (asm) exponent_digits.simps; auto simp: Let_def split: if_splits)+
    with 1(1) [OF b True] show ?thesis by fastforce
  qed (use b 1(2) in \<open>subst (asm) exponent_digits.simps, simp\<close>)
qed

lemma number_starts:
  "number_digits buf p n k = Some (n1, k1, q) \<Longrightarrow> cread buf (int p) = Some b \<Longrightarrow> c_digit b \<Longrightarrow> p < q"
  by (subst (asm) number_digits.simps) (auto elim!: bind_SomeE dest!: number_digits_progress)

lemma whole_part_progress:
  assumes "whole_part buf p = Some (n, q)"
  shows "p \<le> q" "cread buf (int p) = Some b \<Longrightarrow> c_digit b \<Longrightarrow> p < q"
proof -
  have d: "49 \<le> b \<and> b \<le> 57 \<Longrightarrow> c_digit b" "c_digit b \<Longrightarrow> b \<noteq> 48 \<Longrightarrow> 49 \<le> b \<and> b \<le> 57" for b
    using digit_19 [of b] by (auto simp: c_digit_def word_le_nat_alt)
  show "p \<le> q" using assms unfolding whole_part_def
    by (auto elim!: bind_SomeE dest!: number_digits_progress split: if_splits)
  show "p < q" if "cread buf (int p) = Some b" "c_digit b"
    using assms that d(2) [of b] unfolding whole_part_def
    by (cases "b = 48") (auto elim!: bind_SomeE dest: number_digits_progress number_starts split: if_splits
      dest: number_digits_progress [THEN Suc_le_lessD])
qed

lemma fraction_part_progress: "fraction_part buf p n = Some (n1, k, q) \<Longrightarrow> p \<le> q"
  unfolding fraction_part_def by (auto elim!: bind_SomeE dest!: number_digits_progress split: if_splits)

lemma exponent_part_progress: "exponent_part buf p = Some (e, q) \<Longrightarrow> p \<le> q"
  unfolding exponent_part_def by (auto elim!: bind_SomeE dest!: exponent_digits_progress split: if_splits)

lemma scaled_int_range: "scaled_int pow10 neg n k = Some v \<Longrightarrow> - (2 ^ 31) \<le> v \<and> v < 2 ^ 31"
  unfolding scaled_int_def Let_def by (auto elim!: bind_SomeE split: if_splits)

lemma number_parsed:
  assumes "parse_number pow10 buf p = Some (v, q)"
  shows "- (2 ^ 31) \<le> v \<and> v < 2 ^ 31" "cread buf (int p) = Some b \<Longrightarrow> b = 45 \<or> c_digit b \<Longrightarrow> p < q"
proof -
  obtain c n p1 n1 k p2 e where c: "cread buf (int p) = Some c"
    "whole_part buf (if c = 45 then p + 1 else p) = Some (n, p1)" "fraction_part buf p1 n = Some (n1, k, p2)"
    "exponent_part buf p2 = Some (e, q)" "scaled_int pow10 (c = 45) n1 (e - int k) = Some v"
    using assms unfolding parse_number_def by (auto elim!: bind_SomeE)
  then show "- (2 ^ 31) \<le> v \<and> v < 2 ^ 31" using scaled_int_range by blast
  have "p1 \<le> q" using fraction_part_progress [OF c(3)] exponent_part_progress [OF c(4)] by simp
  then show "p < q" if "cread buf (int p) = Some b" "b = 45 \<or> c_digit b"
    using whole_part_progress [OF c(2)] c(1) that by (auto split: if_splits)
qed

end
