(* ===== verification/JSON_String.thy ===== *)
theory JSON_String
  imports JSON_Number
begin

text \<open>
  Strings in JSON texts: \<open>parse_hex4\<close>, \<open>parse_string\<close> and \<open>print_string_ptr\<close> of
  \<open>Drivers/W-Link/cJSON/cJSON.c\<close>. Each measures its text, allocates a buffer and writes into it; a byte
  written behind the buffer is undefined (\<open>None\<close>). The last number of arguments and results, \<open>m\<close>, counts
  the allocations that will still succeed.
\<close>

section \<open>Reading a string\<close>

definition hex_value :: "u8 \<Rightarrow> u32 option" where
  "hex_value b = (
     if 48 \<le> b \<and> b \<le> 57 then Some (ucast b - 48)
     else if 65 \<le> b \<and> b \<le> 70 then Some (10 + (ucast b - 65))
     else if 97 \<le> b \<and> b \<le> 102 then Some (10 + (ucast b - 97))
     else None)"

text \<open>The digits one by one, 0 when one of them is none.\<close>

fun hex_digits :: "u8 list \<Rightarrow> nat \<Rightarrow> nat \<Rightarrow> u32 \<Rightarrow> u32 option" where
  "hex_digits buf p 0 h = Some h"
| "hex_digits buf p (Suc n) h = do {
     b \<leftarrow> cread buf (int p);
     case hex_value b of None \<Rightarrow> Some 0 | Some v \<Rightarrow> hex_digits buf (p + 1) n (push_bit 4 h + v) }"

definition parse_hex4 :: "u8 list \<Rightarrow> nat \<Rightarrow> u32 option" where
  "parse_hex4 buf p = hex_digits buf p 4 0"

definition firstByteMark :: "u32 list" where
  "firstByteMark = [0x00, 0x00, 0xC0, 0xE0, 0xF0, 0xF8, 0xFC]"

text \<open>The bytes of a character, from the last one to the first.\<close>

fun utf8_bytes :: "nat \<Rightarrow> nat \<Rightarrow> u32 \<Rightarrow> u8 list \<Rightarrow> u8 list" where
  "utf8_bytes len 0 uc bs = bs"
| "utf8_bytes len (Suc 0) uc bs = ucast (uc OR firstByteMark ! len) # bs"
| "utf8_bytes len (Suc k) uc bs = utf8_bytes len k (drop_bit 6 uc) (ucast ((uc OR 0x80) AND 0xBF) # bs)"

definition utf8 :: "u32 \<Rightarrow> u8 list" where
  "utf8 uc = (let len = (if uc < 0x80 then 1 else if uc < 0x800 then 2 else if uc < 0x10000 then 3 else 4)
     in utf8_bytes len len uc [])"

text \<open>The escape sequence whose \<open>u\<close> is at \<open>p\<close>: the bytes written and where the pointer is left.\<close>

definition unicode_escape :: "u8 list \<Rightarrow> nat \<Rightarrow> (u8 list \<times> nat) option" where
  "unicode_escape buf p = do {
     uc \<leftarrow> parse_hex4 buf (p + 1);
     if 0xDC00 \<le> uc \<and> uc \<le> 0xDFFF \<or> uc = 0 then Some ([], p + 4)
     else if 0xD800 \<le> uc \<and> uc \<le> 0xDBFF then do {
       b1 \<leftarrow> cread buf (int (p + 5));
       if b1 \<noteq> 92 then Some ([], p + 4)
       else do {
         b2 \<leftarrow> cread buf (int (p + 6));
         if b2 \<noteq> 117 then Some ([], p + 4)
         else do {
           uc2 \<leftarrow> parse_hex4 buf (p + 7);
           if uc2 < 0xDC00 \<or> 0xDFFF < uc2 then Some ([], p + 10)
           else Some (utf8 (0x10000 + (push_bit 10 (uc AND 0x3FF) OR (uc2 AND 0x3FF))), p + 10) } } }
     else Some (utf8 uc, p + 4) }"

lemma unicode_escape_progress: "unicode_escape buf p = Some (bs, q) \<Longrightarrow> p < q"
  unfolding unicode_escape_def by (auto elim!: bind_SomeE split: if_splits)

definition simple_escape :: "u8 \<Rightarrow> u8" where
  "simple_escape e = (
     if e = 98 then 8 else if e = 102 then 12 else if e = 110 then 10 else if e = 114 then 13
     else if e = 116 then 9 else e)"

text \<open>The length of the string, roughly.\<close>

function string_length :: "u8 list \<Rightarrow> nat \<Rightarrow> nat option" where
  "string_length buf p = do {
     b \<leftarrow> cread buf (int p);
     if b = 34 \<or> b = 0 then Some 0
     else map_option Suc (string_length buf (if b = 92 then p + 2 else p + 1)) }"
  by pat_completeness auto
termination
  by (relation "measure (\<lambda>(buf, p). length buf - p)") (auto simp: cread_Some_iff split: if_splits)

declare string_length.simps [simp del]

text \<open>The copy into a buffer of \<open>cap\<close> bytes: what was written and the position behind the string.\<close>

function unescape :: "u8 list \<Rightarrow> nat \<Rightarrow> nat \<Rightarrow> u8 list \<Rightarrow> (u8 list \<times> nat) option" where
  "unescape buf cap p out = do {
     b \<leftarrow> cread buf (int p);
     if b = 34 \<or> b = 0 then
       (if length out < cap then Some (out, if b = 34 then p + 1 else p) else None)
     else if b \<noteq> 92 then
       (if length out < cap then unescape buf cap (p + 1) (out @ [b]) else None)
     else do {
       e \<leftarrow> cread buf (int (p + 1));
       (bs, q) \<leftarrow> (if e = 117 then unicode_escape buf (p + 1) else Some ([simple_escape e], p + 1));
       if length out + length bs \<le> cap then unescape buf cap (q + 1) (out @ bs) else None } }"
  by pat_completeness auto
termination
  by (relation "measure (\<lambda>(buf, cap, p, out). length buf - p)")
    (auto simp: cread_Some_iff dest!: unicode_escape_progress split: if_splits)

declare unescape.simps [simp del]

text \<open>A failure carries the error pointer \<open>ep\<close>, NULL when there is no memory. The value is the text up to
  its first zero byte.\<close>

type_synonym 'a parsed = "(nat option, 'a) outcome"

definition parse_string :: "u8 list \<Rightarrow> nat \<Rightarrow> nat \<Rightarrow> (u8 list \<times> nat \<times> nat) parsed" where
  "parse_string buf p m = do {
     b \<leftarrow> cread buf (int p);
     if b \<noteq> 34 then Some (Inl (Some p))
     else do {
       len \<leftarrow> string_length buf (p + 1);
       if m = 0 then Some (Inl None)
       else do {
         (out, q) \<leftarrow> unescape buf (len + 1) (p + 1) [];
         Some (Inr (takeWhile (\<lambda>b. b \<noteq> 0) out, q, m - 1)) } } }"

lemma unescape_progress: "unescape buf cap p out = Some (s, q) \<Longrightarrow> p \<le> q"
proof (induction buf cap p out rule: unescape.induct)
  case (1 buf cap p out)
  from 1(3) obtain b where b: "cread buf (int p) = Some b" by (subst (asm) unescape.simps) (auto elim: bind_SomeE)
  note unfolded = 1(3) [unfolded unescape.simps [of buf cap p out] b]
  consider "b = 34 \<or> b = 0" | "b \<noteq> 34" "b \<noteq> 0" "b \<noteq> 92" | "b = 92" by blast
  then show ?case
  proof cases
    case 1
    with unfolded show ?thesis by (auto split: if_splits)
  next
    case 2
    with unfolded have "unescape buf cap (p + 1) (out @ [b]) = Some (s, q)" "length out < cap"
      by (auto split: if_splits)
    then have "p + 1 \<le> q" using 1(1) [OF b] 2 by blast
    then show ?thesis by simp
  next
    case 3
    with unfolded obtain e bs r where e: "cread buf (int (p + 1)) = Some e"
      "(if e = 117 then unicode_escape buf (p + 1) else Some ([simple_escape e], p + 1)) = Some (bs, r)"
      "length out + length bs \<le> cap" "unescape buf cap (r + 1) (out @ bs) = Some (s, q)"
      by (auto elim!: bind_SomeE split: if_splits)
    then have "r + 1 \<le> q" using 1(2) [OF b _ _ e(1) e(2) _ e(3)] 3 by simp
    moreover have "p < r" using e(2) by (auto split: if_splits dest: unicode_escape_progress)
    ultimately show ?thesis by simp
  qed
qed

lemma string_parsed:
  assumes "parse_string buf p m = Some (Inr (s, q, m1))"
  shows "p < q" "0 \<notin> set s" "cread buf (int p) = Some 34"
proof -
  obtain len out where "unescape buf (len + 1) (p + 1) [] = Some (out, q)" "s = takeWhile (\<lambda>b. b \<noteq> 0) out"
    "cread buf (int p) = Some 34"
    using assms unfolding parse_string_def by (auto elim!: bind_SomeE split: if_splits)
  then show "p < q" "0 \<notin> set s" "cread buf (int p) = Some 34"
    by (auto dest: unescape_progress set_takeWhileD)
qed

section \<open>Writing a string\<close>

text \<open>A text and its zero byte in a new buffer.\<close>

definition new_text :: "nat \<Rightarrow> u8 list \<Rightarrow> nat \<Rightarrow> (unit, u8 list \<times> nat) outcome" where
  "new_text n t m = (if m = 0 then Some (Inl ()) else if length t < n then Some (Inr (t, m - 1)) else None)"

definition hex_char :: "u8 \<Rightarrow> u8" where
  "hex_char v = (if v < 10 then 48 + v else 87 + v)"

definition escape_char :: "u8 \<Rightarrow> u8 list" where
  "escape_char b = (
     if 31 < b \<and> b \<noteq> 34 \<and> b \<noteq> 92 then [b]
     else 92 # (if b = 92 then [92] else if b = 34 then [34] else if b = 8 then [98] else if b = 12 then [102]
       else if b = 10 then [110] else if b = 13 then [114] else if b = 9 then [116]
       else [117, 48, 48, hex_char (drop_bit 4 b), hex_char (b AND 15)]))"

fun escaped_length :: "u8 list \<Rightarrow> nat" where
  "escaped_length [] = 0"
| "escaped_length (b # t) =
     1 + (if b \<in> {34, 92, 8, 12, 10, 13, 9} then 1 else if b < 32 then 5 else 0) + escaped_length t"

definition quoted :: "u8 list \<Rightarrow> u8 list" where
  "quoted str = [34] @ concat (map escape_char str) @ [34]"

definition print_string_ptr :: "u8 list \<Rightarrow> nat \<Rightarrow> (unit, u8 list \<times> nat) outcome" where
  "print_string_ptr str m = new_text (escaped_length str + 3) (quoted str) m"

lemma escaped_length: "length (concat (map escape_char t)) = escaped_length t"
proof (induction t)
  case (Cons b t)
  have "31 < b \<longleftrightarrow> \<not> b < 32" by (auto simp: word_less_nat_alt)
  then have "length (escape_char b) = 1 + (if b \<in> {34, 92, 8, 12, 10, 13, 9} then 1 else if b < 32 then 5 else 0)"
    by (auto simp: escape_char_def)
  with Cons show ?case by simp
qed simp

lemma string_printed: "print_string_ptr t m = (if m = 0 then Some (Inl ()) else Some (Inr (quoted t, m - 1)))"
  by (simp add: print_string_ptr_def new_text_def quoted_def escaped_length)

section \<open>What a string literal means\<close>

text \<open>The characters of a literal: bytes as they are, simple escapes, and code points in one or two units of
  four hexadecimal digits.\<close>

datatype json_char = Plain u8 | Simple u8 | Unicode "u8 list" | Surrogates "u8 list" "u8 list"

definition hex_number :: "u8 list \<Rightarrow> u32" where
  "hex_number ds = foldl (\<lambda>h d. push_bit 4 h + the (hex_value d)) 0 ds"

definition is_hex4 :: "u8 list \<Rightarrow> bool" where
  "is_hex4 ds \<longleftrightarrow> length ds = 4 \<and> (\<forall>d\<in>set ds. hex_value d \<noteq> None)"

definition high_surrogate :: "u32 \<Rightarrow> bool" where
  "high_surrogate uc \<longleftrightarrow> 0xD800 \<le> uc \<and> uc \<le> 0xDBFF"

definition low_surrogate :: "u32 \<Rightarrow> bool" where
  "low_surrogate uc \<longleftrightarrow> 0xDC00 \<le> uc \<and> uc \<le> 0xDFFF"

primrec char_ok :: "json_char \<Rightarrow> bool" where
  "char_ok (Plain b) \<longleftrightarrow> b \<noteq> 0 \<and> b \<noteq> 34 \<and> b \<noteq> 92"
| "char_ok (Simple e) \<longleftrightarrow> e \<noteq> 0 \<and> e \<noteq> 117"
| "char_ok (Unicode ds) \<longleftrightarrow> is_hex4 ds \<and> hex_number ds \<noteq> 0 \<and> \<not> high_surrogate (hex_number ds) \<and> \<not> low_surrogate (hex_number ds)"
| "char_ok (Surrogates ds es) \<longleftrightarrow> is_hex4 ds \<and> is_hex4 es \<and> high_surrogate (hex_number ds) \<and> low_surrogate (hex_number es)"

primrec char_text :: "json_char \<Rightarrow> u8 list" where
  "char_text (Plain b) = [b]"
| "char_text (Simple e) = [92, e]"
| "char_text (Unicode ds) = [92, 117] @ ds"
| "char_text (Surrogates ds es) = [92, 117] @ ds @ [92, 117] @ es"

primrec char_bytes :: "json_char \<Rightarrow> u8 list" where
  "char_bytes (Plain b) = [b]"
| "char_bytes (Simple e) = [simple_escape e]"
| "char_bytes (Unicode ds) = utf8 (hex_number ds)"
| "char_bytes (Surrogates ds es) =
     utf8 (0x10000 + (push_bit 10 (hex_number ds AND 0x3FF) OR (hex_number es AND 0x3FF)))"

section \<open>Literals are read\<close>

lemma hex_digits_read:
  "drop p buf = ds @ r \<Longrightarrow> \<forall>d\<in>set ds. hex_value d \<noteq> None \<Longrightarrow>
    hex_digits buf p (length ds) h = Some (foldl (\<lambda>h d. push_bit 4 h + the (hex_value d)) h ds)"
proof (induction ds arbitrary: p h)
  case (Cons d ds)
  then have "cread buf (int p) = Some d" "drop (p + 1) buf = ds @ r"
    using cread_drop [of p buf d] drop_Cons_at [of p buf d] by auto
  with Cons show ?case by auto
qed simp

lemma parse_hex4_read: "drop p buf = ds @ r \<Longrightarrow> is_hex4 ds \<Longrightarrow> parse_hex4 buf p = Some (hex_number ds)"
  using hex_digits_read [of p buf ds r 0] by (simp add: parse_hex4_def is_hex4_def hex_number_def)

lemma length_utf8_bytes: "length (utf8_bytes len k uc bs) = k + length bs"
  by (induction len k uc bs rule: utf8_bytes.induct) auto

lemma length_utf8: "length (utf8 uc) \<le> 4" "uc < 0x10000 \<Longrightarrow> length (utf8 uc) \<le> 3"
  by (simp_all add: utf8_def length_utf8_bytes)

lemma unicode_escape_read:
  assumes "drop p buf = 117 # ds @ r" "char_ok (Unicode ds)"
  shows "unicode_escape buf p = Some (utf8 (hex_number ds), p + 4)"
proof -
  have "drop (p + 1) buf = ds @ r" using drop_Cons_at [OF assms(1)] by simp
  then have "parse_hex4 buf (p + 1) = Some (hex_number ds)" using assms(2) by (auto intro: parse_hex4_read)
  then show ?thesis using assms(2)
    by (auto simp: unicode_escape_def high_surrogate_def low_surrogate_def)
qed

lemma surrogates_read:
  assumes "drop p buf = 117 # ds @ 92 # 117 # es @ r" "char_ok (Surrogates ds es)"
  shows "unicode_escape buf p = Some (char_bytes (Surrogates ds es), p + 10)"
proof -
  have len: "length ds = 4" using assms(2) by (simp add: is_hex4_def)
  have d: "drop (p + 1) buf = ds @ 92 # 117 # es @ r" using drop_Cons_at [OF assms(1)] by simp
  then have d5: "drop (p + 5) buf = 92 # 117 # es @ r" using drop_behind [OF d] len by (simp add: numeral_eq_Suc)
  then have d6: "drop (p + 6) buf = 117 # es @ r" using drop_Cons_at [OF d5] by (simp add: numeral_eq_Suc)
  then have d7: "drop (p + 7) buf = es @ r" using drop_Cons_at [OF d6] by (simp add: numeral_eq_Suc)
  have "parse_hex4 buf (p + 1) = Some (hex_number ds)" "parse_hex4 buf (p + 7) = Some (hex_number es)"
    using parse_hex4_read [OF d] parse_hex4_read [OF d7] assms(2) by auto
  moreover have "\<not> (0xDC00 \<le> hex_number ds \<and> hex_number ds \<le> 0xDFFF \<or> hex_number ds = 0)"
    using assms(2) by (auto simp: high_surrogate_def word_le_nat_alt)
  ultimately show ?thesis using assms(2) cread_drop [OF d5] cread_drop [OF d6]
    by (auto simp: unicode_escape_def high_surrogate_def low_surrogate_def)
qed

lemma hex_not_special: "hex_value d \<noteq> None \<Longrightarrow> d \<noteq> 0 \<and> d \<noteq> 34 \<and> d \<noteq> 92"
  by (auto simp: hex_value_def word_le_nat_alt split: if_splits)

lemma string_length_plain:
  "drop p buf = a @ t \<Longrightarrow> \<forall>b\<in>set a. b \<noteq> 0 \<and> b \<noteq> 34 \<and> b \<noteq> 92 \<Longrightarrow>
    string_length buf p = map_option ((+) (length a)) (string_length buf (p + length a))"
proof (induction a arbitrary: p)
  case (Cons b a)
  then have "cread buf (int p) = Some b" "drop (p + 1) buf = a @ t"
    using cread_drop [of p buf b] drop_Cons_at [of p buf b] by auto
  with Cons show ?case by (cases "string_length buf (p + 1 + length a)"; subst string_length.simps) auto
next
  case Nil
  then show ?case by (cases "string_length buf p") simp_all
qed

lemma string_length_escape:
  "drop p buf = 92 # e # t \<Longrightarrow> string_length buf p = map_option Suc (string_length buf (p + 2))"
  using cread_drop [of p buf 92] by (subst string_length.simps) simp

lemma string_length_char:
  assumes "drop p buf = char_text c @ t" "char_ok c"
  shows "\<exists>n. length (char_bytes c) \<le> n \<and>
    string_length buf p = map_option ((+) n) (string_length buf (p + length (char_text c)))"
proof -
  have unit: "string_length buf q = map_option ((+) 5) (string_length buf (q + 6))"
    if "drop q buf = 92 # 117 # ds @ r" "is_hex4 ds" for q ds r
  proof -
    have "drop (q + 2) buf = ds @ r" using drop_behind [of q buf "[92, 117]" "ds @ r"] that(1) by simp
    then have "string_length buf (q + 2) = map_option ((+) 4) (string_length buf (q + 2 + 4))"
      using string_length_plain [of "q + 2" buf ds r] that(2) hex_not_special by (auto simp: is_hex4_def)
    moreover have "q + 2 + 4 = q + 6" by simp
    ultimately show ?thesis using string_length_escape [OF that(1)] by (cases "string_length buf (q + 6)") (simp_all add: add.commute)
  qed
  show ?thesis
  proof (cases c)
    case (Plain b)
    then show ?thesis using assms string_length_plain [of p buf "[b]" t] by (intro exI [of _ 1]) simp
  next
    case (Simple e)
    then show ?thesis using assms string_length_escape [of p buf e t]
      by (intro exI [of _ 1]) (cases "string_length buf (p + 2)"; simp add: numeral_eq_Suc)
  next
    case (Unicode ds)
    then have "length (char_bytes c) \<le> 5" "length ds = 4" "is_hex4 ds"
      using length_utf8(1) [of "hex_number ds"] assms(2) by (simp_all add: is_hex4_def)
    then show ?thesis using unit [of p ds t] assms(1) Unicode by (intro exI [of _ 5]) (simp add: numeral_eq_Suc)
  next
    case (Surrogates ds es)
    then have hex: "is_hex4 ds" "length ds = 4" "is_hex4 es" "length es = 4" and
      p: "drop p buf = 92 # 117 # ds @ (92 # 117 # es @ t)"
      using assms by (simp_all add: is_hex4_def)
    have "drop (p + 6) buf = 92 # 117 # es @ t"
      using drop_behind [of p buf "92 # 117 # ds" "92 # 117 # es @ t"] p hex by (simp add: numeral_eq_Suc)
    then have "string_length buf p = map_option ((+) 10) (string_length buf (p + 12))"
      using unit [OF p hex(1)] unit [of "p + 6" es t, OF _ hex(3)] add.assoc [of p 6 6]
      by (cases "string_length buf (p + 12)") simp_all
    moreover have "length (utf8 uc) \<le> 10" for uc using length_utf8(1) [of uc] by simp
    then have "length (char_bytes c) \<le> 10" using Surrogates by simp
    moreover have "p + length (char_text c) = p + 12" using Surrogates hex by simp
    ultimately show ?thesis by (intro exI [of _ 10]) (simp only:)
  qed
qed

lemma unescape_unicode:
  assumes "cread buf (int p) = Some 92" "cread buf (int (p + 1)) = Some 117"
    "unicode_escape buf (p + 1) = Some (bs, q)" "length out + length bs \<le> cap"
  shows "unescape buf cap p out = unescape buf cap (q + 1) (out @ bs)"
  using assms by (subst unescape.simps) simp

lemma unescape_char:
  assumes "drop p buf = char_text c @ t" "char_ok c" "length out + length (char_bytes c) \<le> cap"
  shows "unescape buf cap p out = unescape buf cap (p + length (char_text c)) (out @ char_bytes c)"
proof (cases c)
  case (Plain b)
  then show ?thesis using assms cread_drop [of p buf b t] by (subst unescape.simps) simp
next
  case (Simple e)
  then have "cread buf (int p) = Some 92" "cread buf (int (p + 1)) = Some e"
    using assms(1) cread_drop [of p buf 92] cread_drop [of "p + 1" buf e t] drop_Cons_at [of p buf 92] by auto
  then show ?thesis using assms(2,3) Simple by (subst unescape.simps) simp
next
  case (Unicode ds)
  then have p: "cread buf (int p) = Some 92" "drop (p + 1) buf = 117 # ds @ t"
    using assms(1) cread_drop [of p buf 92] drop_Cons_at [of p buf 92] by auto
  then have "unicode_escape buf (p + 1) = Some (char_bytes c, p + 5)"
    using unicode_escape_read [of "p + 1" buf ds t] assms(2) Unicode by (simp add: numeral_eq_Suc)
  moreover have "p + length (char_text c) = p + 5 + 1" using assms(2) Unicode by (simp add: is_hex4_def)
  ultimately show ?thesis using unescape_unicode [OF p(1) cread_drop [OF p(2)] _ assms(3)] by (simp only:)
next
  case (Surrogates ds es)
  then have p: "cread buf (int p) = Some 92" "drop (p + 1) buf = 117 # ds @ 92 # 117 # es @ t"
    using assms(1) cread_drop [of p buf 92] drop_Cons_at [of p buf 92] by auto
  then have "unicode_escape buf (p + 1) = Some (char_bytes c, p + 11)"
    using surrogates_read [of "p + 1" buf ds es t] assms(2) Surrogates by (simp add: numeral_eq_Suc)
  moreover have "p + length (char_text c) = p + 11 + 1" using assms(2) Surrogates by (simp add: is_hex4_def)
  ultimately show ?thesis using unescape_unicode [OF p(1) cread_drop [OF p(2)] _ assms(3)] by (simp only:)
qed

lemma string_length_literal:
  "drop p buf = concat (map char_text cs) @ 34 # r \<Longrightarrow> \<forall>c\<in>set cs. char_ok c \<Longrightarrow>
    \<exists>n. string_length buf p = Some n \<and> length (concat (map char_bytes cs)) \<le> n"
proof (induction cs arbitrary: p)
  case Nil
  then show ?case using cread_drop [of p buf 34 r] by (subst string_length.simps) simp
next
  case (Cons c cs)
  then have p: "drop p buf = char_text c @ concat (map char_text cs) @ 34 # r" "char_ok c" by simp_all
  obtain n where "string_length buf (p + length (char_text c)) = Some n" "length (concat (map char_bytes cs)) \<le> n"
    using Cons.IH [OF drop_behind [OF p(1)]] Cons.prems by auto
  then show ?case using string_length_char [OF p] by auto
qed

lemma unescape_literal:
  "drop p buf = concat (map char_text cs) @ 34 # r \<Longrightarrow> \<forall>c\<in>set cs. char_ok c \<Longrightarrow>
    length out + length (concat (map char_bytes cs)) < cap \<Longrightarrow>
    unescape buf cap p out = Some (out @ concat (map char_bytes cs), p + length (concat (map char_text cs)) + 1)"
proof (induction cs arbitrary: p out)
  case Nil
  then show ?case using cread_drop [of p buf 34 r] by (subst unescape.simps) simp
next
  case (Cons c cs)
  then have p: "drop p buf = char_text c @ concat (map char_text cs) @ 34 # r" "char_ok c" by simp_all
  show ?case using Cons.IH [OF drop_behind [OF p(1)], of "out @ char_bytes c"] unescape_char [OF p, of out cap] Cons.prems
    by simp
qed

text \<open>The bytes of a character are not zero.\<close>

lemma utf8_bytes_nonzero: "0 \<notin> set bs \<Longrightarrow> len \<in> {2, 3, 4} \<Longrightarrow> 0 \<notin> set (utf8_bytes len k uc bs)"
proof (induction len k uc bs rule: utf8_bytes.induct)
  case (2 len uc bs)
  have "bit (ucast (uc OR firstByteMark ! len) :: u8) 7"
    using 2 by (auto simp: bit_simps firstByteMark_def numeral_eq_Suc)
  then have "(ucast (uc OR firstByteMark ! len) :: u8) \<noteq> 0" by (metis bit_0_eq bot_apply bot_bool_def)
  with 2 show ?case by simp
next
  case (3 len k uc bs)
  have "bit (ucast ((uc OR 0x80) AND 0xBF) :: u8) 7" by (simp add: bit_simps)
  then have "(ucast ((uc OR 0x80) AND 0xBF) :: u8) \<noteq> 0" by (metis bit_0_eq bot_apply bot_bool_def)
  with 3 show ?case by simp
qed simp

lemma utf8_small: "uc < 0x80 \<Longrightarrow> utf8 uc = [ucast uc]"
  by (simp add: utf8_def firstByteMark_def)

lemma utf8_nonzero:
  assumes "uc \<noteq> 0"
  shows "0 \<notin> set (utf8 uc)"
proof (cases "uc < 0x80")
  case True
  have "(ucast uc :: u8) \<noteq> 0"
  proof
    assume "(ucast uc :: u8) = 0"
    then have "unat (ucast uc :: u8) = 0" by simp
    then have "unat uc mod 256 = 0" by (simp add: unsigned_ucast_eq take_bit_eq_mod)
    moreover have "unat uc < 128" using True by (simp add: word_less_nat_alt)
    ultimately have "unat uc = 0" by simp
    with assms show False by (simp add: unat_eq_0)
  qed
  with True show ?thesis by (simp add: utf8_small)
qed (simp add: utf8_def utf8_bytes_nonzero)

lemma char_bytes_nonzero:
  assumes "char_ok c"
  shows "0 \<notin> set (char_bytes c)"
proof (cases c)
  case (Surrogates ds es)
  let ?x = "push_bit 10 (hex_number ds AND 0x3FF) OR (hex_number es AND 0x3FF) :: u32"
  have "(0x3FF :: u32) = mask 10" by (simp add: mask_eq_exp_minus_1)
  then have "?x AND mask 20 = ?x"
    by (simp only: \<open>0x3FF = mask 10\<close>) (rule bit_word_eqI, auto simp: bit_simps)
  then have "?x < 2 ^ 20" using and_mask_less_size [of 20 ?x] by (simp add: word_size)
  then have "unat ?x < 2 ^ 20" by (simp add: word_less_nat_alt)
  then have "unat (0x10000 + ?x) = 0x10000 + unat ?x" by (subst unat_add_lem [THEN iffD1]) simp_all
  then have "0x10000 + ?x \<noteq> 0" by force
  then show ?thesis using Surrogates utf8_nonzero by simp
qed (use assms in \<open>auto simp: utf8_nonzero simple_escape_def\<close>)

theorem literal_read:
  assumes "drop p buf = [34] @ concat (map char_text cs) @ [34] @ r" "\<forall>c\<in>set cs. char_ok c" "0 < m"
  shows "parse_string buf p m = Some (Inr (concat (map char_bytes cs),
    p + length (concat (map char_text cs)) + 2, m - 1))"
proof -
  have p: "cread buf (int p) = Some 34" "drop (p + 1) buf = concat (map char_text cs) @ 34 # r"
    using assms(1) cread_drop [of p buf 34] drop_Cons_at [of p buf 34] by auto
  obtain n where n: "string_length buf (p + 1) = Some n" "length (concat (map char_bytes cs)) \<le> n"
    using string_length_literal [OF p(2) assms(2)] by blast
  then have "unescape buf (n + 1) (p + 1) [] =
      Some (concat (map char_bytes cs), p + 1 + length (concat (map char_text cs)) + 1)"
    using unescape_literal [OF p(2) assms(2), of "[]" "n + 1"] by simp
  moreover have "takeWhile (\<lambda>b. b \<noteq> 0) (concat (map char_bytes cs)) = concat (map char_bytes cs)"
    using assms(2) char_bytes_nonzero by (simp add: takeWhile_eq_all_conv) metis
  ultimately show ?thesis using p(1) n(1) assms(3) by (simp add: parse_string_def)
qed

section \<open>Printed strings are read back\<close>

definition char_for :: "u8 \<Rightarrow> json_char" where
  "char_for b = (
     if 31 < b \<and> b \<noteq> 34 \<and> b \<noteq> 92 then Plain b
     else if b = 92 then Simple 92 else if b = 34 then Simple 34 else if b = 8 then Simple 98
     else if b = 12 then Simple 102 else if b = 10 then Simple 110 else if b = 13 then Simple 114
     else if b = 9 then Simple 116 else Unicode [48, 48, hex_char (drop_bit 4 b), hex_char (b AND 15)])"

lemma char_for_text: "char_text (char_for b) = escape_char b"
  by (simp add: char_for_def escape_char_def)

lemma char_for_control: "\<forall>n\<in>set [1..<32]. char_ok (char_for (of_nat n)) \<and> char_bytes (char_for (of_nat n)) = [of_nat n]"
  by code_simp

lemma char_for_ok: "b \<noteq> 0 \<Longrightarrow> char_ok (char_for b) \<and> char_bytes (char_for b) = [b]"
proof (cases "31 < b")
  case True
  assume "b \<noteq> 0"
  with True show ?thesis by (auto simp: char_for_def simple_escape_def)
next
  case False
  assume "b \<noteq> 0"
  with False have "unat b \<in> set [1..<32]" by (simp add: word_less_nat_alt unat_gt_0 [symmetric] Suc_le_eq)
  moreover have "of_nat (unat b) = b" by simp
  ultimately show ?thesis using char_for_control by metis
qed

lemma string_read:
  assumes "drop p buf = quoted t @ r" "0 \<notin> set t" "0 < m"
  shows "parse_string buf p m = Some (Inr (t, p + length (quoted t), m - 1))"
proof -
  have literal: "concat (map char_text (map char_for t)) = concat (map escape_char t)"
    by (simp add: comp_def char_for_text)
  have bytes: "concat (map char_bytes (map char_for t)) = t" using assms(2)
    by (induction t) (auto simp: char_for_ok)
  have "\<forall>c\<in>set (map char_for t). char_ok c" using assms(2) by (auto intro!: conjunct1 [OF char_for_ok])
  then show ?thesis using literal_read [of p buf "map char_for t" r m] assms(1,3) unfolding literal bytes
    by (simp add: quoted_def)
qed

section \<open>A short escape at the end of a string\<close>

text \<open>The length does not count what a \<open>\u\<close> skips: after the closing quote the copy goes on, behind the
  buffer of two bytes.\<close>

lemma unescape_plain_overflow:
  "drop p buf = a @ r \<Longrightarrow> \<forall>b\<in>set a. b \<noteq> 0 \<and> b \<noteq> 34 \<and> b \<noteq> 92 \<Longrightarrow> cap < length out + length a \<Longrightarrow>
    length out \<le> cap \<Longrightarrow> unescape buf cap p out = None"
proof (induction a arbitrary: p out)
  case (Cons b a)
  then have "cread buf (int p) = Some b" "drop (p + 1) buf = a @ r"
    using cread_drop [of p buf b] drop_Cons_at [of p buf b] by auto
  with Cons show ?case by (subst unescape.simps) auto
qed simp

lemma short_escape_overflow:
  assumes "drop p buf = [34, 92, 117, 34, x, y, z] @ a @ r" "\<forall>b\<in>set a. b \<noteq> 0 \<and> b \<noteq> 34 \<and> b \<noteq> 92"
    "2 < length a" "0 < m"
  shows "parse_string buf p m = None"
proof -
  have at: "drop (p + 1) buf = [92, 117, 34, x, y, z] @ a @ r" "drop (p + 2) buf = [117, 34, x, y, z] @ a @ r"
    "drop (p + 3) buf = [34, x, y, z] @ a @ r" and rest: "drop (p + 7) buf = a @ r"
    using drop_behind [of p buf "[34]"] drop_behind [of p buf "[34, 92]"] drop_behind [of p buf "[34, 92, 117]"]
      drop_behind [of p buf "[34, 92, 117, 34, x, y, z]"] assms(1) by (simp_all add: numeral_eq_Suc)
  have reads: "cread buf (int p) = Some 34" "cread buf (int (p + 1)) = Some 92" "cread buf (int (p + 2)) = Some 117"
    "cread buf (int (p + 3)) = Some 34"
    using cread_drop [OF assms(1) [unfolded append.simps]] at [unfolded append.simps, THEN cread_drop]
    by blast+
  have "string_length buf (p + 3) = Some 0" using reads(4) by (subst string_length.simps) simp
  then have len: "string_length buf (p + 1) = Some 1"
    using string_length_escape [of "p + 1" buf 117] at(1) by (simp add: numeral_eq_Suc)
  have "hex_value 34 = None" by (simp add: hex_value_def)
  then have "hex_digits buf (p + 3) (Suc 3) 0 = Some 0" using reads(4) by (simp only: hex_digits.simps) simp
  moreover have "4 = Suc 3" "p + 2 + 1 = p + 3" by simp_all
  ultimately have "parse_hex4 buf (p + 2 + 1) = Some 0" unfolding parse_hex4_def by (simp only:)
  then have "unicode_escape buf (p + 2) = Some ([], p + 6)" by (simp add: unicode_escape_def)
  then have "unescape buf 2 (p + 1) [] = unescape buf 2 (p + 6 + 1) []"
    using unescape_unicode [of buf "p + 1" "[]" "p + 6" "[]" 2] reads(2,3) by simp
  moreover have "unescape buf 2 (p + 6 + 1) [] = None"
    using unescape_plain_overflow [OF rest assms(2), of 2 "[]"] assms(3) by (simp add: numeral_eq_Suc)
  ultimately show ?thesis using reads(1) len assms(4) by (simp add: parse_string_def numeral_2_eq_2 [symmetric])
qed

end
