(* ===== verification/JSON_Parser.thy ===== *)
theory JSON_Parser
  imports JSON_String
begin

text \<open>
  The parser of \<open>Drivers/W-Link/cJSON/cJSON.c\<close>, from the text in a buffer to the value. A read behind the
  buffer and a write behind an allocated string are undefined (\<open>None\<close>); a failure carries the error pointer
  and frees what was built. \<open>m\<close> counts the allocations that will still succeed; after the first one that
  fails the parser makes no other.
\<close>

section \<open>The values that a parse can yield\<close>

text \<open>Numbers are in the range of \<open>int\<close>, and texts do not contain the zero byte that ends them.\<close>

fun json_ok :: "cJSON \<Rightarrow> bool" where
  "json_ok (cJSON_Number n) \<longleftrightarrow> - (2 ^ 31) \<le> n \<and> n < 2 ^ 31"
| "json_ok (cJSON_String s) \<longleftrightarrow> 0 \<notin> set s"
| "json_ok (cJSON_Array vs) \<longleftrightarrow> (\<forall>v\<in>set vs. json_ok v)"
| "json_ok (cJSON_Object ms) \<longleftrightarrow> (\<forall>(n, v)\<in>set ms. 0 \<notin> set n \<and> json_ok v)"
| "json_ok cJSON_NULL \<longleftrightarrow> True"
| "json_ok cJSON_False \<longleftrightarrow> True"
| "json_ok cJSON_True \<longleftrightarrow> True"

section \<open>The functions\<close>

definition skip :: "u8 list \<Rightarrow> nat \<Rightarrow> nat option" where
  "skip buf p = skip_over (\<lambda>b. b \<noteq> 0 \<and> b \<le> 32) buf p"

text \<open>The three words.\<close>

definition parse_word :: "u8 list \<Rightarrow> nat \<Rightarrow> (cJSON \<times> nat) option option" where
  "parse_word buf p = do {
     null \<leftarrow> starts_at buf (int p) (chars ''null'');
     if null then Some (Some (cJSON_NULL, p + 4))
     else do {
       false \<leftarrow> starts_at buf (int p) (chars ''false'');
       if false then Some (Some (cJSON_False, p + 5))
       else do {
         true \<leftarrow> starts_at buf (int p) (chars ''true'');
         Some (if true then Some (cJSON_True, p + 4) else None) } } }"

function parse_value :: "(int \<Rightarrow> rat option) \<Rightarrow> u8 list \<Rightarrow> nat \<Rightarrow> nat \<Rightarrow> (cJSON \<times> nat \<times> nat) parsed"
  and parse_array :: "(int \<Rightarrow> rat option) \<Rightarrow> u8 list \<Rightarrow> nat \<Rightarrow> nat \<Rightarrow> (cJSON list \<times> nat \<times> nat) parsed"
  and array_rest :: "(int \<Rightarrow> rat option) \<Rightarrow> u8 list \<Rightarrow> nat \<Rightarrow> nat \<Rightarrow> cJSON list \<Rightarrow> (cJSON list \<times> nat \<times> nat) parsed"
  and parse_object :: "(int \<Rightarrow> rat option) \<Rightarrow> u8 list \<Rightarrow> nat \<Rightarrow> nat \<Rightarrow> (members \<times> nat \<times> nat) parsed"
  and object_rest :: "(int \<Rightarrow> rat option) \<Rightarrow> u8 list \<Rightarrow> nat \<Rightarrow> nat \<Rightarrow> members \<Rightarrow> (members \<times> nat \<times> nat) parsed"
  and parse_member :: "(int \<Rightarrow> rat option) \<Rightarrow> u8 list \<Rightarrow> nat \<Rightarrow> nat \<Rightarrow> ((u8 list \<times> cJSON) \<times> nat \<times> nat) parsed"
where
  "parse_value pow10 buf p m = do {
     word \<leftarrow> parse_word buf p;
     case word of Some (v, q) \<Rightarrow> Some (Inr (v, q, m))
     | None \<Rightarrow> do {
       b \<leftarrow> cread buf (int p);
       if b = 34 then and_then (parse_string buf p m) (\<lambda>(s, q, m1). Some (Inr (cJSON_String s, q, m1)))
       else if b = 45 \<or> c_digit b then do {
         (v, q) \<leftarrow> parse_number pow10 buf p;
         Some (Inr (cJSON_Number v, q, m)) }
       else if b = 91 then and_then (parse_array pow10 buf p m) (\<lambda>(vs, q, m1). Some (Inr (cJSON_Array vs, q, m1)))
       else if b = 123 then and_then (parse_object pow10 buf p m) (\<lambda>(ms, q, m1). Some (Inr (cJSON_Object ms, q, m1)))
       else Some (Inl (Some p)) } }"
| "parse_array pow10 buf p m = do {
     b \<leftarrow> cread buf (int p);
     if b \<noteq> 91 then Some (Inl (Some p))
     else do {
       q \<leftarrow> skip buf (p + 1);
       c \<leftarrow> cread buf (int q);
       if c = 93 then Some (Inr ([], q + 1, m))
       else if m = 0 then Some (Inl None)
       else do {
         q1 \<leftarrow> skip buf q;
         and_then (parse_value pow10 buf q1 (m - 1)) (\<lambda>(v, q2, m1). do {
           q3 \<leftarrow> skip buf q2;
           array_rest pow10 buf q3 m1 [v] }) } } }"
| "array_rest pow10 buf p m vs = do {
     b \<leftarrow> cread buf (int p);
     if b = 44 then
       if m = 0 then Some (Inl None)
       else do {
         q1 \<leftarrow> skip buf (p + 1);
         and_then (parse_value pow10 buf q1 (m - 1)) (\<lambda>(v, q2, m1). do {
           q3 \<leftarrow> skip buf q2;
           array_rest pow10 buf q3 m1 (vs @ [v]) }) }
     else if b = 93 then Some (Inr (vs, p + 1, m))
     else Some (Inl (Some p)) }"
| "parse_object pow10 buf p m = do {
     b \<leftarrow> cread buf (int p);
     if b \<noteq> 123 then Some (Inl (Some p))
     else do {
       q \<leftarrow> skip buf (p + 1);
       c \<leftarrow> cread buf (int q);
       if c = 125 then Some (Inr ([], q + 1, m))
       else if m = 0 then Some (Inl None)
       else do {
         q1 \<leftarrow> skip buf q;
         and_then (parse_member pow10 buf q1 (m - 1)) (\<lambda>(v, q3, m1). object_rest pow10 buf q3 m1 [v]) } } }"
| "object_rest pow10 buf p m ms = do {
     b \<leftarrow> cread buf (int p);
     if b = 44 then
       if m = 0 then Some (Inl None)
       else do {
         q1 \<leftarrow> skip buf (p + 1);
         and_then (parse_member pow10 buf q1 (m - 1)) (\<lambda>(v, q3, m1). object_rest pow10 buf q3 m1 (ms @ [v])) }
     else if b = 125 then Some (Inr (ms, p + 1, m))
     else Some (Inl (Some p)) }"
| "parse_member pow10 buf p m = and_then (parse_string buf p m) (\<lambda>(name, q, m1). do {
     q1 \<leftarrow> skip buf q;
     b \<leftarrow> cread buf (int q1);
     if b \<noteq> 58 then Some (Inl (Some q1))
     else do {
       q2 \<leftarrow> skip buf (q1 + 1);
       and_then (parse_value pow10 buf q2 m1) (\<lambda>(v, q3, m2). do {
         q4 \<leftarrow> skip buf q3;
         Some (Inr ((name, v), q4, m2)) }) } })"
  by pat_completeness auto

lemma skip_progress: "skip buf p = Some q \<Longrightarrow> p \<le> q"
  unfolding skip_def
proof (induction "\<lambda>b :: u8. b \<noteq> 0 \<and> b \<le> 32" buf p rule: skip_over.induct)
  case (1 buf p)
  then show ?case by (subst (asm) (2) skip_over.simps) (fastforce elim!: bind_SomeE split: if_splits)
qed

lemma parse_word_Some: "parse_word buf p = Some (Some (v, q)) \<Longrightarrow> p < q \<and> v \<in> {cJSON_NULL, cJSON_False, cJSON_True}"
  unfolding parse_word_def by (auto elim!: bind_SomeE split: if_splits simp del: starts_at.simps)

lemmas number_progress = number_parsed(2) [OF _ _ disjI1 [OF refl]] number_parsed(2) [OF _ _ disjI2]

text \<open>Every function moves forward, as far as it is defined, and its values are well-formed.\<close>

abbreviation parser_dom where
  "parser_dom \<equiv> parse_value_parse_array_array_rest_parse_object_object_rest_parse_member_dom"

lemma parser_partial:
  shows "parser_dom (Inl (Inl (pow10, buf, p, m))) \<Longrightarrow>
      (\<And>x q m1. parse_value pow10 buf p m = Some (Inr (x, q, m1)) \<Longrightarrow> p < q \<and> json_ok x)"
    and "parser_dom (Inl (Inr (Inl (pow10, buf, p, m)))) \<Longrightarrow>
      (\<And>x q m1. parse_array pow10 buf p m = Some (Inr (x, q, m1)) \<Longrightarrow> p < q \<and> (\<forall>v\<in>set x. json_ok v))"
    and "parser_dom (Inl (Inr (Inr (pow10, buf, p, m, vs)))) \<Longrightarrow>
      (\<And>x q m1. array_rest pow10 buf p m vs = Some (Inr (x, q, m1)) \<Longrightarrow>
        p < q \<and> ((\<forall>v\<in>set vs. json_ok v) \<longrightarrow> (\<forall>v\<in>set x. json_ok v)))"
    and "parser_dom (Inr (Inl (pow10, buf, p, m))) \<Longrightarrow>
      (\<And>x q m1. parse_object pow10 buf p m = Some (Inr (x, q, m1)) \<Longrightarrow> p < q \<and> json_ok (cJSON_Object x))"
    and "parser_dom (Inr (Inr (Inl (pow10, buf, p, m, ms)))) \<Longrightarrow>
      (\<And>x q m1. object_rest pow10 buf p m ms = Some (Inr (x, q, m1)) \<Longrightarrow>
        p < q \<and> (json_ok (cJSON_Object ms) \<longrightarrow> json_ok (cJSON_Object x)))"
    and "parser_dom (Inr (Inr (Inr (pow10, buf, p, m)))) \<Longrightarrow>
      (\<And>x q m1. parse_member pow10 buf p m = Some (Inr (x, q, m1)) \<Longrightarrow> p < q \<and> json_ok (cJSON_Object [x]))"
proof (induction pow10 buf p m and pow10 buf p m and pow10 buf p m vs and pow10 buf p m and pow10 buf p m ms and pow10 buf p m
    rule: parse_value_parse_array_array_rest_parse_object_object_rest_parse_member.pinduct)
  case (1 pow10 buf p m)
  note parsed = 1(4) [unfolded parse_value.psimps [OF 1(1)]]
  then obtain w where w: "parse_word buf p = Some w" by (auto elim!: bind_SomeE)
  show ?case
  proof (cases w)
    case None
    note w = w [unfolded None]
    from parsed obtain b where b: "cread buf (int p) = Some b" by (auto simp: w elim!: bind_SomeE)
    consider "b = 34" | "b = 45 \<or> c_digit b" "b \<noteq> 34" | "b = 91" "\<not> (b = 45 \<or> c_digit b)"
      | "b = 123" "\<not> (b = 45 \<or> c_digit b)" using parsed by (auto simp: w b split: if_splits)
    then show ?thesis
    proof cases
      case 3
      with parsed obtain vs where "parse_array pow10 buf p m = Some (Inr (vs, q, m1))" "x = cJSON_Array vs"
        by (auto simp: w b and_then_Inr split: if_splits)
      then show ?thesis using 1(2) [OF w refl b _ 3(2,1)] 3(1) by simp
    next
      case 4
      with parsed obtain vs where "parse_object pow10 buf p m = Some (Inr (vs, q, m1))" "x = cJSON_Object vs"
        by (auto simp: w b and_then_Inr split: if_splits)
      then show ?thesis using 1(3) [OF w refl b _ 4(2) _ 4(1)] 4(1) by simp
    qed (use parsed b in \<open>auto simp: w and_then_Inr elim!: bind_SomeE
        dest: string_parsed(1,2) number_progress number_parsed(1)\<close>)
  qed (use parsed w in \<open>auto dest!: parse_word_Some\<close>)
next
  case (2 pow10 buf p m)
  note parsed = 2(4) [unfolded parse_array.psimps [OF 2(1)]]
  then obtain r c where r: "cread buf (int p) = Some 91" "skip buf (p + 1) = Some r" "cread buf (int r) = Some c"
    by (auto elim!: bind_SomeE split: if_splits)
  have same: "\<not> (91 :: u8) \<noteq> 91" by simp
  show ?case
  proof (cases "c = 93")
    case False
    with parsed r have m: "m \<noteq> 0" by (auto split: if_splits)
    with parsed r False obtain r1 where r1: "skip buf r = Some r1" by (auto elim!: bind_SomeE)
    with parsed r False m obtain v q2 m2 where v: "parse_value pow10 buf r1 (m - 1) = Some (Inr (v, q2, m2))"
      by (auto simp: and_then_Inr)
    with parsed r False m r1 obtain r2 where r2: "skip buf q2 = Some r2" "array_rest pow10 buf r2 m2 [v] = Some (Inr (x, q, m1))"
      by (auto elim!: bind_SomeE)
    have v_ok: "r1 < q2 \<and> json_ok v" by (rule 2(2) [OF r(1) same r(2,3) False m r1 v])
    have x_ok: "r2 < q \<and> ((\<forall>v\<in>set [v]. json_ok v) \<longrightarrow> (\<forall>v\<in>set x. json_ok v))"
      by (rule 2(3) [OF r(1) same r(2,3) False m r1 v refl refl r2])
    have "p < r1" using skip_progress [OF r(2)] skip_progress [OF r1] by simp
    also have "r1 < q2" by (rule conjunct1 [OF v_ok])
    also have "q2 \<le> r2" by (rule skip_progress [OF r2(1)])
    also have "r2 < q" by (rule conjunct1 [OF x_ok])
    finally have "p < q" .
    moreover have "\<forall>v\<in>set x. json_ok v" by (rule mp [OF conjunct2 [OF x_ok]]) (use conjunct2 [OF v_ok] in auto)
    ultimately show ?thesis by (rule conjI)
  qed (use parsed r in \<open>auto dest: skip_progress\<close>)
next
  case (3 pow10 buf p m vs)
  note parsed = 3(4) [unfolded array_rest.psimps [OF 3(1)]]
  then obtain b where b: "cread buf (int p) = Some b" by (auto elim!: bind_SomeE)
  show ?case
  proof (cases "b = 44")
    case True
    with parsed b have m: "m \<noteq> 0" by (auto split: if_splits)
    with parsed b True obtain r1 where r1: "skip buf (p + 1) = Some r1" by (auto elim!: bind_SomeE)
    with parsed b True m obtain v q2 m2 where v: "parse_value pow10 buf r1 (m - 1) = Some (Inr (v, q2, m2))"
      by (auto simp: and_then_Inr)
    with parsed b True m r1 obtain r2 where r2: "skip buf q2 = Some r2"
      "array_rest pow10 buf r2 m2 (vs @ [v]) = Some (Inr (x, q, m1))" by (auto elim!: bind_SomeE)
    have v_ok: "r1 < q2 \<and> json_ok v" by (rule 3(2) [OF b True m r1 v])
    have x_ok: "r2 < q \<and> ((\<forall>v\<in>set (vs @ [v]). json_ok v) \<longrightarrow> (\<forall>v\<in>set x. json_ok v))"
      by (rule 3(3) [OF b True m r1 v refl refl r2])
    have "p < r1" using skip_progress [OF r1] by simp
    also have "r1 < q2" by (rule conjunct1 [OF v_ok])
    also have "q2 \<le> r2" by (rule skip_progress [OF r2(1)])
    also have "r2 < q" by (rule conjunct1 [OF x_ok])
    finally have "p < q" .
    moreover have "(\<forall>v\<in>set vs. json_ok v) \<longrightarrow> (\<forall>v\<in>set x. json_ok v)" by (rule impI, rule mp [OF conjunct2 [OF x_ok]]) (use conjunct2 [OF v_ok] in auto)
    ultimately show ?thesis by (rule conjI)
  qed (use parsed b in \<open>auto split: if_splits\<close>)
next
  case (4 pow10 buf p m)
  note parsed = 4(4) [unfolded parse_object.psimps [OF 4(1)]]
  then obtain r c where r: "cread buf (int p) = Some 123" "skip buf (p + 1) = Some r" "cread buf (int r) = Some c"
    by (auto elim!: bind_SomeE split: if_splits)
  have same: "\<not> (123 :: u8) \<noteq> 123" by simp
  show ?case
  proof (cases "c = 125")
    case False
    with parsed r have m: "m \<noteq> 0" by (auto split: if_splits)
    with parsed r False obtain r1 where r1: "skip buf r = Some r1" by (auto elim!: bind_SomeE)
    with parsed r False m obtain v q2 m2 where v: "parse_member pow10 buf r1 (m - 1) = Some (Inr (v, q2, m2))"
      "object_rest pow10 buf q2 m2 [v] = Some (Inr (x, q, m1))" by (auto simp: and_then_Inr)
    have v_ok: "r1 < q2 \<and> json_ok (cJSON_Object [v])" by (rule 4(2) [OF r(1) same r(2,3) False m r1 v(1)])
    have x_ok: "q2 < q \<and> (json_ok (cJSON_Object [v]) \<longrightarrow> json_ok (cJSON_Object x))"
      by (rule 4(3) [OF r(1) same r(2,3) False m r1 v(1) refl refl v(2)])
    have "p < r1" using skip_progress [OF r(2)] skip_progress [OF r1] by simp
    also have "r1 < q2" by (rule conjunct1 [OF v_ok])
    also have "q2 < q" by (rule conjunct1 [OF x_ok])
    finally have "p < q" .
    then show ?thesis using conjunct2 [OF v_ok] conjunct2 [OF x_ok] by blast
  qed (use parsed r in \<open>auto dest: skip_progress\<close>)
next
  case (5 pow10 buf p m ms)
  note parsed = 5(4) [unfolded object_rest.psimps [OF 5(1)]]
  then obtain b where b: "cread buf (int p) = Some b" by (auto elim!: bind_SomeE)
  show ?case
  proof (cases "b = 44")
    case True
    with parsed b have m: "m \<noteq> 0" by (auto split: if_splits)
    with parsed b True obtain r1 where r1: "skip buf (p + 1) = Some r1" by (auto elim!: bind_SomeE)
    with parsed b True m obtain v q2 m2 where v: "parse_member pow10 buf r1 (m - 1) = Some (Inr (v, q2, m2))"
      "object_rest pow10 buf q2 m2 (ms @ [v]) = Some (Inr (x, q, m1))" by (auto simp: and_then_Inr)
    have v_ok: "r1 < q2 \<and> json_ok (cJSON_Object [v])" by (rule 5(2) [OF b True m r1 v(1)])
    have x_ok: "q2 < q \<and> (json_ok (cJSON_Object (ms @ [v])) \<longrightarrow> json_ok (cJSON_Object x))"
      by (rule 5(3) [OF b True m r1 v(1) refl refl v(2)])
    have "p < r1" using skip_progress [OF r1] by simp
    also have "r1 < q2" by (rule conjunct1 [OF v_ok])
    also have "q2 < q" by (rule conjunct1 [OF x_ok])
    finally have "p < q" .
    moreover have "json_ok (cJSON_Object ms) \<longrightarrow> json_ok (cJSON_Object x)"
      using conjunct2 [OF v_ok] conjunct2 [OF x_ok] by (simp add: ball_Un)
    ultimately show ?thesis by (rule conjI)
  qed (use parsed b in \<open>auto split: if_splits\<close>)
next
  case (6 pow10 buf p m)
  from 6(3) obtain name q1 m2 r1 r2 v q2 where "parse_string buf p m = Some (Inr (name, q1, m2))"
    "skip buf q1 = Some r1" "cread buf (int r1) = Some 58" "skip buf (r1 + 1) = Some r2"
    "parse_value pow10 buf r2 m2 = Some (Inr (v, q2, m1))" "skip buf q2 = Some q" "x = (name, v)"
    unfolding parse_member.psimps [OF 6(1)] by (auto simp: and_then_Inr elim!: bind_SomeE split: if_splits)
  note member = this
  have v_ok: "r2 < q2 \<and> json_ok v" by (rule 6(2) [OF member(1) refl refl member(2,3) _ member(4,5)]) simp
  have "p < q1" by (rule string_parsed(1) [OF member(1)])
  also have "q1 < r2" using skip_progress [OF member(2)] skip_progress [OF member(4)] by simp
  also have "r2 < q2" by (rule conjunct1 [OF v_ok])
  also have "q2 \<le> q" by (rule skip_progress [OF member(6)])
  finally have "p < q" .
  moreover have "json_ok (cJSON_Object [x])" using conjunct2 [OF v_ok] string_parsed(2) [OF member(1)] member(7) by simp
  ultimately show ?case by (rule conjI)
qed

lemma parser_all: "All parser_dom"
proof (relation "measure (\<lambda>x. case x of
    Inl (Inl (pow10, buf, p, m)) \<Rightarrow> 2 * (length buf - p) + 1
  | Inl (Inr (Inl (pow10, buf, p, m))) \<Rightarrow> 2 * (length buf - p)
  | Inl (Inr (Inr (pow10, buf, p, m, vs))) \<Rightarrow> 2 * (length buf - p)
  | Inr (Inl (pow10, buf, p, m)) \<Rightarrow> 2 * (length buf - p)
  | Inr (Inr (Inl (pow10, buf, p, m, ms))) \<Rightarrow> 2 * (length buf - p)
  | Inr (Inr (Inr (pow10, buf, p, m))) \<Rightarrow> 2 * (length buf - p))")
qed (auto simp: cread_Some_iff dest!: skip_progress parser_partial string_parsed(1))

termination parse_value
  by (rule parser_all)

lemma parser_total: "parser_dom x"
  using parser_all by (rule spec)

declare parse_value.simps [simp del] parse_array.simps [simp del] array_rest.simps [simp del]
  parse_object.simps [simp del] object_rest.simps [simp del] parse_member.simps [simp del]

lemmas parse_value_ok = parser_partial(1) [OF parser_total]

text \<open>The whole text. With \<open>require_null_terminated\<close> nothing but white space may follow the value.\<close>

definition cJSON_ParseWithOpts :: "(int \<Rightarrow> rat option) \<Rightarrow> u8 list \<Rightarrow> bool \<Rightarrow> nat \<Rightarrow> (cJSON \<times> nat) parsed" where
  "cJSON_ParseWithOpts pow10 buf require_null_terminated m = (
     if m = 0 then Some (Inl None)
     else do {
       p \<leftarrow> skip buf 0;
       and_then (parse_value pow10 buf p (m - 1)) (\<lambda>(v, q, m1).
         if require_null_terminated then do {
           q1 \<leftarrow> skip buf q;
           b \<leftarrow> cread buf (int q1);
           if b \<noteq> 0 then Some (Inl (Some q1)) else Some (Inr (v, q1)) }
         else Some (Inr (v, q))) })"

definition cJSON_Parse :: "(int \<Rightarrow> rat option) \<Rightarrow> nat \<Rightarrow> u8 list \<Rightarrow> cJSON option option" where
  "cJSON_Parse pow10 m buf = map_option (\<lambda>r. case r of Inl ep \<Rightarrow> None | Inr (v, q) \<Rightarrow> Some v)
     (cJSON_ParseWithOpts pow10 buf False m)"

lemma cJSON_Parse_ok:
  assumes "cJSON_Parse pow10 m buf = Some (Some v)"
  shows "json_ok v"
proof -
  obtain q where "cJSON_ParseWithOpts pow10 buf False m = Some (Inr (v, q))"
    using assms unfolding cJSON_Parse_def
    by (cases "cJSON_ParseWithOpts pow10 buf False m"; cases "the (cJSON_ParseWithOpts pow10 buf False m)") auto
  then obtain p m1 where "parse_value pow10 buf p (m - 1) = Some (Inr (v, q, m1))"
    unfolding cJSON_ParseWithOpts_def by (auto simp: and_then_Inr elim!: bind_SomeE split: if_splits)
  then show ?thesis using parse_value_ok by blast
qed

section \<open>JSON texts\<close>

definition blank :: "u8 list \<Rightarrow> bool" where
  "blank w \<longleftrightarrow> (\<forall>b\<in>set w. b \<noteq> 0 \<and> b \<le> 32)"

definition literal :: "json_char list \<Rightarrow> u8 list" where
  "literal cs = [34] @ concat (map char_text cs) @ [34]"

definition literal_bytes :: "json_char list \<Rightarrow> u8 list" where
  "literal_bytes cs = concat (map char_bytes cs)"

inductive value_text :: "cJSON \<Rightarrow> u8 list \<Rightarrow> bool"
  and items_text :: "cJSON list \<Rightarrow> u8 list \<Rightarrow> bool"
  and members_text :: "members \<Rightarrow> u8 list \<Rightarrow> bool"
where
  null_text: "value_text cJSON_NULL (chars ''null'')"
| false_text: "value_text cJSON_False (chars ''false'')"
| true_text: "value_text cJSON_True (chars ''true'')"
| number_text: "- (2 ^ 31) \<le> n \<Longrightarrow> n < 2 ^ 31 \<Longrightarrow> value_text (cJSON_Number n) (print_number n)"
| string_text: "list_all char_ok cs \<Longrightarrow> value_text (cJSON_String (literal_bytes cs)) (literal cs)"
| empty_array: "blank w \<Longrightarrow> value_text (cJSON_Array []) ([91] @ w @ [93])"
| array_text: "items_text (v # vs) t \<Longrightarrow> value_text (cJSON_Array (v # vs)) ([91] @ t @ [93])"
| empty_object: "blank w \<Longrightarrow> value_text (cJSON_Object []) ([123] @ w @ [125])"
| object_text: "members_text (x # ms) t \<Longrightarrow> value_text (cJSON_Object (x # ms)) ([123] @ t @ [125])"
| last_item: "value_text v t \<Longrightarrow> blank w \<Longrightarrow> blank w1 \<Longrightarrow> items_text [v] (w @ t @ w1)"
| more_items: "value_text v t \<Longrightarrow> blank w \<Longrightarrow> blank w1 \<Longrightarrow> items_text (v1 # vs) ts \<Longrightarrow>
    items_text (v # v1 # vs) (w @ t @ w1 @ [44] @ ts)"
| last_member: "list_all char_ok cs \<Longrightarrow> value_text v t \<Longrightarrow> list_all blank [w, w1, w2, w3] \<Longrightarrow>
    members_text [(literal_bytes cs, v)] (w @ literal cs @ w1 @ [58] @ w2 @ t @ w3)"
| more_members: "list_all char_ok cs \<Longrightarrow> value_text v t \<Longrightarrow> list_all blank [w, w1, w2, w3] \<Longrightarrow>
    members_text (x # ms) ts \<Longrightarrow>
    members_text ((literal_bytes cs, v) # x # ms) (w @ literal cs @ w1 @ [58] @ w2 @ t @ w3 @ [44] @ ts)"

text \<open>The allocations that a value needs besides its own item.\<close>

fun json_needs :: "cJSON \<Rightarrow> nat" where
  "json_needs (cJSON_String s) = 1"
| "json_needs (cJSON_Array vs) = sum_list (map (\<lambda>v. Suc (json_needs v)) vs)"
| "json_needs (cJSON_Object ms) = sum_list (map (\<lambda>(n, v). Suc (Suc (json_needs v))) ms)"
| "json_needs cJSON_NULL = 0"
| "json_needs cJSON_False = 0"
| "json_needs cJSON_True = 0"
| "json_needs (cJSON_Number n) = 0"

section \<open>Texts are read\<close>

lemma skip_blank: "drop p buf = w @ b # r \<Longrightarrow> blank w \<Longrightarrow> 32 < b \<Longrightarrow> skip buf p = Some (p + length w)"
  unfolding skip_def blank_def by (rule skip_over_drop) (auto simp: not_le)

lemma skip_none: "drop p buf = b # r \<Longrightarrow> 32 < b \<Longrightarrow> skip buf p = Some p"
  using skip_blank [of p buf "[]" b r] by (simp add: blank_def)

text \<open>What may follow a number.\<close>

definition delimiter :: "u8 list \<Rightarrow> bool" where
  "delimiter r \<longleftrightarrow> r \<noteq> [] \<and> ends_number (hd r)"

lemma delimiters:
  "delimiter (44 # r)" "delimiter (93 # r)" "delimiter (125 # r)" "delimiter r \<Longrightarrow> blank w \<Longrightarrow> delimiter (w @ r)"
proof -
  show "delimiter (44 # r)" "delimiter (93 # r)" "delimiter (125 # r)"
    by (simp_all add: delimiter_def ends_number_def c_digit_def)
  show "delimiter (w @ r)" if "delimiter r" "blank w"
    using that by (cases w) (auto simp: delimiter_def ends_number_def c_digit_def blank_def word_le_nat_alt)
qed

text \<open>Where a value begins.\<close>

lemma literal_Cons: "literal cs = 34 # concat (map char_text cs) @ [34]"
  by (simp add: literal_def)

lemma digit_not: "c_digit b \<Longrightarrow> 32 < b \<and> b \<noteq> 34 \<and> b \<noteq> 91 \<and> b \<noteq> 93 \<and> b \<noteq> 123 \<and> b \<noteq> 125 \<and> b \<notin> {102, 110, 116}"
  by (auto simp: c_digit_def word_le_nat_alt word_less_nat_alt)

lemma number_hd:
  obtains b u where "print_number n = b # u" "b = 45 \<or> c_digit b"
proof -
  obtain d ds where "digits (nat n) = d # ds" using digits_read [of "nat n"] by (cases "digits (nat n)") auto
  then show thesis using that digits_read [of "nat n"] by (cases "n < 0") (auto simp: print_number_def decimal_def)
qed

lemma value_text_hd:
  assumes "value_text v t"
  obtains b u where "t = b # u" "32 < b" "b \<noteq> 93" "b \<noteq> 125"
proof -
  have number: "\<exists>b u. print_number n = b # u \<and> 32 < b \<and> b \<noteq> 93 \<and> b \<noteq> 125" for n
    by (rule number_hd [of n]) (auto dest: digit_not)
  have "\<exists>b u. t = b # u \<and> 32 < b \<and> b \<noteq> 93 \<and> b \<noteq> 125"
    using assms by (cases rule: value_text.cases) (simp_all add: literal_Cons number del: ex_simps)
  then show thesis using that by blast
qed

lemma items_hd:
  assumes "items_text vs t"
  obtains w b u where "t = w @ b # u" "blank w" "32 < b" "b \<noteq> 93"
  using assms by (cases rule: items_text.cases) (metis append_Cons value_text_hd)+

lemma members_hd:
  assumes "members_text ms t"
  obtains w u where "t = w @ 34 # u" "blank w"
  using assms by (cases rule: members_text.cases) (auto simp: literal_Cons)

text \<open>The words do not begin other values.\<close>

lemma parse_word_other: "drop p buf = b # u \<Longrightarrow> b \<notin> {102, 110, 116} \<Longrightarrow> parse_word buf p = Some None"
  using cread_drop [of p buf b u] by (simp add: parse_word_def)

lemma word_starts: "drop p buf = lit @ r \<Longrightarrow> starts_at buf (int p) lit = Some True"
  using starts_at_drop [of lit p buf] by simp

lemma starts_not: "drop p buf = b # r \<Longrightarrow> b \<noteq> c \<Longrightarrow> starts_at buf (int p) (c # lit) = Some False"
  using cread_drop [of p buf b r] by simp

lemma parse_word_read:
  "drop p buf = chars ''null'' @ r \<Longrightarrow> parse_word buf p = Some (Some (cJSON_NULL, p + 4))"
  "drop p buf = chars ''false'' @ r \<Longrightarrow> parse_word buf p = Some (Some (cJSON_False, p + 5))"
  "drop p buf = chars ''true'' @ r \<Longrightarrow> parse_word buf p = Some (Some (cJSON_True, p + 4))"
  unfolding parse_word_def
  by (frule word_starts, simp add: starts_not del: starts_at.simps(2))+


text \<open>The functions on their own texts: what the value and the rest of a list contribute is given.\<close>

definition needs_items :: "cJSON list \<Rightarrow> nat" where
  "needs_items vs = sum_list (map (\<lambda>v. Suc (json_needs v)) vs)"

definition needs_members :: "members \<Rightarrow> nat" where
  "needs_members ms = sum_list (map (\<lambda>(n, v). Suc (Suc (json_needs v))) ms)"

lemma digit_code [simp]: "\<not> c_digit 91" "\<not> c_digit 123" "\<not> c_digit 34"
  by (simp_all add: c_digit_def)

text \<open>An item between blanks, and a member.\<close>

lemma item_read:
  assumes "value_text v t" "drop p buf = w @ t @ w1 @ c # r" "blank w" "blank w1" "32 < c" "ends_number c"
    "\<And>q s. drop q buf = t @ s \<Longrightarrow> (\<forall>n. v = cJSON_Number n \<longrightarrow> delimiter s) \<Longrightarrow>
      parse_value pow10 buf q m = Some (Inr (v, q + length t, k))"
  shows "skip buf p = Some (p + length w)"
    "parse_value pow10 buf (p + length w) m = Some (Inr (v, p + length w + length t, k))"
    "skip buf (p + length w + length t) = Some (p + length w + length t + length w1)"
    "cread buf (int (p + length w + length t + length w1)) = Some c"
proof -
  obtain b u where b: "t = b # u" "32 < b" using value_text_hd [OF assms(1)] by metis
  have t: "drop (p + length w) buf = t @ w1 @ c # r" by (rule drop_behind [OF assms(2)])
  show "skip buf p = Some (p + length w)" using skip_blank [OF _ assms(3) b(2)] assms(2) b(1) by simp
  have "delimiter (w1 @ c # r)" using assms(4,6) delimiters(4) by (simp add: delimiter_def)
  then show "parse_value pow10 buf (p + length w) m = Some (Inr (v, p + length w + length t, k))"
    using assms(7) [OF t] by simp
  show "skip buf (p + length w + length t) = Some (p + length w + length t + length w1)"
    by (rule skip_blank [OF drop_behind [OF t] assms(4,5)])
  show "cread buf (int (p + length w + length t + length w1)) = Some c"
    by (rule cread_drop [OF drop_behind [OF drop_behind [OF t]]])
qed

lemma ends: "32 < (93 :: u8)" "ends_number 93" "32 < (44 :: u8)" "ends_number 44" "32 < (125 :: u8)" "ends_number 125"
  by (simp_all add: ends_number_def c_digit_def)

lemma member_read:
  assumes "list_all char_ok cs" "value_text v t" "drop p buf = w @ literal cs @ w1 @ [58] @ w2 @ t @ w3 @ c # r"
    "list_all blank [w, w1, w2, w3]" "32 < c" "ends_number c"
    "\<And>q s. drop q buf = t @ s \<Longrightarrow> (\<forall>n. v = cJSON_Number n \<longrightarrow> delimiter s) \<Longrightarrow>
      parse_value pow10 buf q m = Some (Inr (v, q + length t, k))"
  defines "e \<equiv> p + length (w @ literal cs @ w1 @ [58] @ w2 @ t @ w3)"
  shows "skip buf p = Some (p + length w)"
    "parse_member pow10 buf (p + length w) (Suc m) = Some (Inr ((literal_bytes cs, v), e, k))"
    "cread buf (int e) = Some c"
proof -
  have d: "drop p buf = w @ 34 # concat (map char_text cs) @ [34] @ w1 @ [58] @ w2 @ t @ w3 @ c # r"
    using assms(3) by (simp add: literal_Cons)
  show "skip buf p = Some (p + length w)" using skip_blank [OF d] assms(4) by simp
  define q where "q = p + length w + length (literal cs)"
  have name: "parse_string buf (p + length w) (Suc m) = Some (Inr (literal_bytes cs, q, m))"
    using literal_read [of "p + length w" buf cs "w1 @ [58] @ w2 @ t @ w3 @ c # r" "Suc m"] drop_behind [OF d] assms(1)
    by (simp add: literal_bytes_def literal_def list_all_iff q_def)
  have q: "drop q buf = w1 @ 58 # w2 @ t @ w3 @ c # r"
    using drop_behind [of p buf "w @ literal cs" "w1 @ [58] @ w2 @ t @ w3 @ c # r"] assms(3) by (simp add: q_def add.assoc)
  have colon: "skip buf q = Some (q + length w1)" "cread buf (int (q + length w1)) = Some 58"
    using skip_blank [OF q] assms(4) cread_drop [OF drop_behind [OF q]] by simp_all
  have after: "drop (q + length w1 + 1) buf = w2 @ t @ w3 @ c # r"
    using drop_behind [of q buf "w1 @ [58]" "w2 @ t @ w3 @ c # r"] q by (simp add: add.assoc)
  note item = item_read [OF assms(2) after _ _ assms(5,6,7)]
  have blanks: "blank w2" "blank w3" using assms(4) by simp_all
  have e: "e = q + length w1 + 1 + length w2 + length t + length w3" by (simp add: e_def q_def)
  show "cread buf (int e) = Some c" unfolding e by (rule item(4) [OF blanks])
  show "parse_member pow10 buf (p + length w) (Suc m) = Some (Inr ((literal_bytes cs, v), e, k))"
    using name colon item(1-3) [OF blanks] unfolding parse_member.simps e by simp
qed

lemma text_read:
  assumes "pow10 0 = Some 1"
  shows "value_text v t \<Longrightarrow> (\<And>p r k. drop p buf = t @ r \<Longrightarrow> (\<forall>n. v = cJSON_Number n \<longrightarrow> delimiter r) \<Longrightarrow>
      parse_value pow10 buf p (k + json_needs v) = Some (Inr (v, p + length t, k)))"
    and "items_text vs t \<Longrightarrow> (\<And>p r k acc. drop p buf = t @ 93 # r \<Longrightarrow>
      do { q \<leftarrow> skip buf p;
        and_then (parse_value pow10 buf q (k + needs_items vs - 1)) (\<lambda>(v, q1, m1). do {
          q2 \<leftarrow> skip buf q1;
          array_rest pow10 buf q2 m1 (acc @ [v]) }) } = Some (Inr (acc @ vs, p + length t + 1, k)))"
    and "members_text ms t \<Longrightarrow> (\<And>p r k acc. drop p buf = t @ 125 # r \<Longrightarrow>
      do { q \<leftarrow> skip buf p;
        and_then (parse_member pow10 buf q (k + needs_members ms - 1)) (\<lambda>(x, q1, m1).
          object_rest pow10 buf q1 m1 (acc @ [x])) } = Some (Inr (acc @ ms, p + length t + 1, k)))"
proof (induction rule: value_text_items_text_members_text.inducts)
  case null_text
  then show ?case using parse_word_read(1) [of p buf r] by (subst parse_value.simps) simp
next
  case false_text
  then show ?case using parse_word_read(2) [of p buf r] by (subst parse_value.simps) simp
next
  case true_text
  then show ?case using parse_word_read(3) [of p buf r] by (subst parse_value.simps) simp
next
  case (number_text n)
  obtain b u where b: "print_number n = b # u" "b = 45 \<or> c_digit b" by (rule number_hd)
  obtain c w where r: "r = c # w" "ends_number c" using number_text(4) by (cases r) (auto simp: delimiter_def)
  have word: "parse_word buf p = Some None"
    using parse_word_other [of p buf b "u @ r"] number_text(3) b by (auto dest: digit_not)
  have "parse_number pow10 buf p = Some (n, p + length (print_number n))"
    using json_number_read [of pow10 p buf n c w] assms r number_text(1-3) by simp
  then show ?case using cread_drop [of p buf b "u @ r"] word b number_text(3) by (subst parse_value.simps) auto
next
  case (string_text cs)
  then have p: "drop p buf = [34] @ concat (map char_text cs) @ [34] @ r" "\<forall>c\<in>set cs. char_ok c"
    by (simp_all add: literal_def list_all_iff)
  then have "parse_word buf p = Some None" "cread buf (int p) = Some 34"
    using parse_word_other [of p buf 34] cread_drop [of p buf 34] by simp_all
  then show ?case using literal_read [OF p, of "k + 1"] 
    by (subst parse_value.simps) (simp add: literal_def literal_bytes_def)
next
  case (empty_array w)
  then have d: "drop p buf = 91 # w @ 93 # r" "drop (p + 1) buf = w @ 93 # r"
    using drop_behind [of p buf "[91]"] by simp_all
  show ?case using parse_word_other [OF d(1)] cread_drop [OF d(1)] skip_blank [OF d(2) empty_array(1)]
      cread_drop [OF drop_behind [OF d(2)]]
    by (subst parse_value.simps) (simp add: parse_array.simps)
next
  case (array_text v vs t)
  then have d: "drop p buf = 91 # t @ 93 # r" "drop (p + 1) buf = t @ 93 # r"
    using drop_behind [of p buf "[91]"] by simp_all
  obtain w b u where t: "t = w @ b # u" "blank w" "32 < b" "b \<noteq> 93" using items_hd [OF array_text(1)] .
  then have w: "drop (p + 1) buf = w @ b # u @ 93 # r" using d by simp
  define q where "q = p + 1 + length w"
  have q: "skip buf (p + 1) = Some q" "skip buf q = Some q" "cread buf (int q) = Some b"
    unfolding q_def using skip_blank [OF w t(2,3)] skip_none [OF drop_behind [OF w] t(3)] cread_drop [OF drop_behind [OF w]] by simp_all
  have m: "k + json_needs (cJSON_Array (v # vs)) = Suc (k + needs_items (v # vs) - 1)" by (simp add: needs_items_def)
  have "parse_array pow10 buf p (k + json_needs (cJSON_Array (v # vs))) =
      Some (Inr (v # vs, p + length ([91] @ t @ [93]), k))"
    using array_text(2) [OF d(2), of k "[]"] q t(4) cread_drop [OF d(1)] unfolding m
    by (simp add: parse_array.simps)
  then show ?case using parse_word_other [OF d(1)] cread_drop [OF d(1)] by (subst parse_value.simps) simp
next
  case (empty_object w)
  then have d: "drop p buf = 123 # w @ 125 # r" "drop (p + 1) buf = w @ 125 # r"
    using drop_behind [of p buf "[123]"] by simp_all
  show ?case using parse_word_other [OF d(1)] cread_drop [OF d(1)] skip_blank [OF d(2) empty_object(1)]
      cread_drop [OF drop_behind [OF d(2)]]
    by (subst parse_value.simps) (simp add: parse_object.simps)
next
  case (object_text x ms t)
  then have d: "drop p buf = 123 # t @ 125 # r" "drop (p + 1) buf = t @ 125 # r"
    using drop_behind [of p buf "[123]"] by simp_all
  obtain w u where t: "t = w @ 34 # u" "blank w" using members_hd [OF object_text(1)] .
  then have w: "drop (p + 1) buf = w @ 34 # u @ 125 # r" using d by simp
  define q where "q = p + 1 + length w"
  have q: "skip buf (p + 1) = Some q" "skip buf q = Some q" "cread buf (int q) = Some 34"
    unfolding q_def using skip_blank [OF w t(2)] skip_none [OF drop_behind [OF w]] cread_drop [OF drop_behind [OF w]] by simp_all
  have m: "k + json_needs (cJSON_Object (x # ms)) = Suc (k + needs_members (x # ms) - 1)"
    by (cases x) (simp add: needs_members_def)
  have "parse_object pow10 buf p (k + json_needs (cJSON_Object (x # ms))) =
      Some (Inr (x # ms, p + length ([123] @ t @ [125]), k))"
    using object_text(2) [OF d(2), of k "[]"] q cread_drop [OF d(1)] unfolding m
    by (simp add: parse_object.simps)
  then show ?case using parse_word_other [OF d(1)] cread_drop [OF d(1)] by (subst parse_value.simps) simp
next
  case (last_item v t w w1)
  have m: "k + needs_items [v] - 1 = k + json_needs v" by (simp add: needs_items_def)
  have d: "drop p buf = w @ t @ w1 @ 93 # r" using last_item.prems by simp
  have "parse_value pow10 buf q (k + json_needs v) = Some (Inr (v, q + length t, k))"
    if "drop q buf = t @ s" "\<forall>n. v = cJSON_Number n \<longrightarrow> delimiter s" for q s by (rule last_item.IH [OF that])
  note item = item_read [OF last_item.hyps(1) d last_item.hyps(2,3) ends(1,2) this]
  show ?case unfolding m using item by (simp add: array_rest.simps)
next
  case (more_items v t w w1 v1 vs ts)
  let ?k = "Suc (k + needs_items (v1 # vs) - 1)"
  have m: "k + needs_items (v # v1 # vs) - 1 = ?k + json_needs v" by (simp add: needs_items_def)
  have d: "drop p buf = w @ t @ w1 @ 44 # ts @ 93 # r" using more_items.prems by simp
  have "parse_value pow10 buf q (?k + json_needs v) = Some (Inr (v, q + length t, ?k))"
    if "drop q buf = t @ s" "\<forall>n. v = cJSON_Number n \<longrightarrow> delimiter s" for q s by (rule more_items.IH(1) [OF that])
  note item = item_read [OF more_items.hyps(1) d more_items.hyps(2,3) ends(3,4) this]
  have "drop (p + length w + length t + length w1 + 1) buf = ts @ 93 # r"
    using drop_behind [of p buf "w @ t @ w1 @ [44]" "ts @ 93 # r"] d by (simp add: add.assoc)
  note rest = more_items.IH(2) [OF this, of k "acc @ [v]"]
  show ?case unfolding m using item rest by (simp add: array_rest.simps [of _ _ _ "Suc _"] add.assoc)
next
  case (last_member cs v t w w1 w2 w3)
  have m: "k + needs_members [(literal_bytes cs, v)] - 1 = Suc (k + json_needs v)" by (simp add: needs_members_def)
  have d: "drop p buf = w @ literal cs @ w1 @ [58] @ w2 @ t @ w3 @ 125 # r" using last_member.prems by simp
  have "parse_value pow10 buf q (k + json_needs v) = Some (Inr (v, q + length t, k))"
    if "drop q buf = t @ s" "\<forall>n. v = cJSON_Number n \<longrightarrow> delimiter s" for q s by (rule last_member.IH [OF that])
  note member = member_read [OF last_member.hyps(1,2) d last_member.hyps(3) ends(5,6) this]
  show ?case unfolding m using member by (simp add: object_rest.simps)
next
  case (more_members cs v t w w1 w2 w3 x ms ts)
  let ?k = "Suc (k + needs_members (x # ms) - 1)"
  have m: "k + needs_members ((literal_bytes cs, v) # x # ms) - 1 = Suc (?k + json_needs v)"
    by (cases x) (simp add: needs_members_def)
  have d: "drop p buf = w @ literal cs @ w1 @ [58] @ w2 @ t @ w3 @ 44 # ts @ 125 # r" using more_members.prems by simp
  have "parse_value pow10 buf q (?k + json_needs v) = Some (Inr (v, q + length t, ?k))"
    if "drop q buf = t @ s" "\<forall>n. v = cJSON_Number n \<longrightarrow> delimiter s" for q s by (rule more_members.IH(1) [OF that])
  note member = member_read [OF more_members.hyps(1,2) d more_members.hyps(3) ends(3,4) this]
  have "drop (p + length (w @ literal cs @ w1 @ [58] @ w2 @ t @ w3) + 1) buf = ts @ 125 # r"
    using drop_behind [of p buf "w @ literal cs @ w1 @ [58] @ w2 @ t @ w3 @ [44]" "ts @ 125 # r"] d by (simp add: add.assoc)
  note rest = more_members.IH(2) [OF this, of k "acc @ [(literal_bytes cs, v)]"]
  show ?case unfolding m using member rest by (simp add: object_rest.simps [of _ _ _ "Suc _"] add.assoc)
qed

text \<open>The whole text, with blanks around it: the value is returned when there is memory for it.\<close>

lemma text_parsed:
  assumes "value_text v t" "blank w" "pow10 0 = Some 1" "json_needs v < m" "\<forall>n. v = cJSON_Number n \<longrightarrow> delimiter r"
  shows "cJSON_Parse pow10 m (w @ t @ r) = Some (Some v)"
proof -
  obtain b u where b: "t = b # u" "32 < b" using value_text_hd [OF assms(1)] by metis
  have "skip (w @ t @ r) 0 = Some (0 + length w)" by (rule skip_blank [OF _ assms(2) b(2)]) (simp add: b)
  moreover have "parse_value pow10 (w @ t @ r) (length w) (m - 1 - json_needs v + json_needs v) =
      Some (Inr (v, length w + length t, m - 1 - json_needs v))"
    by (rule text_read(1) [where r = r]) (use assms in simp_all)
  ultimately show ?thesis using assms(4) by (simp add: cJSON_Parse_def cJSON_ParseWithOpts_def)
qed

section \<open>Texts that the parser does not end in\<close>

text \<open>The parser ends a text at its zero byte, which the body of a request need not have; and a \<open>\u\<close> with
  fewer than four characters before the closing quote leads the copy of a string out of its buffer.\<close>

definition overruns :: "u8 list \<Rightarrow> bool" where
  "overruns d \<longleftrightarrow> (\<exists>w w1. blank w \<and> blank w1 \<and> (d = w \<or> d = w @ [91] @ w1 \<or> d = w @ [123] @ w1)) \<or>
     (\<exists>w x y z a r. blank w \<and> d = w @ [34, 92, 117, 34, x, y, z] @ a @ r \<and> (\<forall>b\<in>set a. b \<noteq> 0 \<and> b \<noteq> 34 \<and> b \<noteq> 92) \<and> 2 < length a)"

lemma skip_out: "drop p buf = w \<Longrightarrow> blank w \<Longrightarrow> skip buf p = None"
proof (induction w arbitrary: p)
  case Nil
  then have "cread buf (int p) = None" by (simp add: cread_def)
  then show ?case unfolding skip_def by (subst skip_over.simps) simp
next
  case (Cons b w)
  from Cons.prems have "cread buf (int p) = Some b" "drop (p + 1) buf = w"
    using cread_drop [of p buf b w] drop_Cons_at [of p buf b w] by auto
  with Cons show ?case unfolding skip_def by (subst skip_over.simps) (auto simp: blank_def)
qed

lemma open_text:
  assumes "drop p buf = b # w" "b = 91 \<or> b = 123" "blank w"
  shows "parse_value pow10 buf p m = None"
proof -
  have "drop (p + 1) buf = w" using drop_behind [of p buf "[b]" w] assms(1) by simp
  then have "skip buf (p + 1) = None" by (rule skip_out [OF _ assms(3)])
  moreover have "cread buf (int p) = Some b" "parse_word buf p = Some None"
    using cread_drop [OF assms(1)] parse_word_other [OF assms(1)] assms(2) by auto
  ultimately show ?thesis using assms(2)
    by (auto simp: parse_value.simps [of _ _ p] parse_array.simps parse_object.simps)
qed

lemma overrun:
  assumes "overruns d" "1 < m"
  shows "cJSON_Parse pow10 m d = None"
proof -
  have start: "skip (w @ b # r) 0 = Some (length w)" if "blank w" "32 < b" for w b r
    using skip_blank [of 0 "w @ b # r" w b r] that by simp
  have none: "cJSON_Parse pow10 m (w @ b # r) = None"
    if "blank w" "32 < b" "parse_value pow10 (w @ b # r) (length w) (m - 1) = None" for w b r
    using start [OF that(1,2), of r] that(3) assms(2) by (simp add: cJSON_Parse_def cJSON_ParseWithOpts_def and_then_def)
  consider w where "blank w" "d = w" | w b w1 where "blank w" "blank w1" "b = 91 \<or> b = 123" "d = w @ b # w1"
    | w x y z a r where "blank w" "d = w @ [34, 92, 117, 34, x, y, z] @ a @ r"
        "\<forall>b\<in>set a. b \<noteq> 0 \<and> b \<noteq> 34 \<and> b \<noteq> 92" "2 < length a"
    using assms(1) unfolding overruns_def by auto
  then show ?thesis
  proof cases
    case 1
    then have "skip d 0 = None" by (intro skip_out [of 0 d w]) simp_all
    then show ?thesis using assms(2) by (simp add: cJSON_Parse_def cJSON_ParseWithOpts_def)
  next
    case (2 w b w1)
    moreover have "parse_value pow10 (w @ b # w1) (length w) (m - 1) = None"
      by (rule open_text [of _ _ b w1]) (use 2 in auto)
    ultimately show ?thesis using none [of w b w1] by auto
  next
    case (3 w x y z a r)
    let ?r = "[92, 117, 34, x, y, z] @ a @ r"
    have at: "drop (length w) (w @ 34 # ?r) = [34, 92, 117, 34, x, y, z] @ a @ r" by simp
    have "parse_string (w @ 34 # ?r) (length w) (m - 1) = None"
      by (rule short_escape_overflow [OF at 3(3,4)]) (use assms(2) in simp)
    moreover have "cread (w @ 34 # ?r) (int (length w)) = Some 34" "parse_word (w @ 34 # ?r) (length w) = Some None"
      using cread_drop [of "length w" "w @ 34 # ?r" 34 ?r] parse_word_other [of "length w" "w @ 34 # ?r" 34 ?r] by simp_all
    ultimately have "parse_value pow10 (w @ 34 # ?r) (length w) (m - 1) = None"
      by (subst parse_value.simps) (simp add: and_then_def del: append.simps append_Cons)
    then show ?thesis using none [of w 34 ?r] 3(1,2) by simp
  qed
qed

end
