(* ===== verification/JSON_Printer.thy ===== *)
theory JSON_Printer
  imports JSON_Parser
begin

text \<open>
  The printer of \<open>Drivers/W-Link/cJSON/cJSON.c\<close> and \<open>cJSON_Minify\<close>. Every function computes the size
  of its text, allocates a buffer of that size and writes into it; a byte behind the buffer is undefined
  (\<open>None\<close>). A failure returns NULL. \<open>m\<close> counts the allocations that will still succeed.
\<close>

section \<open>Printing\<close>

definition tabs :: "nat \<Rightarrow> u8 list" where
  "tabs n = replicate n 9"

text \<open>The entries of an array and of an object, as they are put into the buffer.\<close>

fun join_items :: "bool \<Rightarrow> u8 list list \<Rightarrow> u8 list" where
  "join_items fmt [] = []"
| "join_items fmt (e # es) = e @ (if es = [] then [] else 44 # (if fmt then [32] else [])) @ join_items fmt es"

fun join_members :: "bool \<Rightarrow> nat \<Rightarrow> (u8 list \<times> u8 list) list \<Rightarrow> u8 list" where
  "join_members fmt depth [] = []"
| "join_members fmt depth ((n, e) # es) =
     (if fmt then tabs depth else []) @ n @ [58] @ (if fmt then [9] else []) @ e @
     (if es = [] then [] else [44]) @ (if fmt then [10] else []) @ join_members fmt depth es"

fun print_value :: "cJSON \<Rightarrow> nat \<Rightarrow> bool \<Rightarrow> nat \<Rightarrow> (unit, u8 list \<times> nat) outcome"
  and print_items :: "cJSON list \<Rightarrow> nat \<Rightarrow> bool \<Rightarrow> nat \<Rightarrow> (unit, u8 list list \<times> nat) outcome"
  and print_members :: "members \<Rightarrow> nat \<Rightarrow> bool \<Rightarrow> nat \<Rightarrow> (unit, (u8 list \<times> u8 list) list \<times> nat) outcome"
where
  "print_value cJSON_NULL depth fmt m = new_text 5 (chars ''null'') m"
| "print_value cJSON_False depth fmt m = new_text 6 (chars ''false'') m"
| "print_value cJSON_True depth fmt m = new_text 5 (chars ''true'') m"
| "print_value (cJSON_Number n) depth fmt m = new_text 21 (print_number n) m"
| "print_value (cJSON_String s) depth fmt m = print_string_ptr s m"
| "print_value (cJSON_Array vs) depth fmt m = (
     if vs = [] then new_text 3 (chars ''[]'') m
     else if m = 0 then Some (Inl ())
     else and_then (print_items vs (depth + 1) fmt (m - 1)) (\<lambda>(entries, m1).
       let len = 5 + sum_list (map (\<lambda>e. length e + 2 + (if fmt then 1 else 0)) entries)
       in new_text len ([91] @ join_items fmt entries @ [93]) m1))"
| "print_value (cJSON_Object ms) depth fmt m = (
     if ms = [] then
       new_text (if fmt then depth + 4 else 3) ([123] @ (if fmt then 10 # tabs (depth - 1) else []) @ [125]) m
     else if m < 2 then Some (Inl ())
     else and_then (print_members ms (depth + 1) fmt (m - 2)) (\<lambda>(entries, m1).
       let len = 7 + (if fmt then depth + 1 else 0) +
         sum_list (map (\<lambda>(n, e). length e + length n + 2 + (if fmt then 2 + (depth + 1) else 0)) entries)
       in new_text len ([123] @ (if fmt then [10] else []) @ join_members fmt (depth + 1) entries @
         (if fmt then tabs depth else []) @ [125]) m1))"
| "print_items [] depth fmt m = Some (Inr ([], m))"
| "print_items (v # vs) depth fmt m =
     and_then (print_value v depth fmt m) (\<lambda>(e, m1).
     and_then (print_items vs depth fmt m1) (\<lambda>(es, m2). Some (Inr (e # es, m2))))"
| "print_members [] depth fmt m = Some (Inr ([], m))"
| "print_members ((name, v) # ms) depth fmt m =
     and_then (print_string_ptr name m) (\<lambda>(n, m1).
     and_then (print_value v depth fmt m1) (\<lambda>(e, m2).
     and_then (print_members ms depth fmt m2) (\<lambda>(es, m3). Some (Inr ((n, e) # es, m3)))))"

definition cJSON_Print :: "nat \<Rightarrow> cJSON \<Rightarrow> (unit, u8 list \<times> nat) outcome" where
  "cJSON_Print m v = print_value v 0 True m"

definition cJSON_PrintUnformatted :: "nat \<Rightarrow> cJSON \<Rightarrow> (unit, u8 list \<times> nat) outcome" where
  "cJSON_PrintUnformatted m v = print_value v 0 False m"

section \<open>The layout\<close>

text \<open>The text of a value, without buffers and allocations.\<close>

fun layout :: "bool \<Rightarrow> nat \<Rightarrow> cJSON \<Rightarrow> u8 list" where
  "layout fmt depth cJSON_NULL = chars ''null''"
| "layout fmt depth cJSON_False = chars ''false''"
| "layout fmt depth cJSON_True = chars ''true''"
| "layout fmt depth (cJSON_Number n) = print_number n"
| "layout fmt depth (cJSON_String s) = quoted s"
| "layout fmt depth (cJSON_Array vs) = [91] @ join_items fmt (map (layout fmt (depth + 1)) vs) @ [93]"
| "layout fmt depth (cJSON_Object ms) = [123] @ (if fmt then [10] else []) @
     join_members fmt (depth + 1) (map (\<lambda>(n, v). (quoted n, layout fmt (depth + 1) v)) ms) @
     (if fmt then tabs (if ms = [] then depth - 1 else depth) else []) @ [125]"

fun print_needs :: "cJSON \<Rightarrow> nat" where
  "print_needs (cJSON_Array vs) = (if vs = [] then 1 else 2 + sum_list (map print_needs vs))"
| "print_needs (cJSON_Object ms) = (if ms = [] then 1 else 3 + sum_list (map (\<lambda>(n, v). Suc (print_needs v)) ms))"
| "print_needs cJSON_NULL = 1"
| "print_needs cJSON_False = 1"
| "print_needs cJSON_True = 1"
| "print_needs (cJSON_Number n) = 1"
| "print_needs (cJSON_String s) = 1"

text \<open>The buffers are large enough.\<close>

lemma join_items_length:
  "length (join_items fmt es) \<le> sum_list (map (\<lambda>e. length e + 2 + (if fmt then 1 else 0)) es)"
  by (induction es) auto

lemma join_members_length:
  "length (join_members fmt depth es) \<le>
    sum_list (map (\<lambda>(n, e). length e + length n + 2 + (if fmt then 2 + depth else 0)) es)"
  by (induction fmt depth es rule: join_members.induct) (auto simp: tabs_def)

lemma array_fits:
  "length ([91] @ join_items fmt es @ [93]) < 5 + sum_list (map (\<lambda>e. length e + 2 + (if fmt then 1 else 0)) es)"
  using join_items_length [of fmt es] by simp

lemma object_fits:
  "length ([123] @ (if fmt then [10] else []) @ join_members fmt (depth + 1) es @ (if fmt then tabs depth else []) @ [125]) <
    7 + (if fmt then depth + 1 else 0) +
    sum_list (map (\<lambda>(n, e). length e + length n + 2 + (if fmt then 2 + (depth + 1) else 0)) es)"
  using join_members_length [of fmt "depth + 1" es] by (cases fmt) (simp_all add: tabs_def)

lemma number_fits:
  assumes "json_ok (cJSON_Number n)"
  shows "length (print_number n) < 21"
proof -
  have "\<bar>n\<bar> < 10 ^ 10" using assms by auto
  then show ?thesis using length_decimal [of n 10] by (simp add: print_number_def)
qed

lemma new_text_fits:
  "length t < n \<Longrightarrow> new_text n t m = (if m = 0 then Some (Inl ()) else Some (Inr (t, m - 1)))"
  by (simp add: new_text_def)

definition printed :: "'a \<Rightarrow> nat \<Rightarrow> nat \<Rightarrow> (unit, 'a \<times> nat) outcome" where
  "printed t n m = (if m < n then Some (Inl ()) else Some (Inr (t, m - n)))"

lemma printed_then:
  "and_then (printed t n m) (\<lambda>(x, m1). printed (f x) k m1) = printed (f t) (n + k) m"
  by (auto simp: printed_def)

lemma new_text_printed: "length t < n \<Longrightarrow> new_text n t m = printed t 1 m"
  by (simp add: new_text_fits printed_def Suc_le_eq)

lemma value_printed:
  shows "json_ok v \<Longrightarrow> print_value v depth fmt m = printed (layout fmt depth v) (print_needs v) m"
    and "\<forall>v\<in>set vs. json_ok v \<Longrightarrow>
      print_items vs depth fmt m = printed (map (layout fmt depth) vs) (sum_list (map print_needs vs)) m"
    and "json_ok (cJSON_Object ms) \<Longrightarrow>
      print_members ms depth fmt m = printed (map (\<lambda>(n, v). (quoted n, layout fmt depth v)) ms)
        (sum_list (map (\<lambda>(n, v). Suc (print_needs v)) ms)) m"
proof (induction v depth fmt m and vs depth fmt m and ms depth fmt m
    rule: print_value_print_items_print_members.induct)
  case (4 n depth fmt m)
  then show ?case using number_fits by (simp add: new_text_printed)
next
  case (5 s depth fmt m)
  then show ?case by (auto simp: string_printed printed_def)
next
  case (6 vs depth fmt m)
  consider "vs = []" | "vs \<noteq> []" "m = 0" | "vs \<noteq> []" "m \<noteq> 0" by blast
  then show ?case
  proof cases
    case 3
    let ?es = "map (layout fmt (depth + 1)) vs"
    have "print_items vs (depth + 1) fmt (m - 1) = printed ?es (sum_list (map print_needs vs)) (m - 1)"
      using 6 3 by simp
    moreover have "new_text (5 + sum_list (map (\<lambda>e. length e + 2 + (if fmt then 1 else 0)) es))
        ([91] @ join_items fmt es @ [93]) k = printed ([91] @ join_items fmt es @ [93]) 1 k" for es k
      by (rule new_text_printed [OF array_fits])
    ultimately have "print_value (cJSON_Array vs) depth fmt m =
        and_then (printed ?es (sum_list (map print_needs vs)) (m - 1)) (\<lambda>(es, m1).
          printed ([91] @ join_items fmt es @ [93]) 1 m1)"
      using 3 by (simp add: Let_def del: append_Cons append_Nil append.simps)
    then show ?thesis unfolding printed_then using 3 by (auto simp: printed_def)
  qed (simp_all add: new_text_printed, simp add: printed_def)
next
  case (7 ms depth fmt m)
  consider "ms = []" | "ms \<noteq> []" "m < 2" | "ms \<noteq> []" "\<not> m < 2" by blast
  then show ?case
  proof cases
    case 3
    let ?es = "map (\<lambda>(n, v). (quoted n, layout fmt (depth + 1) v)) ms"
    have "print_members ms (depth + 1) fmt (m - 2) =
        printed ?es (sum_list (map (\<lambda>(n, v). Suc (print_needs v)) ms)) (m - 2)"
      using 7 3 by simp
    moreover have "new_text (7 + (if fmt then depth + 1 else 0) +
          sum_list (map (\<lambda>(n, e). length e + length n + 2 + (if fmt then 2 + (depth + 1) else 0)) es))
        ([123] @ (if fmt then [10] else []) @ join_members fmt (depth + 1) es @ (if fmt then tabs depth else []) @ [125]) k =
        printed ([123] @ (if fmt then [10] else []) @ join_members fmt (depth + 1) es @ (if fmt then tabs depth else []) @ [125]) 1 k"
      for es k by (rule new_text_printed [OF object_fits])
    ultimately have "print_value (cJSON_Object ms) depth fmt m =
        and_then (printed ?es (sum_list (map (\<lambda>(n, v). Suc (print_needs v)) ms)) (m - 2)) (\<lambda>(es, m1).
          printed ([123] @ (if fmt then [10] else []) @ join_members fmt (depth + 1) es @
            (if fmt then tabs depth else []) @ [125]) 1 m1)"
      using 3 by (simp add: Let_def del: append_Cons append_Nil append.simps)
    then show ?thesis unfolding printed_then using 3 by (auto simp: printed_def)
  qed (auto simp: new_text_printed tabs_def, auto simp: printed_def)
next
  case (9 v vs depth fmt m)
  then show ?case by (auto simp: printed_def)
next
  case (11 name v ms depth fmt m)
  then show ?case by (auto simp: printed_def string_printed)
qed (simp_all add: new_text_printed printed_def)

section \<open>A printed value is parsed again\<close>

lemma literal_for:
  assumes "0 \<notin> set t"
  shows "list_all char_ok (map char_for t)" "literal (map char_for t) = quoted t" "literal_bytes (map char_for t) = t"
proof -
  show "list_all char_ok (map char_for t)"
    using assms by (auto simp: list_all_iff intro!: conjunct1 [OF char_for_ok])
  show "literal (map char_for t) = quoted t" by (simp add: literal_def quoted_def comp_def char_for_text)
  show "literal_bytes (map char_for t) = t"
    using assms by (induction t) (auto simp: literal_bytes_def char_for_ok)
qed

lemma blanks [simp]: "blank []" "blank (x @ y) \<longleftrightarrow> blank x \<and> blank y" "blank (b # x) \<longleftrightarrow> b \<noteq> 0 \<and> b \<le> 32 \<and> blank x"
  "blank (tabs n)"
  by (auto simp: blank_def tabs_def)

lemma items_layout:
  "\<forall>v\<in>set (v # vs). value_text v (f v) \<Longrightarrow> blank w \<Longrightarrow> items_text (v # vs) (w @ join_items fmt (map f (v # vs)))"
proof (induction vs arbitrary: v w)
  case Nil
  then show ?case using last_item [of v "f v" w "[]"] by simp
next
  case (Cons v1 vs)
  have "items_text (v1 # vs) ((if fmt then [32] else []) @ join_items fmt (map f (v1 # vs)))"
    by (rule Cons.IH) (use Cons.prems in auto)
  then show ?case using more_items [of v "f v" w "[]"] Cons.prems by simp
qed

lemma members_layout:
  "\<forall>(n, v)\<in>set (x # ms). 0 \<notin> set n \<and> value_text v (f v) \<Longrightarrow> blank w \<Longrightarrow> blank w1 \<Longrightarrow>
    members_text (x # ms) (w @ join_members fmt depth (map (\<lambda>(n, v). (quoted n, f v)) (x # ms)) @ w1)"
proof (induction ms arbitrary: x w)
  case Nil
  obtain n v where x: "x = (n, v)" by force
  then show ?case using last_member [of "map char_for n" v "f v" "w @ (if fmt then tabs depth else [])" "[]"
      "if fmt then [9] else []" "(if fmt then [10] else []) @ w1"] Nil literal_for [of n] by (cases fmt) simp_all
next
  case (Cons y ms)
  obtain n v where x: "x = (n, v)" by force
  have rest: "members_text (y # ms) ((if fmt then [10] else []) @
      join_members fmt depth (map (\<lambda>(n, v). (quoted n, f v)) (y # ms)) @ w1)"
    by (rule Cons.IH) (use Cons.prems in auto)
  obtain n1 v1 where y: "y = (n1, v1)" by force
  show ?case using more_members [of "map char_for n" v "f v" "w @ (if fmt then tabs depth else [])" "[]"
      "if fmt then [9] else []" "[]", OF _ _ _ rest] Cons.prems literal_for [of n] x y by (cases fmt) simp_all
qed

lemma layout_text: "json_ok v \<Longrightarrow> value_text v (layout fmt depth v)"
proof (induction fmt depth v rule: layout.induct)
  case (4 fmt depth n)
  then show ?case by (auto intro: number_text)
next
  case (5 fmt depth s)
  then show ?case using string_text [OF literal_for(1), of s] literal_for [of s] by simp
next
  case (6 fmt depth vs)
  show ?case
  proof (cases vs)
    case Nil
    then show ?thesis using empty_array [of "[]"] by simp
  next
    case (Cons v us)
    have "items_text (v # us) ([] @ join_items fmt (map (layout fmt (depth + 1)) (v # us)))"
      by (rule items_layout) (use 6 Cons in auto)
    then show ?thesis using array_text [of v us] Cons by (simp del: join_items.simps list.map)
  qed
next
  case (7 fmt depth ms)
  show ?case
  proof (cases ms)
    case Nil
    then show ?thesis using empty_object [of "if fmt then 10 # tabs (depth - 1) else []"] by (cases fmt) simp_all
  next
    case (Cons x us)
    have "\<forall>(n, v)\<in>set (x # us). 0 \<notin> set n \<and> value_text v (layout fmt (depth + 1) v)"
      using 7 Cons by fastforce
    then have "members_text (x # us) ((if fmt then [10] else []) @ join_members fmt (depth + 1)
        (map (\<lambda>(n, v). (quoted n, layout fmt (depth + 1) v)) (x # us)) @ (if fmt then tabs depth else []))"
      by (rule members_layout) simp_all
    from object_text [OF this] show ?thesis using Cons by (cases fmt) simp_all
  qed
qed (simp_all add: null_text [simplified] false_text [simplified] true_text [simplified])

lemma printed_again:
  assumes "json_ok v" "cJSON_Print k v = Some (Inr (t, k1)) \<or> cJSON_PrintUnformatted k v = Some (Inr (t, k1))"
    "pow10 0 = Some 1" "json_needs v < m"
  shows "cJSON_Parse pow10 m (t @ [0]) = Some (Some v)"
proof -
  obtain fmt where t: "t = layout fmt 0 v"
    using assms(1,2) by (auto simp: cJSON_Print_def cJSON_PrintUnformatted_def value_printed printed_def split: if_splits)
  have "delimiter [0]" by (simp add: delimiter_def ends_number_def c_digit_def)
  then show ?thesis using text_parsed [OF layout_text [OF assms(1)], of "[]" pow10 m "[0]" fmt 0] assms(3,4) t by simp
qed

section \<open>Minification\<close>

text \<open>\<open>cJSON_Minify\<close> writes over the text that it reads, never ahead of the place where it reads, so that the
  bytes it reads are those of the text. The result is what it writes before the final zero byte.\<close>

function comment_end :: "u8 list \<Rightarrow> nat \<Rightarrow> nat option" where
  "comment_end buf p = do {
     b \<leftarrow> cread buf (int p);
     if b = 0 then Some p
     else if b = 42 then do {
       c \<leftarrow> cread buf (int (p + 1));
       if c = 47 then Some p else comment_end buf (p + 1) }
     else comment_end buf (p + 1) }"
  by pat_completeness auto
termination
  by (relation "measure (\<lambda>(buf, p). length buf - p)") (auto simp: cread_Some_iff)

declare comment_end.simps [simp del]

function copy_string :: "u8 list \<Rightarrow> nat \<Rightarrow> u8 list \<Rightarrow> (nat \<times> u8 list) option" where
  "copy_string buf p out = do {
     b \<leftarrow> cread buf (int p);
     if b \<noteq> 0 \<and> b \<noteq> 34 then
       if b = 92 then do {
         c \<leftarrow> cread buf (int (p + 1));
         copy_string buf (p + 2) (out @ [b, c]) }
       else copy_string buf (p + 1) (out @ [b])
     else Some (p + 1, out @ [b]) }"
  by pat_completeness auto
termination
  by (relation "measure (\<lambda>(buf, p, out). length buf - p)") (auto simp: cread_Some_iff)

declare copy_string.simps [simp del]

lemma comment_end_progress: "comment_end buf p = Some q \<Longrightarrow> p \<le> q"
proof (induction buf p rule: comment_end.induct)
  case (1 buf p)
  then show ?case by (subst (asm) (3) comment_end.simps) (fastforce elim!: bind_SomeE split: if_splits)
qed

lemma copy_string_progress: "copy_string buf p out = Some (q, t) \<Longrightarrow> p < q"
proof (induction buf p out rule: copy_string.induct)
  case (1 buf p out)
  then show ?case by (subst (asm) (3) copy_string.simps) (fastforce elim!: bind_SomeE split: if_splits)
qed

lemma skip_over_progress: "skip_over P buf p = Some q \<Longrightarrow> p \<le> q"
proof (induction P buf p rule: skip_over.induct)
  case (1 P buf p)
  then show ?case by (subst (asm) (2) skip_over.simps) (fastforce elim!: bind_SomeE split: if_splits)
qed

function minify :: "u8 list \<Rightarrow> nat \<Rightarrow> u8 list \<Rightarrow> u8 list option" where
  "minify buf p out = do {
     b \<leftarrow> cread buf (int p);
     if b = 0 then Some out
     else if b = 32 \<or> b = 9 \<or> b = 13 \<or> b = 10 then minify buf (p + 1) out
     else if b = 47 then do {
       c \<leftarrow> cread buf (int (p + 1));
       if c = 47 then do {
         q \<leftarrow> skip_over (\<lambda>x. x \<noteq> 0 \<and> x \<noteq> 10) buf (p + 1);
         minify buf q out }
       else if c = 42 then do {
         q \<leftarrow> comment_end buf p;
         minify buf (q + 2) out }
       else minify buf (p + 1) (out @ [b]) }
     else if b = 34 then do {
       (q, t) \<leftarrow> copy_string buf (p + 1) (out @ [b]);
       minify buf q t }
     else minify buf (p + 1) (out @ [b]) }"
  by pat_completeness auto
termination
  by (relation "measure (\<lambda>(buf, p, out). length buf - p)")
    (auto simp: cread_Some_iff dest!: comment_end_progress copy_string_progress skip_over_progress)

declare minify.simps [simp del]

definition cJSON_Minify :: "u8 list \<Rightarrow> u8 list option" where
  "cJSON_Minify json = minify json 0 []"

lemma minify_blank: "drop p buf = w @ r \<Longrightarrow> set w \<subseteq> {9, 10, 32} \<Longrightarrow> minify buf p out = minify buf (p + length w) out"
proof (induction w arbitrary: p)
  case (Cons b w)
  then have "cread buf (int p) = Some b" "drop (p + 1) buf = w @ r"
    using cread_drop [of p buf b] drop_Cons_at [of p buf b] by auto
  with Cons show ?case by (subst minify.simps) auto
qed simp

definition copied :: "u8 \<Rightarrow> bool" where
  "copied b \<longleftrightarrow> b \<notin> {0, 9, 10, 13, 32, 34, 47}"

lemma minify_copied:
  "drop p buf = w @ r \<Longrightarrow> \<forall>b\<in>set w. copied b \<Longrightarrow> minify buf p out = minify buf (p + length w) (out @ w)"
proof (induction w arbitrary: p out)
  case (Cons b w)
  then have "cread buf (int p) = Some b" "drop (p + 1) buf = w @ r"
    using cread_drop [of p buf b] drop_Cons_at [of p buf b] by auto
  with Cons show ?case by (subst minify.simps) (auto simp: copied_def)
qed simp

lemma copy_string_plain:
  "drop p buf = w @ r \<Longrightarrow> \<forall>b\<in>set w. b \<noteq> 0 \<and> b \<noteq> 34 \<and> b \<noteq> 92 \<Longrightarrow>
    copy_string buf p out = copy_string buf (p + length w) (out @ w)"
proof (induction w arbitrary: p out)
  case (Cons b w)
  then have "cread buf (int p) = Some b" "drop (p + 1) buf = w @ r"
    using cread_drop [of p buf b] drop_Cons_at [of p buf b] by auto
  with Cons show ?case by (subst copy_string.simps) auto
qed simp

lemma copy_string_escape:
  assumes "drop p buf = [92, c] @ w @ r" "\<forall>b\<in>set w. b \<noteq> 0 \<and> b \<noteq> 34 \<and> b \<noteq> 92"
  shows "copy_string buf p out = copy_string buf (p + length ([92, c] @ w)) (out @ [92, c] @ w)"
proof -
  have d: "drop (p + 1) buf = c # w @ r" using drop_Cons_at [of p buf 92] assms(1) by simp
  have "copy_string buf p out = copy_string buf (p + 2) (out @ [92, c])"
    using cread_drop [of p buf 92] cread_drop [OF d] assms(1) by (subst copy_string.simps) simp
  moreover have "drop (p + 2) buf = w @ r" using drop_behind [of p buf "[92, c]" "w @ r"] assms(1) by simp
  ultimately show ?thesis using copy_string_plain [of "p + 2" buf w r "out @ [92, c]"] assms(2) by simp
qed

lemma copy_string_char:
  assumes "drop p buf = char_text c @ r" "char_ok c"
  shows "copy_string buf p out = copy_string buf (p + length (char_text c)) (out @ char_text c)"
proof (cases c)
  case (Plain b)
  then show ?thesis using assms copy_string_plain [of p buf "[b]" r] by simp
next
  case (Simple e)
  then show ?thesis using assms copy_string_escape [of p buf e "[]" r] by simp
next
  case (Unicode ds)
  then show ?thesis using assms copy_string_escape [of p buf 117 ds r] hex_not_special by (auto simp: is_hex4_def)
next
  case (Surrogates ds es)
  have d: "drop p buf = [92, 117] @ ds @ [92, 117] @ es @ r" using assms Surrogates by simp
  have hex: "\<forall>b\<in>set ds. b \<noteq> 0 \<and> b \<noteq> 34 \<and> b \<noteq> 92" "\<forall>b\<in>set es. b \<noteq> 0 \<and> b \<noteq> 34 \<and> b \<noteq> 92"
    using assms(2) Surrogates hex_not_special by (auto simp: is_hex4_def)
  have d1: "drop (p + length ([92, 117] @ ds)) buf = [92, 117] @ es @ r"
    by (rule drop_behind) (use d in simp)
  show ?thesis using copy_string_escape [OF d hex(1), of out] copy_string_escape [OF d1 hex(2), of "out @ [92, 117] @ ds"] Surrogates
    by (simp add: add.assoc)
qed

lemma copy_string_literal:
  "drop p buf = concat (map char_text cs) @ 34 # r \<Longrightarrow> \<forall>c\<in>set cs. char_ok c \<Longrightarrow>
    copy_string buf p out = Some (p + length (concat (map char_text cs)) + 1, out @ concat (map char_text cs) @ [34])"
proof (induction cs arbitrary: p out)
  case Nil
  then show ?case using cread_drop [of p buf 34 r] by (subst copy_string.simps) simp
next
  case (Cons c cs)
  then have d: "drop p buf = char_text c @ concat (map char_text cs) @ 34 # r" by simp
  show ?case using Cons.IH [OF drop_behind [OF d], of "out @ char_text c"] copy_string_char [OF d] Cons.prems(2)
    by simp
qed

text \<open>A part of the text and what becomes of it.\<close>

definition minifies :: "u8 list \<Rightarrow> u8 list \<Rightarrow> bool" where
  "minifies t t1 \<longleftrightarrow> (\<forall>buf p out r. drop p buf = t @ r \<longrightarrow> minify buf p out = minify buf (p + length t) (out @ t1))"

lemma minifies_append: "minifies a a1 \<Longrightarrow> minifies b b1 \<Longrightarrow> minifies (a @ b) (a1 @ b1)"
  unfolding minifies_def
proof (intro allI impI)
  fix buf p out r
  assume *: "\<forall>buf p out r. drop p buf = a @ r \<longrightarrow> minify buf p out = minify buf (p + length a) (out @ a1)"
    "\<forall>buf p out r. drop p buf = b @ r \<longrightarrow> minify buf p out = minify buf (p + length b) (out @ b1)"
    "drop p buf = (a @ b) @ r"
  then have "drop (p + length a) buf = b @ r" using drop_behind [of p buf a "b @ r"] by simp
  with * show "minify buf p out = minify buf (p + length (a @ b)) (out @ a1 @ b1)" by (simp add: add.assoc)
qed

lemma minifies_blank: "set w \<subseteq> {9, 10, 32} \<Longrightarrow> minifies w []"
  unfolding minifies_def using minify_blank by auto

lemma minifies_copied: "\<forall>b\<in>set w. copied b \<Longrightarrow> minifies w w"
  unfolding minifies_def using minify_copied by blast

lemma minifies_literal:
  assumes "list_all char_ok cs"
  shows "minifies (literal cs) (literal cs)"
  unfolding minifies_def
proof (intro allI impI)
  fix buf p out r
  assume "drop p buf = literal cs @ r"
  then have d: "drop p buf = 34 # concat (map char_text cs) @ 34 # r" by (simp add: literal_def)
  then have "drop (p + 1) buf = concat (map char_text cs) @ 34 # r" using drop_Cons_at [OF d] by simp
  then show "minify buf p out = minify buf (p + length (literal cs)) (out @ literal cs)"
    using cread_drop [OF d] copy_string_literal [of "p + 1" buf cs r "out @ [34]"] assms
    by (subst minify.simps) (simp add: literal_def list_all_iff)
qed

lemma minifies_quoted: "0 \<notin> set t \<Longrightarrow> minifies (quoted t) (quoted t)"
  using minifies_literal [OF literal_for(1)] literal_for(2) by metis

lemma minifies_Nil: "minifies [] []"
  using minifies_copied [of "[]"] by simp

lemma minifies_single: "copied b \<Longrightarrow> minifies [b] [b]"
  using minifies_copied [of "[b]"] by simp

lemma copied_marks: "copied 44" "copied 58" "copied 91" "copied 93" "copied 123" "copied 125"
  by (simp_all add: copied_def)

lemma minifies_items:
  "\<forall>v\<in>set vs. minifies (f v) (g v) \<Longrightarrow> minifies (join_items True (map f vs)) (join_items False (map g vs))"
proof (induction vs)
  case Nil
  then show ?case by (simp add: minifies_Nil)
next
  case (Cons v vs)
  have "minifies ([44] @ [32]) ([44] @ [])"
    by (intro minifies_append minifies_single minifies_blank copied_marks) simp
  then have "minifies (if vs = [] then [] else [44] @ [32]) (if vs = [] then [] else [44] @ [])"
    by (simp add: minifies_Nil)
  then have "minifies (f v @ (if vs = [] then [] else [44] @ [32]) @ join_items True (map f vs))
      (g v @ (if vs = [] then [] else [44] @ []) @ join_items False (map g vs))"
    by (intro minifies_append Cons.IH) (use Cons.prems in auto)
  then show ?case by (cases "vs = []") simp_all
qed

lemma minifies_members:
  "\<forall>(n, v)\<in>set ms. 0 \<notin> set n \<and> minifies (f v) (g v) \<Longrightarrow>
    minifies (join_members True depth (map (\<lambda>(n, v). (quoted n, f v)) ms))
      (join_members False depth (map (\<lambda>(n, v). (quoted n, g v)) ms))"
proof (induction ms)
  case Nil
  then show ?case by (simp add: minifies_Nil)
next
  case (Cons x ms)
  obtain n v where x: "x = (n, v)" by force
  have mark: "minifies (if ms = [] then [] else [44]) (if ms = [] then [] else [44])"
    by (simp add: minifies_Nil minifies_single copied_marks)
  have parts: "minifies (quoted n) (quoted n)" "minifies (f v) (g v)"
    using Cons.prems x by (simp_all add: minifies_quoted)
  have "minifies (tabs depth @ quoted n @ [58] @ [9] @ f v @ (if ms = [] then [] else [44]) @ [10] @
        join_members True depth (map (\<lambda>(n, v). (quoted n, f v)) ms))
      ([] @ quoted n @ [58] @ [] @ g v @ (if ms = [] then [] else [44]) @ [] @
        join_members False depth (map (\<lambda>(n, v). (quoted n, g v)) ms))"
    by (intro minifies_append parts mark minifies_single minifies_blank copied_marks Cons.IH)
      (use Cons.prems in \<open>auto simp: tabs_def\<close>)
  then show ?case using x by simp
qed

lemma digits_copied: "\<forall>b\<in>set (print_number n). copied b"
proof -
  have "copied b" if "c_digit b" for b using that by (auto simp: copied_def c_digit_def)
  moreover have "copied 45" by (simp add: copied_def)
  ultimately show ?thesis using digits_read by (auto simp: print_number_def decimal_def)
qed

lemma layout_minified: "json_ok v \<Longrightarrow> minifies (layout True depth v) (layout False depth v)"
proof (induction v arbitrary: depth)
  case (cJSON_Number n)
  then show ?case using minifies_copied [OF digits_copied] by simp
next
  case (cJSON_String s)
  then show ?case by (simp add: minifies_quoted)
next
  case (cJSON_Array vs)
  have "minifies ([91] @ join_items True (map (layout True (depth + 1)) vs) @ [93])
      ([91] @ join_items False (map (layout False (depth + 1)) vs) @ [93])"
    by (intro minifies_append minifies_single minifies_items copied_marks) (use cJSON_Array in auto)
  then show ?case by simp
next
  case (cJSON_Object ms)
  have "minifies ([123] @ [10] @ join_members True (depth + 1) (map (\<lambda>(n, v). (quoted n, layout True (depth + 1) v)) ms) @
        tabs (if ms = [] then depth - 1 else depth) @ [125])
      ([123] @ [] @ join_members False (depth + 1) (map (\<lambda>(n, v). (quoted n, layout False (depth + 1) v)) ms) @ [] @ [125])"
    by (intro minifies_append minifies_single minifies_members minifies_blank copied_marks)
      (use cJSON_Object in \<open>auto simp: tabs_def\<close>)
  then show ?case by simp
qed (auto intro!: minifies_copied simp: copied_def)

lemma minified:
  assumes "json_ok v"
  shows "and_then (cJSON_Print m v) (\<lambda>(t, m1). map_option (\<lambda>s. Inr (s, m1)) (cJSON_Minify (t @ [0]))) =
    cJSON_PrintUnformatted m v"
proof -
  let ?t = "layout True 0 v" and ?s = "layout False 0 v"
  have "drop 0 (?t @ [0]) = ?t @ [0]" by simp
  then have "minify (?t @ [0]) 0 [] = minify (?t @ [0]) (0 + length ?t) ([] @ ?s)"
    using layout_minified [OF assms] unfolding minifies_def by blast
  moreover have "cread (?t @ [0]) (int (length ?t)) = Some 0" by (simp add: nth_append)
  ultimately have "cJSON_Minify (?t @ [0]) = Some ?s" by (simp add: cJSON_Minify_def minify.simps [of _ "length ?t"])
  then show ?thesis using assms by (simp add: cJSON_Print_def cJSON_PrintUnformatted_def value_printed printed_def)
qed

section \<open>The text that is sent\<close>

text \<open>What the server does to get the text of a value: print, then minify. \<open>None\<close> is NULL; for the values of
  \<open>json_ok\<close> there is no undefined behaviour that it would hide (\<open>minified\<close>).\<close>

definition json_string :: "nat \<Rightarrow> cJSON \<Rightarrow> u8 list option" where
  "json_string m v = (case and_then (cJSON_Print m v) (\<lambda>(t, m1). map_option (\<lambda>s. Inr (s, m1)) (cJSON_Minify (t @ [0]))) of
     Some (Inr (s, m1)) \<Rightarrow> Some s
   | _ \<Rightarrow> None)"

text \<open>A bound on its length.\<close>

fun text_size :: "cJSON \<Rightarrow> nat" where
  "text_size (cJSON_Number n) = 11"
| "text_size (cJSON_String s) = 6 * length s + 2"
| "text_size (cJSON_Array vs) = 2 + sum_list (map (\<lambda>v. text_size v + 1) vs)"
| "text_size (cJSON_Object ms) = 2 + sum_list (map (\<lambda>(n, v). 6 * length n + 4 + text_size v) ms)"
| "text_size cJSON_NULL = 4"
| "text_size cJSON_False = 5"
| "text_size cJSON_True = 4"

lemma quoted_length: "length (quoted t) \<le> 6 * length t + 2"
  by (induction t) (auto simp: quoted_def escape_char_def)

lemma items_length: "\<forall>v\<in>set vs. length (f v) \<le> g v \<Longrightarrow>
    length (join_items False (map f vs)) \<le> sum_list (map (\<lambda>v. g v + 1) vs)"
  by (induction vs) auto

lemma members_length: "\<forall>(n, v)\<in>set ms. length (f v) \<le> g v \<Longrightarrow>
    length (join_members False depth (map (\<lambda>(n, v). (quoted n, f v)) ms)) \<le>
      sum_list (map (\<lambda>(n, v). 6 * length n + 4 + g v) ms)"
proof (induction ms)
  case (Cons x ms)
  obtain n v where x: "x = (n, v)" by force
  from Cons x have "length (join_members False depth (map (\<lambda>(n, v). (quoted n, f v)) ms)) \<le>
      sum_list (map (\<lambda>(n, v). 6 * length n + 4 + g v) ms)" "length (f v) \<le> g v" by auto
  then show ?case using quoted_length [of n] x by simp
qed simp

lemma layout_length: "json_ok v \<Longrightarrow> length (layout False depth v) \<le> text_size v"
proof (induction v arbitrary: depth)
  case (cJSON_Number n)
  then have "\<bar>n\<bar> < 10 ^ 10" by auto
  then show ?case using length_decimal [of n 10] by (simp add: print_number_def)
next
  case (cJSON_String s)
  then show ?case using quoted_length [of s] by simp
next
  case (cJSON_Array vs)
  have "length (join_items False (map (layout False (depth + 1)) vs)) \<le> sum_list (map (\<lambda>v. text_size v + 1) vs)"
    by (rule items_length) (use cJSON_Array in auto)
  then show ?case by simp
next
  case (cJSON_Object ms)
  have "length (join_members False (depth + 1) (map (\<lambda>(n, v). (quoted n, layout False (depth + 1) v)) ms)) \<le>
      sum_list (map (\<lambda>(n, v). 6 * length n + 4 + text_size v) ms)"
    by (rule members_length) (use cJSON_Object in fastforce)
  then show ?case by simp
qed simp_all

lemma layout_not_Nil: "layout fmt depth v \<noteq> []"
  by (cases v) (simp_all add: quoted_def print_number_def decimal_not_Nil)

text \<open>Values of a size that the application prints.\<close>

definition sendable :: "cJSON \<Rightarrow> bool" where
  "sendable v \<longleftrightarrow> json_ok v \<and> print_needs v \<le> 64 \<and> text_size v < 4096"

lemma json_string_sendable:
  assumes "sendable v" "64 \<le> m"
  shows "json_string m v = Some (layout False 0 v)" "layout False 0 v \<noteq> []" "length (layout False 0 v) < 2 ^ 64"
proof -
  have v: "json_ok v" "\<not> m < print_needs v" using assms by (simp_all add: sendable_def)
  let ?t = "layout True 0 v" and ?s = "layout False 0 v"
  show "json_string m v = Some ?s"
    using v by (simp add: json_string_def minified cJSON_PrintUnformatted_def value_printed printed_def)
  show "?s \<noteq> []" by (rule layout_not_Nil)
  have "length ?s < 4096" using layout_length [OF v(1), of 0] assms(1) by (simp add: sendable_def)
  then show "length ?s < 2 ^ 64" by simp
qed

section \<open>Properties\<close>









text \<open>
  C22: Minifying the printed text of a value gives the text of the printer without layout: no blank outside a
  string stays, none inside one is lost, whatever quotes and backslashes the strings have.
\<close>

theorem minified_is_unformatted:
  assumes "json_ok v" "cJSON_Print m v = Some (Inr (t, k))"
  shows "\<exists>s. cJSON_Minify (t @ [0]) = Some s \<and> cJSON_PrintUnformatted m v = Some (Inr (s, k))"
  using minified [OF assms(1), of m] assms(2) by (cases "cJSON_Minify (t @ [0])")
    (auto simp: cJSON_PrintUnformatted_def value_printed(1) [OF assms(1)] printed_def split: if_splits)

theorem minified_is_unformatted_witness:
  "cJSON_Minify (chars ''{'' @ [10, 9] @ quoted (chars ''a b'') @ [58, 9] @ chars ''[1, 2]'' @ [10] @ chars ''}'' @ [0]) =
    Some (chars ''{'' @ quoted (chars ''a b'') @ chars '':[1,2]}'')"
proof -
  let ?v = "cJSON_Object [(chars ''a b'', cJSON_Array [cJSON_Number 1, cJSON_Number 2])]"
  have ok: "json_ok ?v" by simp
  have t: "layout True 0 ?v = chars ''{'' @ [10, 9] @ quoted (chars ''a b'') @ [58, 9] @ chars ''[1, 2]'' @ [10] @ chars ''}''"
    "layout False 0 ?v = chars ''{'' @ quoted (chars ''a b'') @ chars '':[1,2]}''" by code_simp+
  have "cJSON_Print 9 ?v = Some (Inr (layout True 0 ?v, 9 - print_needs ?v))"
    "cJSON_PrintUnformatted 9 ?v = Some (Inr (layout False 0 ?v, 9 - print_needs ?v))"
    by (simp_all add: cJSON_Print_def cJSON_PrintUnformatted_def value_printed(1) [OF ok] printed_def
      del: print_value.simps layout.simps chars_simps)
  with minified_is_unformatted [OF ok this(1)] have "cJSON_Minify (layout True 0 ?v @ [0]) = Some (layout False 0 ?v)" by auto
  then show ?thesis unfolding t by simp
qed

end
