(* ===== verification/NeonRtFs.thy ===== *)
theory NeonRtFs
  imports Prelude
begin

text \<open>
  The read-only file system of the web server, \<open>NeonRTOS/HTTPd/NeonRtFs.c\<close>, in the configuration of
  the repository (\<open>NEONRTFS_HEATSHRINK\<close> is not defined). The image is a list of bytes, a pointer
  into it is its distance from the start; reading outside the image is undefined (\<open>None\<close>).
\<close>

section \<open>The functions\<close>

abbreviation (input) NEONRTFS_MAGIC :: u32 where "NEONRTFS_MAGIC \<equiv> 0x73665345"
abbreviation (input) FLAG_LASTFILE :: u8 where "FLAG_LASTFILE \<equiv> 1"
abbreviation (input) COMPRESS_NONE :: u8 where "COMPRESS_NONE \<equiv> 0"

record NeonRtFsHeader =
  magic :: u32
  file_flags :: u8
  compression :: u8
  nameLen :: u16
  fileLenComp :: u32
  fileLenDecomp :: u32

record NeonRtFsFile =
  header :: NeonRtFsHeader
  decompressor :: u8
  posDecomp :: int
  posStart :: int
  posComp :: int

definition slice :: "u8 list \<Rightarrow> int \<Rightarrow> int \<Rightarrow> u8 list option" where
  "slice img p n = (if 0 \<le> p \<and> 0 \<le> n \<and> p + n \<le> int (length img)
     then Some (take (nat n) (drop (nat p) img)) else None)"

definition read16 :: "u8 list \<Rightarrow> int \<Rightarrow> u16 option" where
  "read16 img p = do {
     a \<leftarrow> cread img p; b \<leftarrow> cread img (p + 1);
     Some (push_bit 8 (ucast b) OR ucast a) }"

definition read32 :: "u8 list \<Rightarrow> int \<Rightarrow> u32 option" where
  "read32 img p = do {
     a \<leftarrow> cread img p; b \<leftarrow> cread img (p + 1); c \<leftarrow> cread img (p + 2); d \<leftarrow> cread img (p + 3);
     Some (memory_word a b c d) }"

definition read_header :: "u8 list \<Rightarrow> int \<Rightarrow> NeonRtFsHeader option" where
  "read_header img p = do {
     m \<leftarrow> read32 img p;
     fl \<leftarrow> cread img (p + 4);
     comp \<leftarrow> cread img (p + 5);
     nlen \<leftarrow> read16 img (p + 6);
     clen \<leftarrow> read32 img (p + 8);
     dlen \<leftarrow> read32 img (p + 12);
     Some \<lparr>magic = m, file_flags = fl, compression = comp, nameLen = nlen, fileLenComp = clen,
       fileLenDecomp = dlen\<rparr> }"

datatype NeonRtFsInitResult = NEONRTFS_INIT_RESULT_OK | NEONRTFS_INIT_RESULT_NO_IMAGE

text \<open>The flag \<open>NeonRtFsInitDone\<close> is the first argument and the first result.\<close>

definition NeonRtFsInit :: "u8 list \<Rightarrow> bool \<Rightarrow> (bool \<times> NeonRtFsInitResult) option" where
  "NeonRtFsInit img init_done = do {
     testHeader \<leftarrow> read_header img 0;
     if magic testHeader \<noteq> NEONRTFS_MAGIC then Some (init_done, NEONRTFS_INIT_RESULT_NO_IMAGE)
     else Some (True, NEONRTFS_INIT_RESULT_OK) }"

definition NeonRtFsFlags :: "NeonRtFsFile option \<Rightarrow> int" where
  "NeonRtFsFlags fh = (case fh of None \<Rightarrow> -1 | Some f \<Rightarrow> sint (file_flags (header f)))"

text \<open>The position after a file: past its name and content, at the next multiple of four.\<close>

definition next_file :: "NeonRtFsHeader \<Rightarrow> int \<Rightarrow> int" where
  "next_file h p = (let p2 = p + 16 + (sint (nameLen h) + sint (fileLenComp h))
     in if p2 AND 3 \<noteq> 0 then p2 + (4 - (p2 AND 3)) else p2)"

definition same_start :: "u8 list \<Rightarrow> u8 list \<Rightarrow> bool" where
  "same_start a b \<longleftrightarrow> (let m = min (length a) (length b) in take m a = take m b)"

definition opened :: "NeonRtFsHeader \<Rightarrow> int \<Rightarrow> NeonRtFsFile" where
  "opened h p = \<lparr>header = h, decompressor = compression h, posDecomp = 0, posStart = p, posComp = p\<rparr>"

text \<open>The search loop. A result \<open>None\<close> also covers a loop that never ends.\<close>

partial_function (option) find_file ::
  "u8 list \<Rightarrow> u8 list \<Rightarrow> bool \<Rightarrow> int \<Rightarrow> (bool \<times> NeonRtFsFile option) option"
where
  "find_file img fileName mem_ok p = do {
     h \<leftarrow> read_header img p;
     if magic h \<noteq> NEONRTFS_MAGIC then Some (False, None)
     else if file_flags h AND FLAG_LASTFILE \<noteq> 0 then Some (True, None)
     else do {
       namebuf \<leftarrow> slice img (p + 16) (min 256 (sint (nameLen h)));
       if same_start (takeWhile (\<lambda>b. b \<noteq> 0) namebuf) fileName then
         (if \<not> mem_ok then Some (True, None)
          else if compression h = COMPRESS_NONE then Some (True, Some (opened h (p + 16 + sint (nameLen h))))
          else Some (True, None))
       else find_file img fileName mem_ok (next_file h p) } }"

declare find_file.simps [code]

definition NeonRtFsOpen :: "u8 list \<Rightarrow> bool \<Rightarrow> u8 list \<Rightarrow> bool \<Rightarrow> (bool \<times> NeonRtFsFile option) option" where
  "NeonRtFsOpen img init_done fileName mem_ok =
     (if \<not> init_done then Some (init_done, None)
      else find_file img (dropWhile (\<lambda>b. b = 47) fileName) mem_ok 0)"

text \<open>The result is the file, the bytes copied to the buffer and the return value.\<close>

definition NeonRtFsRead :: "u8 list \<Rightarrow> NeonRtFsFile option \<Rightarrow> int \<Rightarrow> (NeonRtFsFile option \<times> u8 list \<times> int) option"
where
  "NeonRtFsRead img fh len = (case fh of
     None \<Rightarrow> Some (None, [], 0)
   | Some f \<Rightarrow>
       if decompressor f = COMPRESS_NONE then
         (let toRead = sint (fileLenComp (header f)) - (posComp f - posStart f);
              n = (if toRead < len then toRead else len)
          in do {
            bs \<leftarrow> (if n = 0 then Some [] else slice img (posComp f) n);
            Some (Some (f\<lparr>posDecomp := posDecomp f + n, posComp := posComp f + n\<rparr>), bs, n) })
       else Some (fh, [], 0))"

section \<open>Images\<close>

text \<open>The image of a list of files, as the tool that builds images lays it out.\<close>

type_synonym web_file = "u8 list \<times> u8 \<times> u8 list"

definition stored_name :: "u8 list \<Rightarrow> u8 list" where
  "stored_name name = name @ replicate (4 - length name mod 4) 0"

definition header_bytes :: "u8 \<Rightarrow> nat \<Rightarrow> nat \<Rightarrow> u8 list" where
  "header_bytes fl nlen dlen = memory_bytes NEONRTFS_MAGIC @ [fl, COMPRESS_NONE] @
     [of_nat nlen, of_nat (nlen div 256)] @ memory_bytes (of_nat dlen) @ memory_bytes (of_nat dlen)"

definition file_entry :: "web_file \<Rightarrow> u8 list" where
  "file_entry = (\<lambda>(name, fl, content). header_bytes fl (length (stored_name name)) (length content) @
     stored_name name @ content @ replicate ((4 - length content mod 4) mod 4) 0)"

definition mkfs :: "web_file list \<Rightarrow> u8 list" where
  "mkfs files = concat (map file_entry files) @ header_bytes FLAG_LASTFILE 0 0"

definition proper :: "web_file \<Rightarrow> bool" where
  "proper = (\<lambda>(name, fl, content). 0 \<notin> set name \<and> length name \<le> 252 \<and> fl AND FLAG_LASTFILE = 0 \<and>
     length content < 2 ^ 31)"

section \<open>Reading an image\<close>

lemma cread_append: "cread (pre @ x # rest) (int (length pre)) = Some x"
  by (simp add: cread_def nth_append)

lemma cread_at: "i < length xs \<Longrightarrow> cread (pre @ xs @ rest) (int (length pre) + int i) = Some (xs ! i)"
  by (simp add: cread_def nth_append nat_add_distrib)

lemma length_header_bytes: "length (header_bytes fl n d) = 16"
  by (simp add: header_bytes_def)

lemma memory_word_nth:
  "memory_word (memory_bytes w ! 0) (memory_bytes w ! Suc 0) (memory_bytes w ! 2) (memory_bytes w ! 3) = w"
  by (simp add: memory_bytes_def)

lemma low_high_byte: "n < 32768 \<Longrightarrow> push_bit 8 (ucast (of_nat (n div 256) :: u8)) OR ucast (of_nat n :: u8) = (of_nat n :: u16)"
proof -
  assume n: "n < 32768"
  have "n div 256 = drop_bit 8 n" by (simp add: drop_bit_eq_div)
  then show ?thesis
    by (intro bit_word_eqI) (auto simp: bit_simps bit_of_nat_iff)
qed

lemma read_header_at:
  assumes "n < 32768"
  shows "read_header (pre @ header_bytes fl n d @ rest) (int (length pre)) =
    Some \<lparr>magic = NEONRTFS_MAGIC, file_flags = fl, compression = COMPRESS_NONE, nameLen = of_nat n,
      fileLenComp = of_nat d, fileLenDecomp = of_nat d\<rparr>"
proof -
  define hb where "hb = header_bytes fl n d"
  have at: "k < 16 \<Longrightarrow> cread (pre @ hb @ rest) (int (length pre) + int k) = Some (hb ! k)" for k
    by (rule cread_at) (simp add: length_header_bytes hb_def)
  note at' = at [of 0] at [of 1] at [of 2] at [of 3] at [of 4] at [of 5] at [of 6] at [of 7] at [of 8]
    at [of 9] at [of 10] at [of 11] at [of 12] at [of 13] at [of 14] at [of 15]
  have hb: "memory_word (hb ! 0) (hb ! 1) (hb ! 2) (hb ! 3) = NEONRTFS_MAGIC" "hb ! 4 = fl" "hb ! 5 = COMPRESS_NONE"
    "push_bit 8 (ucast (hb ! 7)) OR ucast (hb ! 6) = (of_nat n :: u16)"
    "memory_word (hb ! 8) (hb ! 9) (hb ! 10) (hb ! 11) = of_nat d"
    "memory_word (hb ! 12) (hb ! 13) (hb ! 14) (hb ! 15) = of_nat d"
    using assms by (simp_all add: hb_def header_bytes_def nth_append memory_word_nth low_high_byte)
  have "read_header (pre @ hb @ rest) (int (length pre)) =
    Some \<lparr>magic = NEONRTFS_MAGIC, file_flags = fl, compression = COMPRESS_NONE, nameLen = of_nat n,
      fileLenComp = of_nat d, fileLenDecomp = of_nat d\<rparr>"
    unfolding read_header_def read32_def read16_def
    using at' hb by (simp add: add.assoc del: cread_in)
  then show ?thesis by (simp only: hb_def)
qed


section \<open>Searching an image\<close>

lemma round_up_4: "n + (4 - n mod 4) = 4 * (n div 4 + 1)" for n :: nat
proof -
  have "n + (4 - r) = 4 * (q + 1)" if "n = 4 * q + r" "r < 4" for q r using that by simp
  from this [of "n div 4" "n mod 4"] show ?thesis by simp
qed

lemma length_stored_name: "length (stored_name name) = 4 * (length name div 4 + 1)"
  using round_up_4 [of "length name"] by (simp add: stored_name_def)

lemma stored_name_start: "0 \<notin> set name \<Longrightarrow> takeWhile (\<lambda>b. b \<noteq> 0) (stored_name name) = name"
proof -
  assume "0 \<notin> set name"
  moreover have "4 - length name mod 4 = Suc (3 - length name mod 4)"
    using mod_less_divisor [of 4 "length name"] by linarith
  ultimately show ?thesis
    by (simp add: stored_name_def takeWhile_append2 takeWhile_eq_filter) (auto simp: takeWhile_append)
qed

definition padding :: "nat \<Rightarrow> u8 list" where
  "padding n = replicate ((4 - n mod 4) mod 4) 0"

lemma padding_aligned: "4 dvd n + length (padding n)"
proof (cases "n mod 4 = 0")
  case False
  with round_up_4 [of n] show ?thesis by (simp add: padding_def)
qed (simp add: padding_def dvd_eq_mod_eq_0)

lemma file_entry_eq: "file_entry (name, fl, content) =
    header_bytes fl (length (stored_name name)) (length content) @ stored_name name @ content @ padding (length content)"
  by (simp add: file_entry_def padding_def)

lemma and_3_int: "(k :: int) AND 3 = k mod 4"
  using take_bit_eq_mask [of 2 k] by (simp add: take_bit_eq_mod mask_eq_exp_minus_1 and.commute)

lemma align_up: "4 dvd p \<Longrightarrow> 4 dvd m \<Longrightarrow>
  (let p2 = int p + int m + int n in if p2 AND 3 \<noteq> 0 then p2 + (4 - (p2 AND 3)) else p2) =
    int (p + m + n + length (padding n))"
proof -
  assume "4 dvd p" "4 dvd m"
  then obtain i j where "p = 4 * i" "m = 4 * j" by (auto elim!: dvdE)
  moreover have "(4 * int i + 4 * int j + int n) mod 4 = int n mod 4" by presburger
  ultimately have r: "(int p + int m + int n) mod 4 = int (n mod 4)" by (simp add: zmod_int)
  show ?thesis
  proof (cases "n mod 4 = 0")
    case False
    moreover have "n mod 4 < 4" by simp
    ultimately show ?thesis by (simp add: Let_def and_3_int r padding_def)
  qed (simp add: Let_def and_3_int r padding_def)
qed

definition handle :: "web_file \<Rightarrow> nat \<Rightarrow> NeonRtFsFile" where
  "handle = (\<lambda>(name, fl, content) p. opened \<lparr>magic = NEONRTFS_MAGIC, file_flags = fl,
     compression = COMPRESS_NONE, nameLen = of_nat (length (stored_name name)),
     fileLenComp = of_nat (length content), fileLenDecomp = of_nat (length content)\<rparr> (int p))"

text \<open>The files before the first one whose name begins like the one asked for, and that file.\<close>

fun lookup :: "u8 list \<Rightarrow> nat \<Rightarrow> web_file list \<Rightarrow> NeonRtFsFile option" where
  "lookup fileName p [] = None"
| "lookup fileName p (f # files) =
     (if same_start (fst f) fileName then Some (handle f (p + 16 + length (stored_name (fst f))))
      else lookup fileName (p + length (file_entry f)) files)"

lemma sint_of_nat_16: "n < 2 ^ 15 \<Longrightarrow> sint (of_nat n :: u16) = int n"
  by (simp add: signed_of_nat signed_take_bit_int_eq_self_iff)

lemma sint_of_nat_32: "n < 2 ^ 31 \<Longrightarrow> sint (of_nat n :: u32) = int n"
  by (simp add: signed_of_nat signed_take_bit_int_eq_self_iff)

lemma find_file_lookup:
  assumes "list_all proper files" "4 dvd length pre"
  shows "find_file (pre @ mkfs files) fileName True (int (length pre)) =
    Some (True, lookup fileName (length pre) files)"
  using assms
proof (induction files arbitrary: pre)
  case Nil
  have "mkfs [] = header_bytes FLAG_LASTFILE 0 0" by (simp add: mkfs_def)
  with read_header_at [of 0 pre FLAG_LASTFILE 0 "[]"] show ?case by (subst find_file.simps) simp
next
  case (Cons f files)
  obtain name fl content where f: "f = (name, fl, content)" by (cases f)
  let ?sn = "stored_name name"
  have proper: "0 \<notin> set name" "length name \<le> 252" "fl AND 1 = 0" "length content < 2 ^ 31"
    using Cons.prems(1) by (auto simp: f proper_def)
  have sn: "length ?sn \<le> 256" using proper(2) by (simp add: length_stored_name)
  have img: "pre @ mkfs (f # files) = pre @ header_bytes fl (length ?sn) (length content) @
      (?sn @ content @ padding (length content) @ mkfs files)"
    by (simp add: mkfs_def f file_entry_eq)
  have img2: "pre @ mkfs (f # files) = (pre @ file_entry f) @ mkfs files"
    by (simp add: mkfs_def)
  have hdr: "read_header (pre @ mkfs (f # files)) (int (length pre)) =
      Some \<lparr>magic = NEONRTFS_MAGIC, file_flags = fl, compression = COMPRESS_NONE, nameLen = of_nat (length ?sn),
        fileLenComp = of_nat (length content), fileLenDecomp = of_nat (length content)\<rparr>"
    unfolding img using sn by (intro read_header_at) simp
  have len: "sint (of_nat (length ?sn) :: u16) = int (length ?sn)" using sn by (intro sint_of_nat_16) simp
  have clen: "sint (of_nat (length content) :: u32) = int (length content)" using proper(4) by (rule sint_of_nat_32)
  have name: "slice (pre @ mkfs (f # files)) (int (length pre) + 16) (int (length ?sn)) = Some ?sn"
    by (simp add: img slice_def nat_add_distrib length_header_bytes)
  have entry: "length (file_entry f) = 16 + length ?sn + length content + length (padding (length content))"
    by (simp add: f file_entry_eq length_header_bytes)
  have "4 dvd 16 + length ?sn" by (simp add: length_stored_name)
  from align_up [OF Cons.prems(2) this, of "length content"]
  have nxt: "next_file \<lparr>magic = NEONRTFS_MAGIC, file_flags = fl, compression = COMPRESS_NONE,
      nameLen = of_nat (length ?sn), fileLenComp = of_nat (length content),
      fileLenDecomp = of_nat (length content)\<rparr> (int (length pre)) = int (length (pre @ file_entry f))"
    by (simp add: next_file_def len clen entry Let_def add.assoc)
  have "length (pre @ file_entry f) = length pre + 4 * (5 + length name div 4) +
      (length content + length (padding (length content)))"
    by (simp add: entry length_stored_name)
  then have al: "4 dvd length (pre @ file_entry f)"
    using Cons.prems(2) padding_aligned [of "length content"] by (simp only: dvd_add dvd_triv_left)
  define X where "X = pre @ mkfs (f # files)"
  have IH: "find_file X fileName True (int (length (pre @ file_entry f))) =
      Some (True, lookup fileName (length (pre @ file_entry f)) files)"
    unfolding X_def img2 using Cons.prems(1) al by (intro Cons.IH) simp_all
  note facts = hdr [folded X_def] name [folded X_def] nxt len stored_name_start [OF proper(1)] min_absorb2 [OF sn]
  show ?case unfolding X_def [symmetric]
  proof (cases "same_start name fileName")
    case True
    then show "find_file X fileName True (int (length pre)) = Some (True, lookup fileName (length pre) (f # files))"
      using proper(3) sn by (subst find_file.simps) (simp add: facts f handle_def)
  next
    case False
    then show "find_file X fileName True (int (length pre)) = Some (True, lookup fileName (length pre) (f # files))"
      using proper(3) sn IH by (subst find_file.simps) (simp add: facts f)
  qed
qed


definition first_match :: "u8 list \<Rightarrow> web_file list \<Rightarrow> web_file option" where
  "first_match fileName files = find (\<lambda>f. same_start (fst f) fileName) files"

text \<open>A file of which \<open>k\<close> bytes have been read.\<close>

definition file_at :: "u8 list \<Rightarrow> u8 \<Rightarrow> u8 list \<Rightarrow> nat \<Rightarrow> NeonRtFsFile \<Rightarrow> bool" where
  "file_at img fl content k f \<longleftrightarrow> k \<le> length content \<and> decompressor f = COMPRESS_NONE \<and>
     file_flags (header f) = fl \<and>
     sint (fileLenComp (header f)) = int (length content) \<and> fileLenDecomp (header f) = of_nat (length content) \<and>
     0 \<le> posStart f \<and> posComp f = posStart f + int k \<and>
     slice img (posStart f) (int (length content)) = Some content"

lemma lookup_first_match:
  assumes "list_all proper files"
  shows "(case first_match fileName files of
      None \<Rightarrow> lookup fileName (length pre) files = None
    | Some (name, fl, content) \<Rightarrow> \<exists>f. lookup fileName (length pre) files = Some f \<and>
        file_at (pre @ mkfs files) fl content 0 f)"
  using assms
proof (induction files arbitrary: pre)
  case (Cons f files)
  obtain name fl content where f: "f = (name, fl, content)" by (cases f)
  have img: "pre @ mkfs (f # files) = (pre @ header_bytes fl (length (stored_name name)) (length content) @ stored_name name) @
      content @ (padding (length content) @ mkfs files)"
    by (simp add: mkfs_def f file_entry_eq)
  have "slice (pre @ mkfs (f # files)) (int (length pre) + 16 + int (length (stored_name name))) (int (length content)) = Some content"
    by (simp add: img slice_def nat_add_distrib length_header_bytes)
  moreover have "length content < 2 ^ 31" using Cons.prems by (simp add: f proper_def)
  then have "sint (of_nat (length content) :: u32) = int (length content)" by (rule sint_of_nat_32)
  ultimately have "file_at (pre @ mkfs (f # files)) fl content 0 (handle f (length pre + 16 + length (stored_name name)))"
    by (simp add: file_at_def handle_def opened_def f)
  moreover have eq: "pre @ mkfs (f # files) = (pre @ file_entry f) @ mkfs files" by (simp add: mkfs_def)
  ultimately show ?case
  proof (cases "same_start name fileName")
    case False
    then have "first_match fileName (f # files) = first_match fileName files"
      "lookup fileName (length pre) (f # files) = lookup fileName (length (pre @ file_entry f)) files"
      by (simp_all add: first_match_def f)
    with Cons.IH [of "pre @ file_entry f"] Cons.prems show ?thesis by (simp only: eq) simp
  qed (simp add: first_match_def f)
qed (simp add: first_match_def)

lemma read_file_at:
  assumes "file_at img fl content k f" "0 \<le> n"
  shows "\<exists>f'. NeonRtFsRead img (Some f) n =
      Some (Some f', take (nat n) (drop k content), int (min (nat n) (length content - k))) \<and>
    file_at img fl content (k + min (nat n) (length content - k)) f'"
proof -
  let ?m = "min (nat n) (length content - k)"
  from assms have f: "k \<le> length content" "decompressor f = COMPRESS_NONE"
    "sint (fileLenComp (header f)) = int (length content)" "posComp f = posStart f + int k" "0 \<le> posStart f"
    "slice img (posStart f) (int (length content)) = Some content"
    by (auto simp: file_at_def)
  have n: "(if int (length content) - int k < n then int (length content) - int k else n) = int ?m"
    using f(1) assms(2) by auto
  have img: "posStart f + int (length content) \<le> int (length img)"
    "content = take (length content) (drop (nat (posStart f)) img)"
    using f(6) by (auto simp: slice_def split: if_splits)
  have piece: "(if ?m = 0 then Some [] else slice img (posStart f + int k) (int ?m)) = Some (take ?m (drop k content))"
  proof (cases "?m = 0")
    case False
    have "take ?m (drop k content) = take ?m (drop k (take (length content) (drop (nat (posStart f)) img)))"
      using img(2) by simp
    also have "\<dots> = take ?m (drop (nat (posStart f + int k)) img)"
      using f(1,5) by (simp add: drop_take nat_add_distrib add.commute min_absorb1)
    finally have "take ?m (drop k content) = take ?m (drop (nat (posStart f + int k)) img)" .
    moreover have "k + ?m \<le> length content" using f(1) by linarith
    then have "int k + int ?m \<le> int (length content)" by linarith
    ultimately show ?thesis using False f(5) img(1) by (simp add: slice_def)
  qed simp
  let ?f' = "f\<lparr>posDecomp := posDecomp f + int ?m, posComp := posComp f + int ?m\<rparr>"
  have "NeonRtFsRead img (Some f) n =
    do { bs \<leftarrow> (if int ?m = 0 then Some [] else slice img (posComp f) (int ?m)); Some (Some ?f', bs, int ?m) }"
  proof -
    have "sint (fileLenComp (header f)) - (posComp f - posStart f) = int (length content) - int k"
      using f(3,4) by simp
    then show ?thesis using f(2) by (simp only: NeonRtFsRead_def Let_def option.case n if_True refl)
  qed
  also have "\<dots> = Some (Some ?f', take ?m (drop k content), int ?m)"
    using piece by (simp only: f(4) of_nat_eq_0_iff bind.simps)
  also have "take ?m (drop k content) = take (nat n) (drop k content)" by (simp add: min_def)
  finally have "NeonRtFsRead img (Some f) n = Some (Some ?f', take (nat n) (drop k content), int ?m)" .
  moreover have "k + ?m \<le> length content" using f(1) by linarith
  then have "file_at img fl content (k + ?m) ?f'" using assms(1) by (simp add: file_at_def)
  ultimately show ?thesis by blast
qed

section \<open>Properties\<close>

text \<open>
  On every image of proper files, opening a name ends and finds the first file whose stored name
  begins like the requested one or is a beginning of it: the handle stands at the first byte of
  exactly that file's content; without such a file the result is NULL.
\<close>

theorem open_finds_first:
  assumes "list_all proper files" "dropWhile (\<lambda>b. b = 47) fileName = base"
  shows "case first_match base files of
      None \<Rightarrow> NeonRtFsOpen (mkfs files) True fileName True = Some (True, None)
    | Some (name, fl, content) \<Rightarrow> \<exists>f. NeonRtFsOpen (mkfs files) True fileName True = Some (True, Some f) \<and>
        file_at (mkfs files) fl content 0 f"
  using lookup_first_match [OF assms(1), of base "[]"] find_file_lookup [OF assms(1), of "[]" base] assms(2)
  by (auto simp: NeonRtFsOpen_def split: option.splits prod.splits)

definition two_files :: "web_file list" where
  "two_files = [(chars ''index.html'', 0, chars ''<html>''), (chars ''a.css'', 0, chars ''b{}'')]"

lemma two_files_proper: "list_all proper two_files"
  by (simp add: two_files_def proper_def)

theorem open_finds_first_witness:
  "\<exists>f. NeonRtFsOpen (mkfs two_files) True (chars ''/a.css'') True = Some (True, Some f) \<and>
     file_at (mkfs two_files) 0 (chars ''b{}'') 0 f"
  using open_finds_first [OF two_files_proper, of "chars ''/a.css''" "chars ''a.css''"]
  by (simp add: first_match_def two_files_def same_start_def)

text \<open>
  Reading at most \<open>n\<close> bytes of an open file of which \<open>k\<close> have been read gives the next \<open>n\<close> bytes of
  its content, or what is left of it, says how many these are, and moves the handle past them.
\<close>

theorem read_continues:
  assumes "file_at img fl content k f" "0 \<le> n"
  shows "\<exists>f'. NeonRtFsRead img (Some f) n =
      Some (Some f', take (nat n) (drop k content), int (min (nat n) (length content - k))) \<and>
    file_at img fl content (k + min (nat n) (length content - k)) f'"
  using assms by (rule read_file_at)

theorem read_continues_witness:
  "\<exists>f f'. NeonRtFsRead (mkfs two_files) (Some f) 2 = Some (Some f', chars ''b{'', 2)"
proof -
  obtain f where "file_at (mkfs two_files) 0 (chars ''b{}'') 0 f"
    using lookup_first_match [OF two_files_proper, of "chars ''a.css''" "[]"]
    by (auto simp: first_match_def two_files_def same_start_def)
  from read_continues [OF this, of 2] show ?thesis by auto
qed

text \<open>
  A name that only begins like a stored one, or that a stored one begins, opens that file: the
  comparison stops at the end of the shorter of the two names.
\<close>

theorem open_ignores_rest_of_name:
  assumes "list_all proper ((name, fl, content) # files)" "name \<noteq> []" "47 \<noteq> hd name"
  shows "\<exists>f. NeonRtFsOpen (mkfs ((name, fl, content) # files)) True (name @ extra) True = Some (True, Some f) \<and>
    file_at (mkfs ((name, fl, content) # files)) fl content 0 f"
proof -
  have "dropWhile (\<lambda>b. b = 47) (name @ extra) = name @ extra" using assms(2,3) by (cases name) auto
  moreover have "same_start name (name @ extra)" by (simp add: same_start_def)
  ultimately show ?thesis
    using lookup_first_match [OF assms(1), of "name @ extra" "[]"] find_file_lookup [OF assms(1), of "[]" "name @ extra"]
    by (auto simp: NeonRtFsOpen_def first_match_def)
qed

theorem open_ignores_rest_of_name_witness:
  "\<exists>f. NeonRtFsOpen (mkfs two_files) True (chars ''index.html'' @ chars ''.bak'') True = Some (True, Some f)"
  using open_ignores_rest_of_name [of "chars ''index.html''" 0 "chars ''<html>''" "[(chars ''a.css'', 0, chars ''b{}'')]" "chars ''.bak''"]
    two_files_proper by (auto simp: two_files_def)

end
