(* ===== verification/HTTPd_Files.thy ===== *)
theory HTTPd_Files
  imports HTTPd_Conn NeonRtFs
begin

text \<open>
  The pages that \<open>NeonRTOS/HTTPd/HTTPd.c\<close> sends from the file system: \<open>HTTPd_SendWebFile\<close>,
  \<open>HTTPd_Redirect\<close>, \<open>HTTPd_NotFound\<close> and the debug page. \<open>mem\<close> tells which of the three allocations
  succeed (the file handle, the command buffer, the data buffer), \<open>st k\<close> is the result of the
  \<open>k\<close>-th call of \<open>send\<close>.
\<close>

section \<open>The functions\<close>

abbreviation (input) HTTPD_DAT_BUF_SIZE :: int where "HTTPD_DAT_BUF_SIZE \<equiv> 2048"
abbreviation (input) FLAG_GZIP :: int where "FLAG_GZIP \<equiv> 2"

text \<open>The loop of \<open>HTTPd_SendWebFile\<close> and \<open>HTTPd_Redirect\<close>, which sends what was read.\<close>

partial_function (option) send_chunks ::
  "u8 list \<Rightarrow> (nat \<Rightarrow> int) \<Rightarrow> nat \<Rightarrow> int \<Rightarrow> NeonRtFsFile option \<Rightarrow> net_event list option"
where
  "send_chunks img st k sock fh = do {
     (fh1, bs, fs_rd_len) \<leftarrow> NeonRtFsRead img fh HTTPD_DAT_BUF_SIZE;
     rest \<leftarrow> (if 0 < st k \<and> HTTPD_DAT_BUF_SIZE \<le> fs_rd_len then send_chunks img st (k + 1) sock fh1 else Some []);
     Some (Send sock bs # rest) }"

text \<open>The loop of \<open>HTTPd_NotFound\<close>, which sends the whole buffer each time.\<close>

partial_function (option) send_buffers ::
  "u8 list \<Rightarrow> (nat \<Rightarrow> int) \<Rightarrow> nat \<Rightarrow> int \<Rightarrow> u8 list \<Rightarrow> NeonRtFsFile option \<Rightarrow> net_event list option"
where
  "send_buffers img st k sock buf fh = do {
     (fh1, bs, fs_rd_len) \<leftarrow> NeonRtFsRead img fh HTTPD_DAT_BUF_SIZE;
     rest \<leftarrow> (if 0 < st k \<and> HTTPD_DAT_BUF_SIZE \<le> fs_rd_len
       then send_buffers img st (k + 1) sock (bs @ drop (length bs) buf) fh1 else Some []);
     Some (Send sock (bs @ drop (length bs) buf) # rest) }"

declare send_chunks.simps [code] send_buffers.simps [code]

definition HTTPd_SendWebFile ::
  "u8 list \<Rightarrow> bool \<Rightarrow> (nat \<Rightarrow> int) \<Rightarrow> (nat \<Rightarrow> bool) \<Rightarrow> 'h connection option \<Rightarrow> (bool \<times> net_event list \<times> int) option"
where
  "HTTPd_SendWebFile img init_done st mem connData = (case connData of
     None \<Rightarrow> Some (init_done, [], HTTPD_CGI_DONE)
   | Some c \<Rightarrow> (case url c of
       None \<Rightarrow> Some (init_done, [], HTTPD_CGI_DONE)
     | Some u \<Rightarrow> do {
         content_type \<leftarrow> HTTPdGetMimetype u;
         (init1, send_file) \<leftarrow> NeonRtFsOpen img init_done u (mem 0);
         (case send_file of
            None \<Rightarrow> Some (init1, [], HTTPD_CGI_NOTFOUND)
          | Some f \<Rightarrow> do {
              (es, r) \<leftarrow> HTTP_SendHeader c 200 content_type (fileLenDecomp (header f))
                (NeonRtFsFlags send_file AND FLAG_GZIP \<noteq> 0) None (mem 1) (st 0);
              if r \<noteq> HTTPD_CGI_MORE then Some (init1, es, HTTPD_CGI_DONE)
              else if mem 2 then do {
                fs \<leftarrow> send_chunks img st 1 (socket_id c) send_file;
                Some (init1, es @ fs, HTTPD_CGI_DONE) }
              else Some (init1, es, HTTPD_CGI_DONE) }) }))"

definition contains :: "u8 list \<Rightarrow> u8 list \<Rightarrow> bool" where
  "contains hay needle \<longleftrightarrow> (\<exists>i\<in>set [0..<Suc (length hay)]. take (length needle) (drop i hay) = needle)"

definition no_gzip_message :: "u8 list" where
  "no_gzip_message = chars ''Your browser does not accept gzip-compressed data.'' @ CRLF"

text \<open>
  \<open>HTTPd_Redirect\<close> and \<open>HTTPd_NotFound\<close> are the same code but for the page, the status, the message
  and the loop; \<open>whole\<close> selects the loop, \<open>buf\<close> is the data buffer as allocated.
\<close>

definition send_page ::
  "bool \<Rightarrow> string \<Rightarrow> int \<Rightarrow> u8 list \<Rightarrow> u8 list option \<Rightarrow> u8 list \<Rightarrow> bool \<Rightarrow> (nat \<Rightarrow> int) \<Rightarrow> (nat \<Rightarrow> bool) \<Rightarrow>
     u8 list \<Rightarrow> 'h connection option \<Rightarrow> (bool \<times> net_event list \<times> int) option"
where
  "send_page whole page code msg newUrl img init_done st mem buf connData = (case connData of
     None \<Rightarrow> Some (init_done, [], HTTPD_CGI_DONE)
   | Some c \<Rightarrow> do {
       (init1, fh) \<leftarrow> NeonRtFsOpen img init_done (chars page) (mem 0);
       let content_len = (case fh of None \<Rightarrow> of_nat (length msg) | Some f \<Rightarrow> fileLenDecomp (header f));
       let isGzip = (NeonRtFsFlags fh AND FLAG_GZIP \<noteq> 0);
       if isGzip \<and> \<not> contains (accept_encoding c) (chars ''gzip'') then do {
         (es, r) \<leftarrow> HTTP_SendHeader c 501 (chars ''text/plain'') (of_nat (length no_gzip_message)) False None (mem 1) (st 0);
         if r \<noteq> HTTPD_CGI_MORE then Some (init1, es, HTTPD_CGI_DONE)
         else Some (init1, es @ [Send (socket_id c) no_gzip_message], HTTPD_CGI_DONE) }
       else do {
         content_type \<leftarrow> (case fh of None \<Rightarrow> Some (chars ''text/plain'') | Some f \<Rightarrow> HTTPdGetMimetype (chars page));
         (es, r) \<leftarrow> HTTP_SendHeader c code content_type content_len isGzip newUrl (mem 1) (st 0);
         if r \<noteq> HTTPD_CGI_MORE then Some (init1, es, HTTPD_CGI_DONE)
         else (case fh of
            None \<Rightarrow> Some (init1, es @ [Send (socket_id c) msg], HTTPD_CGI_DONE)
          | Some f \<Rightarrow>
              if mem 2 then do {
                fs \<leftarrow> (if whole then send_buffers img st 1 (socket_id c) buf fh
                  else send_chunks img st 1 (socket_id c) fh);
                Some (init1, es @ fs, HTTPD_CGI_DONE) }
              else Some (init1, es, HTTPD_CGI_DONE)) } })"

definition HTTPd_Redirect ::
  "u8 list \<Rightarrow> bool \<Rightarrow> (nat \<Rightarrow> int) \<Rightarrow> (nat \<Rightarrow> bool) \<Rightarrow> 'h connection option \<Rightarrow> u8 list \<Rightarrow>
     (bool \<times> net_event list \<times> int) option"
where
  "HTTPd_Redirect img init_done st mem connData newUrl =
     send_page False ''Redirect.html'' 302 (chars ''Redirecting'' @ CRLF) (Some newUrl) img init_done st mem [] connData"

definition HTTPd_NotFound ::
  "u8 list \<Rightarrow> bool \<Rightarrow> (nat \<Rightarrow> int) \<Rightarrow> (nat \<Rightarrow> bool) \<Rightarrow> u8 list \<Rightarrow> 'h connection option \<Rightarrow>
     (bool \<times> net_event list \<times> int) option"
where
  "HTTPd_NotFound img init_done st mem buf connData =
     send_page True ''NotFound.html'' 404 (chars ''Not Found.'' @ CRLF) None img init_done st mem buf connData"

text \<open>The debug page; its text is an argument.\<close>

definition HTTPdSendApiDebugToolPage ::
  "u8 list \<Rightarrow> bool \<Rightarrow> int \<Rightarrow> 'h connection option \<Rightarrow> (net_event list \<times> int) option"
where
  "HTTPdSendApiDebugToolPage page mem_ok st connData = (case connData of
     None \<Rightarrow> Some ([], HTTPD_CGI_DONE)
   | Some c \<Rightarrow> (case url c of
       None \<Rightarrow> Some ([], HTTPD_CGI_DONE)
     | Some u \<Rightarrow> do {
         content_type \<leftarrow> HTTPdGetMimetype u;
         (es, r) \<leftarrow> HTTP_SendHeader c 200 content_type (of_nat (length page)) False None mem_ok st;
         if r \<noteq> HTTPD_CGI_MORE then Some (es, HTTPD_CGI_DONE)
         else Some (es @ [Send (socket_id c) page], HTTPD_CGI_DONE) }))"

definition cgiDebugPage ::
  "u8 list \<Rightarrow> bool \<Rightarrow> int \<Rightarrow> 'h connection option \<Rightarrow> (net_event list \<times> int) option"
where
  "cgiDebugPage page mem_ok st connData = (case connData of
     None \<Rightarrow> Some ([], HTTPD_CGI_DONE)
   | Some c \<Rightarrow> (case requestType c of
       HTTPd_Method_POST \<Rightarrow> Some ([], HTTPD_CGI_DONE)
     | HTTPd_Method_GET \<Rightarrow> do {
         (es, r) \<leftarrow> HTTPdSendApiDebugToolPage page mem_ok st connData;
         Some (es, HTTPD_CGI_DONE) }
     | _ \<Rightarrow> Some ([], HTTPD_CGI_DONE)))"

section \<open>Sending a file\<close>

definition payload :: "net_event list \<Rightarrow> u8 list" where
  "payload es = concat (map (\<lambda>e. case e of Send sock bs \<Rightarrow> bs) es)"

lemma payload_simps [simp]: "payload [] = []" "payload (Send sock bs # es) = bs @ payload es"
  by (simp_all add: payload_def)

lemma send_chunks_content:
  assumes "file_at img fl content k f" "\<forall>j. 0 < st j"
  shows "\<exists>es. send_chunks img st i sock (Some f) = Some es \<and> payload es = drop k content \<and>
    (\<forall>e\<in>set es. \<exists>bs. e = Send sock bs)"
  using assms(1)
proof (induction "length content - k" arbitrary: k f i rule: less_induct)
  case less
  let ?m = "min 2048 (length content - k)"
  obtain f1 where f1: "NeonRtFsRead img (Some f) 2048 = Some (Some f1, take 2048 (drop k content), int ?m)"
    "file_at img fl content (k + ?m) f1"
    using read_file_at [OF less.prems, of 2048] by auto
  have k: "k \<le> length content" using less.prems by (simp add: file_at_def)
  show ?case
  proof (cases "2048 \<le> length content - k")
    case True
    then have "length content - (k + ?m) < length content - k" by simp
    from less.hyps [OF this f1(2), of "i + 1"] obtain es where
      "send_chunks img st (i + 1) sock (Some f1) = Some es" "payload es = drop (k + ?m) content"
      "\<forall>e\<in>set es. \<exists>bs. e = Send sock bs" by blast
    moreover from True have "drop (k + ?m) content = drop 2048 (drop k content)" by (simp add: min_absorb1 add.commute)
    then have "take 2048 (drop k content) @ drop (k + ?m) content = drop k content" by (simp only: append_take_drop_id)
    ultimately show ?thesis using f1(1) True assms(2)
      by (subst send_chunks.simps) (simp add: min_absorb1 del: drop_drop)
  next
    case False
    with f1(1) show ?thesis by (subst send_chunks.simps) (simp add: min_def)
  qed
qed


lemma send_buffers_whole:
  assumes "file_at img fl content k f" "\<forall>j. 0 < st j" "length buf = 2048"
  shows "\<exists>es. send_buffers img st i sock buf (Some f) = Some es \<and>
    length (payload es) = 2048 * ((length content - k) div 2048 + 1)"
  using assms(1,3)
proof (induction "length content - k" arbitrary: k f i buf rule: less_induct)
  case less
  let ?m = "min 2048 (length content - k)"
  obtain f1 where f1: "NeonRtFsRead img (Some f) 2048 = Some (Some f1, take 2048 (drop k content), int ?m)"
    "file_at img fl content (k + ?m) f1"
    using read_file_at [OF less.prems(1), of 2048] by auto
  let ?buf = "take 2048 (drop k content) @ drop (length (take 2048 (drop k content))) buf"
  have buf: "length ?buf = 2048" using less.prems(2) by simp
  show ?case
  proof (cases "2048 \<le> length content - k")
    case True
    then have "length content - (k + ?m) < length content - k" by simp
    from less.hyps [OF this f1(2) buf, of "i + 1"] obtain es where
      es: "send_buffers img st (i + 1) sock ?buf (Some f1) = Some es"
      "length (payload es) = 2048 * ((length content - (k + ?m)) div 2048 + 1)" by blast
    have "length content - (k + ?m) = length content - k - 2048" using True by simp
    then have "(length content - k) div 2048 = Suc ((length content - (k + ?m)) div 2048)"
      using True by (simp add: le_div_geq)
    moreover have "send_buffers img st i sock buf (Some f) = Some (Send sock ?buf # es)"
      using f1(1) True assms(2) es(1) by (subst send_buffers.simps) (simp add: min_absorb1)
    ultimately show ?thesis using es(2) buf by (simp del: append_take_drop_id)
  next
    case False
    then have "(length content - k) div 2048 = 0" by simp
    with f1(1) False buf show ?thesis by (subst send_buffers.simps) (simp add: min_def)
  qed
qed

section \<open>Properties\<close>

definition get_index :: "unit connection" where
  "get_index = (closed_client 5)\<lparr>url := Some (chars ''/index.html'')\<rparr>"

lemma web_flags: "file_at img fl content k f \<Longrightarrow> NeonRtFsFlags (Some f) AND FLAG_GZIP \<noteq> 0 \<longleftrightarrow> bit fl 1"
  using and_exp_eq_0_iff_not_bit [of "sint fl" 1]
  by (auto simp: file_at_def NeonRtFsFlags_def bit_sint_iff)

lemma web_file_sent:
  assumes "list_all proper files" "url c = Some u" "u \<noteq> []" "\<forall>j. 0 < st j" "\<forall>j. mem j"
  shows "case first_match (dropWhile (\<lambda>b. b = 47) u) files of
      None \<Rightarrow> HTTPd_SendWebFile (mkfs files) True st mem (Some c) = Some (True, [], HTTPD_CGI_NOTFOUND)
    | Some (name, fl, content) \<Rightarrow> \<exists>es. HTTPd_SendWebFile (mkfs files) True st mem (Some c) =
        Some (True, Send (socket_id c) (web_head c 200 (the (HTTPdGetMimetype u)) (of_nat (length content))
          (bit fl 1) None) # es, HTTPD_CGI_DONE) \<and> payload es = content"
proof -
  let ?base = "dropWhile (\<lambda>b. b = 47) u"
  obtain ty where ty: "HTTPdGetMimetype u = Some ty" "length ty \<le> 64"
    using assms(3) length_mime_of [of "mime_ext_from u (length u - 1)"] by (simp add: HTTPdGetMimetype_def)
  have opened: "case first_match ?base files of
      None \<Rightarrow> NeonRtFsOpen (mkfs files) True u True = Some (True, None)
    | Some (name, fl, content) \<Rightarrow> \<exists>f. NeonRtFsOpen (mkfs files) True u True = Some (True, Some f) \<and>
        file_at (mkfs files) fl content 0 f"
    using lookup_first_match [OF assms(1), of ?base "[]"] find_file_lookup [OF assms(1), of "[]" ?base]
    by (auto simp: NeonRtFsOpen_def split: option.splits prod.splits)
  show ?thesis
  proof (cases "first_match ?base files")
    case None
    with opened ty assms show ?thesis by (simp add: HTTPd_SendWebFile_def)
  next
    case (Some g)
    then obtain name fl content where g: "first_match ?base files = Some (name, fl, content)" by (cases g) auto
    with opened obtain f where f: "NeonRtFsOpen (mkfs files) True u True = Some (True, Some f)"
      "file_at (mkfs files) fl content 0 f" by auto
    from send_chunks_content [OF f(2) assms(4), of 1 "socket_id c"] obtain es where es:
      "send_chunks (mkfs files) st 1 (socket_id c) (Some f) = Some es" "payload es = content" by auto
    have "fileLenDecomp (header f) = of_nat (length content)" using f(2) by (simp add: file_at_def)
    moreover have "HTTP_SendHeader c 200 ty (of_nat (length content)) (bit fl 1) None True (st 0) =
      Some ([Send (socket_id c) (web_head c 200 ty (of_nat (length content)) (bit fl 1) None)], HTTPD_CGI_MORE)"
      using web_head_sent [of 200 ty None c "of_nat (length content)" "bit fl 1" "st 0"] ty(2) spec [OF assms(4), of 0]
      by simp
    ultimately have "HTTPd_SendWebFile (mkfs files) True st mem (Some c) =
        Some (True, Send (socket_id c) (web_head c 200 ty (of_nat (length content)) (bit fl 1) None) # es, HTTPD_CGI_DONE)"
      using f es ty assms by (simp add: HTTPd_SendWebFile_def web_flags [OF f(2)])
    with g es(2) ty show ?thesis by simp
  qed
qed

text \<open>
  Serving a file of a proper image sends its header, with the type found from the URL, the
  length of the content and the compression flag, and then the whole content in order and nothing
  else; a URL without a file sends nothing and reports that it was not found.
\<close>

theorem web_file_served:
  assumes "list_all proper files" "url c = Some u" "u \<noteq> []" "\<forall>j. 0 < st j" "\<forall>j. mem j"
  shows "case first_match (dropWhile (\<lambda>b. b = 47) u) files of
      None \<Rightarrow> HTTPd_SendWebFile (mkfs files) True st mem (Some c) = Some (True, [], HTTPD_CGI_NOTFOUND)
    | Some (name, fl, content) \<Rightarrow> \<exists>es. HTTPd_SendWebFile (mkfs files) True st mem (Some c) =
        Some (True, Send (socket_id c) (web_head c 200 (the (HTTPdGetMimetype u)) (of_nat (length content))
          (bit fl 1) None) # es, HTTPD_CGI_DONE) \<and> payload es = content"
  using assms by (rule web_file_sent)

theorem web_file_served_witness:
  "\<exists>head es. HTTPd_SendWebFile (mkfs two_files) True (\<lambda>_. 1) (\<lambda>_. True) (Some get_index) =
     Some (True, Send 5 head # es, HTTPD_CGI_DONE) \<and> payload es = chars ''<html>''"
  using web_file_served [OF two_files_proper, of get_index "chars ''/index.html''" "\<lambda>_. 1" "\<lambda>_. True"]
  by (auto simp: get_index_def closed_client_def first_match_def two_files_def same_start_def)

text \<open>
  When the page for unknown URLs is in the image, more is sent than the announced length: the
  whole data buffer goes out each time, 2048 bytes for every started block, so bytes that were never
  written in that buffer leave the device after the page.
\<close>

theorem not_found_page_overrun:
  assumes "list_all proper files" "first_match (chars ''NotFound.html'') files = Some (name, fl, content)"
    "\<not> bit fl 1" "\<forall>j. 0 < st j" "\<forall>j. mem j" "length buf = 2048"
  shows "\<exists>es. HTTPd_NotFound (mkfs files) True st mem buf (Some c) = Some (True, Send (socket_id c)
      (web_head c 404 (chars ''text/html'') (of_nat (length content)) False None) # es, HTTPD_CGI_DONE) \<and>
    length (payload es) = 2048 * (length content div 2048 + 1) \<and> length content < length (payload es)"
proof -
  let ?name = "chars ''NotFound.html''"
  have base: "dropWhile (\<lambda>b. b = 47) ?name = ?name" by simp
  obtain f where f: "NeonRtFsOpen (mkfs files) True ?name True = Some (True, Some f)"
    "file_at (mkfs files) fl content 0 f"
    using lookup_first_match [OF assms(1), of ?name "[]"] find_file_lookup [OF assms(1), of "[]" ?name]
      assms(2) base by (auto simp: NeonRtFsOpen_def)
  from send_buffers_whole [OF f(2) assms(4,6), of 1 "socket_id c"] obtain es where es:
    "send_buffers (mkfs files) st 1 (socket_id c) buf (Some f) = Some es"
    "length (payload es) = 2048 * (length content div 2048 + 1)" by auto
  have len: "fileLenDecomp (header f) = of_nat (length content)" using f(2) by (simp add: file_at_def)
  have ty: "HTTPdGetMimetype ?name = Some (chars ''text/html'')" by code_simp
  have "HTTP_SendHeader c 404 (chars ''text/html'') (of_nat (length content)) False None True (st 0) =
    Some ([Send (socket_id c) (web_head c 404 (chars ''text/html'') (of_nat (length content)) False None)], HTTPD_CGI_MORE)"
    using web_head_sent [of 404 "chars ''text/html''" None c "of_nat (length content)" False "st 0"] spec [OF assms(4), of 0]
    by simp
  then have "HTTPd_NotFound (mkfs files) True st mem buf (Some c) = Some (True, Send (socket_id c)
      (web_head c 404 (chars ''text/html'') (of_nat (length content)) False None) # es, HTTPD_CGI_DONE)"
    unfolding HTTPd_NotFound_def send_page_def
    using f(1) es(1) len ty assms(3,5) web_flags [OF f(2)] by (simp add: Let_def del: chars_simps)
  moreover have "length content < 2048 * (length content div 2048 + 1)"
    using dividend_less_div_times [of 2048 "length content"] by (simp add: mult.commute)
  ultimately show ?thesis using es(2) by simp
qed

theorem not_found_page_overrun_witness:
  "\<exists>head es. HTTPd_NotFound (mkfs [(chars ''NotFound.html'', 0, chars ''gone'')]) True (\<lambda>_. 1) (\<lambda>_. True)
      (replicate 2048 170) (Some get_index) = Some (True, Send 5 head # es, HTTPD_CGI_DONE) \<and> length (payload es) = 2048"
  using not_found_page_overrun [of "[(chars ''NotFound.html'', 0, chars ''gone'')]" "chars ''NotFound.html''" 0
    "chars ''gone''" "\<lambda>_. 1" "\<lambda>_. True" "replicate 2048 170" get_index]
  by (auto simp: proper_def first_match_def same_start_def get_index_def closed_client_def)

lemma send_page_missing:
  assumes "list_all proper files" "dropWhile (\<lambda>b. b = 47) (chars page) = chars page"
    "first_match (chars page) files = None" "\<not> contains (accept_encoding c) (chars ''gzip'')"
    "\<forall>j. 0 < st j" "\<forall>j. mem j"
  shows "send_page whole page code msg newUrl (mkfs files) True st mem buf (Some c) = Some (True,
    [Send (socket_id c) (web_head c 501 (chars ''text/plain'') (of_nat (length no_gzip_message)) False None),
     Send (socket_id c) no_gzip_message], HTTPD_CGI_DONE)"
proof -
  have "NeonRtFsOpen (mkfs files) True (chars page) True = Some (True, None)"
    using lookup_first_match [OF assms(1), of "chars page" "[]"] find_file_lookup [OF assms(1), of "[]" "chars page"]
      assms(2,3) by (simp add: NeonRtFsOpen_def)
  moreover have "HTTP_SendHeader c 501 (chars ''text/plain'') (of_nat (length no_gzip_message)) False None True (st 0) =
    Some ([Send (socket_id c) (web_head c 501 (chars ''text/plain'') (of_nat (length no_gzip_message)) False None)], HTTPD_CGI_MORE)"
    using web_head_sent [of 501 "chars ''text/plain''" None c "of_nat (length no_gzip_message)" False "st 0"] spec [OF assms(5), of 0]
    by simp
  ultimately show ?thesis
    unfolding send_page_def
    using assms(4,6) by (simp add: NeonRtFsFlags_def Let_def del: chars_simps)
qed

text \<open>
  A redirection page that is not in the image (the image of the repository has none) is taken
  for compressed: a browser that does not accept gzip gets the status 501 instead of the
  redirection.
\<close>

theorem redirect_without_page:
  assumes "list_all proper files" "first_match (chars ''Redirect.html'') files = None"
    "\<not> contains (accept_encoding c) (chars ''gzip'')" "\<forall>j. 0 < st j" "\<forall>j. mem j"
  shows "HTTPd_Redirect (mkfs files) True st mem (Some c) newUrl = Some (True,
    [Send (socket_id c) (web_head c 501 (chars ''text/plain'') (of_nat (length no_gzip_message)) False None),
     Send (socket_id c) no_gzip_message], HTTPD_CGI_DONE)"
  unfolding HTTPd_Redirect_def using assms by (intro send_page_missing) simp_all

theorem redirect_without_page_witness:
  "\<exists>head. HTTPd_Redirect (mkfs two_files) True (\<lambda>_. 1) (\<lambda>_. True) (Some get_index) (chars ''/login'') =
     Some (True, [Send 5 head, Send 5 no_gzip_message], HTTPD_CGI_DONE)"
  using redirect_without_page [OF two_files_proper, of get_index "\<lambda>_. 1" "\<lambda>_. True" "chars ''/login''"]
  by (auto simp: first_match_def two_files_def same_start_def contains_def get_index_def closed_client_def)

end
