(* ===== verification/Registry.thy ===== *)
theory Registry
  imports Prelude "HOL-Library.AList"
begin

text \<open>
  The contract of the two tables of callbacks, the URLs of the HTTP server and the topics of the
  application interface: an entry is found under the key it was last registered with, whatever
  was registered in between. The server and the application rely on it; \<open>HTTPd_Route\<close> and
  \<open>NeonApp\<close> discharge it for the code.
\<close>

section \<open>Linked lists of entries\<close>

text \<open>Both tables are singly linked lists in order of registration; unlinking removes the first
  entry with the key.\<close>

fun unlink :: "'k \<Rightarrow> ('k \<times> 'v) list \<Rightarrow> ('k \<times> 'v) list" where
  "unlink k [] = []"
| "unlink k ((k1, v1) # xs) = (if k1 = k then xs else (k1, v1) # unlink k xs)"

lemma set_keys_unlink: "set (map fst (unlink k xs)) \<subseteq> set (map fst xs)"
  by (induction k xs rule: unlink.induct) auto

lemma distinct_unlink: "distinct (map fst xs) \<Longrightarrow> distinct (map fst (unlink k xs))"
  using set_keys_unlink [of k] by (induction k xs rule: unlink.induct) fastforce+

lemma map_of_unlink: "distinct (map fst xs) \<Longrightarrow> map_of (unlink k xs) = (map_of xs)(k := None)"
proof (induction k xs rule: unlink.induct)
  case (2 k k1 v1 xs)
  then show ?case by (auto simp: map_of_eq_None_iff fun_eq_iff)
qed simp

lemma map_of_None_keys: "map_of xs k = None \<longleftrightarrow> k \<notin> set (map fst xs)"
  by (simp add: map_of_eq_None_iff)

lemma distinct_keys_update: "distinct (map fst xs) \<Longrightarrow> distinct (map fst (AList.update k v xs))"
  by (rule distinct_update)

section \<open>The contract\<close>

text \<open>A registration takes a key, a value and whether the allocations it makes succeed.\<close>

fun register_all :: "('k \<Rightarrow> 'v \<Rightarrow> bool \<Rightarrow> 's \<Rightarrow> int \<times> 's) \<Rightarrow> ('k \<times> 'v) list \<Rightarrow> 's \<Rightarrow> 's" where
  "register_all reg [] s = s"
| "register_all reg ((k, v) # kvs) s = register_all reg kvs (snd (reg k v True s))"

locale registry =
  fixes look :: "'s \<Rightarrow> 'k \<Rightarrow> 'v option"
    and reg :: "'k \<Rightarrow> 'v \<Rightarrow> bool \<Rightarrow> 's \<Rightarrow> int \<times> 's"
    and inv :: "'s \<Rightarrow> bool"
  assumes reg_law: "inv s \<Longrightarrow> inv (snd (reg k v mem s)) \<and>
      (if mem \<or> look s k \<noteq> None then 0 \<le> fst (reg k v mem s) \<and> look (snd (reg k v mem s)) = (look s)(k \<mapsto> v)
       else reg k v mem s = (-1, s))"
begin

lemma registered_all:
  "inv s \<Longrightarrow> inv (register_all reg kvs s) \<and> look (register_all reg kvs s) = look s ++ map_of (rev kvs)"
proof (induction kvs arbitrary: s)
  case (Cons kv kvs)
  obtain k v where kv: "kv = (k, v)" by (cases kv)
  from reg_law [OF Cons.prems, of k v True] Cons.IH [of "snd (reg k v True s)"] kv show ?case
    by (auto simp: map_add_def fun_eq_iff split: option.splits)
qed simp

lemma last_registration_wins:
  assumes "inv s" "k \<notin> fst ` set later"
  shows "look (register_all reg (earlier @ (k, v) # later) s) k = Some v"
proof -
  have "map_of (rev later) k = None" using assms(2) by (force simp: map_of_eq_None_iff)
  then show ?thesis using registered_all [OF assms(1), of "earlier @ (k, v) # later"]
    by (simp add: map_add_def)
qed

lemma others_kept: "inv s \<Longrightarrow> j \<noteq> k \<Longrightarrow> look (snd (reg k v mem s)) j = look s j"
  using reg_law [of s k v mem] by (auto split: if_splits)

end

text \<open>A table whose entries can also be removed, with a precondition \<open>pre\<close> for the removal.\<close>

locale removable_registry = registry look reg inv
  for look :: "'s \<Rightarrow> 'k \<Rightarrow> 'v option" and reg inv +
  fixes unreg :: "'k \<Rightarrow> 's \<Rightarrow> (int \<times> 's) option"
    and pre :: "'k \<Rightarrow> 's \<Rightarrow> bool"
  assumes unreg_law: "inv s \<Longrightarrow> pre k s \<Longrightarrow> \<exists>s'. inv s' \<and>
      (if look s k = None then unreg k s = Some (-1, s) \<and> s' = s
       else unreg k s = Some (0, s') \<and> look s' = (look s)(k := None))"
begin

lemma unregistered:
  assumes "inv s" "pre k s"
  obtains r s' where "unreg k s = Some (r, s')" "inv s'" "look s' = (look s)(k := None)"
    "r = (if look s k = None then -1 else 0)"
  using unreg_law [OF assms] by (cases "look s k = None") (auto simp: fun_upd_idem)

lemma register_unregister:
  assumes "inv s" "look s k = None" "pre k (snd (reg k v True s))"
  shows "\<exists>s'. unreg k (snd (reg k v True s)) = Some (0, s') \<and> look s' = look s"
proof -
  from reg_law [OF assms(1), of k v True] have
    "inv (snd (reg k v True s))" "look (snd (reg k v True s)) = (look s)(k \<mapsto> v)" by auto
  with unregistered [OF this(1) assms(3)] assms(2) show ?thesis
    by (metis fun_upd_same fun_upd_triv fun_upd_upd option.distinct(1))
qed

end

end
