(* ===== verification/HTTPd_Route.thy ===== *)
theory HTTPd_Route
  imports WebSocket HTTPd_Files Registry C_Text "HOL-Library.Sublist"
begin

text \<open>
  How the HTTP server finds the handler of a request and answers it (\<open>NeonRTOS/HTTPd/HTTPd.c\<close>): the
  table of registered URLs, \<open>HTTPd_isMatch_CGI\<close>, the functions of the four methods, and the part of
  the server task that calls them. A handler (type \<open>'h\<close>) stands for a callback with its argument;
  \<open>run\<close> in the environment is what calling it does.
\<close>

section \<open>The table of URLs\<close>

type_synonym 'h urls = "(u8 list \<times> 'h) list"

definition HTTPd_Register_CGI_URL_Callback :: "u8 list \<Rightarrow> 'h \<Rightarrow> bool \<Rightarrow> 'h urls \<Rightarrow> int \<times> 'h urls" where
  "HTTPd_Register_CGI_URL_Callback u cgiCb mem_ok urls =
     (case map_of urls u of
        Some _ \<Rightarrow> (0, AList.update u cgiCb urls)
      | None \<Rightarrow> if \<not> mem_ok then (-1, urls) else (0, urls @ [(u, cgiCb)]))"

text \<open>The first entry has no predecessor to unlink it from: \<open>pItemLast\<close> is NULL.\<close>

definition HTTPd_UnRegister_CGI_URL_Callback :: "u8 list \<Rightarrow> 'h urls \<Rightarrow> (int \<times> 'h urls) option" where
  "HTTPd_UnRegister_CGI_URL_Callback u urls = (case urls of
     [] \<Rightarrow> Some (-1, urls)
   | (first, _) # _ \<Rightarrow>
       if first = u then None
       else if map_of urls u = None then Some (-1, urls)
       else Some (0, unlink u urls))"

definition url_matches :: "u8 list \<Rightarrow> u8 list \<Rightarrow> bool" where
  "url_matches pat u \<longleftrightarrow> length pat = length u \<and>
     (pat = u \<or> last pat = 42 \<and> take (length pat - 1) pat = take (length pat - 1) u)"

fun match_list :: "'h urls \<Rightarrow> u8 list \<Rightarrow> bool \<times> 'h connection \<Rightarrow> bool \<times> 'h connection" where
  "match_list [] u (m, c) = (m, c)"
| "match_list ((pat, h) # items) u (m, c) =
     (if url_matches pat u then (True, c\<lparr>cgi := Some h\<rparr>) else match_list items u (m, c))"

definition HTTPd_isMatch_CGI :: "'h urls \<Rightarrow> 'h urls \<Rightarrow> 'h connection \<Rightarrow> bool \<times> 'h connection" where
  "HTTPd_isMatch_CGI builtInUrls urls c = (case url c of
     None \<Rightarrow> (False, c)
   | Some u \<Rightarrow> match_list urls u (match_list builtInUrls u (False, c)))"

section \<open>The four methods\<close>

record ('h, 'w) server_env =
  builtInUrls :: "'h urls"
  run :: "'h \<Rightarrow> 'h connection \<Rightarrow> 'w \<Rightarrow> (net_event list \<times> int \<times> 'w) option"
  fs_image :: "u8 list"
  page_mem :: "nat \<Rightarrow> bool"
  page_send :: "nat \<Rightarrow> int"
  page_buf :: "u8 list"
  setsockopt :: "nat \<Rightarrow> u32 \<Rightarrow> int"
  key_mem :: bool
  cmd_mem :: bool
  digest_state :: sha1nfo

record ('h, 'w) server =
  Registered_URL_List :: "'h urls"
  NeonRtFsInitDone :: bool
  sent :: "net_event list"
  world :: 'w

definition call_cgi ::
  "('h, 'w) server_env \<Rightarrow> 'h connection \<Rightarrow> ('h, 'w) server \<Rightarrow> (int \<times> ('h, 'w) server) option"
where
  "call_cgi env c s = do {
     h \<leftarrow> cgi c;
     (es, r, w) \<leftarrow> run env h c (world s);
     Some (r, s\<lparr>sent := sent s @ es, world := w\<rparr>) }"

definition send_not_found ::
  "('h, 'w) server_env \<Rightarrow> 'h connection \<Rightarrow> ('h, 'w) server \<Rightarrow> ('h, 'w) server option"
where
  "send_not_found env c s = do {
     (done, es, r) \<leftarrow> HTTPd_NotFound (fs_image env) (NeonRtFsInitDone s) (page_send env) (page_mem env) (page_buf env) (Some c);
     Some (s\<lparr>NeonRtFsInitDone := done, sent := sent s @ es\<rparr>) }"

definition send_web_file ::
  "('h, 'w) server_env \<Rightarrow> 'h connection \<Rightarrow> ('h, 'w) server \<Rightarrow> (int \<times> ('h, 'w) server) option"
where
  "send_web_file env c s = do {
     (done, es, r) \<leftarrow> HTTPd_SendWebFile (fs_image env) (NeonRtFsInitDone s) (page_send env) (page_mem env) (Some c);
     Some (r, s\<lparr>NeonRtFsInitDone := done, sent := sent s @ es\<rparr>) }"

text \<open>The call of a handler that was found, as PUT, DELETE and GET make it.\<close>

definition run_matched ::
  "('h, 'w) server_env \<Rightarrow> 'h connection \<Rightarrow> ('h, 'w) server \<Rightarrow> ('h connection \<times> ('h, 'w) server) option"
where
  "run_matched env c s = do {
     (r, s1) \<leftarrow> call_cgi env c s;
     let c1 = c\<lparr>cgi := None\<rparr>;
     s2 \<leftarrow> (if r = HTTPD_CGI_NOTFOUND then send_not_found env c1 s1 else Some s1);
     Some (c1, s2) }"

text \<open>
  \<open>HTTPd_Process_POST_Request\<close> passes \<open>sizeof(recvBlockTime) < 0\<close>, which is 0, as the length of the
  option.
\<close>

definition HTTPd_Process_POST_Request ::
  "('h, 'w) server_env \<Rightarrow> 'h connection \<Rightarrow> ('h, 'w) server \<Rightarrow> (int \<times> 'h connection \<times> ('h, 'w) server) option"
where
  "HTTPd_Process_POST_Request env c s =
     (case HTTPd_isMatch_CGI (builtInUrls env) (Registered_URL_List s) c of (match, c1) \<Rightarrow>
        if match then
          (if setsockopt env 0 0 \<noteq> 0 then Some (HTTPD_CGI_DONE, c1, s)
           else do {
             (r, s1) \<leftarrow> call_cgi env c1 s;
             let c2 = c1\<lparr>cgi := None\<rparr>;
             if setsockopt env 1 0 \<noteq> 0 then Some (HTTPD_CGI_DONE, c2, s1)
             else do {
               s2 \<leftarrow> (if r = HTTPD_CGI_NOTFOUND then send_not_found env c2 s1 else Some s1);
               Some (HTTPD_CGI_DONE, c2, s2) } })
        else do {
          s1 \<leftarrow> send_not_found env c1 s;
          Some (HTTPD_CGI_DONE, c1, s1) })"

text \<open>The answer to the opening handshake of a WebSocket.\<close>

definition send_upgrade ::
  "('h, 'w) server_env \<Rightarrow> 'h connection \<Rightarrow> ('h, 'w) server \<Rightarrow> (int \<times> 'h connection \<times> ('h, 'w) server) option"
where
  "send_upgrade env c s =
     (if \<not> key_mem env then Some (HTTPD_CGI_DONE, c, s)
      else do {
        key \<leftarrow> client_key c;
        encoded \<leftarrow> WebSocketServer_CreateAcceptKey (digest_state env) key 100;
        if \<not> cmd_mem env then Some (HTTPD_CGI_DONE, c, s)
        else do {
          acceptKey \<leftarrow> encoded;
          out \<leftarrow> HTTPd_Parse_Status_Code 1024 [] 101;
          out \<leftarrow> HTTPd_Parse_Headers 1024 out (chars ''Upgrade'') (chars ''Websocket'');
          out \<leftarrow> HTTPd_Parse_Headers 1024 out (chars ''Connection'') (chars ''Upgrade'');
          out \<leftarrow> HTTPd_Parse_Headers 1024 out (chars ''Sec-WebSocket-Accept'') acceptKey;
          out \<leftarrow> HTTPd_Parse_End_Of_Headers 1024 out;
          Some (HTTPD_CGI_MORE, c\<lparr>websocket_auth := True\<rparr>, s\<lparr>sent := sent s @ [Send (socket_id c) out]\<rparr>) } })"

definition HTTPd_Process_GET_Request ::
  "('h, 'w) server_env \<Rightarrow> 'h connection \<Rightarrow> ('h, 'w) server \<Rightarrow> (int \<times> 'h connection \<times> ('h, 'w) server) option"
where
  "HTTPd_Process_GET_Request env c s =
     (if websocket_client c then send_upgrade env c s
      else case HTTPd_isMatch_CGI (builtInUrls env) (Registered_URL_List s) c of (match, c1) \<Rightarrow>
        if match then do {
          (c2, s1) \<leftarrow> run_matched env c1 s;
          Some (HTTPD_CGI_DONE, c2, s1) }
        else do {
          u \<leftarrow> url c1;
          if u = [47] then do {
            let c2 = c1\<lparr>url := Some (chars ''index.html'')\<rparr>;
            (r, s1) \<leftarrow> send_web_file env c2 s;
            Some (HTTPD_CGI_DONE, c2, s1) }
          else do {
            (r, s1) \<leftarrow> send_web_file env c1 s;
            s2 \<leftarrow> (if r = HTTPD_CGI_NOTFOUND then send_not_found env c1 s1 else Some s1);
            Some (HTTPD_CGI_DONE, c1, s2) } })"

definition HTTPd_Process_PUT_Request ::
  "('h, 'w) server_env \<Rightarrow> 'h connection \<Rightarrow> ('h, 'w) server \<Rightarrow> (int \<times> 'h connection \<times> ('h, 'w) server) option"
where
  "HTTPd_Process_PUT_Request env c s =
     (case HTTPd_isMatch_CGI (builtInUrls env) (Registered_URL_List s) c of (match, c1) \<Rightarrow> do {
        (c2, s1) \<leftarrow> (if match then run_matched env c1 s else do { s1 \<leftarrow> send_not_found env c1 s; Some (c1, s1) });
        Some (HTTPD_CGI_DONE, c2\<lparr>cgi := None\<rparr>, s1) })"

definition HTTPd_Process_DELETE_Request ::
  "('h, 'w) server_env \<Rightarrow> 'h connection \<Rightarrow> ('h, 'w) server \<Rightarrow> (int \<times> 'h connection \<times> ('h, 'w) server) option"
where
  "HTTPd_Process_DELETE_Request env c s =
     (case HTTPd_isMatch_CGI (builtInUrls env) (Registered_URL_List s) c of (match, c1) \<Rightarrow> do {
        (c2, s1) \<leftarrow> (if match then run_matched env c1 s else do { s1 \<leftarrow> send_not_found env c1 s; Some (c1, s1) });
        Some (HTTPD_CGI_DONE, c2\<lparr>cgi := None\<rparr>, s1) })"

text \<open>What the server task does with a request it has read, up to the next client: the \<open>switch\<close> over
  the method, the handler that is still set, and the end of the connection.\<close>

definition serve_request ::
  "('h, 'w) server_env \<Rightarrow> 'h connection \<Rightarrow> ('h, 'w) server \<Rightarrow> ('h connection \<times> ('h, 'w) server) option"
where
  "serve_request env c s = do {
     (r, c1, s1) \<leftarrow> (case requestType c of
         HTTPd_Method_POST \<Rightarrow>
           if 0 < data_len c then HTTPd_Process_POST_Request env c s else Some (HTTPD_CGI_DONE, c, s)
       | HTTPd_Method_GET \<Rightarrow> HTTPd_Process_GET_Request env c s
       | HTTPd_Method_PUT \<Rightarrow>
           if 0 < data_len c then HTTPd_Process_PUT_Request env c s else Some (HTTPD_CGI_DONE, c, s)
       | HTTPd_Method_DELETE \<Rightarrow> HTTPd_Process_DELETE_Request env c s
       | HTTPd_Method_UNKNOWN \<Rightarrow> Some (HTTPD_CGI_DONE, c, s));
     s2 \<leftarrow> (if url c1 \<noteq> None \<and> cgi c1 \<noteq> None then map_option snd (call_cgi env c1 s1) else Some s1);
     let c2 = free_data c1;
     Some (if r = HTTPD_CGI_DONE then c2\<lparr>connection_destruct_flag := True\<rparr> else c2, s2) }"

section \<open>What handlers read off the request\<close>

definition HTTPd_CGI_PathStartsWith :: "u8 list option \<Rightarrow> u8 list option \<Rightarrow> int \<times> u8 list option" where
  "HTTPd_CGI_PathStartsWith u pfx = (case (u, pfx) of
     (Some u1, Some p) \<Rightarrow> if take (length p) u1 \<noteq> p then (-1, None) else (0, Some (drop (length p) u1))
   | _ \<Rightarrow> (-1, None))"

definition HTTPd_CGI_ParseUint :: "u8 list option \<Rightarrow> int" where
  "HTTPd_CGI_ParseUint t = (case t of
     None \<Rightarrow> 0
   | Some t1 \<Rightarrow> if t1 = [] then 0
       else case strtol t1 of (val, rest) \<Rightarrow>
         if rest \<noteq> [] \<or> val < 0 \<or> 2147483647 < val then 0 else val)"

section \<open>Finding the handler\<close>

definition find_handler :: "'h urls \<Rightarrow> u8 list \<Rightarrow> 'h option" where
  "find_handler urls u = map_option snd (find (\<lambda>e. url_matches (fst e) u) urls)"

text \<open>The registered URLs come before the built-in ones.\<close>

definition route :: "'h urls \<Rightarrow> 'h urls \<Rightarrow> u8 list \<Rightarrow> 'h option" where
  "route builtin urls u = (case find_handler urls u of Some h \<Rightarrow> Some h | None \<Rightarrow> find_handler builtin u)"

lemma match_list_find:
  "match_list urls u (m, c) = (case find_handler urls u of Some h \<Rightarrow> (True, c\<lparr>cgi := Some h\<rparr>) | None \<Rightarrow> (m, c))"
  by (induction urls u "(m, c)" rule: match_list.induct) (auto simp: find_handler_def)

lemma isMatch_route:
  "url c = Some u \<Longrightarrow> HTTPd_isMatch_CGI b urls c =
     (case route b urls u of Some h \<Rightarrow> (True, c\<lparr>cgi := Some h\<rparr>) | None \<Rightarrow> (False, c))"
  by (auto simp: HTTPd_isMatch_CGI_def match_list_find route_def split: option.splits)

definition plain :: "'h urls \<Rightarrow> bool" where
  "plain urls \<longleftrightarrow> (\<forall>p\<in>fst ` set urls. last p \<noteq> 42)"

lemma find_handler_plain: "plain urls \<Longrightarrow> find_handler urls u = map_of urls u"
  by (induction urls) (auto simp: find_handler_def plain_def url_matches_def)

section \<open>The table as a registry\<close>

lemma update_absent: "k \<notin> fst ` set xs \<Longrightarrow> AList.update k v xs = xs @ [(k, v)]"
  by (induction xs) auto

lemma register_url_eq:
  "HTTPd_Register_CGI_URL_Callback u h mem_ok urls =
     (if mem_ok \<or> map_of urls u \<noteq> None then (0, AList.update u h urls) else (-1, urls))"
proof (cases "map_of urls u")
  case None
  then have "u \<notin> fst ` set urls" by (simp add: map_of_eq_None_iff)
  with None show ?thesis by (simp add: HTTPd_Register_CGI_URL_Callback_def update_absent)
qed (simp add: HTTPd_Register_CGI_URL_Callback_def)

interpretation url_table: registry map_of HTTPd_Register_CGI_URL_Callback "\<lambda>urls. distinct (map fst urls)"
  by unfold_locales (auto simp: register_url_eq update_conv' distinct_update)

lemma unregister_url_eq:
  assumes "urls = [] \<or> fst (hd urls) \<noteq> u"
  shows "HTTPd_UnRegister_CGI_URL_Callback u urls =
    (if map_of urls u = None then Some (-1, urls) else Some (0, unlink u urls))"
  using assms by (cases urls) (auto simp: HTTPd_UnRegister_CGI_URL_Callback_def)

interpretation url_table: removable_registry map_of HTTPd_Register_CGI_URL_Callback
  "\<lambda>urls. distinct (map fst urls)" HTTPd_UnRegister_CGI_URL_Callback
  "\<lambda>u urls. urls = [] \<or> fst (hd urls) \<noteq> u"
  by unfold_locales (auto simp: unregister_url_eq distinct_unlink map_of_unlink)

lemma plain_map_of: "plain urls \<longleftrightarrow> (\<forall>p. map_of urls p \<noteq> None \<longrightarrow> last p \<noteq> 42)"
  by (auto simp: plain_def map_of_eq_None_iff)

lemma plain_registered:
  assumes "distinct (map fst urls)" "plain urls" "plain kvs"
  shows "plain (register_all HTTPd_Register_CGI_URL_Callback kvs urls)"
proof -
  have "plain (rev kvs)" using assms(3) by (simp add: plain_def)
  then show ?thesis
    using assms(2) url_table.registered_all [OF assms(1), of kvs] by (auto simp: plain_map_of map_add_def split: option.splits)
qed

section \<open>Handlers of requests\<close>

text \<open>A request whose handler is looked up: every method but the GET that opens a WebSocket, and POST
  and PUT only with a body.\<close>

definition looked_up :: "'h connection \<Rightarrow> bool" where
  "looked_up c \<longleftrightarrow> cgi c = None \<and> (case requestType c of
     HTTPd_Method_GET \<Rightarrow> \<not> websocket_client c
   | HTTPd_Method_DELETE \<Rightarrow> True
   | HTTPd_Method_UNKNOWN \<Rightarrow> False
   | _ \<Rightarrow> 0 < data_len c)"

text \<open>A request that has been answered: its connection is closed next.\<close>

definition answered :: "'h connection \<Rightarrow> bool" where
  "answered c \<longleftrightarrow> connection_destruct_flag c \<and> data_buff c = None"

definition after_call :: "('h, 'w) server \<Rightarrow> net_event list \<Rightarrow> 'w \<Rightarrow> ('h, 'w) server" where
  "after_call s es w = s\<lparr>sent := sent s @ es, world := w\<rparr>"

lemma called: "cgi c = Some h \<Longrightarrow> run env h c (world s) = Some (es, r, w) \<Longrightarrow>
    call_cgi env c s = Some (r, after_call s es w)"
  by (simp add: call_cgi_def after_call_def)

lemma matched:
  assumes "cgi c = Some h" "run env h c (world s) = Some (es, r, w)" "r \<noteq> HTTPD_CGI_NOTFOUND"
  shows "run_matched env c s = Some (c\<lparr>cgi := None\<rparr>, after_call s es w)"
  using assms(3) by (simp add: run_matched_def called [OF assms(1,2)] Let_def)

lemma posted:
  assumes "HTTPd_isMatch_CGI (builtInUrls env) (Registered_URL_List s) c = (True, c1)"
    "cgi c1 = Some h" "run env h c1 (world s) = Some (es, r, w)" "r \<noteq> HTTPD_CGI_NOTFOUND"
  shows "HTTPd_Process_POST_Request env c s =
    (if setsockopt env 0 0 \<noteq> 0 then Some (HTTPD_CGI_DONE, c1, s)
     else Some (HTTPD_CGI_DONE, c1\<lparr>cgi := None\<rparr>, after_call s es w))"
  using assms(4) by (simp add: HTTPd_Process_POST_Request_def assms(1) called [OF assms(2,3)] Let_def)

lemma routed_call:
  assumes "looked_up c" "url c = Some u" "route (builtInUrls env) (Registered_URL_List s) u = Some h"
    "run env h (c\<lparr>cgi := Some h\<rparr>) (world s) = Some (es, r, w)" "r \<noteq> HTTPD_CGI_NOTFOUND"
  shows "\<exists>c'. serve_request env c s = Some (c', after_call s es w) \<and> answered c'"
proof -
  let ?c = "c\<lparr>cgi := Some h\<rparr>"
  have isMatch: "HTTPd_isMatch_CGI (builtInUrls env) (Registered_URL_List s) c = (True, ?c)"
    using isMatch_route [OF assms(2)] assms(3) by simp
  have h: "cgi ?c = Some h" by simp
  note run = h assms(4)
  show ?thesis
  proof (cases "requestType c")
    case HTTPd_Method_POST
    moreover have "0 < data_len c" using assms(1) HTTPd_Method_POST by (simp add: looked_up_def)
    ultimately show ?thesis using assms(2) posted [OF isMatch run assms(5)] called [OF run]
      by (simp add: serve_request_def Let_def answered_def)
  next
    case HTTPd_Method_GET
    moreover have "\<not> websocket_client c" using assms(1) HTTPd_Method_GET by (simp add: looked_up_def)
    ultimately show ?thesis
      by (simp add: serve_request_def HTTPd_Process_GET_Request_def isMatch matched [OF run assms(5)] Let_def answered_def)
  next
    case HTTPd_Method_PUT
    moreover have "0 < data_len c" using assms(1) HTTPd_Method_PUT by (simp add: looked_up_def)
    ultimately show ?thesis
      by (simp add: serve_request_def HTTPd_Process_PUT_Request_def isMatch matched [OF run assms(5)] Let_def answered_def)
  next
    case HTTPd_Method_DELETE
    then show ?thesis
      by (simp add: serve_request_def HTTPd_Process_DELETE_Request_def isMatch matched [OF run assms(5)] Let_def answered_def)
  qed (use assms(1) in \<open>simp add: looked_up_def\<close>)
qed

lemma routed_not_found:
  assumes "looked_up c" "url c = Some u" "route (builtInUrls env) (Registered_URL_List s) u = Some h"
    "run env h (c\<lparr>cgi := Some h\<rparr>) (world s) = Some (es, HTTPD_CGI_NOTFOUND, w)"
    "setsockopt env 0 0 \<noteq> 0" "send_not_found env (c\<lparr>cgi := None\<rparr>) (after_call s es w) = Some s2"
  shows "\<exists>c'. serve_request env c s =
    Some (c', if requestType c = HTTPd_Method_POST then after_call s es w else s2) \<and> answered c'"
proof -
  let ?c = "c\<lparr>cgi := Some h\<rparr>"
  have isMatch: "HTTPd_isMatch_CGI (builtInUrls env) (Registered_URL_List s) c = (True, ?c)"
    using isMatch_route [OF assms(2)] assms(3) by simp
  have call: "call_cgi env ?c s = Some (HTTPD_CGI_NOTFOUND, after_call s es w)"
    by (rule called [OF _ assms(4)]) simp
  have matched: "run_matched env ?c s = Some (c\<lparr>cgi := None\<rparr>, s2)"
    by (simp add: run_matched_def call Let_def assms(6))
  show ?thesis
  proof (cases "requestType c")
    case HTTPd_Method_POST
    moreover have "0 < data_len c" using assms(1) HTTPd_Method_POST by (simp add: looked_up_def)
    moreover have "HTTPd_Process_POST_Request env c s = Some (HTTPD_CGI_DONE, ?c, s)"
      using assms(5) by (simp add: HTTPd_Process_POST_Request_def isMatch)
    ultimately show ?thesis using assms(2) call by (simp add: serve_request_def Let_def answered_def)
  next
    case HTTPd_Method_GET
    moreover have "\<not> websocket_client c" using assms(1) HTTPd_Method_GET by (simp add: looked_up_def)
    ultimately show ?thesis
      by (simp add: serve_request_def HTTPd_Process_GET_Request_def isMatch matched Let_def answered_def)
  next
    case HTTPd_Method_PUT
    moreover have "0 < data_len c" using assms(1) HTTPd_Method_PUT by (simp add: looked_up_def)
    ultimately show ?thesis
      by (simp add: serve_request_def HTTPd_Process_PUT_Request_def isMatch matched Let_def answered_def)
  next
    case HTTPd_Method_DELETE
    then show ?thesis
      by (simp add: serve_request_def HTTPd_Process_DELETE_Request_def isMatch matched Let_def answered_def)
  qed (use assms(1) in \<open>simp add: looked_up_def\<close>)
qed

text \<open>The answer to an opening handshake.\<close>

definition upgrade_response :: "u8 list \<Rightarrow> u8 list" where
  "upgrade_response key = status_line 101 @ header_line (chars ''Upgrade'') (chars ''Websocket'') @
     header_line (chars ''Connection'') (chars ''Upgrade'') @
     header_line (chars ''Sec-WebSocket-Accept'') (b64_text (sha1 (key @ WebSocket_UUID))) @ CRLF"

lemma accept_key_text: "length (b64_text (sha1 (key @ WebSocket_UUID))) = 28"
  by (simp add: length_b64_text length_sha1)

lemma upgrade_sent:
  assumes "key_mem env" "cmd_mem env" "client_key c = Some key" "length key \<le> 475"
    "length (buffer (digest_state env)) = 16"
  shows "send_upgrade env c s = Some (HTTPD_CGI_MORE, c\<lparr>websocket_auth := True\<rparr>,
    s\<lparr>sent := sent s @ [Send (socket_id c) (upgrade_response key)]\<rparr>)"
proof -
  let ?key = "b64_text (sha1 (key @ WebSocket_UUID))"
  let ?o1 = "status_line 101 @ header_line (chars ''Upgrade'') (chars ''Websocket'')"
  let ?o2 = "?o1 @ header_line (chars ''Connection'') (chars ''Upgrade'')"
  note len = length_status_line [of 101] accept_key_text [of key]
  have "WebSocketServer_CreateAcceptKey (digest_state env) key 100 = Some (Some ?key)"
    using assms(4,5) accept_key [of "digest_state env" key 100] by simp
  moreover have "HTTPd_Parse_Status_Code 1024 [] 101 = Some (status_line 101)" by simp
  moreover have "HTTPd_Parse_Headers 1024 (status_line 101) (chars ''Upgrade'') (chars ''Websocket'') = Some ?o1"
    using len by simp
  moreover have "HTTPd_Parse_Headers 1024 ?o1 (chars ''Connection'') (chars ''Upgrade'') = Some ?o2"
    using len by simp
  moreover have "HTTPd_Parse_Headers 1024 ?o2 (chars ''Sec-WebSocket-Accept'') ?key =
      Some (?o2 @ header_line (chars ''Sec-WebSocket-Accept'') ?key)"
    using len by simp
  moreover have "HTTPd_Parse_End_Of_Headers 1024 (?o2 @ header_line (chars ''Sec-WebSocket-Accept'') ?key) =
      Some (?o2 @ header_line (chars ''Sec-WebSocket-Accept'') ?key @ CRLF)"
    using len by (intro end_of_headers) simp
  ultimately show ?thesis
    unfolding send_upgrade_def upgrade_response_def using assms(1-3)
    by (simp only: not_True_eq_False if_False bind.simps append_assoc)
qed

section \<open>Numbers in URLs\<close>

lemma parse_decimal:
  assumes "0 \<le> n \<and> n < 2 ^ 31"
  shows "HTTPd_CGI_ParseUint (Some (decimal n)) = n"
  using strtol_decimal [of n "[]"] assms decimal_not_Nil [of n] by (simp add: HTTPd_CGI_ParseUint_def)

lemma parse_no_number:
  assumes "t \<noteq> [] \<and> \<not> c_digit (last t)"
  shows "HTTPd_CGI_ParseUint (Some t) = 0"
proof -
  let ?t1 = "dropWhile c_space t"
  let ?t2 = "if ?t1 \<noteq> [] \<and> (hd ?t1 = 45 \<or> hd ?t1 = 43) then tl ?t1 else ?t1"
  have "suffix ?t2 t"
    using suffix_dropWhile [of c_space t] suffix_order.trans [OF suffix_tl suffix_dropWhile, of c_space t]
    by (simp split: if_split)
  have rest: "dropWhile c_digit t2 \<noteq> []" if t2: "suffix t2 t" "takeWhile c_digit t2 \<noteq> []" for t2
  proof
    assume "dropWhile c_digit t2 = []"
    then have "\<forall>d\<in>set t2. c_digit d" by simp
    moreover have "t2 \<noteq> []" using t2(2) by auto
    moreover from t2(1) obtain p where "t = p @ t2" by (rule suffixE)
    ultimately show False using assms by simp
  qed
  have "strtol t = (0, t) \<or> (takeWhile c_digit ?t2 \<noteq> [] \<and> snd (strtol t) = dropWhile c_digit ?t2)"
    unfolding strtol_def Let_def by (cases "takeWhile c_digit ?t2 = []") (simp_all only: if_True if_False snd_conv simp_thms)
  with rest [OF \<open>suffix ?t2 t\<close>] have "strtol t = (0, t) \<or> snd (strtol t) \<noteq> []" by metis
  then show ?thesis by (auto simp: HTTPd_CGI_ParseUint_def split: prod.splits)
qed

section \<open>A server to try the properties on\<close>

text \<open>A handler is the text it answers, the empty one does not know the URL; the application counts
  the calls. \<open>setsockopt\<close> refuses an option shorter than an integer, as lwIP does.\<close>

definition demo_env :: "(u8 list, nat) server_env" where
  "demo_env = \<lparr>builtInUrls = [(chars ''/Debug'', chars ''debug'')],
     run = \<lambda>h c n. Some ([Send (socket_id c) h], if h = [] then HTTPD_CGI_NOTFOUND else HTTPD_CGI_DONE, n + 1),
     fs_image = mkfs two_files, page_mem = \<lambda>_. True, page_send = \<lambda>_. 1, page_buf = replicate 2048 0,
     setsockopt = \<lambda>k len. if len < 4 then -1 else 0, key_mem = True, cmd_mem = True, digest_state = sha1_clean\<rparr>"

definition demo_server :: "(u8 list, nat) server" where
  "demo_server = \<lparr>Registered_URL_List = [(chars ''/LED'', chars ''led''), (chars ''/none'', [])],
     NeonRtFsInitDone = True, sent = [], world = 0\<rparr>"

definition demo_request :: "HTTPd_Method \<Rightarrow> u8 list \<Rightarrow> u8 list connection" where
  "demo_request m u = \<lparr>socket_id = 5, connetion_mode = HTTPd_Connection_Mode_Close,
     connection_keep_alive_time = 0, connection_destruct_flag = False, websocket_client = False,
     websocket_auth = False, client_key = None, requestType = m, url = Some u,
     hostName = None, isLargeData = False, data_len = 4, data_buff = None, accept_encoding = [], getArgs = None, cgi = None\<rparr>"

lemmas demo = demo_env_def demo_server_def demo_request_def looked_up_def after_call_def

lemma demo_routes:
  "route (builtInUrls demo_env) (Registered_URL_List demo_server) (chars ''/LED'') = Some (chars ''led'')"
  "route (builtInUrls demo_env) (Registered_URL_List demo_server) (chars ''/none'') = Some []"
  "route (builtInUrls demo_env) (Registered_URL_List demo_server) (chars ''/index.html'') = None"
  by (simp_all add: demo route_def find_handler_def url_matches_def)

section \<open>Properties\<close>

text \<open>
  C26: A URL is bound to the handler it was last registered with: after any sequence of successful
  registrations of URLs without a wildcard, whatever was registered before and in between, a request
  for the URL is given that handler and no other.
\<close>

theorem last_registered_handler:
  assumes "distinct (map fst urls)" "plain urls" "plain (earlier @ (u, h) # later)"
    "u \<notin> fst ` set later" "url c = Some u"
  shows "HTTPd_isMatch_CGI builtin
      (register_all HTTPd_Register_CGI_URL_Callback (earlier @ (u, h) # later) urls) c = (True, c\<lparr>cgi := Some h\<rparr>)"
proof -
  let ?urls = "register_all HTTPd_Register_CGI_URL_Callback (earlier @ (u, h) # later) urls"
  have "find_handler ?urls u = map_of ?urls u"
    by (rule find_handler_plain) (rule plain_registered [OF assms(1-3)])
  also have "\<dots> = Some h" by (rule url_table.last_registration_wins [OF assms(1,4)])
  finally show ?thesis by (simp only: isMatch_route [OF assms(5)] route_def option.case)
qed

theorem last_registered_handler_witness:
  "HTTPd_isMatch_CGI [] (register_all HTTPd_Register_CGI_URL_Callback
      [(chars ''/LED'', chars ''old''), (chars ''/x'', chars ''x''), (chars ''/LED'', chars ''new''), (chars ''/y'', [])] [])
      (demo_request HTTPd_Method_GET (chars ''/LED'')) =
    (True, (demo_request HTTPd_Method_GET (chars ''/LED''))\<lparr>cgi := Some (chars ''new'')\<rparr>)"
  using last_registered_handler [of "[]" "[(chars ''/LED'', chars ''old''), (chars ''/x'', chars ''x'')]"
    "chars ''/LED''" "chars ''new''" "[(chars ''/y'', [])]" "demo_request HTTPd_Method_GET (chars ''/LED'')" "[]"]
  by (simp add: plain_def demo_request_def)

text \<open>
  Removing a URL takes exactly its binding out of the table and reports whether there was one,
  except for the URL that was registered first: then the predecessor that does not exist is written
  to through a null pointer.
\<close>

theorem unregister_all_but_first:
  assumes "distinct (map fst urls)" "urls \<noteq> []"
  shows "(u \<noteq> fst (hd urls) \<longrightarrow> (\<exists>urls'. HTTPd_UnRegister_CGI_URL_Callback u urls =
      Some (if map_of urls u = None then -1 else 0, urls') \<and> map_of urls' = (map_of urls)(u := None))) \<and>
    HTTPd_UnRegister_CGI_URL_Callback (fst (hd urls)) urls = None"
proof (intro conjI impI)
  assume "u \<noteq> fst (hd urls)"
  then have "urls = [] \<or> fst (hd urls) \<noteq> u" by blast
  then obtain r urls' where u: "HTTPd_UnRegister_CGI_URL_Callback u urls = Some (r, urls')"
    "map_of urls' = (map_of urls)(u := None)" "r = (if map_of urls u = None then -1 else 0)"
    by (rule url_table.unregistered [OF assms(1)])
  show "\<exists>urls'. HTTPd_UnRegister_CGI_URL_Callback u urls =
      Some (if map_of urls u = None then -1 else 0, urls') \<and> map_of urls' = (map_of urls)(u := None)"
    using u(1,2) unfolding u(3) by blast
next
  show "HTTPd_UnRegister_CGI_URL_Callback (fst (hd urls)) urls = None"
    using assms(2) by (cases urls) (auto simp: HTTPd_UnRegister_CGI_URL_Callback_def)
qed

theorem unregister_all_but_first_witness:
  "HTTPd_UnRegister_CGI_URL_Callback (chars ''/LED'') [(chars ''/LED'', True)] = None \<and>
    (\<exists>urls'. HTTPd_UnRegister_CGI_URL_Callback (chars ''/x'') [(chars ''/LED'', True)] = Some (-1, urls'))"
  using unregister_all_but_first [of "[(chars ''/LED'', True)]" "chars ''/x''"] by auto

text \<open>
  A URL that ends in a star stands for one character only: it matches the URLs of the same length
  with the same beginning, and the URL itself.
\<close>

theorem wildcard_is_one_character:
  "url_matches (base @ [42]) u \<longleftrightarrow> (\<exists>b. u = base @ [b])"
proof
  assume "url_matches (base @ [42]) u"
  then have "length u = Suc (length base)" "take (length base) u = base"
    by (auto simp: url_matches_def)
  then have "u = base @ drop (length base) u" "length (drop (length base) u) = 1"
    by (metis append_take_drop_id) (simp add: \<open>length u = Suc (length base)\<close>)
  then show "\<exists>b. u = base @ [b]" by (metis length_Suc_conv length_0_conv One_nat_def)
qed (auto simp: url_matches_def)



text \<open>
  When a handler reports that it has nothing for a URL, the page for unknown URLs is sent after a
  GET, PUT or DELETE, but never after a POST: the option length 0 makes \<open>setsockopt\<close> fail, the handler
  is then called outside the function that would send the page, and the client is left without an
  answer.
\<close>

theorem POST_not_found_unanswered:
  assumes "looked_up c" "url c = Some u" "route (builtInUrls env) (Registered_URL_List s) u = Some h"
    "run env h (c\<lparr>cgi := Some h\<rparr>) (world s) = Some (es, HTTPD_CGI_NOTFOUND, w)"
    "setsockopt env 0 0 \<noteq> 0" "send_not_found env (c\<lparr>cgi := None\<rparr>) (after_call s es w) = Some s2"
  shows "\<exists>c'. serve_request env c s =
    Some (c', if requestType c = HTTPd_Method_POST then after_call s es w else s2) \<and> answered c'"
  using assms by (rule routed_not_found)

lemma demo_not_found:
  assumes "accept_encoding c = []"
  shows "\<exists>s. send_not_found demo_env c (after_call demo_server es w) = Some s"
proof -
  have "first_match (chars ''NotFound.html'') two_files = None" "\<not> contains (accept_encoding c) (chars ''gzip'')"
    using assms by (simp_all add: first_match_def two_files_def same_start_def contains_def)
  then show ?thesis
    by (simp add: send_not_found_def demo HTTPd_NotFound_def send_page_missing [OF two_files_proper] del: chars_simps)
      (simp add: send_page_missing [OF two_files_proper])
qed

theorem POST_not_found_unanswered_witness:
  "\<exists>c'. serve_request demo_env (demo_request HTTPd_Method_POST (chars ''/none'')) demo_server =
    Some (c', demo_server\<lparr>sent := [Send 5 []], world := 1\<rparr>) \<and> answered c'"
proof -
  obtain s2 where "send_not_found demo_env (demo_request HTTPd_Method_POST (chars ''/none''))
      (after_call demo_server [Send 5 []] 1) = Some s2"
    using demo_not_found [of "demo_request HTTPd_Method_POST (chars ''/none'')" "[Send 5 []]" 1]
    by (auto simp: demo_request_def)
  then show ?thesis
    using POST_not_found_unanswered [OF _ _ demo_routes(2), of "demo_request HTTPd_Method_POST (chars ''/none'')"
      "[Send 5 []]" 1 s2]
    by (simp add: demo)
qed



text \<open>
  The GET of a client that opens a WebSocket is answered with the status 101 and the accept key
  of the standard for the client's key; the connection stays open and counts as authenticated, so
  messages can be sent to it.
\<close>

theorem upgrade_answered:
  assumes "requestType c = HTTPd_Method_GET" "websocket_client c" "cgi c = None"
    "key_mem env" "cmd_mem env" "client_key c = Some key" "length key \<le> 475"
    "length (buffer (digest_state env)) = 16"
  shows "serve_request env c s = Some (free_data (c\<lparr>websocket_auth := True\<rparr>),
    s\<lparr>sent := sent s @ [Send (socket_id c) (upgrade_response key)]\<rparr>)"
  using assms(1-3) upgrade_sent [OF assms(4-8)]
  by (simp add: serve_request_def HTTPd_Process_GET_Request_def Let_def)

theorem upgrade_answered_witness:
  "\<exists>c. serve_request demo_env ((demo_request HTTPd_Method_GET (chars ''/ws''))\<lparr>websocket_client := True,
      client_key := Some (chars ''dGhlIHNhbXBsZSBub25jZQ=='')\<rparr>) demo_server =
    Some (c, demo_server\<lparr>sent := [Send 5 (upgrade_response (chars ''dGhlIHNhbXBsZSBub25jZQ==''))]\<rparr>)"
  using upgrade_answered [of "(demo_request HTTPd_Method_GET (chars ''/ws''))\<lparr>websocket_client := True,
      client_key := Some (chars ''dGhlIHNhbXBsZSBub25jZQ=='')\<rparr>" demo_env "chars ''dGhlIHNhbXBsZSBub25jZQ==''" demo_server]
  by (simp add: demo sha1_clean_def)

text \<open>
  The number in a URL is read back as it was printed; a text that does not end in a digit is read
  as 0, which is also the number of the first LED.
\<close>

theorem parse_uint_decimal:
  "(0 \<le> n \<and> n < 2 ^ 31 \<longrightarrow> HTTPd_CGI_ParseUint (Some (decimal n)) = n) \<and>
   (t \<noteq> [] \<and> \<not> c_digit (last t) \<longrightarrow> HTTPd_CGI_ParseUint (Some t) = 0)"
  using parse_decimal parse_no_number by blast

theorem parse_uint_decimal_witness:
  "HTTPd_CGI_ParseUint (Some (decimal 3)) = 3 \<and> HTTPd_CGI_ParseUint (Some (chars ''3/x'')) = 0"
  using parse_uint_decimal [of 3 "chars ''3/x''"] by (simp add: c_digit_def)

end
