(* ===== verification/LED_APP.thy ===== *)
theory LED_APP
  imports LED_API JSON_Printer HTTPd_Route
begin

text \<open>
  The web interface of the LED controller, \<open>APP/LED_PWM_APP.c\<close>: five handlers of URLs and the
  JSON commands that arrive in WebSocket messages. A handler returns what it sends, its result and
  the state of the controller; \<open>None\<close> is an access outside an array.
\<close>

section \<open>The environment\<close>

text \<open>\<open>json_parse\<close> is \<open>cJSON_Parse\<close> on the contents of the buffer it gets; its result is undefined
  (\<open>None\<close>) when it reads behind them. \<open>json_alloc k\<close> tells whether the \<open>k\<close>-th creation of a JSON item in a call succeeds; \<open>buf_mem\<close> and
  \<open>send_result\<close> are what a response gets from \<open>malloc\<close> and \<open>send\<close>, \<open>ip_aton\<close> and \<open>ip_ntoa\<close> lwIP's
  conversions of addresses.\<close>

record app_env =
  hal :: hal_env
  json_parse :: "u8 list \<Rightarrow> cJSON option option"
  json_print :: "cJSON \<Rightarrow> u8 list option"
  json_alloc :: "nat \<Rightarrow> bool"
  buf_mem :: bool
  send_result :: int
  ip_aton :: "u8 list \<Rightarrow> u32 option"
  ip_ntoa :: "u32 \<Rightarrow> u8 list"

type_synonym 's answer = "(net_event list \<times> int \<times> 's) option"

definition text_answer :: "app_env \<Rightarrow> 'h connection \<Rightarrow> u16 \<Rightarrow> 's \<Rightarrow> 's answer" where
  "text_answer env c code s = do {
     (es, r) \<leftarrow> HTTPd_Send_CGI_Response (Some c) code (chars ''txt'') [] 0 (buf_mem env) (send_result env);
     Some (es, r, s) }"

definition json_answer :: "app_env \<Rightarrow> 'h connection \<Rightarrow> u16 \<Rightarrow> members \<Rightarrow> 's \<Rightarrow> 's answer" where
  "json_answer env c code obj s = do {
     (es, r) \<leftarrow> HTTPd_Send_CGI_JSON_Response (json_print env) (Some c) code (Some (cJSON_Object obj))
       (buf_mem env) (send_result env);
     Some (es, r, s) }"

section \<open>The status of all LEDs\<close>

fun led_list :: "(nat \<Rightarrow> bool) \<Rightarrow> nat list \<Rightarrow> 'a led_state_scheme \<Rightarrow> (int \<times> cJSON list) option" where
  "led_list alloc [] s = Some (0, [])"
| "led_list alloc (i # is) s =
     (if \<not> alloc (3 + 4 * i) then Some (-1, [])
      else do {
        l \<leftarrow> cread (All_LED_Status s) (int i);
        let obj = cJSON_AddNumberToObject (alloc (4 + 4 * i)) [] ''led_index'' (int i);
        let obj = cJSON_AddBoolToObject (alloc (5 + 4 * i)) obj ''on_off'' (led_on_off l);
        let obj = cJSON_AddNumberToObject (alloc (6 + 4 * i)) obj ''level'' (uint (led_level l) div 10);
        (r, items) \<leftarrow> led_list alloc is s;
        Some (r, cJSON_Object obj # items) })"

definition LED_PWM_Get_All_LED_Status ::
  "(nat \<Rightarrow> bool) \<Rightarrow> 'a led_state_scheme \<Rightarrow> members \<Rightarrow> (int \<times> members) option"
where
  "LED_PWM_Get_All_LED_Status alloc s pcjson =
     (if \<not> alloc 0 then Some (-1, pcjson)
      else if \<not> alloc 1 then Some (-1, pcjson)
      else do {
        let obj = cJSON_AddNumberToObject (alloc 2) pcjson ''num_of_leds'' 4;
        (r, items) \<leftarrow> led_list alloc [0, 1, 2, 3] s;
        Some (r, cJSON_AddItemToObject obj ''all_led_status'' (Some (cJSON_Array items))) })"

section \<open>The handlers of URLs\<close>

definition LED_PWM_CGI_Root ::
  "app_env \<Rightarrow> 'h connection option \<Rightarrow> 'a led_state_scheme \<Rightarrow> 'a led_state_scheme answer"
where
  "LED_PWM_CGI_Root env connData s = (case connData of
     None \<Rightarrow> Some ([], HTTPD_CGI_DONE, s)
   | Some c \<Rightarrow>
       if requestType c = HTTPd_Method_GET then
         if \<not> json_alloc env 0 then text_answer env c 500 s
         else do {
           (r, obj) \<leftarrow> LED_PWM_Get_All_LED_Status (\<lambda>k. json_alloc env (k + 1)) s [];
           json_answer env c 200 obj s }
       else text_answer env c 404 s)"

definition LED_PWM_CGI_LED_Num ::
  "app_env \<Rightarrow> 'h connection option \<Rightarrow> 'a led_state_scheme \<Rightarrow> 'a led_state_scheme answer"
where
  "LED_PWM_CGI_LED_Num env connData s = (case connData of
     None \<Rightarrow> Some ([], HTTPD_CGI_DONE, s)
   | Some c \<Rightarrow>
       if requestType c = HTTPd_Method_GET then
         if \<not> json_alloc env 0 then text_answer env c 500 s
         else json_answer env c 200 (cJSON_AddNumberToObject (json_alloc env 1) [] ''num_of_leds'' 4) s
       else text_answer env c 404 s)"

text \<open>The number of the LED in the URL, which all three handlers look for behind \<open>/LED_PWM/\<close>;
  \<open>None\<close> makes them return \<open>HTTPD_CGI_NOTFOUND\<close>.\<close>

definition url_led_index :: "'h connection \<Rightarrow> int option" where
  "url_led_index c = (case HTTPd_CGI_PathStartsWith (url c) (Some (chars ''/LED_PWM/'')) of (r, rest) \<Rightarrow>
     if r < 0 then None
     else let i = HTTPd_CGI_ParseUint rest in if i < 0 \<or> 4 \<le> i then None else Some i)"

definition LED_PWM_CGI_LED_Any_Number ::
  "app_env \<Rightarrow> 'h connection option \<Rightarrow> 'a led_state_scheme \<Rightarrow> 'a led_state_scheme answer"
where
  "LED_PWM_CGI_LED_Any_Number env connData s = (case connData of
     None \<Rightarrow> Some ([], HTTPD_CGI_DONE, s)
   | Some c \<Rightarrow> (case url_led_index c of
       None \<Rightarrow> Some ([], HTTPD_CGI_NOTFOUND, s)
     | Some i \<Rightarrow>
       if requestType c = HTTPd_Method_POST then
         (case data_buff c of
            None \<Rightarrow> text_answer env c 400 s
          | Some req_data \<Rightarrow> (json_parse env req_data \<bind> (\<lambda>parsed. case parsed of
              None \<Rightarrow> text_answer env c 422 s
            | Some req_json \<Rightarrow>
                (case cJSON_GetObjectItem req_json (chars ''on_off'') of
                   None \<Rightarrow> text_answer env c 400 s
                 | Some on_off \<Rightarrow> (case cJSON_GetObjectItem req_json (chars ''level'') of
                     None \<Rightarrow> text_answer env c 400 s
                   | Some level \<Rightarrow>
                       if on_off \<noteq> cJSON_True \<and> on_off \<noteq> cJSON_False then text_answer env c 400 s
                       else (case level of
                           cJSON_Number n \<Rightarrow>
                             let sw_on_off = (on_off = cJSON_True); sw_level = (of_int n :: u8) in
                             if \<not> json_alloc env 0 then text_answer env c 500 s
                             else do {
                               s1 \<leftarrow> LED_PWM_Set_LED_On_Off_Status (hal env) (of_int i) sw_on_off s;
                               s2 \<leftarrow> LED_PWM_Set_LED_Level_Status (hal env) (of_int i) (ucast sw_level * 10) s1;
                               let obj = cJSON_AddBoolToObject (json_alloc env 1) [] ''led_index'' (i \<noteq> 0);
                               let obj = cJSON_AddBoolToObject (json_alloc env 2) obj ''on_off'' sw_on_off;
                               let obj = cJSON_AddNumberToObject (json_alloc env 3) obj ''level'' (uint sw_level);
                               json_answer env c 201 obj s2 }
                         | _ \<Rightarrow> text_answer env c 400 s))))))
       else if requestType c = HTTPd_Method_GET then
         if \<not> json_alloc env 0 then text_answer env c 500 s
         else do {
           l \<leftarrow> cread (All_LED_Status s) i;
           let obj = cJSON_AddNumberToObject (json_alloc env 1) [] ''led_index'' i;
           let obj = cJSON_AddBoolToObject (json_alloc env 2) obj ''on_off'' (led_on_off l);
           let obj = cJSON_AddNumberToObject (json_alloc env 3) obj ''level'' (uint (led_level l) div 10);
           json_answer env c 200 obj s }
       else text_answer env c 404 s))"

definition LED_PWM_CGI_LED_OnOff_Any_Number ::
  "app_env \<Rightarrow> 'h connection option \<Rightarrow> 'a led_state_scheme \<Rightarrow> 'a led_state_scheme answer"
where
  "LED_PWM_CGI_LED_OnOff_Any_Number env connData s = (case connData of
     None \<Rightarrow> Some ([], HTTPD_CGI_DONE, s)
   | Some c \<Rightarrow> (case url_led_index c of
       None \<Rightarrow> Some ([], HTTPD_CGI_NOTFOUND, s)
     | Some i \<Rightarrow>
       if requestType c = HTTPd_Method_POST then
         (case data_buff c of
            None \<Rightarrow> text_answer env c 400 s
          | Some req_data \<Rightarrow> (json_parse env req_data \<bind> (\<lambda>parsed. case parsed of
              None \<Rightarrow> text_answer env c 422 s
            | Some req_json \<Rightarrow>
                (case cJSON_GetObjectItem req_json (chars ''on_off'') of
                   None \<Rightarrow> text_answer env c 400 s
                 | Some on_off \<Rightarrow>
                     if on_off \<noteq> cJSON_True \<and> on_off \<noteq> cJSON_False then text_answer env c 400 s
                     else let sw_on_off = (on_off = cJSON_True) in
                       if \<not> json_alloc env 0 then text_answer env c 500 s
                       else do {
                         s1 \<leftarrow> LED_PWM_Set_LED_On_Off_Status (hal env) (of_int i) sw_on_off s;
                         let obj = cJSON_AddBoolToObject (json_alloc env 1) [] ''led_index'' (i \<noteq> 0);
                         let obj = cJSON_AddBoolToObject (json_alloc env 2) obj ''on_off'' sw_on_off;
                         json_answer env c 201 obj s1 }))))
       else if requestType c = HTTPd_Method_GET then
         if \<not> json_alloc env 0 then text_answer env c 500 s
         else do {
           l \<leftarrow> cread (All_LED_Status s) i;
           let obj = cJSON_AddNumberToObject (json_alloc env 1) [] ''led_index'' i;
           let obj = cJSON_AddBoolToObject (json_alloc env 2) obj ''on_off'' (led_on_off l);
           json_answer env c 200 obj s }
       else text_answer env c 404 s))"

text \<open>\<open>sw_level\<close> is declared as a \<open>bool\<close> here.\<close>

definition LED_PWM_CGI_LED_Level_Any_Number ::
  "app_env \<Rightarrow> 'h connection option \<Rightarrow> 'a led_state_scheme \<Rightarrow> 'a led_state_scheme answer"
where
  "LED_PWM_CGI_LED_Level_Any_Number env connData s = (case connData of
     None \<Rightarrow> Some ([], HTTPD_CGI_DONE, s)
   | Some c \<Rightarrow> (case url_led_index c of
       None \<Rightarrow> Some ([], HTTPD_CGI_NOTFOUND, s)
     | Some i \<Rightarrow>
       if requestType c = HTTPd_Method_POST then
         (case data_buff c of
            None \<Rightarrow> text_answer env c 400 s
          | Some req_data \<Rightarrow> (json_parse env req_data \<bind> (\<lambda>parsed. case parsed of
              None \<Rightarrow> text_answer env c 422 s
            | Some req_json \<Rightarrow>
                (case cJSON_GetObjectItem req_json (chars ''level'') of
                   None \<Rightarrow> text_answer env c 400 s
                 | Some level \<Rightarrow> (case level of
                     cJSON_Number n \<Rightarrow>
                       let sw_level = (n \<noteq> 0) in
                       if \<not> json_alloc env 0 then text_answer env c 500 s
                       else do {
                         s1 \<leftarrow> LED_PWM_Set_LED_Level_Status (hal env) (of_int i) (of_bool sw_level * 10) s;
                         let obj = cJSON_AddBoolToObject (json_alloc env 1) [] ''led_index'' (i \<noteq> 0);
                         let obj = cJSON_AddBoolToObject (json_alloc env 2) obj ''level'' sw_level;
                         json_answer env c 201 obj s1 }
                   | _ \<Rightarrow> text_answer env c 400 s)))))
       else if requestType c = HTTPd_Method_GET then
         if \<not> json_alloc env 0 then text_answer env c 500 s
         else do {
           l \<leftarrow> cread (All_LED_Status s) i;
           let obj = cJSON_AddNumberToObject (json_alloc env 1) [] ''led_index'' i;
           let obj = cJSON_AddNumberToObject (json_alloc env 2) obj ''level'' (uint (led_level l) div 10);
           json_answer env c 200 obj s }
       else text_answer env c 404 s))"

section \<open>Commands in messages\<close>

datatype App_Interface_Protocol = Protocol_None | WebSocket | Telnet | MQTT

text \<open>The result is the returned status; the strings are different, so the three comparisons are
  alternatives.\<close>

definition Process_LED_PWM_APP_JSON_POST_Commands ::
  "hal_env \<Rightarrow> cJSON \<Rightarrow> 'a led_state_scheme \<Rightarrow> (int \<times> 'a led_state_scheme) option"
where
  "Process_LED_PWM_APP_JSON_POST_Commands env in_json s =
     (case cJSON_GetObjectItem in_json (chars ''command'') of
        Some (cJSON_String cmd) \<Rightarrow>
          if cmd = chars ''set individual led on/off state'' then
            (case (cJSON_GetObjectItem in_json (chars ''on_off''), cJSON_GetObjectItem in_json (chars ''led_index'')) of
               (Some on_off, Some (cJSON_Number i)) \<Rightarrow>
                 if i < 4 \<and> 0 \<le> i then
                   (if on_off = cJSON_True then map_option (Pair 0) (LED_PWM_Set_LED_On_Off_Status env (of_int i) True s)
                    else if on_off = cJSON_False then map_option (Pair 0) (LED_PWM_Set_LED_On_Off_Status env (of_int i) False s)
                    else Some (-1, s))
                 else Some (-1, s)
             | _ \<Rightarrow> Some (-1, s))
          else if cmd = chars ''set individual led level state'' then
            (case (cJSON_GetObjectItem in_json (chars ''level''), cJSON_GetObjectItem in_json (chars ''led_index'')) of
               (Some (cJSON_Number l), Some (cJSON_Number i)) \<Rightarrow>
                 if i < 4 \<and> 0 \<le> i \<and> l \<le> 100 \<and> 0 \<le> l
                 then map_option (Pair 0) (LED_PWM_Set_LED_Level_Status env (of_int i) (of_int (l * 10)) s)
                 else Some (-1, s)
             | _ \<Rightarrow> Some (-1, s))
          else if cmd = chars ''toggle individual switch on/off state'' then
            (case cJSON_GetObjectItem in_json (chars ''led_index'') of
               Some (cJSON_Number i) \<Rightarrow>
                 if i < 4 \<and> 0 \<le> i then map_option (Pair 0) (LED_PWM_Toggle_LED_On_Off_Status env (of_int i) s)
                 else Some (-1, s)
             | _ \<Rightarrow> Some (-1, s))
          else Some (0, s)
      | _ \<Rightarrow> Some (0, s))"

text \<open>An index that is not a number, missing or too large leaves the answer without data; a negative
  one is used.\<close>

definition Process_LED_PWM_APP_JSON_GET_Commands ::
  "(nat \<Rightarrow> bool) \<Rightarrow> cJSON \<Rightarrow> members \<Rightarrow> 'a led_state_scheme \<Rightarrow> (int \<times> members) option"
where
  "Process_LED_PWM_APP_JSON_GET_Commands alloc in_json rsp s =
     (case cJSON_GetObjectItem in_json (chars ''command'') of
        Some (cJSON_String cmd) \<Rightarrow>
          if cmd = chars ''get num of leds'' then
            Some (0, cJSON_AddNumberToObject (alloc 1)
              (cJSON_AddStringToObject (alloc 0) rsp ''command'' (chars ''get num of leds'')) ''num_of_leds'' 4)
          else if cmd = chars ''get individual led status'' then
            let rsp1 = cJSON_AddStringToObject (alloc 0) rsp ''command'' (chars ''get individual led tatus'') in
            (case cJSON_GetObjectItem in_json (chars ''led_index'') of
               Some (cJSON_Number i) \<Rightarrow>
                 if i < 4 then do {
                   l \<leftarrow> cread (All_LED_Status s) i;
                   let obj = cJSON_AddNumberToObject (alloc 1) rsp1 ''led_index'' i;
                   let obj = cJSON_AddBoolToObject (alloc 2) obj ''on_off'' (led_on_off l);
                   Some (0, cJSON_AddNumberToObject (alloc 3) obj ''level'' (uint (led_level l) div 10)) }
                 else Some (0, rsp1)
             | _ \<Rightarrow> Some (0, rsp1))
          else if cmd = chars ''get all led status'' then do {
            (status, obj) \<leftarrow> LED_PWM_Get_All_LED_Status (\<lambda>k. alloc (k + 1)) s rsp;
            Some (status, cJSON_AddStringToObject (alloc 0) obj ''command'' (chars ''get all led status'')) }
          else Some (0, rsp)
      | _ \<Rightarrow> Some (0, rsp))"

definition LED_PWM_Do_Report ::
  "app_env \<Rightarrow> 'h clients \<Rightarrow> bool \<Rightarrow> 'a led_state_scheme \<Rightarrow> (net_event list \<times> int) option"
where
  "LED_PWM_Do_Report env cs report_via_websocket s =
     (if \<not> json_alloc env 0 then Some ([], -1)
      else do {
        let obj = cJSON_AddStringToObject (json_alloc env 1) [] ''method'' (chars ''POST'');
        let obj = cJSON_AddStringToObject (json_alloc env 2) obj ''topic'' (chars ''LED_PWM'');
        let obj = cJSON_AddStringToObject (json_alloc env 3) obj ''command'' (chars ''report leds status change'');
        (r, obj) \<leftarrow> LED_PWM_Get_All_LED_Status (\<lambda>k. json_alloc env (k + 4)) s obj;
        es \<leftarrow> (if report_via_websocket
          then WebsocketServer_SendBrocastJSONMessage (json_print env) cs (Some (cJSON_Object obj)) else Some []);
        Some (es, -1) })"

definition Process_LED_PWM_APP_Incoming_JSON_POST_Msg ::
  "app_env \<Rightarrow> 'h clients \<Rightarrow> App_Interface_Protocol \<Rightarrow> cJSON \<Rightarrow> 'a led_state_scheme \<Rightarrow> 'a led_state_scheme answer"
where
  "Process_LED_PWM_APP_Incoming_JSON_POST_Msg env cs protocol in_json s =
     (if protocol = Protocol_None then Some ([], -1, s)
      else do {
        (status, s1) \<leftarrow> Process_LED_PWM_APP_JSON_POST_Commands (hal env) in_json s;
        if 0 \<le> status then do {
          (es, r) \<leftarrow> LED_PWM_Do_Report env cs True s1;
          Some (es, r, s1) }
        else Some ([], status, s1) })"

definition Process_LED_PWM_APP_Incoming_JSON_GET_Msg ::
  "(nat \<Rightarrow> bool) \<Rightarrow> App_Interface_Protocol \<Rightarrow> cJSON \<Rightarrow> members \<Rightarrow> 'a led_state_scheme \<Rightarrow> (int \<times> members) option"
where
  "Process_LED_PWM_APP_Incoming_JSON_GET_Msg alloc protocol in_json rsp s =
     (if protocol = Protocol_None then Some (-1, rsp)
      else Process_LED_PWM_APP_JSON_GET_Commands alloc in_json rsp s)"

section \<open>The abstract controller\<close>

text \<open>What a command does to the on/off status and the level of each LED.\<close>

datatype led_command = Switch nat bool | Level nat u16 | Toggle nat

fun obey :: "led_command \<Rightarrow> (nat \<Rightarrow> bool \<times> u16) \<Rightarrow> nat \<Rightarrow> bool \<times> u16" where
  "obey (Switch i b) v = v(i := (b, snd (v i)))"
| "obey (Level i l) v = v(i := (fst (v i), if fst (v i) then l else snd (v i)))"
| "obey (Toggle i) v = v(i := (\<not> fst (v i), snd (v i)))"

text \<open>The state shows \<open>v\<close>.\<close>

definition shows_leds :: "'a led_state_scheme \<Rightarrow> (nat \<Rightarrow> bool \<times> u16) \<Rightarrow> bool" where
  "shows_leds s v \<longleftrightarrow> led_wf s \<and> (\<forall>j<4. led_view s j = v j)"

lemma index_u8: "0 \<le> i \<Longrightarrow> i < 4 \<Longrightarrow> unat (of_int i :: u8) = nat i \<and> \<not> 4 \<le> (of_int i :: u8)"
proof -
  assume i: "0 \<le> i" "i < 4"
  then have "uint (of_int i :: u8) = i" by (simp add: uint_word_of_int_eq take_bit_int_eq_self)
  with i show ?thesis by (simp add: word_le_def unat_eq_nat_uint)
qed

lemma level_view:
  assumes "led_wf s" "i < 4"
  shows "\<exists>s'. led_set_level env i l s = Some s' \<and> led_wf s' \<and>
    led_view s' i = (fst (led_view s i), if fst (led_view s i) then l else snd (led_view s i)) \<and>
    (\<forall>j. j \<noteq> i \<longrightarrow> led_view s' j = led_view s j)"
  using set_level_records [OF assms, of env l] assms
  by (auto simp: led_view_def led_wf_def nth_list_update split: if_splits)

lemma on_off_obeys:
  assumes "shows_leds s v" "0 \<le> i" "i < 4"
  shows "\<exists>s'. LED_PWM_Set_LED_On_Off_Status env (of_int i) b s = Some s' \<and> shows_leds s' (obey (Switch (nat i) b) v)"
proof -
  have i: "nat i < 4" using assms by linarith
  from switch_view [OF _ i, of s env b] assms(1) obtain s' where "led_switch env (nat i) b s = Some s'" "led_wf s'"
    "led_view s' (nat i) = (b, snd (v (nat i)))" "\<forall>j. j \<noteq> nat i \<longrightarrow> led_view s' j = led_view s j"
    using i by (auto simp: shows_leds_def)
  then show ?thesis using assms index_u8 [OF assms(2,3)]
    by (auto simp: LED_PWM_Set_LED_On_Off_Status_def shows_leds_def)
qed

lemma level_obeys:
  assumes "shows_leds s v" "0 \<le> i" "i < 4"
  shows "\<exists>s'. LED_PWM_Set_LED_Level_Status env (of_int i) l s = Some s' \<and> shows_leds s' (obey (Level (nat i) l) v)"
proof -
  have i: "nat i < 4" using assms by linarith
  from level_view [OF _ i, of s env l] assms(1) obtain s' where "led_set_level env (nat i) l s = Some s'" "led_wf s'"
    "led_view s' (nat i) = (fst (v (nat i)), if fst (v (nat i)) then l else snd (v (nat i)))"
    "\<forall>j. j \<noteq> nat i \<longrightarrow> led_view s' j = led_view s j"
    using i by (auto simp: shows_leds_def)
  then show ?thesis using assms index_u8 [OF assms(2,3)]
    by (auto simp: LED_PWM_Set_LED_Level_Status_def shows_leds_def)
qed

lemma toggle_obeys:
  assumes "shows_leds s v" "0 \<le> i" "i < 4"
  shows "\<exists>s'. LED_PWM_Toggle_LED_On_Off_Status env (of_int i) s = Some s' \<and> shows_leds s' (obey (Toggle (nat i)) v)"
proof -
  have i: "nat i < 4" using assms by linarith
  have v: "led_view s (nat i) = v (nat i)" using assms(1) i by (simp add: shows_leds_def)
  have "cread (All_LED_Status s) (int (unat (of_int i :: u8))) = Some (All_LED_Status s ! nat i)"
    using assms index_u8 [OF assms(2,3)] by (simp add: shows_leds_def led_wf_def)
  moreover have "led_on_off (All_LED_Status s ! nat i) = fst (v (nat i))" by (simp add: v [symmetric] led_view_def)
  ultimately show ?thesis
    using on_off_obeys [OF assms, of env "\<not> fst (v (nat i))"] index_u8 [OF assms(2,3)]
    by (simp add: LED_PWM_Toggle_LED_On_Off_Status_def)
qed

text \<open>The messages that carry a command; members in any order, with others between them.\<close>

definition says :: "cJSON \<Rightarrow> led_command \<Rightarrow> bool" where
  "says m c \<longleftrightarrow> (case c of
     Switch i b \<Rightarrow>
       cJSON_GetObjectItem m (chars ''command'') = Some (cJSON_String (chars ''set individual led on/off state'')) \<and>
       cJSON_GetObjectItem m (chars ''led_index'') = Some (cJSON_Number (int i)) \<and> i < 4 \<and>
       cJSON_GetObjectItem m (chars ''on_off'') = Some (if b then cJSON_True else cJSON_False)
   | Level i l \<Rightarrow>
       cJSON_GetObjectItem m (chars ''command'') = Some (cJSON_String (chars ''set individual led level state'')) \<and>
       cJSON_GetObjectItem m (chars ''led_index'') = Some (cJSON_Number (int i)) \<and> i < 4 \<and>
       l \<le> 1000 \<and> uint l mod 10 = 0 \<and>
       cJSON_GetObjectItem m (chars ''level'') = Some (cJSON_Number (uint l div 10))
   | Toggle i \<Rightarrow>
       cJSON_GetObjectItem m (chars ''command'') = Some (cJSON_String (chars ''toggle individual switch on/off state'')) \<and>
       cJSON_GetObjectItem m (chars ''led_index'') = Some (cJSON_Number (int i)) \<and> i < 4)"

lemma command_names:
  "chars ''set individual led on/off state'' \<noteq> chars ''set individual led level state''"
  "chars ''toggle individual switch on/off state'' \<noteq> chars ''set individual led on/off state''"
  "chars ''toggle individual switch on/off state'' \<noteq> chars ''set individual led level state''"
  by simp_all

lemma level_of_percent:
  assumes "0 \<le> p" "p \<le> 100"
  shows "uint (of_int (p * 10) :: u16) = p * 10" "(of_int (p * 10) :: u16) \<le> 1000" "uint (of_int (p * 10) :: u16) mod 10 = 0"
    "uint (of_int (p * 10) :: u16) div 10 = p"
proof -
  show u: "uint (of_int (p * 10) :: u16) = p * 10"
    using assms by (simp only: uint_word_of_int_eq) (simp add: take_bit_int_eq_self)
  show "(of_int (p * 10) :: u16) \<le> 1000" unfolding word_le_def u using assms by simp
  show "uint (of_int (p * 10) :: u16) mod 10 = 0" unfolding u by simp
  show "uint (of_int (p * 10) :: u16) div 10 = p" unfolding u by simp
qed

lemma percent_of_level:
  assumes "(l :: u16) \<le> 1000" "uint l mod 10 = 0"
  shows "0 \<le> uint l div 10" "uint l div 10 \<le> 100" "of_int (uint l div 10 * 10) = l"
proof -
  have "uint l \<le> 1000" using assms(1) by (simp add: word_le_def)
  then show "uint l div 10 \<le> 100" by simp
  have "uint l div 10 * 10 = uint l" using assms(2) by presburger
  then show "of_int (uint l div 10 * 10) = l" by simp
  show "0 \<le> uint l div 10" by (simp add: pos_imp_zdiv_nonneg_iff)
qed

lemma command_obeyed:
  assumes "shows_leds s v" "says m c"
  shows "\<exists>s'. Process_LED_PWM_APP_JSON_POST_Commands env m s = Some (0, s') \<and> shows_leds s' (obey c v)"
proof (cases c)
  case (Switch i b)
  with assms(2) on_off_obeys [OF assms(1), of "int i" env b] show ?thesis
    by (auto simp: says_def Process_LED_PWM_APP_JSON_POST_Commands_def simp del: chars_simps split: if_splits)
next
  case (Level i l)
  with assms(2) have "l \<le> 1000" "uint l mod 10 = 0" by (simp_all add: says_def)
  note p = percent_of_level [OF this]
  from Level assms(2) p level_obeys [OF assms(1), of "int i" env l] command_names(1) show ?thesis
    by (auto simp: says_def Process_LED_PWM_APP_JSON_POST_Commands_def simp del: chars_simps)
next
  case (Toggle i)
  with assms(2) toggle_obeys [OF assms(1), of "int i" env] command_names(2,3) show ?thesis
    by (auto simp: says_def Process_LED_PWM_APP_JSON_POST_Commands_def simp del: chars_simps)
qed

lemma says_intros:
  "cJSON_GetObjectItem m (chars ''command'') = Some (cJSON_String (chars ''set individual led on/off state'')) \<Longrightarrow>
    cJSON_GetObjectItem m (chars ''led_index'') = Some (cJSON_Number i) \<Longrightarrow> 0 \<le> i \<Longrightarrow> i < 4 \<Longrightarrow>
    cJSON_GetObjectItem m (chars ''on_off'') = Some (if b then cJSON_True else cJSON_False) \<Longrightarrow> says m (Switch (nat i) b)"
  "cJSON_GetObjectItem m (chars ''command'') = Some (cJSON_String (chars ''set individual led level state'')) \<Longrightarrow>
    cJSON_GetObjectItem m (chars ''led_index'') = Some (cJSON_Number i) \<Longrightarrow> 0 \<le> i \<Longrightarrow> i < 4 \<Longrightarrow>
    cJSON_GetObjectItem m (chars ''level'') = Some (cJSON_Number p) \<Longrightarrow> 0 \<le> p \<Longrightarrow> p \<le> 100 \<Longrightarrow>
    says m (Level (nat i) (of_int (p * 10)))"
  "cJSON_GetObjectItem m (chars ''command'') = Some (cJSON_String (chars ''toggle individual switch on/off state'')) \<Longrightarrow>
    cJSON_GetObjectItem m (chars ''led_index'') = Some (cJSON_Number i) \<Longrightarrow> 0 \<le> i \<Longrightarrow> i < 4 \<Longrightarrow> says m (Toggle (nat i))"
  using level_of_percent [of p] by (simp_all add: says_def del: chars_simps of_int_mult)

text \<open>A message with one of the three names that says no command is refused.\<close>

lemma switch_refused:
  assumes "cJSON_GetObjectItem m (chars ''command'') = Some (cJSON_String (chars ''set individual led on/off state''))"
    "\<And>c. \<not> says m c"
  shows "Process_LED_PWM_APP_JSON_POST_Commands env m s = Some (-1, s)"
proof -
  have "\<not> (\<exists>i. cJSON_GetObjectItem m (chars ''led_index'') = Some (cJSON_Number i) \<and> i < 4 \<and> 0 \<le> i \<and>
      cJSON_GetObjectItem m (chars ''on_off'') = Some (if b then cJSON_True else cJSON_False))" for b
    using says_intros(1) [OF assms(1)] assms(2) by blast
  from this [of True] this [of False] assms(1) show ?thesis
    by (auto simp: Process_LED_PWM_APP_JSON_POST_Commands_def simp del: chars_simps split: option.split cJSON.split)
qed

lemma level_refused:
  assumes "cJSON_GetObjectItem m (chars ''command'') = Some (cJSON_String (chars ''set individual led level state''))"
    "\<And>c. \<not> says m c"
  shows "Process_LED_PWM_APP_JSON_POST_Commands env m s = Some (-1, s)"
proof -
  have "\<not> (\<exists>i p. cJSON_GetObjectItem m (chars ''led_index'') = Some (cJSON_Number i) \<and> i < 4 \<and> 0 \<le> i \<and>
      cJSON_GetObjectItem m (chars ''level'') = Some (cJSON_Number p) \<and> p \<le> 100 \<and> 0 \<le> p)"
    using says_intros(2) [OF assms(1)] assms(2) by blast
  with assms(1) command_names(1) show ?thesis
    by (auto simp: Process_LED_PWM_APP_JSON_POST_Commands_def simp del: chars_simps split: option.split cJSON.split)
qed

lemma toggle_refused:
  assumes "cJSON_GetObjectItem m (chars ''command'') = Some (cJSON_String (chars ''toggle individual switch on/off state''))"
    "\<And>c. \<not> says m c"
  shows "Process_LED_PWM_APP_JSON_POST_Commands env m s = Some (-1, s)"
proof -
  have "\<not> (\<exists>i. cJSON_GetObjectItem m (chars ''led_index'') = Some (cJSON_Number i) \<and> i < 4 \<and> 0 \<le> i)"
    using says_intros(3) [OF assms(1)] assms(2) by blast
  with assms(1) command_names(2,3) show ?thesis
    by (auto simp: Process_LED_PWM_APP_JSON_POST_Commands_def simp del: chars_simps split: option.split cJSON.split)
qed

lemma no_command:
  assumes "\<forall>cmd\<in>{chars ''set individual led on/off state'', chars ''set individual led level state'',
      chars ''toggle individual switch on/off state''}. cJSON_GetObjectItem m (chars ''command'') \<noteq> Some (cJSON_String cmd)"
  shows "Process_LED_PWM_APP_JSON_POST_Commands env m s = Some (0, s)"
  using assms by (auto simp: Process_LED_PWM_APP_JSON_POST_Commands_def simp del: chars_simps split: option.split cJSON.split)

lemma command_or_refused:
  assumes "shows_leds s v"
  shows "\<exists>status s'. Process_LED_PWM_APP_JSON_POST_Commands env m s = Some (status, s') \<and>
    (s' = s \<and> status \<in> {0, -1} \<or> status = 0 \<and> (\<exists>c. says m c \<and> shows_leds s' (obey c v)))"
proof (cases "\<exists>c. says m c")
  case True
  with command_obeyed [OF assms] show ?thesis by blast
next
  case False
  then show ?thesis
    using switch_refused [of m env s] level_refused [of m env s] toggle_refused [of m env s] no_command [of m env s]
    by fastforce
qed

section \<open>LEDs named by URLs\<close>

lemma url_number:
  assumes "url c = Some (chars ''/LED_PWM/'' @ decimal i)" "0 \<le> i" "i < 4"
  shows "url_led_index c = Some i"
  using assms parse_decimal [of i] by (simp add: url_led_index_def HTTPd_CGI_PathStartsWith_def Let_def)

lemma parse_letter:
  assumes "\<not> c_space b" "\<not> c_digit b" "b \<noteq> 43" "b \<noteq> 45"
  shows "HTTPd_CGI_ParseUint (Some (b # t)) = 0"
  using assms by (simp add: HTTPd_CGI_ParseUint_def strtol_def)

lemma url_letter:
  assumes "url c = Some (chars ''/LED_PWM/'' @ b # t)" "\<not> c_space b" "\<not> c_digit b" "b \<noteq> 43" "b \<noteq> 45"
  shows "url_led_index c = Some 0"
  using assms parse_letter [of b t] by (simp add: url_led_index_def HTTPd_CGI_PathStartsWith_def Let_def)

text \<open>Nothing fails: there is memory for items, buffers and the texts of the size that the application
  sends, and data can be sent.\<close>

definition healthy :: "app_env \<Rightarrow> bool" where
  "healthy env \<longleftrightarrow> json_alloc env = (\<lambda>_. True) \<and> buf_mem env \<and> 0 \<le> send_result env \<and>
     (\<forall>v. sendable v \<longrightarrow> (\<exists>t. json_print env v = Some t \<and> t \<noteq> [] \<and> length t < 2 ^ 64))"

text \<open>The same with the repository's own cJSON: \<open>pm\<close> and \<open>km\<close> are the allocations that succeed for a
  parser and for a printer, and \<open>pow10\<close> is C's \<open>pow(10.0, n)\<close>.\<close>

definition with_cJSON :: "(int \<Rightarrow> rat option) \<Rightarrow> nat \<Rightarrow> nat \<Rightarrow> app_env \<Rightarrow> bool" where
  "with_cJSON pow10 pm km env \<longleftrightarrow> json_alloc env = (\<lambda>_. True) \<and> buf_mem env \<and> 0 \<le> send_result env \<and>
     json_parse env = cJSON_Parse pow10 pm \<and> pow10 0 = Some 1 \<and> json_print env = json_string km \<and> 64 \<le> km"

lemma cJSON_healthy: "with_cJSON pow10 pm km env \<Longrightarrow> healthy env"
  using json_string_sendable by (auto simp: with_cJSON_def healthy_def)

lemma cJSON_text:
  "with_cJSON pow10 pm km env \<Longrightarrow> sendable (cJSON_Object obj) \<Longrightarrow> the (json_print env (cJSON_Object obj)) = layout False 0 (cJSON_Object obj)"
  by (simp add: with_cJSON_def json_string_sendable)

lemma cJSON_read:
  assumes "with_cJSON pow10 pm km env" "value_text (cJSON_Object ms) t" "blank w" "json_needs (cJSON_Object ms) < pm"
  shows "json_parse env (w @ t @ r) = Some (Some (cJSON_Object ms))"
  using text_parsed [OF assms(2,3), of pow10 pm r] assms(1,4) by (simp add: with_cJSON_def)

definition json_text :: "app_env \<Rightarrow> members \<Rightarrow> u8 list" where
  "json_text env obj = the (json_print env (cJSON_Object obj))"

definition json_sent :: "app_env \<Rightarrow> 'h connection \<Rightarrow> u16 \<Rightarrow> members \<Rightarrow> net_event list" where
  "json_sent env c code obj = [Send (socket_id c) (json_head c code), Send (socket_id c) (json_text env obj)]"

lemma json_sent_cgi: "json_sent env (c\<lparr>cgi := h\<rparr>) code obj = json_sent env c code obj"
  by (simp add: json_sent_def json_head_def)

lemma healthy_answer:
  assumes "healthy env" "sendable (cJSON_Object obj)"
  shows "json_answer env c code obj s = Some (json_sent env c code obj, HTTPD_CGI_DONE, s)"
proof -
  from assms obtain t where t: "json_print env (cJSON_Object obj) = Some t" "t \<noteq> []" "length t < 2 ^ 64"
    by (meson healthy_def)
  have "0 \<le> send_result env" "buf_mem env" using assms(1) by (simp_all add: healthy_def)
  from json_response_sent [where json_print = "json_print env", OF t this(1), of c code] this(2) t(1) show ?thesis
    by (simp add: json_answer_def json_sent_def json_text_def)
qed

lemma healthy_alloc [simp]: "healthy env \<Longrightarrow> json_alloc env = (\<lambda>_. True)"
  by (simp add: healthy_def)

definition bool_json :: "bool \<Rightarrow> cJSON" where
  "bool_json b = (if b then cJSON_True else cJSON_False)"

lemma bool_json_eq [simp]: "bool_json b = cJSON_True \<longleftrightarrow> b" "bool_json b = cJSON_False \<longleftrightarrow> \<not> b"
  by (simp_all add: bool_json_def)

lemma built:
  "cJSON_AddBoolToObject True obj name b = obj @ [(chars name, bool_json b)]"
  "cJSON_AddNumberToObject True obj name n = obj @ [(chars name, cJSON_Number n)]"
  "cJSON_AddStringToObject True obj name t = obj @ [(chars name, cJSON_String t)]"
  by (simp_all add: cJSON_build bool_json_def)

lemma level_byte:
  assumes "0 \<le> p" "p < 256"
  shows "uint (of_int p :: u8) = p" "ucast (of_int p :: u8) * 10 = (of_int (p * 10) :: u16)"
proof -
  show u: "uint (of_int p :: u8) = p" using assms by (simp add: uint_word_of_int_eq take_bit_int_eq_self)
  have "ucast (of_int p :: u8) = (of_int (uint (of_int p :: u8)) :: u16)" by simp
  then have "ucast (of_int p :: u8) = (of_int p :: u16)" unfolding u .
  then show "ucast (of_int p :: u8) * 10 = (of_int (p * 10) :: u16)" by simp
qed

text \<open>The status of the LEDs as the application reports it.\<close>

definition led_json :: "(nat \<Rightarrow> bool \<times> u16) \<Rightarrow> nat \<Rightarrow> cJSON" where
  "led_json v i = cJSON_Object [(chars ''led_index'', cJSON_Number (int i)), (chars ''on_off'', bool_json (fst (v i))),
     (chars ''level'', cJSON_Number (uint (snd (v i)) div 10))]"

definition status_members :: "(nat \<Rightarrow> bool \<times> u16) \<Rightarrow> members" where
  "status_members v = [(chars ''num_of_leds'', cJSON_Number 4),
     (chars ''all_led_status'', cJSON_Array (map (led_json v) [0, 1, 2, 3]))]"

lemma led_read: "shows_leds s v \<Longrightarrow> i < 4 \<Longrightarrow> \<exists>l. cread (All_LED_Status s) (int i) = Some l \<and> v i = (led_on_off l, led_level l)"
  by (auto simp: shows_leds_def led_wf_def led_view_def)

lemma led_list_json:
  "shows_leds s v \<Longrightarrow> list_all (\<lambda>i. i < 4) is \<Longrightarrow> led_list (\<lambda>_. True) is s = Some (0, map (led_json v) is)"
proof (induction "is")
  case (Cons i "is")
  then obtain l where "cread (All_LED_Status s) (int i) = Some l" "v i = (led_on_off l, led_level l)"
    using led_read [of s v i] by auto
  with Cons show ?case by (simp add: built led_json_def Let_def del: chars_simps)
qed simp

lemma all_status: "shows_leds s v \<Longrightarrow> LED_PWM_Get_All_LED_Status (\<lambda>_. True) s obj = Some (0, obj @ status_members v)"
  using led_list_json [of s v "[0, 1, 2, 3]"]
  by (simp add: LED_PWM_Get_All_LED_Status_def built status_members_def Let_def cJSON_AddItemToObject_def del: chars_simps)

definition report_members :: "(nat \<Rightarrow> bool \<times> u16) \<Rightarrow> members" where
  "report_members v = [(chars ''method'', cJSON_String (chars ''POST'')), (chars ''topic'', cJSON_String (chars ''LED_PWM'')),
     (chars ''command'', cJSON_String (chars ''report leds status change''))] @ status_members v"

lemma sendable_values:
  assumes "0 \<le> p" "p < 256"
  shows "sendable (cJSON_Object [(chars ''led_index'', bool_json a), (chars ''on_off'', bool_json b), (chars ''level'', cJSON_Number p)])"
  using assms by (cases a; cases b) (simp_all add: sendable_def bool_json_def)

lemma sendable_bools: "sendable (cJSON_Object [(chars ''led_index'', bool_json a), (chars ''level'', bool_json b)])"
  by (cases a; cases b) (simp_all add: sendable_def bool_json_def)

lemma level_int: "- 2147483648 \<le> uint (w :: u16) div 10 \<and> uint (w :: u16) div 10 < 2147483648"
proof -
  have "0 \<le> uint (w :: u16)" "uint w < 65536" using uint_bounded [of w] by simp_all
  then show ?thesis by linarith
qed

lemma led_json_ok: "i < 4 \<Longrightarrow> json_ok (led_json v i)" "print_needs (led_json v i) = 9" "text_size (led_json v i) < 200"
proof -
  note w = level_int [of "snd (v i)"]
  show "i < 4 \<Longrightarrow> json_ok (led_json v i)" using w by (cases "fst (v i)") (simp_all add: led_json_def bool_json_def)
  show "print_needs (led_json v i) = 9" by (cases "fst (v i)") (simp_all add: led_json_def bool_json_def)
  show "text_size (led_json v i) < 200" by (cases "fst (v i)") (simp_all add: led_json_def bool_json_def)
qed

lemma sendable_status: "sendable (cJSON_Object (status_members v))"
  using led_json_ok(3) [of v 0] led_json_ok(3) [of v 1] led_json_ok(3) [of v 2] led_json_ok(3) [of v 3]
  by (simp add: sendable_def status_members_def led_json_ok(1,2))

lemma sendable_report: "sendable (cJSON_Object (report_members v))"
  using led_json_ok(3) [of v 0] led_json_ok(3) [of v 1] led_json_ok(3) [of v 2] led_json_ok(3) [of v 3]
  by (simp add: sendable_def status_members_def report_members_def led_json_ok(1,2))

definition reported :: "app_env \<Rightarrow> 'h clients \<Rightarrow> (nat \<Rightarrow> bool \<times> u16) \<Rightarrow> net_event list" where
  "reported env cs v = concat (map (message_to (json_text env (report_members v))) (listeners cs))"

lemma report_sent:
  assumes "healthy env" "shows_leds s v"
  shows "LED_PWM_Do_Report env cs True s = Some (reported env cs v, -1)"
proof -
  from assms(1) obtain t where t: "json_print env (cJSON_Object (report_members v)) = Some t" "t \<noteq> []" "length t < 2 ^ 64"
    using sendable_report by (meson healthy_def)
  from broadcast_json [where json_print = "json_print env", OF t, of cs] t(1)
  have "WebsocketServer_SendBrocastJSONMessage (json_print env) cs (Some (cJSON_Object (report_members v))) =
      Some (reported env cs v)" by (simp add: reported_def json_text_def)
  then show ?thesis
    by (simp add: LED_PWM_Do_Report_def healthy_alloc [OF assms(1)] built all_status [OF assms(2)] report_members_def
      Let_def del: chars_simps)
qed

lemma one_LED_posted:
  assumes "healthy env" "shows_leds s v" "0 \<le> i" "i < 4"
    "requestType c = HTTPd_Method_POST" "url c = Some (chars ''/LED_PWM/'' @ decimal i)" "data_buff c = Some d"
    "json_parse env d = Some (Some m)" "cJSON_GetObjectItem m (chars ''on_off'') = Some (bool_json b)"
    "cJSON_GetObjectItem m (chars ''level'') = Some (cJSON_Number p)" "0 \<le> p" "p < 256"
  shows "\<exists>s'. LED_PWM_CGI_LED_Any_Number env (Some c) s = Some (json_sent env c 201
      [(chars ''led_index'', bool_json (i \<noteq> 0)), (chars ''on_off'', bool_json b), (chars ''level'', cJSON_Number p)],
      HTTPD_CGI_DONE, s') \<and>
    shows_leds s' (obey (Level (nat i) (of_int (p * 10))) (obey (Switch (nat i) b) v))"
proof -
  from on_off_obeys [OF assms(2-4), of "hal env" b] obtain s1 where s1:
    "LED_PWM_Set_LED_On_Off_Status (hal env) (of_int i) b s = Some s1" "shows_leds s1 (obey (Switch (nat i) b) v)" by blast
  from level_obeys [OF s1(2) assms(3,4), of "hal env" "of_int (p * 10)"] obtain s2 where s2:
    "LED_PWM_Set_LED_Level_Status (hal env) (of_int i) (of_int (p * 10)) s1 = Some s2"
    "shows_leds s2 (obey (Level (nat i) (of_int (p * 10))) (obey (Switch (nat i) b) v))" by blast
  have "LED_PWM_CGI_LED_Any_Number env (Some c) s = Some (json_sent env c 201
      [(chars ''led_index'', bool_json (i \<noteq> 0)), (chars ''on_off'', bool_json b), (chars ''level'', cJSON_Number p)],
      HTTPD_CGI_DONE, s2)"
    unfolding LED_PWM_CGI_LED_Any_Number_def
    by (simp add: url_number [OF assms(6,3,4)] assms(5,7-10) level_byte [OF assms(11,12)] s1(1) s2(1)
      healthy_alloc [OF assms(1)] healthy_answer [OF assms(1) sendable_values [OF assms(11,12)]] built Let_def
      del: chars_simps of_int_mult)
  with s2(2) show ?thesis by blast
qed

lemma command_announced:
  assumes "healthy env" "shows_leds s v" "says m c" "protocol \<noteq> Protocol_None"
  shows "\<exists>s'. Process_LED_PWM_APP_Incoming_JSON_POST_Msg env cs protocol m s = Some (reported env cs (obey c v), -1, s') \<and>
    shows_leds s' (obey c v)"
proof -
  from command_obeyed [OF assms(2,3), of "hal env"] obtain s' where s':
    "Process_LED_PWM_APP_JSON_POST_Commands (hal env) m s = Some (0, s')" "shows_leds s' (obey c v)" by blast
  with report_sent [OF assms(1) s'(2), of cs] assms(4) show ?thesis
    by (auto simp: Process_LED_PWM_APP_Incoming_JSON_POST_Msg_def)
qed

section \<open>A board to try the properties on\<close>

text \<open>Any text is read as one message, and every value is printed as the same text.\<close>

definition demo_app :: "cJSON \<Rightarrow> app_env" where
  "demo_app m = \<lparr>hal = board_env, json_parse = \<lambda>_. Some (Some m), json_print = \<lambda>_. Some (chars ''{}''),
     json_alloc = \<lambda>_. True, buf_mem = True, send_result = 1,
     ip_aton = \<lambda>t. if t = chars ''10.0.0.2'' then Some 0x0200000A else None,
     ip_ntoa = \<lambda>ip. if ip = 0x0200000A then chars ''10.0.0.2'' else chars ''0.0.0.0''\<rparr>"

definition led_request :: "HTTPd_Method \<Rightarrow> string \<Rightarrow> unit connection" where
  "led_request m u = (closed_client 5)\<lparr>requestType := m, url := Some (chars u), data_buff := Some (chars ''{..}'')\<rparr>"

lemma demo_led:
  "requestType (led_request m u) = m" "url (led_request m u) = Some (chars u)" "socket_id (led_request m u) = 5"
  "data_buff (led_request m u) = Some (chars ''{..}'')" "json_parse (demo_app v) t = Some (Some v)"
  by (simp_all add: led_request_def demo_app_def closed_client_def)

lemma demo_urls:
  "chars ''/LED_PWM/2'' = chars ''/LED_PWM/'' @ decimal 2"
  "chars ''/LED_PWM/Level/2'' = chars ''/LED_PWM/Level/'' @ chars ''2''"
  by (simp_all add: decimal_def digits.simps [of 2])

definition switch_on_2 :: cJSON where
  "switch_on_2 = cJSON_Object [(chars ''command'', cJSON_String (chars ''set individual led on/off state'')),
     (chars ''led_index'', cJSON_Number 2), (chars ''on_off'', cJSON_True), (chars ''level'', cJSON_Number 50)]"

lemma demo_healthy: "healthy (demo_app m)"
  by (simp add: healthy_def demo_app_def)

lemma demo_leds: "shows_leds led_init_memory (led_view led_init_memory)"
  by (simp add: shows_leds_def led_init_facts(1))

lemma switch_on_2_items:
  "cJSON_GetObjectItem switch_on_2 (chars ''command'') = Some (cJSON_String (chars ''set individual led on/off state''))"
  "cJSON_GetObjectItem switch_on_2 (chars ''led_index'') = Some (cJSON_Number 2)"
  "cJSON_GetObjectItem switch_on_2 (chars ''on_off'') = Some cJSON_True"
  "cJSON_GetObjectItem switch_on_2 (chars ''level'') = Some (cJSON_Number 50)"
  by (simp_all add: switch_on_2_def cJSON_GetObjectItem_def c_tolower_def)

lemma switch_on_2_says: "says switch_on_2 (Switch 2 True)"
  by (simp add: says_def switch_on_2_items del: chars_simps)

section \<open>Properties\<close>

text \<open>
  C9: The JSON commands implement the abstract controller: from any well-formed memory a message
  that says a command changes the status and level of the LED it names as the command demands, and
  of no other LED; every other message leaves the memory as it is; and no message, whatever it
  contains, makes the code touch memory outside its arrays.
\<close>

theorem POST_commands_refine_controller:
  assumes "shows_leds s v"
  shows "(\<forall>c. says m c \<longrightarrow> (\<exists>s'. Process_LED_PWM_APP_JSON_POST_Commands env m s = Some (0, s') \<and>
      shows_leds s' (obey c v))) \<and>
    ((\<forall>c. \<not> says m c) \<longrightarrow> (\<exists>status\<in>{0, -1}. Process_LED_PWM_APP_JSON_POST_Commands env m s = Some (status, s)))"
  using command_obeyed [OF assms] command_or_refused [OF assms, of env m] by blast

theorem POST_commands_refine_controller_witness:
  "\<exists>s'. Process_LED_PWM_APP_JSON_POST_Commands board_env switch_on_2 led_init_memory = Some (0, s') \<and>
    led_view s' 2 = (True, 0) \<and> led_view s' 3 = (False, 0)"
proof -
  obtain s' where "Process_LED_PWM_APP_JSON_POST_Commands board_env switch_on_2 led_init_memory = Some (0, s')"
    "shows_leds s' (obey (Switch 2 True) (led_view led_init_memory))"
    using POST_commands_refine_controller [OF demo_leds, of switch_on_2 board_env] switch_on_2_says by blast
  then show ?thesis by (simp add: shows_leds_def led_view_def [of led_init_memory] led_init_facts LED_zero_def)
qed

text \<open>
  A POST to the URL of a LED with its on/off status and its level in percent switches that LED,
  sets its level when it is on, leaves the other LEDs alone and is answered with 201 and the new
  values; the LED's number, though, is reported as a truth value.
\<close>

theorem LED_post_sets_one_LED:
  assumes "healthy env" "shows_leds s v" "0 \<le> i" "i < 4"
    "requestType c = HTTPd_Method_POST" "url c = Some (chars ''/LED_PWM/'' @ decimal i)" "data_buff c = Some d"
    "json_parse env d = Some (Some m)" "cJSON_GetObjectItem m (chars ''on_off'') = Some (bool_json b)"
    "cJSON_GetObjectItem m (chars ''level'') = Some (cJSON_Number p)" "0 \<le> p" "p < 256"
  shows "\<exists>s'. LED_PWM_CGI_LED_Any_Number env (Some c) s = Some (json_sent env c 201
      [(chars ''led_index'', bool_json (i \<noteq> 0)), (chars ''on_off'', bool_json b), (chars ''level'', cJSON_Number p)],
      HTTPD_CGI_DONE, s') \<and>
    shows_leds s' (obey (Level (nat i) (of_int (p * 10))) (obey (Switch (nat i) b) v))"
  using assms by (rule one_LED_posted)

theorem LED_post_sets_one_LED_witness:
  "\<exists>es s'. LED_PWM_CGI_LED_Any_Number (demo_app switch_on_2) (Some (led_request HTTPd_Method_POST ''/LED_PWM/2'')) led_init_memory =
    Some (es, HTTPD_CGI_DONE, s') \<and> led_view s' 2 = (True, 500) \<and> led_view s' 3 = (False, 0)"
proof -
  let ?c = "led_request HTTPd_Method_POST ''/LED_PWM/2''"
  obtain es s' where "LED_PWM_CGI_LED_Any_Number (demo_app switch_on_2) (Some ?c) led_init_memory =
      Some (es, HTTPD_CGI_DONE, s')"
    "shows_leds s' (obey (Level (nat 2) (of_int (50 * 10))) (obey (Switch (nat 2) True) (led_view led_init_memory)))"
    using LED_post_sets_one_LED [OF demo_healthy demo_leds, of 2 ?c "chars ''{..}''" switch_on_2 switch_on_2 True 50]
    by (auto simp: demo_led demo_urls(1) switch_on_2_items bool_json_def simp del: chars_simps)
  then show ?thesis by (auto simp: shows_leds_def led_view_def [of led_init_memory] led_init_facts LED_zero_def)
qed

text \<open>
  C30: An accepted command is announced: every client whose WebSocket is open gets one frame with the
  status of all LEDs after the command, in the order of the table of connections; the sender is told
  nothing else, as the result is -1 even on success.
\<close>

theorem accepted_command_reported:
  assumes "healthy env" "shows_leds s v" "says m c" "protocol \<noteq> Protocol_None"
  shows "\<exists>s'. Process_LED_PWM_APP_Incoming_JSON_POST_Msg env cs protocol m s = Some (reported env cs (obey c v), -1, s') \<and>
    shows_leds s' (obey c v)"
  using assms by (rule command_announced)

theorem accepted_command_reported_witness:
  "\<exists>s'. Process_LED_PWM_APP_Incoming_JSON_POST_Msg (demo_app switch_on_2) [Some ws_client, None] WebSocket switch_on_2
      led_init_memory = Some ([Send 3 [129, 2], Send 3 (chars ''{}'')], -1, s')"
  using accepted_command_reported [OF demo_healthy demo_leds switch_on_2_says, of WebSocket switch_on_2 "[Some ws_client, None]"]
  by (auto simp: reported_def listeners_def List.map_filter_simps ws_client_def closed_client_def message_to_def
      json_text_def demo_app_def frame_header_def frame_options_def)

text \<open>
  A GET of the application's root URL answers 200 with the number of LEDs and the recorded status
  of each, levels in percent rounded down, and changes nothing.
\<close>

theorem LED_status_reported:
  assumes "healthy env" "shows_leds s v" "requestType c = HTTPd_Method_GET"
  shows "LED_PWM_CGI_Root env (Some c) s = Some (json_sent env c 200 (status_members v), HTTPD_CGI_DONE, s)"
  using all_status [OF assms(2), of "[]"] assms(3)
  by (simp add: LED_PWM_CGI_Root_def healthy_alloc [OF assms(1)] healthy_answer [OF assms(1) sendable_status])

theorem LED_status_reported_witness:
  "\<exists>head. LED_PWM_CGI_Root (demo_app cJSON_NULL) (Some (led_request HTTPd_Method_GET ''/LED_PWM'')) led_init_memory =
    Some ([Send 5 head, Send 5 (chars ''{}'')], HTTPD_CGI_DONE, led_init_memory)"
  using LED_status_reported [OF demo_healthy demo_leds, of "led_request HTTPd_Method_GET ''/LED_PWM''" cJSON_NULL]
  by (auto simp: led_request_def closed_client_def json_sent_def json_text_def demo_app_def)

text \<open>
  The URLs \<open>/LED_PWM/Level/<n>\<close> never reach LED \<open>n\<close>: the handler reads the number right behind
  \<open>/LED_PWM/\<close>, finds a letter and takes LED 0; and as the level is kept in a \<open>bool\<close>, any level but
  0 becomes one percent.
\<close>

theorem level_URL_sets_LED_0:
  assumes "healthy env" "shows_leds s v" "requestType c = HTTPd_Method_POST"
    "url c = Some (chars ''/LED_PWM/Level/'' @ number)" "data_buff c = Some d" "json_parse env d = Some (Some m)"
    "cJSON_GetObjectItem m (chars ''level'') = Some (cJSON_Number p)"
  shows "\<exists>es s'. LED_PWM_CGI_LED_Level_Any_Number env (Some c) s = Some (es, HTTPD_CGI_DONE, s') \<and>
    shows_leds s' (obey (Level 0 (if p = 0 then 0 else 10)) v)"
proof -
  have "url_led_index c = Some 0"
    by (rule url_letter [of c 76 "chars ''evel/'' @ number"]) (simp_all add: assms(4) c_space_def c_digit_def)
  moreover obtain s' where "LED_PWM_Set_LED_Level_Status (hal env) (of_int 0) (if p = 0 then 0 else 10) s = Some s'"
    "shows_leds s' (obey (Level (nat 0) (if p = 0 then 0 else 10)) v)"
    using level_obeys [OF assms(2), of 0 "hal env"] by force
  ultimately show ?thesis
    by (cases "p = 0") (auto simp: LED_PWM_CGI_LED_Level_Any_Number_def assms(3,5-7) healthy_alloc [OF assms(1)]
      healthy_answer [OF assms(1) sendable_bools] built Let_def simp del: chars_simps)
qed

theorem level_URL_sets_LED_0_witness:
  "\<exists>es s'. LED_PWM_CGI_LED_Level_Any_Number (demo_app switch_on_2)
      (Some (led_request HTTPd_Method_POST ''/LED_PWM/Level/2'')) led_init_memory = Some (es, HTTPD_CGI_DONE, s')"
  using level_URL_sets_LED_0 [OF demo_healthy demo_leds, of "led_request HTTPd_Method_POST ''/LED_PWM/Level/2''"
    "chars ''2''" "chars ''{..}''" switch_on_2 switch_on_2 50]
  by (auto simp: demo_led demo_urls(2) switch_on_2_items simp del: chars_simps)

text \<open>
  Asking for the status of a LED with a negative number reads outside the array of records; with
  a number above 3 the answer has the command but no data.
\<close>

theorem status_of_negative_LED:
  assumes "cJSON_GetObjectItem m (chars ''command'') = Some (cJSON_String (chars ''get individual led status''))"
    "cJSON_GetObjectItem m (chars ''led_index'') = Some (cJSON_Number i)"
  shows "(i < 0 \<longrightarrow> Process_LED_PWM_APP_JSON_GET_Commands alloc m rsp s = None) \<and>
    (4 \<le> i \<longrightarrow> Process_LED_PWM_APP_JSON_GET_Commands alloc m rsp s =
      Some (0, cJSON_AddStringToObject (alloc 0) rsp ''command'' (chars ''get individual led tatus'')))"
proof -
  have "chars ''get individual led status'' \<noteq> chars ''get num of leds''" by simp
  with assms show ?thesis by (simp add: Process_LED_PWM_APP_JSON_GET_Commands_def Let_def del: chars_simps)
qed

theorem status_of_negative_LED_witness:
  "Process_LED_PWM_APP_JSON_GET_Commands (\<lambda>_. True) (cJSON_Object [(chars ''command'',
      cJSON_String (chars ''get individual led status'')), (chars ''led_index'', cJSON_Number (-1))]) [] led_init_memory = None"
  using status_of_negative_LED [of "cJSON_Object [(chars ''command'', cJSON_String (chars ''get individual led status'')),
    (chars ''led_index'', cJSON_Number (-1))]" "-1"]
  by (simp add: cJSON_GetObjectItem_def c_tolower_def)

end
