(* ===== verification/NeonTCPIP.thy ===== *)
theory NeonTCPIP
  imports Prelude
begin

text \<open>
  The network interface, \<open>NeonRTOS/NeonTCPIP.c\<close>: its addresses, the state machine that runs lwIP's
  DHCP client, and the functions that set a static address. Of lwIP the state has the interface and
  the client: stopped, trying (with the number of tries) or bound to a lease; stopping a bound
  client releases the lease and clears the addresses.
\<close>

section \<open>State\<close>

datatype dhcp_client = Dhcp_Off | Dhcp_Trying nat | Dhcp_Bound

record netif =
  ip_addr :: u32
  netmask :: u32
  gw :: u32
  link_up :: bool
  if_up :: bool
  client :: dhcp_client

record net_state = netif +
  DHCP_state :: u8

abbreviation (input) DHCP_OFF :: u8 where "DHCP_OFF \<equiv> 0"
abbreviation (input) DHCP_START :: u8 where "DHCP_START \<equiv> 1"
abbreviation (input) DHCP_WAIT_ADDRESS :: u8 where "DHCP_WAIT_ADDRESS \<equiv> 2"
abbreviation (input) DHCP_ADDRESS_ASSIGNED :: u8 where "DHCP_ADDRESS_ASSIGNED \<equiv> 3"
abbreviation (input) DHCP_TIMEOUT :: u8 where "DHCP_TIMEOUT \<equiv> 4"
abbreviation (input) DHCP_LINK_DOWN :: u8 where "DHCP_LINK_DOWN \<equiv> 5"
abbreviation (input) DHCP_ASK_RELEASE :: u8 where "DHCP_ASK_RELEASE \<equiv> 6"
abbreviation (input) MAX_DHCP_TRIES :: nat where "MAX_DHCP_TRIES \<equiv> 10"

section \<open>The calls into lwIP\<close>

definition netif_set_addr :: "u32 \<Rightarrow> u32 \<Rightarrow> u32 \<Rightarrow> 'a netif_scheme \<Rightarrow> 'a netif_scheme" where
  "netif_set_addr ip nm g s = s\<lparr>ip_addr := ip, netmask := nm, gw := g\<rparr>"

text \<open>\<open>ok\<close>: the client has the memory it needs; it asserts that the interface is up.\<close>

definition dhcp_start :: "bool \<Rightarrow> 'a netif_scheme \<Rightarrow> 'a netif_scheme" where
  "dhcp_start ok s = (if \<not> if_up s then s else s\<lparr>client := (if ok then Dhcp_Trying 1 else Dhcp_Off)\<rparr>)"

definition dhcp_stop :: "'a netif_scheme \<Rightarrow> 'a netif_scheme" where
  "dhcp_stop s = (if client s = Dhcp_Bound then netif_set_addr 0 0 0 (s\<lparr>client := Dhcp_Off\<rparr>)
     else s\<lparr>client := Dhcp_Off\<rparr>)"

definition dhcp_supplied_address :: "'a netif_scheme \<Rightarrow> bool" where
  "dhcp_supplied_address s \<longleftrightarrow> client s = Dhcp_Bound"

definition dhcp_tries :: "'a netif_scheme \<Rightarrow> nat" where
  "dhcp_tries s = (case client s of Dhcp_Trying n \<Rightarrow> n | _ \<Rightarrow> 0)"

section \<open>The functions\<close>

definition NeonTCPIP_DHCP_Process :: "bool \<Rightarrow> net_state \<Rightarrow> net_state" where
  "NeonTCPIP_DHCP_Process ok s =
     (if link_up s then
        if DHCP_state s = DHCP_START then
          dhcp_start ok ((netif_set_addr 0 0 0 s)\<lparr>DHCP_state := DHCP_WAIT_ADDRESS\<rparr>)
        else if DHCP_state s = DHCP_WAIT_ADDRESS then
          if dhcp_supplied_address s then s\<lparr>DHCP_state := DHCP_ADDRESS_ASSIGNED\<rparr>
          else if dhcp_tries s > MAX_DHCP_TRIES then dhcp_stop (s\<lparr>DHCP_state := DHCP_TIMEOUT\<rparr>)
          else s
        else if DHCP_state s = DHCP_ASK_RELEASE then (dhcp_stop (dhcp_stop s))\<lparr>DHCP_state := DHCP_OFF\<rparr>
        else if DHCP_state s = DHCP_LINK_DOWN then (dhcp_stop s)\<lparr>DHCP_state := DHCP_OFF\<rparr>
        else s
      else s\<lparr>DHCP_state := DHCP_OFF\<rparr>)"

definition NeonTCPIP_DHCP_Periodic_Handle :: "bool \<Rightarrow> u32 \<Rightarrow> u32 \<times> net_state \<Rightarrow> u32 \<times> net_state" where
  "NeonTCPIP_DHCP_Periodic_Handle ok tick ts =
     (if 500 \<le> tick - fst ts then (tick, NeonTCPIP_DHCP_Process ok (snd ts)) else ts)"

definition NeonTCPIP_Set_DHCP_State :: "u8 \<Rightarrow> net_state \<Rightarrow> net_state" where
  "NeonTCPIP_Set_DHCP_State st s = s\<lparr>DHCP_state := st\<rparr>"

definition NeonTCPIP_Get_DHCP_State :: "net_state \<Rightarrow> u8" where
  "NeonTCPIP_Get_DHCP_State s = DHCP_state s"

definition NeonTCPIP_IF_isLinkUp :: "net_state \<Rightarrow> bool" where
  "NeonTCPIP_IF_isLinkUp s = link_up s"

definition NeonTCPIP_IF_Update_Addresses :: "u32 \<Rightarrow> u32 \<Rightarrow> u32 \<Rightarrow> net_state \<Rightarrow> net_state" where
  "NeonTCPIP_IF_Update_Addresses ip nm g s =
     netif_set_addr ip nm g (dhcp_stop (NeonTCPIP_Set_DHCP_State DHCP_OFF s))"

definition NeonTCPIP_IF_Get_IP_Address :: "net_state \<Rightarrow> u32" where
  "NeonTCPIP_IF_Get_IP_Address s = ip_addr s"

definition NeonTCPIP_IF_Get_Gateway_Address :: "net_state \<Rightarrow> u32" where
  "NeonTCPIP_IF_Get_Gateway_Address s = gw s"

definition NeonTCPIP_IF_Get_NetMask_Address :: "net_state \<Rightarrow> u32" where
  "NeonTCPIP_IF_Get_NetMask_Address s = netmask s"

text \<open>The two other addresses are copied before the client is stopped.\<close>

definition NeonTCPIP_IF_Set_IP_Address :: "u32 \<Rightarrow> net_state \<Rightarrow> net_state" where
  "NeonTCPIP_IF_Set_IP_Address ip s =
     (let nm = netmask s; g = gw s
      in netif_set_addr ip nm g (dhcp_stop (NeonTCPIP_Set_DHCP_State DHCP_OFF s)))"

definition NeonTCPIP_IF_Set_Gateway_Address :: "u32 \<Rightarrow> net_state \<Rightarrow> net_state" where
  "NeonTCPIP_IF_Set_Gateway_Address g s =
     (let nm = netmask s; ip = ip_addr s
      in netif_set_addr ip nm g (dhcp_stop (NeonTCPIP_Set_DHCP_State DHCP_OFF s)))"

definition NeonTCPIP_IF_Set_NetMask_Address :: "u32 \<Rightarrow> net_state \<Rightarrow> net_state" where
  "NeonTCPIP_IF_Set_NetMask_Address nm s =
     (let g = gw s; ip = ip_addr s
      in netif_set_addr ip nm g (dhcp_stop (NeonTCPIP_Set_DHCP_State DHCP_OFF s)))"

definition ethernetif_notify_conn_changed :: "net_state \<Rightarrow> net_state" where
  "ethernetif_notify_conn_changed s =
     (if link_up s then s\<lparr>DHCP_state := DHCP_START, if_up := True\<rparr>
      else s\<lparr>DHCP_state := DHCP_LINK_DOWN, if_up := False\<rparr>)"

text \<open>
  \<open>ip4addr_aton\<close> and \<open>ip4addr_ntoa\<close> of lwIP are arguments; the text is cut to the buffer.
\<close>

definition ip_string_to_u32 :: "(u8 list \<Rightarrow> u32 option) \<Rightarrow> u8 list \<Rightarrow> u32" where
  "ip_string_to_u32 aton ip_str = (case aton ip_str of Some ip \<Rightarrow> ip | None \<Rightarrow> 0)"

definition ip_u32_to_string :: "(u32 \<Rightarrow> u8 list) \<Rightarrow> u32 \<Rightarrow> nat \<Rightarrow> u8 list" where
  "ip_u32_to_string ntoa ip_u32 buflen = take (buflen - 1) (ntoa ip_u32)"

section \<open>What can happen\<close>

text \<open>The steps that happen by themselves: the periodic task, and lwIP's client, which tries again,
  gets a lease while the link is up, or loses it.\<close>

inductive background :: "net_state \<Rightarrow> net_state \<Rightarrow> bool" where
  process: "background s (NeonTCPIP_DHCP_Process ok s)"
| retry: "client s = Dhcp_Trying n \<Longrightarrow> background s (s\<lparr>client := Dhcp_Trying (Suc n)\<rparr>)"
| leased: "client s = Dhcp_Trying n \<Longrightarrow> link_up s \<Longrightarrow>
    background s ((netif_set_addr ip nm g s)\<lparr>client := Dhcp_Bound\<rparr>)"
| expired: "client s = Dhcp_Bound \<Longrightarrow> background s ((netif_set_addr 0 0 0 s)\<lparr>client := Dhcp_Trying 0\<rparr>)"

inductive runs :: "net_state \<Rightarrow> net_state \<Rightarrow> bool" where
  stay: "runs s s"
| step: "background s t \<Longrightarrow> runs t u \<Longrightarrow> runs s u"

inductive_cases backgroundE: "background s t"

text \<open>The link comes up or goes down, and lwIP calls the driver back.\<close>

definition link_change :: "bool \<Rightarrow> net_state \<Rightarrow> net_state" where
  "link_change up s = ethernetif_notify_conn_changed (s\<lparr>link_up := up\<rparr>)"

definition addresses :: "net_state \<Rightarrow> u32 \<times> u32 \<times> u32" where
  "addresses s = (ip_addr s, netmask s, gw s)"

lemmas net_defs = NeonTCPIP_DHCP_Process_def netif_set_addr_def dhcp_start_def dhcp_stop_def
  dhcp_supplied_address_def dhcp_tries_def NeonTCPIP_Set_DHCP_State_def addresses_def

text \<open>A configuration that only the link can end: the client is off, and no state restarts it.\<close>

definition settled :: "net_state \<Rightarrow> bool" where
  "settled s \<longleftrightarrow> client s = Dhcp_Off \<and> DHCP_state s \<in> {DHCP_OFF, DHCP_ADDRESS_ASSIGNED, DHCP_TIMEOUT}"

lemma settled_background:
  "background s t \<Longrightarrow> settled s \<Longrightarrow> settled t \<and> addresses t = addresses s \<and> link_up t = link_up s"
  by (erule backgroundE) (auto simp: settled_def net_defs split: if_splits)

lemma settled_runs:
  "runs s t \<Longrightarrow> settled s \<Longrightarrow> settled t \<and> addresses t = addresses s \<and> link_up t = link_up s"
  by (induction rule: runs.induct) (auto dest: settled_background)

lemma static_settled: "settled (netif_set_addr ip nm g (dhcp_stop (NeonTCPIP_Set_DHCP_State DHCP_OFF s)))"
  by (simp add: settled_def net_defs)

text \<open>When the link goes down the state machine forgets the client without stopping it: the branch
  that stops it is only reached while the link is up.\<close>

lemma client_runs_on:
  "client (NeonTCPIP_DHCP_Process ok (link_change False s)) = client s \<and>
   DHCP_state (NeonTCPIP_DHCP_Process ok (link_change False s)) = DHCP_OFF"
  by (simp add: link_change_def ethernetif_notify_conn_changed_def net_defs)

text \<open>An interface on which DHCP has just assigned 192.168.84.100, as a little-endian word.\<close>

definition leased_if :: net_state where
  "leased_if = \<lparr>ip_addr = 0x6454A8C0, netmask = 0x00FFFFFF, gw = 0x0154A8C0, link_up = True, if_up = True,
     client = Dhcp_Bound, DHCP_state = DHCP_ADDRESS_ASSIGNED\<rparr>"

section \<open>Properties\<close>

text \<open>
  C31: An address set by hand stays: whatever the state of the DHCP client was, after the call the
  interface has the new address and what the other two were (also when they came from a lease, which
  stopping the client clears), and neither the periodic task nor lwIP's client changes them as long
  as the link does not change.
\<close>

theorem static_address_kept:
  "(runs (NeonTCPIP_IF_Set_IP_Address ip s) t \<longrightarrow> addresses t = (ip, netmask s, gw s)) \<and>
   (runs (NeonTCPIP_IF_Set_NetMask_Address nm s) t \<longrightarrow> addresses t = (ip_addr s, nm, gw s)) \<and>
   (runs (NeonTCPIP_IF_Set_Gateway_Address g s) t \<longrightarrow> addresses t = (ip_addr s, netmask s, g)) \<and>
   (runs (NeonTCPIP_IF_Update_Addresses ip nm g s) t \<longrightarrow> addresses t = (ip, nm, g))"
  unfolding NeonTCPIP_IF_Set_IP_Address_def NeonTCPIP_IF_Set_NetMask_Address_def
    NeonTCPIP_IF_Set_Gateway_Address_def NeonTCPIP_IF_Update_Addresses_def Let_def
  by (intro conjI impI; drule settled_runs [OF _ static_settled]; simp add: addresses_def netif_set_addr_def)

theorem static_address_kept_witness:
  "addresses (NeonTCPIP_DHCP_Process True (NeonTCPIP_IF_Set_IP_Address 0x0200000A leased_if)) =
    (0x0200000A, 0x00FFFFFF, 0x0154A8C0)"
proof -
  have "runs (NeonTCPIP_IF_Set_IP_Address 0x0200000A leased_if)
      (NeonTCPIP_DHCP_Process True (NeonTCPIP_IF_Set_IP_Address 0x0200000A leased_if))"
    by (rule runs.step [OF background.process runs.stay])
  with static_address_kept [of "0x0200000A" leased_if] show ?thesis by (simp add: leased_if_def)
qed

text \<open>
  An address set by hand does not survive a loss of the link: when the link comes back the DHCP
  client is started again, and the next run of the periodic task clears all three addresses.
\<close>

theorem static_address_lost_with_link:
  "let u = NeonTCPIP_DHCP_Process True (link_change True (link_change False (NeonTCPIP_IF_Update_Addresses ip nm g s)))
   in addresses u = (0, 0, 0) \<and> client u = Dhcp_Trying 1 \<and> DHCP_state u = DHCP_WAIT_ADDRESS"
  by (simp add: link_change_def ethernetif_notify_conn_changed_def NeonTCPIP_IF_Update_Addresses_def net_defs)

text \<open>
  After more than ten tries without an offer the client is stopped for good: the state is
  DHCP_TIMEOUT, the addresses stay as they are, and nothing starts the client again until the link
  changes.
\<close>

theorem dhcp_gives_up:
  assumes "link_up s" "DHCP_state s = DHCP_WAIT_ADDRESS" "client s = Dhcp_Trying n" "10 < n"
    "runs (NeonTCPIP_DHCP_Process ok s) t"
  shows "DHCP_state t = DHCP_TIMEOUT \<and> client t = Dhcp_Off \<and> addresses t = addresses s"
proof -
  let ?s = "NeonTCPIP_DHCP_Process ok s"
  have s: "settled ?s" "DHCP_state ?s = DHCP_TIMEOUT" "addresses ?s = addresses s" "link_up ?s"
    using assms(1-4) by (simp_all add: settled_def net_defs)
  have "runs u t \<Longrightarrow> settled u \<and> link_up u \<and> DHCP_state u = DHCP_TIMEOUT \<Longrightarrow> DHCP_state t = DHCP_TIMEOUT" for u
  proof (induction rule: runs.induct)
    case (step s t u)
    then have "settled t \<and> link_up t \<and> DHCP_state t = DHCP_TIMEOUT"
      using settled_background [OF step.hyps(1)] by (auto simp: settled_def net_defs elim: backgroundE)
    then show ?case by (rule step.IH)
  qed simp
  with assms(5) s settled_runs [OF assms(5) s(1)] show ?thesis by (auto simp: settled_def)
qed

theorem dhcp_gives_up_witness:
  "DHCP_state (NeonTCPIP_DHCP_Process True (leased_if\<lparr>client := Dhcp_Trying 11, DHCP_state := DHCP_WAIT_ADDRESS\<rparr>)) = DHCP_TIMEOUT"
  using dhcp_gives_up [OF _ _ _ _ runs.stay, of "leased_if\<lparr>client := Dhcp_Trying 11, DHCP_state := DHCP_WAIT_ADDRESS\<rparr>" 11 True]
  by (simp add: leased_if_def)

text \<open>
  An interface whose link comes up gets its address from DHCP: the periodic task clears the old
  addresses and starts the client, and once the client has a lease the next run of the task reports
  the address as assigned; the lease's addresses are those of the interface.
\<close>

theorem lease_is_assigned:
  assumes "s1 = NeonTCPIP_DHCP_Process True (link_change True s)"
    "background s1 s2" "client s2 = Dhcp_Bound" "s3 = NeonTCPIP_DHCP_Process ok s2"
  shows "addresses s1 = (0, 0, 0) \<and> client s1 = Dhcp_Trying 1 \<and>
    NeonTCPIP_Get_DHCP_State s3 = DHCP_ADDRESS_ASSIGNED \<and> addresses s3 = addresses s2 \<and> client s3 = Dhcp_Bound"
proof -
  have s1: "link_up s1" "DHCP_state s1 = DHCP_WAIT_ADDRESS" "client s1 = Dhcp_Trying 1" "addresses s1 = (0, 0, 0)"
    using assms(1) by (simp_all add: link_change_def ethernetif_notify_conn_changed_def net_defs)
  from assms(2) s1(1-3) assms(3) have "link_up s2 \<and> DHCP_state s2 = DHCP_WAIT_ADDRESS"
    by (cases rule: background.cases) (auto simp: net_defs)
  with s1 assms(3,4) show ?thesis by (simp add: net_defs NeonTCPIP_Get_DHCP_State_def)
qed

theorem lease_is_assigned_witness:
  "\<exists>s2. NeonTCPIP_Get_DHCP_State (NeonTCPIP_DHCP_Process True s2) = DHCP_ADDRESS_ASSIGNED \<and>
    ip_addr (NeonTCPIP_DHCP_Process True s2) = 0x0300000A"
proof -
  let ?s1 = "NeonTCPIP_DHCP_Process True (link_change True leased_if)"
  let ?s2 = "(netif_set_addr 0x0300000A 0x00FFFFFF 0x0100000A ?s1)\<lparr>client := Dhcp_Bound\<rparr>"
  have "background ?s1 ?s2"
    by (rule background.leased [of _ 1]) (simp_all add: leased_if_def link_change_def ethernetif_notify_conn_changed_def net_defs)
  from lease_is_assigned [OF refl this _ refl, of True] show ?thesis
    by (intro exI [of _ ?s2]) (simp add: addresses_def netif_set_addr_def)
qed

end
