(* ===== verification/NeonApp.thy ===== *)
theory NeonApp
  imports LED_APP NeonTCPIP
begin

text \<open>
  The application interface, \<open>NeonRTOS/NeonAppInterface.c\<close>: the table of topics, the WebSocket
  messages, the handlers of the network settings and the start-up; together with \<open>LED_APP\<close> and
  \<open>HTTPd_Route\<close> it makes the whole path from a request or message to the LEDs.
\<close>

section \<open>The table of topics\<close>

text \<open>An entry has two callbacks, either of which may be NULL.\<close>

type_synonym ('p, 'g) topics = "(u8 list \<times> 'p option \<times> 'g option) list"

definition Register_Neon_APP_Interface_Msg_CallBack ::
  "u8 list \<Rightarrow> 'p option \<times> 'g option \<Rightarrow> bool \<Rightarrow> bool \<Rightarrow> ('p, 'g) topics \<Rightarrow> int \<times> ('p, 'g) topics"
where
  "Register_Neon_APP_Interface_Msg_CallBack topic cbs item_mem name_mem ts =
     (if map_of ts topic \<noteq> None then (1, AList.update topic cbs ts)
      else if \<not> item_mem then (-1, ts)
      else if \<not> name_mem then (-1, ts)
      else (0, ts @ [(topic, cbs)]))"

definition UnRegister_Neon_APP_Interface_Msg_CallBack ::
  "u8 list \<Rightarrow> ('p, 'g) topics \<Rightarrow> int \<times> ('p, 'g) topics"
where
  "UnRegister_Neon_APP_Interface_Msg_CallBack topic ts =
     (if map_of ts topic = None then (-1, ts) else (0, unlink topic ts))"

interpretation topic_table: registry map_of
  "\<lambda>topic cbs mem. Register_Neon_APP_Interface_Msg_CallBack topic cbs mem mem" "\<lambda>ts. distinct (map fst ts)"
proof unfold_locales
  fix ts :: "('p, 'g) topics" and topic cbs mem
  assume "distinct (map fst ts)"
  moreover have "Register_Neon_APP_Interface_Msg_CallBack topic cbs mem mem ts =
    (if map_of ts topic \<noteq> None then (1, AList.update topic cbs ts)
     else if mem then (0, AList.update topic cbs ts) else (-1, ts))"
    by (simp add: Register_Neon_APP_Interface_Msg_CallBack_def update_absent map_of_eq_None_iff)
  ultimately show "distinct (map fst (snd (Register_Neon_APP_Interface_Msg_CallBack topic cbs mem mem ts))) \<and>
      (if mem \<or> map_of ts topic \<noteq> None
       then 0 \<le> fst (Register_Neon_APP_Interface_Msg_CallBack topic cbs mem mem ts) \<and>
         map_of (snd (Register_Neon_APP_Interface_Msg_CallBack topic cbs mem mem ts)) = (map_of ts)(topic \<mapsto> cbs)
       else Register_Neon_APP_Interface_Msg_CallBack topic cbs mem mem ts = (-1, ts))"
    by (auto simp: update_conv' distinct_update)
qed

interpretation topic_table: removable_registry map_of
  "\<lambda>topic cbs mem. Register_Neon_APP_Interface_Msg_CallBack topic cbs mem mem" "\<lambda>ts. distinct (map fst ts)"
  "\<lambda>topic ts. Some (UnRegister_Neon_APP_Interface_Msg_CallBack topic ts)" "\<lambda>topic ts. True"
  by unfold_locales (auto simp: UnRegister_Neon_APP_Interface_Msg_CallBack_def distinct_unlink map_of_unlink)

section \<open>Messages\<close>

text \<open>The callbacks of the repository.\<close>

datatype post_cb = LED_PWM_POST_Msg
datatype get_cb = LED_PWM_GET_Msg

type_synonym app_topics = "(post_cb, get_cb) topics"

definition call_post ::
  "app_env \<Rightarrow> 'h clients \<Rightarrow> post_cb \<Rightarrow> App_Interface_Protocol \<Rightarrow> cJSON \<Rightarrow> 'a led_state_scheme \<Rightarrow> 'a led_state_scheme answer"
where
  "call_post env cs cb protocol m s =
     (case cb of LED_PWM_POST_Msg \<Rightarrow> Process_LED_PWM_APP_Incoming_JSON_POST_Msg env cs protocol m s)"

definition call_get ::
  "(nat \<Rightarrow> bool) \<Rightarrow> get_cb \<Rightarrow> App_Interface_Protocol \<Rightarrow> cJSON \<Rightarrow> members \<Rightarrow> 'a led_state_scheme \<Rightarrow> (int \<times> members) option"
where
  "call_get alloc cb protocol m rsp s =
     (case cb of LED_PWM_GET_Msg \<Rightarrow> Process_LED_PWM_APP_Incoming_JSON_GET_Msg alloc protocol m rsp s)"

definition Process_WebSocket_Post_Message ::
  "app_env \<Rightarrow> 'h clients \<Rightarrow> app_topics \<Rightarrow> u8 list \<Rightarrow> cJSON \<Rightarrow> 'a led_state_scheme \<Rightarrow> 'a led_state_scheme answer"
where
  "Process_WebSocket_Post_Message env cs ts msg_topic message s = (case map_of ts msg_topic of
     Some (Some post, _) \<Rightarrow> call_post env cs post WebSocket message s
   | _ \<Rightarrow> Some ([], -1, s))"

definition Process_WebSocket_Get_Message ::
  "(nat \<Rightarrow> bool) \<Rightarrow> app_topics \<Rightarrow> u8 list \<Rightarrow> cJSON \<Rightarrow> members \<Rightarrow> 'a led_state_scheme \<Rightarrow> (int \<times> members) option"
where
  "Process_WebSocket_Get_Message alloc ts msg_topic message rsp s = do {
     (status, rsp1) \<leftarrow> (case map_of ts msg_topic of
         Some (_, Some get) \<Rightarrow> call_get (\<lambda>k. alloc (k + 2)) get WebSocket message rsp s
       | _ \<Rightarrow> Some (-1, rsp));
     Some (status, if 0 \<le> status
       then cJSON_AddStringToObject (alloc 1) (cJSON_AddStringToObject (alloc 0) rsp1 ''method'' (chars ''GET_RSP''))
         ''topic'' msg_topic
       else rsp1) }"

text \<open>\<open>msg\<close> is the buffer with its terminating zero, or \<open>None\<close> for NULL.\<close>

definition Process_Websocket_Incomming_Message ::
  "app_env \<Rightarrow> 'h clients \<Rightarrow> app_topics \<Rightarrow> 'h connection option \<Rightarrow> HTTPd_WSFrame \<Rightarrow> u8 list option \<Rightarrow>
     'a led_state_scheme \<Rightarrow> (net_event list \<times> 'a led_state_scheme) option"
where
  "Process_Websocket_Incomming_Message env cs ts src frame msg s =
     (case msg of
        None \<Rightarrow> Some ([], s)
      | Some t \<Rightarrow>
        if payloadLength frame = 0 then Some ([], s)
        else (json_parse env t \<bind> (\<lambda>parsed. case parsed of
          None \<Rightarrow> Some ([], s)
        | Some msg_json \<Rightarrow>
          (case (cJSON_GetObjectItem msg_json (chars ''method''), cJSON_GetObjectItem msg_json (chars ''topic'')) of
             (Some (cJSON_String method), Some (cJSON_String topic)) \<Rightarrow>
               if method = chars ''POST'' then do {
                 (es, status, s1) \<leftarrow> Process_WebSocket_Post_Message env cs ts topic msg_json s;
                 Some (es, s1) }
               else if method = chars ''GET'' then
                 if \<not> json_alloc env 0 then Some ([], s)
                 else do {
                   (status, rsp) \<leftarrow> Process_WebSocket_Get_Message (\<lambda>k. json_alloc env (k + 1)) ts topic msg_json [] s;
                   es \<leftarrow> (if 0 \<le> status
                     then WebsocketServer_SendJSONMessage (json_print env) src (Some (cJSON_Object rsp)) else Some []);
                   Some (es, s) }
               else Some ([], s)
           | _ \<Rightarrow> Some ([], s)))))"

section \<open>The handlers of the network settings\<close>

text \<open>What a POST handler does with a body: \<open>apply\<close> gets the parsed value and gives the new state, or
  \<open>None\<close> when members are missing or of the wrong type. The response goes out before the change.\<close>

definition network_post ::
  "app_env \<Rightarrow> 'h connection \<Rightarrow> (cJSON \<Rightarrow> (net_state \<Rightarrow> net_state) option) \<Rightarrow> net_state \<Rightarrow> net_state answer"
where
  "network_post env c apply_item s = (case data_buff c of
     None \<Rightarrow> text_answer env c 400 s
   | Some req_data \<Rightarrow> (json_parse env req_data \<bind> (\<lambda>parsed. case parsed of
       None \<Rightarrow> text_answer env c 422 s
     | Some req_json \<Rightarrow> (case apply_item req_json of
         None \<Rightarrow> text_answer env c 422 s
       | Some change \<Rightarrow>
           if \<not> json_alloc env 0 then text_answer env c 500 s
           else do {
             (es, r, s1) \<leftarrow> json_answer env c 201 (cJSON_AddStringToObject (json_alloc env 1) [] ''status'' (chars ''success'')) s;
             Some (es, r, change s1) }))))"

definition string_item :: "cJSON \<Rightarrow> string \<Rightarrow> u8 list option" where
  "string_item m name = (case cJSON_GetObjectItem m (chars name) of Some (cJSON_String t) \<Rightarrow> Some t | _ \<Rightarrow> None)"

definition Network_CGI_Root :: "app_env \<Rightarrow> 'h connection option \<Rightarrow> net_state \<Rightarrow> net_state answer" where
  "Network_CGI_Root env connData s = (case connData of
     None \<Rightarrow> Some ([], HTTPD_CGI_DONE, s)
   | Some c \<Rightarrow>
       if requestType c = HTTPd_Method_POST then
         network_post env c (\<lambda>m. case (string_item m ''ip_addr'', string_item m ''gateway'', string_item m ''netmask'') of
             (Some ip, Some g, Some nm) \<Rightarrow> Some (NeonTCPIP_IF_Update_Addresses (ip_string_to_u32 (ip_aton env) ip)
               (ip_string_to_u32 (ip_aton env) nm) (ip_string_to_u32 (ip_aton env) g))
           | _ \<Rightarrow> None) s
       else if requestType c = HTTPd_Method_GET then
         if \<not> json_alloc env 0 then text_answer env c 500 s
         else let
           obj = cJSON_AddStringToObject (json_alloc env 1) [] ''ip_addr''
             (ip_u32_to_string (ip_ntoa env) (NeonTCPIP_IF_Get_IP_Address s) 20);
           obj = cJSON_AddStringToObject (json_alloc env 2) obj ''gateway''
             (ip_u32_to_string (ip_ntoa env) (NeonTCPIP_IF_Get_Gateway_Address s) 20);
           obj = cJSON_AddStringToObject (json_alloc env 3) obj ''netmask''
             (ip_u32_to_string (ip_ntoa env) (NeonTCPIP_IF_Get_NetMask_Address s) 20)
           in json_answer env c 200 obj s
       else text_answer env c 404 s)"

text \<open>The three handlers of a single address are the same code but for the name and the accessors.\<close>

definition network_item ::
  "string \<Rightarrow> (u32 \<Rightarrow> net_state \<Rightarrow> net_state) \<Rightarrow> (net_state \<Rightarrow> u32) \<Rightarrow>
     app_env \<Rightarrow> 'h connection option \<Rightarrow> net_state \<Rightarrow> net_state answer"
where
  "network_item name set_item get_item env connData s = (case connData of
     None \<Rightarrow> Some ([], HTTPD_CGI_DONE, s)
   | Some c \<Rightarrow>
       if requestType c = HTTPd_Method_POST then
         network_post env c (\<lambda>m. map_option (\<lambda>t. set_item (ip_string_to_u32 (ip_aton env) t)) (string_item m name)) s
       else if requestType c = HTTPd_Method_GET then
         if \<not> json_alloc env 0 then text_answer env c 500 s
         else json_answer env c 200 (cJSON_AddStringToObject (json_alloc env 1) [] name
           (ip_u32_to_string (ip_ntoa env) (get_item s) 20)) s
       else text_answer env c 404 s)"

definition Network_CGI_IpAddr :: "app_env \<Rightarrow> 'h connection option \<Rightarrow> net_state \<Rightarrow> net_state answer" where
  "Network_CGI_IpAddr = network_item ''ip_addr'' NeonTCPIP_IF_Set_IP_Address NeonTCPIP_IF_Get_IP_Address"

definition Network_CGI_Gateway :: "app_env \<Rightarrow> 'h connection option \<Rightarrow> net_state \<Rightarrow> net_state answer" where
  "Network_CGI_Gateway = network_item ''gateway'' NeonTCPIP_IF_Set_Gateway_Address NeonTCPIP_IF_Get_Gateway_Address"

definition Network_CGI_Netmask :: "app_env \<Rightarrow> 'h connection option \<Rightarrow> net_state \<Rightarrow> net_state answer" where
  "Network_CGI_Netmask = network_item ''netmask'' NeonTCPIP_IF_Set_NetMask_Address NeonTCPIP_IF_Get_NetMask_Address"

section \<open>The application behind the server\<close>

record application =
  leds :: led_state
  net :: net_state
  topics :: app_topics

datatype url_handler = Debug_Page | Network_Root | Network_IpAddr | Network_Gateway | Network_Netmask
  | LED_Root | LED_Num | LED_Any_Number | LED_Level_Any_Number | LED_OnOff_Any_Number

definition on_leds :: "application \<Rightarrow> led_state answer \<Rightarrow> application answer" where
  "on_leds app r = map_option (\<lambda>(es, status, s). (es, status, app\<lparr>leds := s\<rparr>)) r"

definition on_net :: "application \<Rightarrow> net_state answer \<Rightarrow> application answer" where
  "on_net app r = map_option (\<lambda>(es, status, s). (es, status, app\<lparr>net := s\<rparr>)) r"

text \<open>What the function pointers of the table of URLs stand for.\<close>

definition call_handler ::
  "app_env \<Rightarrow> u8 list \<Rightarrow> url_handler \<Rightarrow> url_handler connection \<Rightarrow> application \<Rightarrow> application answer"
where
  "call_handler env page h c app = (case h of
     Debug_Page \<Rightarrow> map_option (\<lambda>(es, status). (es, status, app)) (cgiDebugPage page (buf_mem env) (send_result env) (Some c))
   | Network_Root \<Rightarrow> on_net app (Network_CGI_Root env (Some c) (net app))
   | Network_IpAddr \<Rightarrow> on_net app (Network_CGI_IpAddr env (Some c) (net app))
   | Network_Gateway \<Rightarrow> on_net app (Network_CGI_Gateway env (Some c) (net app))
   | Network_Netmask \<Rightarrow> on_net app (Network_CGI_Netmask env (Some c) (net app))
   | LED_Root \<Rightarrow> on_leds app (LED_PWM_CGI_Root env (Some c) (leds app))
   | LED_Num \<Rightarrow> on_leds app (LED_PWM_CGI_LED_Num env (Some c) (leds app))
   | LED_Any_Number \<Rightarrow> on_leds app (LED_PWM_CGI_LED_Any_Number env (Some c) (leds app))
   | LED_Level_Any_Number \<Rightarrow> on_leds app (LED_PWM_CGI_LED_Level_Any_Number env (Some c) (leds app))
   | LED_OnOff_Any_Number \<Rightarrow> on_leds app (LED_PWM_CGI_LED_OnOff_Any_Number env (Some c) (leds app)))"

definition builtIn :: "url_handler urls" where
  "builtIn = [(chars ''/Debug'', Debug_Page)]"

section \<open>Start-up\<close>

definition network_urls :: "url_handler urls" where
  "network_urls = [(chars ''/Network'', Network_Root), (chars ''/Network/IP_Addr'', Network_IpAddr),
     (chars ''/Network/Gateway'', Network_Gateway), (chars ''/Network/Netmask'', Network_Netmask)]"

definition device_urls :: "url_handler urls" where
  "device_urls = [(chars ''/LED_PWM'', LED_Root), (chars ''/LED_PWM/Num'', LED_Num),
     (chars ''/LED_PWM/*'', LED_Any_Number), (chars ''/LED_PWM/Level/*'', LED_Level_Any_Number),
     (chars ''/LED_PWM/On_Off/*'', LED_OnOff_Any_Number)]"

text \<open>The registrations of a start-up that does not run out of memory.\<close>

definition Neon_APP_Device_Init ::
  "hal_env \<Rightarrow> url_handler urls \<Rightarrow> application \<Rightarrow> (int \<times> url_handler urls \<times> application) option"
where
  "Neon_APP_Device_Init env urls app = (let
     urls1 = register_all HTTPd_Register_CGI_URL_Callback device_urls urls in do {
     leds1 \<leftarrow> LED_PWM_Init env (leds app);
     let (r, ts) = Register_Neon_APP_Interface_Msg_CallBack (chars ''LED_PWM'')
       (Some LED_PWM_POST_Msg, Some LED_PWM_GET_Msg) True True (topics app);
     Some (r, urls1, app\<lparr>leds := leds1, topics := ts\<rparr>) })"

text \<open>What \<open>Init_Thread\<close> does between starting the network and its endless loop; the three status LEDs
  are the pins B0, B7 and B14.\<close>

definition Init_Thread_setup ::
  "hal_env \<Rightarrow> url_handler urls \<Rightarrow> application \<Rightarrow> (url_handler urls \<times> application) option"
where
  "Init_Thread_setup env urls app = do {
     (r, urls1, app1) \<leftarrow> Neon_APP_Device_Init env (register_all HTTPd_Register_CGI_URL_Callback network_urls urls) app;
     (r, s1) \<leftarrow> GPIO_Pin_Init 30 hwGPIO_Direction_Output hwGPIO_Pull_Mode_Up (leds app1);
     (r, s2) \<leftarrow> GPIO_Pin_Init 23 hwGPIO_Direction_Output hwGPIO_Pull_Mode_Up s1;
     (r, s3) \<leftarrow> GPIO_Pin_Init 16 hwGPIO_Direction_Output hwGPIO_Pull_Mode_Up s2;
     Some (urls1, app1\<lparr>leds := s3\<rparr>) }"

section \<open>The routes\<close>

lemma registered_urls:
  "register_all HTTPd_Register_CGI_URL_Callback device_urls
     (register_all HTTPd_Register_CGI_URL_Callback network_urls []) = network_urls @ device_urls"
  by (simp add: network_urls_def device_urls_def HTTPd_Register_CGI_URL_Callback_def)

definition app_urls :: "url_handler urls" where
  "app_urls = network_urls @ device_urls"

lemma app_urls_eq: "app_urls = [(chars ''/Network'', Network_Root), (chars ''/Network/IP_Addr'', Network_IpAddr),
     (chars ''/Network/Gateway'', Network_Gateway), (chars ''/Network/Netmask'', Network_Netmask),
     (chars ''/LED_PWM'', LED_Root), (chars ''/LED_PWM/Num'', LED_Num),
     (chars ''/LED_PWM/*'', LED_Any_Number), (chars ''/LED_PWM/Level/*'', LED_Level_Any_Number),
     (chars ''/LED_PWM/On_Off/*'', LED_OnOff_Any_Number)]"
  by (simp add: app_urls_def network_urls_def device_urls_def)

lemma route_LED: "route builtIn app_urls (chars ''/LED_PWM/'' @ [b]) = Some LED_Any_Number"
  by (simp add: route_def find_handler_def app_urls_eq url_matches_def)

lemma route_level: "route builtIn app_urls (chars ''/LED_PWM/Level/'' @ [b]) = Some LED_Level_Any_Number"
  by (simp add: route_def find_handler_def app_urls_eq url_matches_def)

lemma route_on_off: "route builtIn app_urls (chars ''/LED_PWM/On_Off/'' @ [b]) = Some LED_OnOff_Any_Number"
  by (simp add: route_def find_handler_def app_urls_eq url_matches_def)

lemma route_long: "17 < length u \<Longrightarrow> route builtIn app_urls u = None"
  by (simp add: route_def find_handler_def app_urls_eq url_matches_def builtIn_def)

lemma decimal_digit: "0 \<le> i \<Longrightarrow> i < 10 \<Longrightarrow> decimal i = [of_nat (48 + nat i)]"
  by (simp add: decimal_def digits.simps [of "nat i"] nat_less_iff)

section \<open>The path of a message\<close>

text \<open>A message for the topic of the application.\<close>

definition for_LEDs :: "cJSON \<Rightarrow> bool" where
  "for_LEDs m \<longleftrightarrow> cJSON_GetObjectItem m (chars ''method'') = Some (cJSON_String (chars ''POST'')) \<and>
     cJSON_GetObjectItem m (chars ''topic'') = Some (cJSON_String (chars ''LED_PWM''))"

lemma message_obeyed:
  assumes "healthy env" "shows_leds s v" "says m c" "for_LEDs m" "json_parse env (p @ [0]) = Some (Some m)"
    "payloadLength frame \<noteq> 0" "map_of ts (chars ''LED_PWM'') = Some (Some LED_PWM_POST_Msg, g)"
  shows "\<exists>s'. Process_Websocket_Incomming_Message env cs ts src frame (Some (p @ [0])) s =
      Some (reported env cs (obey c v), s') \<and> shows_leds s' (obey c v)"
proof -
  obtain s' where s': "Process_LED_PWM_APP_Incoming_JSON_POST_Msg env cs WebSocket m s =
      Some (reported env cs (obey c v), -1, s')" "shows_leds s' (obey c v)"
    using command_announced [OF assms(1-3), of WebSocket cs] by auto
  have "Process_Websocket_Incomming_Message env cs ts src frame (Some (p @ [0])) s =
      Some (reported env cs (obey c v), s')"
    using assms(4-7) s'(1)
    by (simp add: Process_Websocket_Incomming_Message_def for_LEDs_def
      Process_WebSocket_Post_Message_def call_post_def del: chars_simps)
  with s'(2) show ?thesis by blast
qed

lemma sendable_success: "sendable (cJSON_Object [(chars ''status'', cJSON_String (chars ''success''))])"
  by (simp add: sendable_def)

lemma sendable_addresses:
  assumes "\<forall>t\<in>{ip, g, nm}. 0 \<notin> set t \<and> length t < 20"
  shows "sendable (cJSON_Object [(chars ''ip_addr'', cJSON_String ip), (chars ''gateway'', cJSON_String g), (chars ''netmask'', cJSON_String nm)])"
  using assms by (simp add: sendable_def)

lemma network_changed:
  assumes "healthy env" "data_buff c = Some d" "json_parse env d = Some (Some m)" "apply_item m = Some change"
  shows "network_post env c apply_item s = Some (json_sent env c 201 [(chars ''status'', cJSON_String (chars ''success''))],
    HTTPD_CGI_DONE, change s)"
  using assms(2-4) by (simp add: network_post_def healthy_answer [OF assms(1) sendable_success] healthy_alloc [OF assms(1)] built
    del: chars_simps)

lemma address_text: "ip_ntoa env ip = t \<Longrightarrow> length t < 20 \<Longrightarrow> ip_u32_to_string (ip_ntoa env) ip 20 = t"
  by (simp add: ip_u32_to_string_def)

section \<open>An example\<close>

definition demo_message :: cJSON where
  "demo_message = cJSON_Object [(chars ''method'', cJSON_String (chars ''POST'')), (chars ''topic'', cJSON_String (chars ''LED_PWM'')),
     (chars ''command'', cJSON_String (chars ''set individual led on/off state'')),
     (chars ''led_index'', cJSON_Number 2), (chars ''on_off'', cJSON_True)]"

definition demo_topics :: app_topics where
  "demo_topics = [(chars ''LED_PWM'', Some LED_PWM_POST_Msg, Some LED_PWM_GET_Msg)]"

definition demo_application :: application where
  "demo_application = \<lparr>leds = led_init_memory, net = leased_if, topics = demo_topics\<rparr>"

definition device_server :: "(url_handler, application) server" where
  "device_server = \<lparr>Registered_URL_List = app_urls, NeonRtFsInitDone = True, sent = [], world = demo_application\<rparr>"

definition device_env :: "cJSON \<Rightarrow> (url_handler, application) server_env" where
  "device_env m = \<lparr>builtInUrls = builtIn, run = call_handler (demo_app m) [],
     fs_image = mkfs two_files, page_mem = \<lambda>_. True, page_send = \<lambda>_. 1, page_buf = replicate 2048 0,
     setsockopt = \<lambda>k len. if len < 4 then -1 else 0, key_mem = True, cmd_mem = True, digest_state = sha1_clean\<rparr>"

definition device_request :: "HTTPd_Method \<Rightarrow> string \<Rightarrow> url_handler connection" where
  "device_request m u = \<lparr>socket_id = 5, connetion_mode = HTTPd_Connection_Mode_Close,
     connection_keep_alive_time = 0, connection_destruct_flag = False, websocket_client = False,
     websocket_auth = False, client_key = None, requestType = m, url = Some (chars u),
     hostName = None, isLargeData = False, data_len = 4, data_buff = Some (chars ''{..}''), accept_encoding = [], getArgs = None, cgi = None\<rparr>"

lemma device_request: "looked_up (device_request HTTPd_Method_POST u)"
  "requestType (device_request m u) = m" "url (device_request m u) = Some (chars u)" "socket_id (device_request m u) = 5"
  "data_buff (device_request m u) = Some (chars ''{..}'')"
  by (simp_all add: device_request_def looked_up_def)

lemma demo_message_items:
  "for_LEDs demo_message" "says demo_message (Switch 2 True)"
  by (simp_all add: demo_message_def for_LEDs_def says_def cJSON_GetObjectItem_def c_tolower_def)

definition demo_network :: cJSON where
  "demo_network = cJSON_Object [(chars ''ip_addr'', cJSON_String (chars ''10.0.0.2'')),
     (chars ''gateway'', cJSON_String (chars ''10.0.0.2'')), (chars ''netmask'', cJSON_String (chars ''10.0.0.2''))]"

lemma demo_network_items:
  "string_item demo_network ''ip_addr'' = Some (chars ''10.0.0.2'')"
  "string_item demo_network ''gateway'' = Some (chars ''10.0.0.2'')"
  "string_item demo_network ''netmask'' = Some (chars ''10.0.0.2'')"
  by (simp_all add: demo_network_def string_item_def cJSON_GetObjectItem_def c_tolower_def)

lemma LED_request_served:
  assumes "builtInUrls senv = builtIn" "run senv = call_handler env page" "Registered_URL_List s = app_urls"
    "healthy env" "shows_leds (leds (world s)) v" "0 \<le> i" "i < 4"
    "looked_up c" "requestType c = HTTPd_Method_POST" "url c = Some (chars ''/LED_PWM/'' @ decimal i)" "data_buff c = Some d"
    "json_parse env d = Some (Some m)" "cJSON_GetObjectItem m (chars ''on_off'') = Some (bool_json b)"
    "cJSON_GetObjectItem m (chars ''level'') = Some (cJSON_Number p)" "0 \<le> p" "p < 256"
  shows "\<exists>c' l. serve_request senv c s = Some (c', s\<lparr>sent := sent s @ json_sent env c 201
        [(chars ''led_index'', bool_json (i \<noteq> 0)), (chars ''on_off'', bool_json b), (chars ''level'', cJSON_Number p)],
      world := (world s)\<lparr>leds := l\<rparr>\<rparr>) \<and> answered c' \<and>
    shows_leds l (obey (Level (nat i) (of_int (p * 10))) (obey (Switch (nat i) b) v))"
proof -
  let ?c = "c\<lparr>cgi := Some LED_Any_Number\<rparr>"
  let ?obj = "[(chars ''led_index'', bool_json (i \<noteq> 0)), (chars ''on_off'', bool_json b), (chars ''level'', cJSON_Number p)]"
  obtain l where l: "LED_PWM_CGI_LED_Any_Number env (Some ?c) (leds (world s)) = Some (json_sent env ?c 201 ?obj, HTTPD_CGI_DONE, l)"
    "shows_leds l (obey (Level (nat i) (of_int (p * 10))) (obey (Switch (nat i) b) v))"
    using one_LED_posted [OF assms(4-7), of ?c d m b p] assms(9-16) by auto
  have "route (builtInUrls senv) (Registered_URL_List s) (chars ''/LED_PWM/'' @ decimal i) = Some LED_Any_Number"
    unfolding assms(1,3) decimal_digit [OF assms(6) less_trans [OF assms(7), of 10, simplified]] by (rule route_LED)
  moreover have "run senv LED_Any_Number ?c (world s) =
      Some (json_sent env c 201 ?obj, HTTPD_CGI_DONE, (world s)\<lparr>leds := l\<rparr>)"
    unfolding assms(2) by (simp add: call_handler_def on_leds_def l(1) json_sent_cgi)
  ultimately show ?thesis
    using routed_call [OF assms(8,10), of senv s LED_Any_Number] l(2) by (auto simp: after_call_def)
qed

lemma command_frame_served:
  assumes "\<not> connection_destruct_flag c" "0 \<le> socket_id c" "0 < length p" "length p \<le> 1024"
    "malloc (length p + 1) = Some mem" "length mem = length p + 1"
    "healthy env" "shows_leds s v" "json_parse env (p @ [0]) = Some (Some m)" "for_LEDs m" "says m cmd"
    "map_of ts (chars ''LED_PWM'') = Some (Some LED_PWM_POST_Msg, g)"
  shows "\<exists>frame s'. ws_serve c frame0 malloc sock_err (client_frame 0x81 key p @ rs) =
      Some ((c, [TimerStop, OnMessage frame (p @ [0]), TimerRestart], False), rs) \<and>
    Process_Websocket_Incomming_Message env cs ts (Some c) frame (Some (p @ [0])) s =
      Some (reported env cs (obey cmd v), s') \<and> shows_leds s' (obey cmd v)"
proof -
  let ?frame = "\<lparr>flags = 0x81 AND 0xF0, opcode = 0x81 AND 0x0F, isMasked = 0x80,
       payloadLength = of_nat (length p), maskingKey = key\<rparr>"
  have "ws_serve c frame0 malloc sock_err (client_frame 0x81 key p @ rs) =
      Some ((c, [TimerStop, OnMessage ?frame (p @ [0]), TimerRestart], False), rs)"
    by (simp add: ws_serve_data [where malloc = malloc and mem = mem, OF assms(1-6)])
  moreover have "unat (of_nat (length p) :: 64 word) = length p"
    using assms(4) by (simp add: unat_of_nat take_bit_nat_eq_self)
  then have "payloadLength ?frame \<noteq> 0" using assms(3) by auto
  from message_obeyed [OF assms(7,8,11,10,9) this assms(12), of cs "Some c"] obtain s' where
    "Process_Websocket_Incomming_Message env cs ts (Some c) ?frame (Some (p @ [0])) s =
      Some (reported env cs (obey cmd v), s')" "shows_leds s' (obey cmd v)" by blast
  ultimately show ?thesis by blast
qed

section \<open>Properties\<close>

text \<open>
  The URLs that the application registers are bound as meant: after start-up \<open>/LED_PWM/n\<close>,
  \<open>/LED_PWM/Level/n\<close> and \<open>/LED_PWM/On_Off/n\<close> with a number of one character have their handlers, and
  no URL of more than 17 characters has one.
\<close>

theorem device_routes:
  "let urls = register_all HTTPd_Register_CGI_URL_Callback device_urls
     (register_all HTTPd_Register_CGI_URL_Callback network_urls []) in
   route builtIn urls (chars ''/LED_PWM/'' @ [b]) = Some LED_Any_Number \<and>
   route builtIn urls (chars ''/LED_PWM/Level/'' @ [b]) = Some LED_Level_Any_Number \<and>
   route builtIn urls (chars ''/LED_PWM/On_Off/'' @ [b]) = Some LED_OnOff_Any_Number \<and>
   (17 < length u \<longrightarrow> route builtIn urls u = None)"
  by (simp only: registered_urls app_urls_def [symmetric] Let_def route_LED route_level route_on_off)
    (simp add: route_long)

theorem device_routes_witness:
  "route builtIn (register_all HTTPd_Register_CGI_URL_Callback device_urls
     (register_all HTTPd_Register_CGI_URL_Callback network_urls [])) (chars ''/LED_PWM/On_Off/10'') = None"
  using device_routes [of 0 "chars ''/LED_PWM/On_Off/10''"] by (simp add: Let_def)

text \<open>
  A POST request that the server has read for the URL of a LED goes all the way: the handler is
  called once, the LED is switched and its level set, the client gets one response with 201 and the
  new values, nothing else of the application changes, and the connection is closed.
\<close>

theorem POST_request_sets_LED:
  assumes "builtInUrls senv = builtIn" "run senv = call_handler env page" "Registered_URL_List s = app_urls"
    "healthy env" "shows_leds (leds (world s)) v" "0 \<le> i" "i < 4"
    "looked_up c" "requestType c = HTTPd_Method_POST" "url c = Some (chars ''/LED_PWM/'' @ decimal i)" "data_buff c = Some d"
    "json_parse env d = Some (Some m)" "cJSON_GetObjectItem m (chars ''on_off'') = Some (bool_json b)"
    "cJSON_GetObjectItem m (chars ''level'') = Some (cJSON_Number p)" "0 \<le> p" "p < 256"
  shows "\<exists>c' l. serve_request senv c s = Some (c', s\<lparr>sent := sent s @ json_sent env c 201
        [(chars ''led_index'', bool_json (i \<noteq> 0)), (chars ''on_off'', bool_json b), (chars ''level'', cJSON_Number p)],
      world := (world s)\<lparr>leds := l\<rparr>\<rparr>) \<and> answered c' \<and>
    shows_leds l (obey (Level (nat i) (of_int (p * 10))) (obey (Switch (nat i) b) v))"
  using assms by (rule LED_request_served)

theorem POST_request_sets_LED_witness:
  "\<exists>c' es l. serve_request (device_env switch_on_2) (device_request HTTPd_Method_POST ''/LED_PWM/2'') device_server =
      Some (c', device_server\<lparr>sent := es, world := demo_application\<lparr>leds := l\<rparr>\<rparr>) \<and>
    led_view l 2 = (True, 500) \<and> led_view l 3 = (False, 0)"
proof -
  let ?c = "device_request HTTPd_Method_POST ''/LED_PWM/2''"
  have env: "builtInUrls (device_env switch_on_2) = builtIn" "run (device_env switch_on_2) = call_handler (demo_app switch_on_2) []"
    "Registered_URL_List device_server = app_urls" "shows_leds (leds (world device_server)) (led_view led_init_memory)"
    using demo_leds by (simp_all add: device_env_def device_server_def demo_application_def)
  obtain c' es l where "serve_request (device_env switch_on_2) ?c device_server =
      Some (c', device_server\<lparr>sent := es, world := (world device_server)\<lparr>leds := l\<rparr>\<rparr>)"
    "shows_leds l (obey (Level (nat 2) (of_int (50 * 10))) (obey (Switch (nat 2) True) (led_view led_init_memory)))"
    using POST_request_sets_LED [OF env(1-3) demo_healthy env(4), of 2 ?c "chars ''{..}''" switch_on_2 True 50]
    by (auto simp: device_request demo_urls(1) switch_on_2_items bool_json_def demo_led simp del: chars_simps)
  then show ?thesis
    by (auto simp: shows_leds_def led_view_def [of led_init_memory] led_init_facts LED_zero_def device_server_def)
qed

text \<open>
  A command that a WebSocket client sends as a masked frame goes all the way: the frame is read,
  unmasked and handed over with its text, the LED it names obeys, and all open WebSocket clients,
  the sender included, are told the new status of all LEDs.
\<close>

theorem WebSocket_command_reaches_LED:
  assumes "\<not> connection_destruct_flag c" "0 \<le> socket_id c" "0 < length p" "length p \<le> 1024"
    "malloc (length p + 1) = Some mem" "length mem = length p + 1"
    "healthy env" "shows_leds s v" "json_parse env (p @ [0]) = Some (Some m)" "for_LEDs m" "says m cmd"
    "map_of ts (chars ''LED_PWM'') = Some (Some LED_PWM_POST_Msg, g)"
  shows "\<exists>frame s'. ws_serve c frame0 malloc sock_err (client_frame 0x81 key p @ rs) =
      Some ((c, [TimerStop, OnMessage frame (p @ [0]), TimerRestart], False), rs) \<and>
    Process_Websocket_Incomming_Message env cs ts (Some c) frame (Some (p @ [0])) s =
      Some (reported env cs (obey cmd v), s') \<and> shows_leds s' (obey cmd v)"
  using assms by (rule command_frame_served)

theorem WebSocket_command_reaches_LED_witness:
  "\<exists>frame s'. ws_serve ws_client empty_frame (\<lambda>n. Some (replicate n 7)) (0, 0) (client_frame 0x81 0xCAFE (chars ''{..}'') @ []) =
      Some ((ws_client, [TimerStop, OnMessage frame (chars ''{..}'' @ [0]), TimerRestart], False), []) \<and>
    Process_Websocket_Incomming_Message (demo_app demo_message) [Some ws_client] demo_topics (Some ws_client) frame
      (Some (chars ''{..}'' @ [0])) led_init_memory = Some ([Send 3 [129, 2], Send 3 (chars ''{}'')], s') \<and>
    led_view s' 2 = (True, 0)"
proof -
  have told: "reported (demo_app demo_message) [Some ws_client] v = [Send 3 [129, 2], Send 3 (chars ''{}'')]" for v
    by (simp add: reported_def listeners_def List.map_filter_simps ws_client_def closed_client_def message_to_def
      json_text_def demo_app_def frame_header_def frame_options_def)
  have view: "led_view s' 2 = (True, 0)" if "shows_leds s' (obey (Switch 2 True) (led_view led_init_memory))" for s'
    using that by (simp add: shows_leds_def led_view_def [of led_init_memory] led_init_facts LED_zero_def)
  have open_client: "\<not> connection_destruct_flag ws_client" "0 \<le> socket_id ws_client"
    by (simp_all add: ws_client_def closed_client_def)
  have topic: "map_of demo_topics (chars ''LED_PWM'') = Some (Some LED_PWM_POST_Msg, Some LED_PWM_GET_Msg)"
    by (simp add: demo_topics_def)
  obtain frame s' where frame: "ws_serve ws_client empty_frame (\<lambda>n. Some (replicate n 7)) (0, 0)
        (client_frame 0x81 0xCAFE (chars ''{..}'') @ []) =
      Some ((ws_client, [TimerStop, OnMessage frame (chars ''{..}'' @ [0]), TimerRestart], False), [])"
    and msg: "Process_Websocket_Incomming_Message (demo_app demo_message) [Some ws_client] demo_topics (Some ws_client) frame
      (Some (chars ''{..}'' @ [0])) led_init_memory =
      Some (reported (demo_app demo_message) [Some ws_client] (obey (Switch 2 True) (led_view led_init_memory)), s')"
    and s': "shows_leds s' (obey (Switch 2 True) (led_view led_init_memory))"
    using WebSocket_command_reaches_LED [where p = "chars ''{..}''" and malloc = "\<lambda>n. Some (replicate n 7)" and
      mem = "replicate (length (chars ''{..}'') + 1) 7",
      OF open_client _ _ refl _ demo_healthy demo_leds demo_led(5) demo_message_items topic,
      of empty_frame "(0, 0)" "0xCAFE" "[]" "[Some ws_client]"] by auto
  show ?thesis
    by (intro exI [of _ frame] exI [of _ s'] conjI) (rule frame, rule msg [unfolded told], rule view [OF s'])
qed

text \<open>
  C32: The network settings of a POST are applied once it has been answered, and as long as the link does
  not change they are what a later GET of the same URL reports, in the texts they were given in, as
  lwIP prints the addresses it reads in this form.
\<close>

theorem network_settings_read_back:
  assumes "healthy env" "requestType c = HTTPd_Method_POST" "data_buff c = Some d" "json_parse env d = Some (Some m)"
    "string_item m ''ip_addr'' = Some ip" "string_item m ''gateway'' = Some g" "string_item m ''netmask'' = Some nm"
    "\<forall>t\<in>{ip, g, nm}. \<exists>a. ip_aton env t = Some a \<and> ip_ntoa env a = t \<and> 0 \<notin> set t \<and> length t < 20"
    "requestType c' = HTTPd_Method_GET"
  shows "\<exists>s'. Network_CGI_Root env (Some c) s =
      Some (json_sent env c 201 [(chars ''status'', cJSON_String (chars ''success''))], HTTPD_CGI_DONE, s') \<and>
    (\<forall>t. runs s' t \<longrightarrow> Network_CGI_Root env (Some c') t = Some (json_sent env c' 200 [(chars ''ip_addr'', cJSON_String ip),
       (chars ''gateway'', cJSON_String g), (chars ''netmask'', cJSON_String nm)], HTTPD_CGI_DONE, t))"
proof -
  from assms(8) obtain a b n where aton: "ip_aton env ip = Some a" "ip_aton env g = Some b" "ip_aton env nm = Some n"
    and ntoa: "ip_ntoa env a = ip" "ip_ntoa env b = g" "ip_ntoa env n = nm"
    and len: "length ip < 20" "length g < 20" "length nm < 20" and chars: "0 \<notin> set ip" "0 \<notin> set g" "0 \<notin> set nm" by blast
  let ?s = "NeonTCPIP_IF_Update_Addresses a n b s"
  have "Network_CGI_Root env (Some c) s =
      Some (json_sent env c 201 [(chars ''status'', cJSON_String (chars ''success''))], HTTPD_CGI_DONE, ?s)"
    using network_changed [OF assms(1,3,4)] assms(2)
    by (simp add: Network_CGI_Root_def assms(5-7) aton ip_string_to_u32_def del: chars_simps)
  moreover have "Network_CGI_Root env (Some c') t = Some (json_sent env c' 200 [(chars ''ip_addr'', cJSON_String ip),
       (chars ''gateway'', cJSON_String g), (chars ''netmask'', cJSON_String nm)], HTTPD_CGI_DONE, t)" if "runs ?s t" for t
  proof -
    have "addresses t = (a, n, b)"
      using settled_runs [OF that, unfolded NeonTCPIP_IF_Update_Addresses_def, OF static_settled]
      by (simp add: addresses_def netif_set_addr_def)
    then show ?thesis
      using assms(9) healthy_alloc [OF assms(1)]
      by (simp add: Network_CGI_Root_def Let_def built healthy_answer [OF assms(1) sendable_addresses] addresses_def len chars
        NeonTCPIP_IF_Get_IP_Address_def NeonTCPIP_IF_Get_Gateway_Address_def NeonTCPIP_IF_Get_NetMask_Address_def
        address_text [OF ntoa(1) len(1)] address_text [OF ntoa(2) len(2)] address_text [OF ntoa(3) len(3)] del: chars_simps)
  qed
  ultimately show ?thesis by blast
qed

theorem network_settings_read_back_witness:
  "\<exists>s'. Network_CGI_Root (demo_app demo_network) (Some (device_request HTTPd_Method_POST ''/Network'')) leased_if =
      Some ([Send 5 (json_head (device_request HTTPd_Method_POST ''/Network'') 201), Send 5 (chars ''{}'')], HTTPD_CGI_DONE, s') \<and>
    Network_CGI_Root (demo_app demo_network) (Some (device_request HTTPd_Method_GET ''/Network'')) s' =
      Some ([Send 5 (json_head (device_request HTTPd_Method_GET ''/Network'') 200), Send 5 (chars ''{}'')], HTTPD_CGI_DONE, s')"
proof -
  have addr: "ip_aton (demo_app demo_network) (chars ''10.0.0.2'') = Some 0x0200000A"
    "ip_ntoa (demo_app demo_network) 0x0200000A = chars ''10.0.0.2''"
    by (simp_all add: demo_app_def)
  have printable: "0 \<notin> set (chars ''10.0.0.2'')" by simp
  have reply: "json_sent (demo_app demo_network) (device_request md u) code obj =
      [Send 5 (json_head (device_request md u) code), Send 5 (chars ''{}'')]" for md u code obj
    by (simp add: json_sent_def json_text_def demo_app_def device_request)
  show ?thesis
    using network_settings_read_back [OF demo_healthy, of "device_request HTTPd_Method_POST ''/Network''" "chars ''{..}''"
        demo_network demo_network "chars ''10.0.0.2''" "chars ''10.0.0.2''" "chars ''10.0.0.2''"
        "device_request HTTPd_Method_GET ''/Network''" leased_if] runs.stay
    by (auto simp: device_request demo_led(5) demo_network_items addr printable reply simp del: chars_simps)
qed

text \<open>
  A text that is no address is not refused: the client is told success, and the interface gets
  the address 0.0.0.0.
\<close>

theorem bad_address_accepted:
  assumes "healthy env" "requestType c = HTTPd_Method_POST" "data_buff c = Some d" "json_parse env d = Some (Some m)"
    "string_item m ''ip_addr'' = Some t" "ip_aton env t = None"
  shows "\<exists>s'. Network_CGI_IpAddr env (Some c) s =
      Some (json_sent env c 201 [(chars ''status'', cJSON_String (chars ''success''))], HTTPD_CGI_DONE, s') \<and>
    addresses s' = (0, netmask s, gw s)"
  using network_changed [OF assms(1,3,4)] assms(2,5,6)
  by (simp add: Network_CGI_IpAddr_def network_item_def ip_string_to_u32_def NeonTCPIP_IF_Set_IP_Address_def Let_def
    addresses_def netif_set_addr_def del: chars_simps)

theorem bad_address_accepted_witness:
  "\<exists>es s'. Network_CGI_IpAddr (demo_app (cJSON_Object [(chars ''ip_addr'', cJSON_String (chars ''host''))]))
      (Some (device_request HTTPd_Method_POST ''/Network/IP_Addr'')) leased_if = Some (es, HTTPD_CGI_DONE, s') \<and>
    addresses s' = (0, 0x00FFFFFF, 0x0154A8C0)"
proof -
  let ?m = "cJSON_Object [(chars ''ip_addr'', cJSON_String (chars ''host''))]"
  have "string_item ?m ''ip_addr'' = Some (chars ''host'')" "ip_aton (demo_app ?m) (chars ''host'') = None"
    by (simp_all add: string_item_def cJSON_GetObjectItem_def c_tolower_def demo_app_def)
  from bad_address_accepted [OF demo_healthy _ _ _ this, of "device_request HTTPd_Method_POST ''/Network/IP_Addr''"
      "chars ''{..}''" leased_if] show ?thesis
    by (auto simp: device_request demo_led(5) leased_if_def simp del: chars_simps)
qed

text \<open>
  A message for a topic reaches the callback the topic was last registered with, whatever topics
  were registered before and in between; once the topic is removed no callback is called.
\<close>

theorem topic_last_registered:
  assumes "distinct (map fst ts)" "topic \<notin> fst ` set later"
    "ts1 = register_all (\<lambda>topic cbs mem. Register_Neon_APP_Interface_Msg_CallBack topic cbs mem mem)
       (earlier @ (topic, Some post, g) # later) ts"
  shows "Process_WebSocket_Post_Message env cs ts1 topic m s = call_post env cs post WebSocket m s \<and>
    Process_WebSocket_Post_Message env cs (snd (UnRegister_Neon_APP_Interface_Msg_CallBack topic ts1)) topic m s = Some ([], -1, s)"
proof -
  have "map_of ts1 topic = Some (Some post, g)"
    unfolding assms(3) by (rule topic_table.last_registration_wins [OF assms(1,2)])
  moreover have "distinct (map fst ts1)"
    unfolding assms(3) using topic_table.registered_all [OF assms(1)] by blast
  ultimately show ?thesis
    by (simp add: Process_WebSocket_Post_Message_def UnRegister_Neon_APP_Interface_Msg_CallBack_def map_of_unlink)
qed

theorem topic_last_registered_witness:
  "Process_WebSocket_Post_Message (demo_app demo_message) [Some ws_client]
    (register_all (\<lambda>topic cbs mem. Register_Neon_APP_Interface_Msg_CallBack topic cbs mem mem)
      ([(chars ''LED_PWM'', None, None)] @ (chars ''LED_PWM'', Some LED_PWM_POST_Msg, None) # [(chars ''X'', None, None)]) [])
    (chars ''LED_PWM'') demo_message led_init_memory =
   call_post (demo_app demo_message) [Some ws_client] LED_PWM_POST_Msg WebSocket demo_message led_init_memory"
  by (rule topic_last_registered [OF _ _ refl, THEN conjunct1]) simp_all

end
