(* ===== verification/HTTP_Parse.thy ===== *)
theory HTTP_Parse
  imports HTTPd_Conn C_Text
begin

text \<open>
  The reading of a request: the searches of \<open>NeonRTOS/HTTPd/HTTPd_Utils.c\<close> in the buffer of the
  request, \<open>HTTPd_Parse_InMsg_Headers\<close> of \<open>HTTPd.c\<close>, and what a request printed in the usual form is
  read as. Positions stand for pointers into the buffer; \<open>None\<close> is an access outside it.
\<close>

section \<open>The searches\<close>

text \<open>A name counts as a header when a line end, a blank, a colon or a zero byte is in front of it; else
  the search goes on in the next line. A name that no colon follows is passed over.\<close>

partial_function (option) HTTPd_Get_Header_Value :: "u8 list \<Rightarrow> nat \<Rightarrow> u8 list \<Rightarrow> nat option option" where
  "HTTPd_Get_Header_Value buf p header_str = do {
     r \<leftarrow> strstr buf p header_str;
     (case r of
        None \<Rightarrow> Some None
      | Some q \<Rightarrow> do {
          line \<leftarrow> starts_at buf (int q - 2) CRLF;
          ok \<leftarrow> (if line then Some True else do {
            b \<leftarrow> cread buf (int q - 1);
            Some (b = 32 \<or> b = 58 \<or> b = 0) });
          (if \<not> ok then do {
             l \<leftarrow> strstr buf q CRLF;
             (case l of None \<Rightarrow> Some None | Some q1 \<Rightarrow> HTTPd_Get_Header_Value buf q1 header_str) }
           else do {
             q1 \<leftarrow> skip_over (\<lambda>b. b = 32) buf (q + length header_str);
             b \<leftarrow> cread buf (int q1);
             if b \<noteq> 58 then HTTPd_Get_Header_Value buf (q1 + 1) header_str
             else map_option Some (skip_over (\<lambda>b. b = 32) buf (q1 + 1)) }) }) }"

definition HTTPd_Get_Host :: "u8 list \<Rightarrow> nat \<Rightarrow> nat option option" where
  "HTTPd_Get_Host buf p = HTTPd_Get_Header_Value buf p (chars ''Host'')"

text \<open>Whether a text begins before a position.\<close>

definition found_before :: "u8 list \<Rightarrow> u8 list \<Rightarrow> nat \<Rightarrow> bool option" where
  "found_before buf needle e = map_option (\<lambda>r. case r of None \<Rightarrow> False | Some q \<Rightarrow> q < e) (strstr buf 0 needle)"

definition HTTPd_Get_Header_Method :: "u8 list \<Rightarrow> HTTPd_Method option" where
  "HTTPd_Get_Header_Method buf = do {
     r \<leftarrow> strstr buf 0 CRLF;
     (case r of
        None \<Rightarrow> Some HTTPd_Method_UNKNOWN
      | Some first_line_end \<Rightarrow> do {
          post \<leftarrow> found_before buf (chars ''POST'') first_line_end;
          if post then Some HTTPd_Method_POST else do {
          get \<leftarrow> found_before buf (chars ''GET'') first_line_end;
          if get then Some HTTPd_Method_GET else do {
          put \<leftarrow> found_before buf (chars ''PUT'') first_line_end;
          if put then Some HTTPd_Method_PUT else do {
          del \<leftarrow> found_before buf (chars ''DELETE'') first_line_end;
          Some (if del then HTTPd_Method_DELETE else HTTPd_Method_UNKNOWN) }}}}) }"

text \<open>From the version backwards over the blanks and over the path.\<close>

definition path_before :: "u8 list \<Rightarrow> nat \<Rightarrow> nat option" where
  "path_before buf q = skip_back (\<lambda>b. b = 32) buf q \<bind> skip_back (\<lambda>b. b \<noteq> 32) buf"

definition version_1_1 :: "u8 list \<Rightarrow> nat \<Rightarrow> nat option option" where
  "version_1_1 buf first_line_end = do {
     v1 \<leftarrow> strstr buf 0 (chars ''HTTP/1.1'');
     (case v1 of
        Some q \<Rightarrow> if q < first_line_end then map_option Some (path_before buf q) else Some None
      | None \<Rightarrow> Some None) }"

definition HTTPd_Get_Header_Path :: "u8 list \<Rightarrow> nat option option" where
  "HTTPd_Get_Header_Path buf = do {
     r \<leftarrow> strstr buf 0 CRLF;
     (case r of
        None \<Rightarrow> Some None
      | Some first_line_end \<Rightarrow> do {
          v0 \<leftarrow> strstr buf 0 (chars ''HTTP/1.0'');
          (case v0 of
             Some q \<Rightarrow> if q < first_line_end then map_option Some (path_before buf q)
               else version_1_1 buf first_line_end
           | None \<Rightarrow> version_1_1 buf first_line_end) }) }"

section \<open>Reading the headers\<close>

text \<open>A number up to the end of its line is copied to a zeroed buffer of 20 bytes.\<close>

definition number_at :: "u8 list \<Rightarrow> nat \<Rightarrow> int option option" where
  "number_at buf t = do {
     e \<leftarrow> strstr buf t CRLF;
     (case e of
        None \<Rightarrow> Some None
      | Some e \<Rightarrow> if 20 \<le> e - t then None else Some (Some (atoi (take (e - t) (drop t buf))))) }"

definition starts_any :: "u8 list \<Rightarrow> nat \<Rightarrow> string list \<Rightarrow> bool option" where
  "starts_any buf p lits = foldr (\<lambda>l rest. do {
     b \<leftarrow> starts_at buf (int p) (chars l);
     if b then Some True else rest }) lits (Some False)"

abbreviation (input) WEBSOCKET_TIMEOUT_TIMER_MS :: u32 where "WEBSOCKET_TIMEOUT_TIMER_MS \<equiv> 300000"

text \<open>The results are the return value, the buffer, the connection and the new period of the timeout
  timer, if it is changed.\<close>

type_synonym 'h parsed = "(int \<times> u8 list \<times> 'h connection \<times> u32 option) option"

definition read_upgrade :: "u8 list \<Rightarrow> nat \<Rightarrow> 'h connection \<Rightarrow> 'h parsed" where
  "read_upgrade header second_line c = do {
     upgrade_ws \<leftarrow> HTTPd_Get_Header_Value header second_line (chars ''Upgrade'');
     (case upgrade_ws of
        None \<Rightarrow> Some (-1, header, c, None)
      | Some w \<Rightarrow> do {
          ws \<leftarrow> starts_any header w [''Websocket'', ''websocket''];
          if \<not> ws then Some (-1, header, c, None) else do {
          key \<leftarrow> HTTPd_Get_Header_Value header second_line (chars ''Sec-WebSocket-Key'');
          (case key of
             None \<Rightarrow> Some (-1, header, c, None)
           | Some k \<Rightarrow> do {
               e \<leftarrow> strstr header k CRLF;
               t \<leftarrow> c_string header k;
               let header1 = header[(case e of Some e \<Rightarrow> e | None \<Rightarrow> k + length t) := 0];
               t1 \<leftarrow> c_string header1 k;
               Some (0, header1, c\<lparr>client_key := Some t1, websocket_client := True,
                 connetion_mode := HTTPd_Connection_Mode_Upgrade\<rparr>, Some WEBSOCKET_TIMEOUT_TIMER_MS) }) } }) }"

definition read_keep_alive :: "u8 list \<Rightarrow> nat \<Rightarrow> 'h connection \<Rightarrow> ('h connection \<times> u32) option" where
  "read_keep_alive header second_line c = do {
     t \<leftarrow> HTTPd_Get_Header_Value header second_line (chars ''Keep-Alive'');
     n \<leftarrow> (case t of None \<Rightarrow> Some None | Some t \<Rightarrow> number_at header t);
     let secs = (case n of Some n \<Rightarrow> of_int n | None \<Rightarrow> 5);
     Some (c\<lparr>connetion_mode := HTTPd_Connection_Mode_Keep_Alive, connection_keep_alive_time := secs\<rparr>, secs * 1000) }"

definition read_content_length :: "u8 list \<Rightarrow> nat \<Rightarrow> 'h connection \<Rightarrow> 'h connection option" where
  "read_content_length header second_line c = do {
     t \<leftarrow> HTTPd_Get_Header_Value header second_line (chars ''Content-Length'');
     n \<leftarrow> (case t of None \<Rightarrow> Some None | Some t \<Rightarrow> number_at header t);
     Some (case n of None \<Rightarrow> c | Some n \<Rightarrow> c\<lparr>data_len := of_int n, isLargeData := False, data_buff := None\<rparr>) }"

text \<open>The encodings are copied into 64 bytes, and their readers need a terminating zero.\<close>

definition read_accept_encoding :: "u8 list \<Rightarrow> nat \<Rightarrow> 'h connection \<Rightarrow> 'h connection option" where
  "read_accept_encoding header second_line c = do {
     t \<leftarrow> HTTPd_Get_Header_Value header second_line (chars ''Accept-Encoding'');
     (case t of
        None \<Rightarrow> Some c
      | Some t \<Rightarrow> do {
          e \<leftarrow> strstr header t CRLF;
          (case e of
             None \<Rightarrow> Some c
           | Some e \<Rightarrow> if 64 \<le> e - t then None else Some (c\<lparr>accept_encoding := take (e - t) (drop t header)\<rparr>)) }) }"

definition read_plain :: "u8 list \<Rightarrow> nat \<Rightarrow> nat \<Rightarrow> 'h connection \<Rightarrow> ('h connection \<times> u32 option) option" where
  "read_plain header second_line conn_str c = do {
     let c = c\<lparr>connetion_mode := HTTPd_Connection_Mode_Close\<rparr>;
     keep \<leftarrow> starts_any header conn_str [''Keep-Alive'', ''keep-alive''];
     (c, period) \<leftarrow> (if keep
       then map_option (\<lambda>(c, p). (c, Some p)) (read_keep_alive header second_line c)
       else Some (c, None));
     c \<leftarrow> read_content_length header second_line c;
     c \<leftarrow> read_accept_encoding header second_line c;
     cont_type \<leftarrow> HTTPd_Get_Header_Value header second_line (chars ''Content-Type'');
     Some (c, period) }"

definition read_headers :: "u8 list \<Rightarrow> nat \<Rightarrow> 'h connection \<Rightarrow> 'h parsed" where
  "read_headers header second_line c = do {
     h \<leftarrow> HTTPd_Get_Host header second_line;
     k \<leftarrow> HTTPd_Get_Header_Value header second_line (chars ''Connection'');
     (r, header1, c1, period) \<leftarrow> (case k of
         None \<Rightarrow> Some (0, header, c, None)
       | Some conn_str \<Rightarrow> do {
           upgrade \<leftarrow> starts_any header conn_str [''Upgrade'', ''upgrade''];
           if upgrade then read_upgrade header second_line c
           else map_option (\<lambda>(c1, p). (0, header, c1, p)) (read_plain header second_line conn_str c) });
     host \<leftarrow> (case h of None \<Rightarrow> Some None | Some h \<Rightarrow> map_option Some (c_string header1 h));
     Some (r, header1, c1\<lparr>hostName := host\<rparr>, period) }"

text \<open>The URL and its arguments end at the zero bytes that are written over the blank and the
  question mark; they are read when everything has been written.\<close>

definition HTTPd_Parse_InMsg_Headers :: "u8 list \<Rightarrow> 'h connection \<Rightarrow> 'h parsed" where
  "HTTPd_Parse_InMsg_Headers header c0 = do {
     let c = c0\<lparr>url := None\<rparr>;
     l \<leftarrow> strstr header 0 CRLF;
     (case l of
        None \<Rightarrow> Some (-1, header, c, None)
      | Some l \<Rightarrow> do {
          m \<leftarrow> HTTPd_Get_Header_Method header;
          let c = c\<lparr>requestType := m\<rparr>;
          if m = HTTPd_Method_UNKNOWN then Some (-1, header, c, None) else do {
          path \<leftarrow> HTTPd_Get_Header_Path header;
          (case path of
             None \<Rightarrow> Some (-1, header, c, None)
           | Some u \<Rightarrow> do {
               e \<leftarrow> strstr header u [32];
               (case e of
                  None \<Rightarrow> map_option (\<lambda>t. (-1, header, c\<lparr>url := Some t\<rparr>, None)) (c_string header u)
                | Some e \<Rightarrow> do {
                    let header = header[e := 0];
                    a \<leftarrow> strstr header u [63];
                    let header = (case a of None \<Rightarrow> header | Some a \<Rightarrow> header[a := 0]);
                    (r, header1, c1, period) \<leftarrow> read_headers header (l + 2) c;
                    t \<leftarrow> c_string header1 u;
                    args \<leftarrow> (case a of None \<Rightarrow> Some None | Some a \<Rightarrow> map_option Some (c_string header1 (a + 1)));
                    Some (r, header1, c1\<lparr>url := Some t, getArgs := args\<rparr>, period) }) }) } }) }"

section \<open>Looking up a header\<close>

definition header_text :: "(u8 list \<times> u8 list) list \<Rightarrow> u8 list" where
  "header_text hs = concat (map (\<lambda>(n, v). header_line n v) hs)"

definition header_ok :: "u8 list \<times> u8 list \<Rightarrow> bool" where
  "header_ok h \<longleftrightarrow> {0, 10} \<inter> (set (fst h) \<union> set (snd h)) = {}"

text \<open>A line does not stop the search for a name when it does not contain it, when the name is part of a
  longer word, or when nothing follows it on the line.\<close>

definition passes :: "u8 list \<Rightarrow> u8 list \<Rightarrow> bool" where
  "passes n l \<longleftrightarrow> (case find_text n l of
     None \<Rightarrow> True
   | Some i \<Rightarrow> 0 < i \<and> l ! (i - 1) \<notin> {32, 58} \<or> dropWhile (\<lambda>b. b = 32) (drop (i + length n) l) = CRLF)"

fun clean :: "u8 list \<Rightarrow> (u8 list \<times> u8 list) list \<Rightarrow> bool" where
  "clean n [] = True"
| "clean n ((k, v) # hs) = (k = n \<or> passes n (header_line k v) \<and> clean n hs)"

definition name_ok :: "u8 list \<Rightarrow> bool" where
  "name_ok n \<longleftrightarrow> n \<noteq> [] \<and> {0, 10, 13} \<inter> set n = {}"

lemma Get_Header_same:
  "strstr buf p n = strstr buf p' n \<Longrightarrow> HTTPd_Get_Header_Value buf p n = HTTPd_Get_Header_Value buf p' n"
  by (subst (1 2) HTTPd_Get_Header_Value.simps) simp

lemma strstr_skip:
  assumes "drop p buf = x @ y # t @ 0 # r" "find_text n x = None" "y \<notin> set n" "n \<noteq> []" "0 \<notin> set (x @ y # t)"
  shows "strstr buf p n = strstr buf (p + length x + 1) n"
proof -
  have "drop (p + length x + 1) buf = t @ 0 # r"
    using arg_cong [OF assms(1), of "drop (length x + 1)"] by (simp add: add.commute add.left_commute)
  moreover have "drop p buf = (x @ y # t) @ 0 # r" using assms(1) by simp
  moreover have "0 \<notin> set t" using assms(5) by simp
  ultimately have "strstr buf (p + length x + 1) n = Some (map_option ((+) (p + length x + 1)) (find_text n t))"
    "strstr buf p n = Some (map_option ((+) p) (find_text n (x @ y # t)))"
    using strstr_drop assms(5) by blast+
  then show ?thesis using assms(2-4) by (cases "find_text n t") (simp_all add: find_text_sep)
qed

lemma starts_at_CRLF:
  assumes "2 \<le> q" "q \<le> length buf"
  shows "starts_at buf (int q - 2) CRLF = Some (buf ! (q - 2) = 13 \<and> buf ! (q - 1) = 10)"
proof -
  obtain k where k: "q = Suc (Suc k)" using assms(1) by (metis add_2_eq_Suc le_Suc_ex)
  have "int q - 2 = int k" "int k + 1 = int (Suc k)" using k by simp_all
  then show ?thesis using assms(2) k by (simp add: CRLF_def cread_def nat_add_distrib)
qed

lemma only_blanks: "dropWhile (\<lambda>b. b = 32) (xs @ CRLF) = CRLF \<Longrightarrow> \<forall>b\<in>set xs. b = 32"
proof (induction xs)
  case (Cons x xs)
  have "x = 32"
  proof (rule ccontr)
    assume "x \<noteq> 32"
    then have "(x # xs) @ CRLF = CRLF" using Cons.prems by simp
    then show False by (metis append_self_conv2 list.distinct(1))
  qed
  moreover from this have "\<forall>b\<in>set xs. b = 32"
    using Cons.prems by (intro Cons.IH) (simp only: append_Cons dropWhile.simps refl if_True)
  ultimately show ?case by simp
qed simp

text \<open>Past a line that the search for \<open>n\<close> passes.\<close>

lemma Get_Header_next_line:
  assumes "drop p buf = a @ CRLF @ t @ 0 # r" "{0, 10} \<inter> set a = {}" "0 \<notin> set t" "name_ok n"
    "passes n (a @ CRLF)" "2 \<le> p"
  shows "HTTPd_Get_Header_Value buf p n = HTTPd_Get_Header_Value buf (p + length a + 2) n"
proof -
  note n = assms(4) [unfolded name_ok_def]
  have at: "drop (p + i) buf = drop i (a @ CRLF @ t @ 0 # r)" for i
    using arg_cong [OF assms(1), of "drop i"] by (simp add: add.commute)
  have behind: "HTTPd_Get_Header_Value buf (p + length a) n = HTTPd_Get_Header_Value buf (p + length a + 2) n"
    "HTTPd_Get_Header_Value buf (p + length a + 1) n = HTTPd_Get_Header_Value buf (p + length a + 2) n"
  proof -
    have "strstr buf (p + length a) n = strstr buf (p + length a + 1) n"
      using strstr_skip [of "p + length a" buf "[]" 13 "10 # t" r n] at [of "length a"] n assms(3) by (simp add: CRLF_def)
    moreover have "strstr buf (p + length a + 1) n = strstr buf (p + length a + 2) n"
      using strstr_skip [of "p + length a + 1" buf "[]" 10 t r n] at [of "length a + 1"] n assms(3) by (simp add: CRLF_def)
    ultimately show "HTTPd_Get_Header_Value buf (p + length a) n = HTTPd_Get_Header_Value buf (p + length a + 2) n"
      "HTTPd_Get_Header_Value buf (p + length a + 1) n = HTTPd_Get_Header_Value buf (p + length a + 2) n"
      by (metis Get_Header_same)+
  qed
  have a_CRLF: "find_text n (a @ CRLF @ t) = (case find_text n a of Some i \<Rightarrow> Some i
      | None \<Rightarrow> map_option ((+) (length a + 2)) (find_text n t))" for t
    using n find_text_sep [of 13 n a "10 # t"] find_text_sep [of 10 n "[]" t]
    by (cases "find_text n a"; cases "find_text n t") (simp_all add: CRLF_def)
  show ?thesis
  proof (cases "find_text n a")
    case None
    have "strstr buf p n = strstr buf (p + length a + 1) n"
      using strstr_skip [of p buf a 13 "10 # t" r n] assms(1,2,3) n None by (auto simp: CRLF_def)
    then show ?thesis using behind(2) Get_Header_same by metis
  next
    case (Some i)
    have "passes n (a @ CRLF) = passes n (a @ CRLF @ [])" by simp
    then have i: "0 < i \<and> (a @ CRLF) ! (i - 1) \<notin> {32, 58} \<or> dropWhile (\<lambda>b. b = 32) (drop (i + length n) (a @ CRLF)) = CRLF"
      using assms(5) Some unfolding passes_def a_CRLF [of "[]"] by simp
    have len: "i + length n \<le> length a" using find_text_found [OF Some] by simp
    moreover have "0 < length n" using n by simp
    ultimately have less: "i - 1 < length a" by linarith
    let ?q = "p + i"
    have str: "strstr buf p n = Some (Some ?q)"
      using strstr_drop [of p buf "a @ CRLF @ t" r n] assms(1-3) Some unfolding a_CRLF by (auto simp: CRLF_def)
    have "length buf - p = length (a @ CRLF @ t @ 0 # r)" using assms(1) by (metis length_drop)
    then have q: "2 \<le> ?q" "?q \<le> length buf" using assms(6) len by auto
    have next_end: "strstr buf ?q CRLF = Some (Some (p + length a))"
    proof -
      have "drop ?q buf = (drop i a @ CRLF @ t) @ 0 # r" using at [of i] len by simp
      moreover have "0 \<notin> set (drop i a @ CRLF @ t)" using assms(2,3) by (auto simp: CRLF_def dest: in_set_dropD)
      moreover have "10 \<notin> set (drop i a)" using assms(2) by (auto dest: in_set_dropD)
      ultimately show ?thesis using strstr_drop [of ?q buf "drop i a @ CRLF @ t" r CRLF] len find_CRLF [of "drop i a" t] by simp
    qed
    have b: "buf ! (?q - 1) = a ! (i - 1)" if "0 < i"
    proof -
      have "buf ! (p + (i - 1)) = drop p buf ! (i - 1)" using q(2) that by (intro nth_drop [symmetric]) simp
      then show ?thesis using assms(1) that less by (simp add: nth_append)
    qed
    define ok where "ok \<longleftrightarrow> buf ! (?q - 2) = 13 \<and> buf ! (?q - 1) = 10 \<or> buf ! (?q - 1) \<in> {32, 58, 0}"
    have read: "HTTPd_Get_Header_Value buf p n = (if \<not> ok then HTTPd_Get_Header_Value buf (p + length a) n
      else do {
             q1 \<leftarrow> skip_over (\<lambda>b. b = 32) buf (?q + length n);
             b \<leftarrow> cread buf (int q1);
             if b \<noteq> 58 then HTTPd_Get_Header_Value buf (q1 + 1) n
             else map_option Some (skip_over (\<lambda>b. b = 32) buf (q1 + 1)) })"
    proof -
      have e: "int ?q - 1 = int (?q - 1)" using q(1) by linarith
      have "cread buf (int (?q - 1)) = Some (buf ! (?q - 1))" using q by (intro cread_nat) linarith
      then have "cread buf (int ?q - 1) = Some (buf ! (?q - 1))" unfolding e .
      then show ?thesis
        by (subst HTTPd_Get_Header_Value.simps) (simp add: str starts_at_CRLF [OF q, simplified] next_end ok_def)
    qed
    show ?thesis
    proof (cases ok)
      case False
      then show ?thesis using read behind by simp
    next
      case True
      have "\<not> (0 < i \<and> (a @ CRLF) ! (i - 1) \<notin> {32, 58})"
      proof
        assume "0 < i \<and> (a @ CRLF) ! (i - 1) \<notin> {32, 58}"
        moreover have "a ! (i - 1) \<noteq> 0" "a ! (i - 1) \<noteq> 10" using nth_mem [OF less] assms(2) by auto
        ultimately show False using True b assms(2) less unfolding ok_def by (auto simp: nth_append)
      qed
      with i have "dropWhile (\<lambda>b. b = 32) (drop (i + length n) (a @ CRLF)) = CRLF" by blast
      then have "dropWhile (\<lambda>b. b = 32) (drop (i + length n) a @ CRLF) = CRLF" using len by simp
      then have blanks: "\<forall>b\<in>set (drop (i + length n) a). b = 32" by (rule only_blanks)
      have "drop (?q + length n) buf = drop (i + length n) a @ 13 # 10 # t @ 0 # r"
        using at [of "i + length n"] len by (simp add: CRLF_def add.assoc)
      from skip_over_drop [OF this blanks] have "skip_over (\<lambda>b. b = 32) buf (?q + length n) = Some (p + length a)"
        using len by simp
      moreover have "cread buf (int (p + length a)) = Some 13"
        using at [of "length a"] by (intro cread_drop) (simp add: CRLF_def)
      ultimately show ?thesis using read True behind by simp
    qed
  qed
qed

lemma header_line_text: "header_line k v = (k @ [58, 32] @ v) @ CRLF"
  by (simp add: header_line_def)

lemma header_text_nonzero: "\<forall>h\<in>set hs. header_ok h \<Longrightarrow> 0 \<notin> set (header_text hs)"
  by (induction hs) (fastforce simp: header_text_def header_ok_def header_line_def CRLF_def split: prod.splits)+

text \<open>Blanks in front of a value are skipped.\<close>

abbreviation (input) unpadded :: "u8 list \<Rightarrow> u8 list" where
  "unpadded v \<equiv> dropWhile (\<lambda>b. b = 32) v"

lemma Get_Header_this_line:
  assumes "drop p buf = n @ [58, 32] @ v @ CRLF @ t @ 0 # r" "0 \<notin> set (n @ v @ t)" "name_ok n"
    "2 \<le> p" "buf ! (p - 2) = 13" "buf ! (p - 1) = 10"
  shows "\<exists>q\<ge>p. HTTPd_Get_Header_Value buf p n = Some (Some q) \<and> drop q buf = unpadded v @ CRLF @ t @ 0 # r"
proof -
  note n = assms(3) [unfolded name_ok_def]
  have at: "drop (p + i) buf = drop i (n @ [58, 32] @ v @ CRLF @ t @ 0 # r)" for i
    using arg_cong [OF assms(1), of "drop i"] by (simp add: add.commute)
  have "drop p buf = (n @ [58, 32] @ v @ CRLF @ t) @ 0 # r" using assms(1) by simp
  moreover have "find_text n (n @ [58, 32] @ v @ CRLF @ t) = Some 0" by (rule find_text_prefix) (use n in auto)
  ultimately have str: "strstr buf p n = Some (Some p)"
    using strstr_drop [of p buf "n @ [58, 32] @ v @ CRLF @ t" r n] assms(2) by (simp add: CRLF_def)
  have "p \<le> length buf" using assms(1) by (cases "p \<le> length buf") simp_all
  with assms(4-6) have line: "starts_at buf (int p - 2) CRLF = Some True" by (simp add: starts_at_CRLF)
  have colon: "drop (p + length n) buf = [] @ 58 # (32 # v @ CRLF @ t @ 0 # r)" using at [of "length n"] by simp
  let ?w = "takeWhile (\<lambda>b. b = 32) (32 # v)"
  obtain b u where bu: "unpadded v @ CRLF @ t @ 0 # r = b # u" "b \<noteq> 32"
  proof (cases "unpadded v")
    case (Cons b w)
    then have "b \<noteq> 32" using hd_dropWhile [of "\<lambda>b. b = 32" v] by simp
    with Cons show thesis by (intro that [of b]) simp_all
  qed (simp add: CRLF_def)
  have "drop (p + length n + 1) buf = ?w @ b # u"
    using at [of "length n + 1"] bu(1) by (simp add: add.assoc) (metis append_assoc takeWhile_dropWhile_id)
  note w = this
  have "\<forall>x\<in>set ?w. x = 32" by (auto dest: set_takeWhileD)
  from skip_over_drop [OF w this bu(2)] have
    val: "skip_over (\<lambda>b. b = 32) buf (p + length n + 1) = Some (p + length n + 1 + length ?w)" .
  have "HTTPd_Get_Header_Value buf p n = Some (Some (p + length n + 1 + length ?w))"
    using skip_over_drop [OF colon, of "\<lambda>b. b = 32"] cread_drop [of "p + length n" buf 58] colon val
    by (subst HTTPd_Get_Header_Value.simps) (simp add: str line)
  moreover have "drop (length ?w) (drop (p + length n + 1) buf) = b # u"
    unfolding w by (simp only: drop_append drop_all order_refl diff_self_eq_0 drop_0 append_Nil)
  then have "drop (p + length n + 1 + length ?w) buf = b # u" by (simp only: drop_drop ac_simps)
  ultimately show ?thesis unfolding bu(1) by (intro exI [of _ "p + length n + 1 + length ?w"]) simp
qed

lemma Get_Header_Value_text:
  assumes "drop p buf = header_text hs @ CRLF @ 0 # r" "\<forall>h\<in>set hs. header_ok h" "clean n hs" "name_ok n"
    "2 \<le> p" "buf ! (p - 2) = 13" "buf ! (p - 1) = 10"
  shows "case map_of hs n of
      None \<Rightarrow> HTTPd_Get_Header_Value buf p n = Some None
    | Some v \<Rightarrow> \<exists>q\<ge>p. \<exists>t. HTTPd_Get_Header_Value buf p n = Some (Some q) \<and>
        drop q buf = unpadded v @ CRLF @ t @ 0 # r \<and> 0 \<notin> set (unpadded v @ CRLF @ t)"
  using assms(1-3,5-7)
proof (induction hs arbitrary: p)
  case Nil
  have "find_text n CRLF = None"
    using assms(4) find_text_sep [of 13 n "[]" "[10]"] find_text_sep [of 10 n "[]" "[]"] by (simp add: name_ok_def CRLF_def)
  then have "strstr buf p n = Some None"
    using strstr_drop [of p buf CRLF r n] Nil.prems(1) by (simp add: header_text_def CRLF_def)
  then show ?case by (subst HTTPd_Get_Header_Value.simps) simp
next
  case (Cons h hs)
  obtain k v where h: "h = (k, v)" by (cases h)
  let ?t = "header_text hs @ CRLF"
  have ok: "{0, 10} \<inter> (set k \<union> set v) = {}" using Cons.prems(2) h by (simp add: header_ok_def)
  have t0: "0 \<notin> set ?t" using header_text_nonzero [of hs] Cons.prems(2) by (simp add: CRLF_def)
  have here: "drop p buf = header_line k v @ ?t @ 0 # r"
    using Cons.prems(1) h by (simp add: header_text_def)
  show ?case
  proof (cases "k = n")
    case True
    have "drop p buf = n @ [58, 32] @ v @ CRLF @ ?t @ 0 # r" using here True by (simp add: header_line_def)
    moreover have "0 \<notin> set (n @ v @ ?t)" using ok True t0 by auto
    ultimately obtain q where "p \<le> q" "HTTPd_Get_Header_Value buf p n = Some (Some q)" "drop q buf = unpadded v @ CRLF @ ?t @ 0 # r"
      using Get_Header_this_line assms(4) Cons.prems(4-6) by blast
    moreover have "0 \<notin> set (unpadded v @ CRLF @ ?t)"
      using t0 ok by (auto simp: CRLF_def dest: set_dropWhileD)
    ultimately show ?thesis using h True by auto
  next
    case False
    let ?a = "k @ [58, 32] @ v" and ?p = "p + length (header_line k v)"
    have next_line: "drop ?p buf = header_text hs @ CRLF @ 0 # r"
      using arg_cong [OF here, of "drop (length (header_line k v))"] by (simp add: add.commute)
    have "drop p buf = ?a @ CRLF @ ?t @ 0 # r" using here by (simp add: header_line_def)
    moreover have "passes n (?a @ CRLF)" "clean n hs"
      using Cons.prems(3) False h by (simp_all add: header_line_def)
    ultimately have same: "HTTPd_Get_Header_Value buf p n = HTTPd_Get_Header_Value buf ?p n"
      using Get_Header_next_line [of p buf ?a ?t r n] ok t0 assms(4) Cons.prems(4) by (simp add: header_line_def CRLF_def)
    have "buf ! (?p - 2) = 13" "buf ! (?p - 1) = 10"
    proof -
      have drop: "drop p buf = ?a @ CRLF @ ?t @ 0 # r" using here by (simp add: header_line_def)
      have "p \<le> length buf" using drop by (cases "p \<le> length buf") simp_all
      then have "buf ! (p + (length ?a + i)) = (?a @ CRLF @ ?t @ 0 # r) ! (length ?a + i)" for i
        unfolding drop [symmetric] by (simp only: nth_drop)
      from this [of 0] this [of 1] show "buf ! (?p - 2) = 13" "buf ! (?p - 1) = 10"
        by (simp_all add: header_line_def CRLF_def nth_append)
    qed
    moreover have "2 \<le> ?p" using Cons.prems(4) by simp
    ultimately show ?thesis
      using Cons.IH [of ?p, OF next_line] Cons.prems(2) \<open>clean n hs\<close> h False unfolding same
      by (auto split: option.splits intro: order_trans [of p ?p])
  qed
qed

section \<open>The request line\<close>

definition method_text :: "HTTPd_Method \<Rightarrow> u8 list" where
  "method_text m = chars (case m of HTTPd_Method_POST \<Rightarrow> ''POST'' | HTTPd_Method_GET \<Rightarrow> ''GET''
     | HTTPd_Method_PUT \<Rightarrow> ''PUT'' | HTTPd_Method_DELETE \<Rightarrow> ''DELETE'' | HTTPd_Method_UNKNOWN \<Rightarrow> [])"

definition target_text :: "u8 list \<Rightarrow> u8 list option \<Rightarrow> u8 list" where
  "target_text path args = path @ (case args of None \<Rightarrow> [] | Some a \<Rightarrow> 63 # a)"

definition request_line :: "HTTPd_Method \<Rightarrow> u8 list \<Rightarrow> u8 list" where
  "request_line m target = method_text m @ 32 # target @ 32 # chars ''HTTP/1.1''"

definition request_text :: "HTTPd_Method \<Rightarrow> u8 list \<Rightarrow> (u8 list \<times> u8 list) list \<Rightarrow> u8 list" where
  "request_text m target hs = request_line m target @ CRLF @ header_text hs @ CRLF"

text \<open>The methods that are looked for first must not be part of the target.\<close>

definition methods_before :: "HTTPd_Method \<Rightarrow> string list" where
  "methods_before m = (case m of HTTPd_Method_POST \<Rightarrow> [] | HTTPd_Method_GET \<Rightarrow> [''POST'']
     | HTTPd_Method_PUT \<Rightarrow> [''POST'', ''GET''] | _ \<Rightarrow> [''POST'', ''GET'', ''PUT''])"

definition target_ok :: "HTTPd_Method \<Rightarrow> u8 list \<Rightarrow> bool" where
  "target_ok m target \<longleftrightarrow> target \<noteq> [] \<and> {0, 10, 13, 32} \<inter> set target = {} \<and>
     list_all (\<lambda>w. \<not> sublist (chars w) target) ([''HTTP/1.0'', ''HTTP/1.1''] @ methods_before m)"

definition word_ok :: "u8 list \<Rightarrow> bool" where
  "word_ok w \<longleftrightarrow> w \<noteq> [] \<and> {0, 10, 13, 32} \<inter> set w = {}"

lemma words_ok: "word_ok (chars ''POST'')" "word_ok (chars ''GET'')" "word_ok (chars ''PUT'')" "word_ok (chars ''DELETE'')"
  "word_ok (chars ''HTTP/1.0'')" "word_ok (chars ''HTTP/1.1'')"
  by (simp_all add: word_ok_def)

abbreviation (input) target_clear :: "u8 list \<Rightarrow> bool" where
  "target_clear target \<equiv> {0, 10, 13, 32} \<inter> set target = {}"

lemma target_ok_clear: "target_ok m target \<Longrightarrow> target_clear target"
  by (simp add: target_ok_def)

lemma line_clear: "target_clear target \<Longrightarrow> {0, 10} \<inter> set (request_line m target) = {}"
  by (auto simp: request_line_def method_text_def split: HTTPd_Method.splits)

lemma word_in_line: "word_ok w \<Longrightarrow> sublist w (request_line m target) \<longleftrightarrow>
    sublist w (method_text m) \<or> sublist w target \<or> sublist w (chars ''HTTP/1.1'')"
  by (simp add: request_line_def sublist_sep word_ok_def del: chars_simps)

lemma request_at:
  "drop 0 (request_text m target hs @ 0 # r) = (request_line m target @ CRLF @ header_text hs @ CRLF) @ 0 # r"
  by (simp add: request_text_def)

lemma request_search:
  assumes "target_clear target" "\<forall>h\<in>set hs. header_ok h"
  shows "strstr (request_text m target hs @ 0 # r) 0 w =
    Some (find_text w (request_line m target @ CRLF @ header_text hs @ CRLF))"
proof -
  have "0 \<notin> set (request_line m target @ CRLF @ header_text hs @ CRLF)"
    using line_clear [OF assms(1)] header_text_nonzero [OF assms(2)] by (auto simp: CRLF_def)
  moreover have "(+) (0 :: nat) = id" by (simp add: fun_eq_iff)
  ultimately show ?thesis using strstr_drop [OF request_at] by (simp add: option.map_id0)
qed

lemma request_first_line:
  assumes "target_clear target" "\<forall>h\<in>set hs. header_ok h"
  shows "strstr (request_text m target hs @ 0 # r) 0 CRLF = Some (Some (length (request_line m target)))"
  using request_search [OF assms] find_CRLF line_clear [OF assms(1)] by auto

lemma word_search:
  assumes "word_ok w"
  shows "find_text w (request_line m target @ CRLF @ t) = (case find_text w (request_line m target) of
      Some i \<Rightarrow> Some i | None \<Rightarrow> map_option ((+) (Suc (length (request_line m target)))) (find_text w (10 # t)))"
  using find_text_sep [of 13 w "request_line m target" "10 # t"] assms by (simp add: word_ok_def CRLF_def)

lemma word_found_before:
  assumes "target_clear target" "\<forall>h\<in>set hs. header_ok h" "word_ok w"
  shows "found_before (request_text m target hs @ 0 # r) w (length (request_line m target)) =
    Some (sublist w (request_line m target))"
proof (cases "find_text w (request_line m target)")
  case None
  then show ?thesis
    using find_text_None [of w "request_line m target"] word_search [OF assms(3), of m target "header_text hs @ CRLF"]
    by (auto simp: found_before_def request_search [OF assms(1,2)] split: option.splits)
next
  case (Some i)
  moreover have "w \<noteq> []" using assms(3) by (simp add: word_ok_def)
  ultimately have "i < length (request_line m target)" using find_text_found [OF Some] by (cases w) auto
  then show ?thesis
    using Some find_text_None [of w "request_line m target"] word_search [OF assms(3), of m target "header_text hs @ CRLF"]
    by (auto simp: found_before_def request_search [OF assms(1,2)])
qed

lemma request_method:
  assumes "target_ok m target" "\<forall>h\<in>set hs. header_ok h" "m \<noteq> HTTPd_Method_UNKNOWN"
  shows "HTTPd_Get_Header_Method (request_text m target hs @ 0 # r) = Some m"
proof -
  note found = word_found_before [OF target_ok_clear [OF assms(1)] assms(2), OF words_ok(1), of m r] word_found_before [OF target_ok_clear [OF assms(1)] assms(2), OF words_ok(2), of m r]
    word_found_before [OF target_ok_clear [OF assms(1)] assms(2), OF words_ok(3), of m r] word_found_before [OF target_ok_clear [OF assms(1)] assms(2), OF words_ok(4), of m r]
  have words: "\<not> sublist (chars ''POST'') (chars ''HTTP/1.1'')" "\<not> sublist (chars ''GET'') (chars ''HTTP/1.1'')"
    "\<not> sublist (chars ''PUT'') (chars ''HTTP/1.1'')" "\<not> sublist (chars ''POST'') (chars ''GET'')"
    "\<not> sublist (chars ''POST'') (chars ''PUT'')" "\<not> sublist (chars ''POST'') (chars ''DELETE'')"
    "\<not> sublist (chars ''GET'') (chars ''PUT'')" "\<not> sublist (chars ''GET'') (chars ''DELETE'')"
    "\<not> sublist (chars ''PUT'') (chars ''DELETE'')"
    by (simp_all add: sublist_Cons_right)
  have clear: "list_all (\<lambda>w. \<not> sublist (chars w) target) (methods_before m)" using assms(1) by (simp add: target_ok_def)
  show ?thesis
    unfolding HTTPd_Get_Header_Method_def request_first_line [OF target_ok_clear [OF assms(1)] assms(2)] bind.simps option.case found
      word_in_line [OF words_ok(1)] word_in_line [OF words_ok(2)] word_in_line [OF words_ok(3)] word_in_line [OF words_ok(4)]
    using clear assms(3) words by (cases m) (simp_all add: method_text_def methods_before_def del: chars_simps)
qed

lemma request_path:
  assumes "target_ok m target" "\<forall>h\<in>set hs. header_ok h"
  shows "HTTPd_Get_Header_Path (request_text m target hs @ 0 # r) = Some (Some (length (method_text m) + 1))"
proof -
  let ?buf = "request_text m target hs @ 0 # r"
  let ?line = "request_line m target" and ?x = "method_text m @ 32 # target"
  have t: "target \<noteq> []" "{0, 10, 13, 32} \<inter> set target = {}"
    "\<not> sublist (chars ''HTTP/1.0'') target" "\<not> sublist (chars ''HTTP/1.1'') target"
    using assms(1) by (simp_all add: target_ok_def)
  have m: "\<not> sublist (chars ''HTTP/1.0'') (method_text m)" "\<not> sublist (chars ''HTTP/1.1'') (method_text m)"
    "\<not> sublist (chars ''HTTP/1.0'') (chars ''HTTP/1.1'')"
    by (cases m; simp add: method_text_def sublist_Cons_right)+
  note search = request_search [OF target_ok_clear [OF assms(1)] assms(2), of m r]
  have v0: "find_text (chars ''HTTP/1.0'') ?line = None"
    unfolding find_text_None word_in_line [OF words_ok(5)] using t m by blast
  have "find_text (chars ''HTTP/1.1'') ?x = None"
    unfolding find_text_None using sublist_sep [of 32 "chars ''HTTP/1.1''" "method_text m" target] t(4) m(2) by simp
  then have v1: "find_text (chars ''HTTP/1.1'') ?line = Some (length ?x + 1)"
    using find_text_sep [of 32 "chars ''HTTP/1.1''" ?x "chars ''HTTP/1.1''"] by (simp add: request_line_def)
  have none: "\<not> (\<exists>q. strstr ?buf 0 (chars ''HTTP/1.0'') = Some (Some q) \<and> q < length ?line)"
    unfolding search word_search [OF words_ok(5)] v0 by auto
  obtain r0 where r0: "strstr ?buf 0 (chars ''HTTP/1.0'') = Some r0" using search by blast
  have one: "strstr ?buf 0 (chars ''HTTP/1.1'') = Some (Some (length ?x + 1))"
    unfolding search word_search [OF words_ok(6)] v1 by simp
  have q: "length ?x + 1 < length ?line" by (simp add: request_line_def)
  have last: "last target \<noteq> 32" using last_in_set [OF t(1)] t(2) by auto
  have take_q: "take (length ?x + 1) ?buf = (method_text m @ 32 # butlast target) @ last target # [32]"
    using t(1) by (simp add: request_text_def request_line_def)
  have s1: "skip_back (\<lambda>b. b = 32) ?buf (length ?x + 1) = Some (Suc (length (method_text m @ 32 # butlast target)))"
    by (rule skip_back_take [OF take_q]) (use t last in \<open>auto simp: request_text_def request_line_def\<close>)
  have e: "Suc (length (method_text m @ 32 # butlast target)) = length ?x" using t(1) by (cases target) simp_all
  have s2: "skip_back (\<lambda>b. b \<noteq> 32) ?buf (length ?x) = Some (Suc (length (method_text m)))"
    by (rule skip_back_take [of _ _ "method_text m" 32 target]) (use t in \<open>auto simp: request_text_def request_line_def\<close>)
  have "path_before ?buf (length ?x + 1) = Some (length (method_text m) + 1)"
    unfolding path_before_def s1 [unfolded e] bind.simps s2 by simp
  then have "version_1_1 ?buf (length ?line) = Some (Some (length (method_text m) + 1))"
    using q unfolding version_1_1_def one by simp
  then show ?thesis
    unfolding HTTPd_Get_Header_Path_def request_first_line [OF target_ok_clear [OF assms(1)] assms(2)] r0 using none r0 by (auto split: option.splits)
qed

text \<open>The buffer once the zero bytes are written.\<close>

definition opened_request ::
  "HTTPd_Method \<Rightarrow> u8 list \<Rightarrow> u8 list option \<Rightarrow> (u8 list \<times> u8 list) list \<Rightarrow> u8 list \<Rightarrow> u8 list"
where
  "opened_request m path args hs r = method_text m @ 32 # path @ (case args of None \<Rightarrow> [] | Some a \<Rightarrow> 0 # a) @
     0 # chars ''HTTP/1.1'' @ CRLF @ header_text hs @ CRLF @ 0 # r"

lemma parse_target:
  assumes "target_ok m (target_text path args)" "63 \<notin> set path" "\<forall>h\<in>set hs. header_ok h" "m \<noteq> HTTPd_Method_UNKNOWN"
    "l = length (request_line m (target_text path args))"
    "read_headers (opened_request m path args hs r) (l + 2) (c\<lparr>url := None, requestType := m\<rparr>) = Some (ret, buf, c1, period)"
    "take l buf = take l (opened_request m path args hs r)" "length buf = length (opened_request m path args hs r)"
  shows "HTTPd_Parse_InMsg_Headers (request_text m (target_text path args) hs @ 0 # r) c =
    Some (ret, buf, c1\<lparr>url := Some path, getArgs := args\<rparr>, period)"
proof -
  let ?t = "target_text path args" and ?u = "length (method_text m) + 1"
  let ?buf = "request_text m ?t hs @ 0 # r"
  have t: "?t \<noteq> []" "{0, 10, 13, 32} \<inter> set ?t = {}" using assms(1) by (simp_all add: target_ok_def)
  have H: "0 \<notin> set (header_text hs)" by (rule header_text_nonzero [OF assms(3)])
  have "drop ?u ?buf = (?t @ 32 # chars ''HTTP/1.1'' @ CRLF @ header_text hs @ CRLF) @ 0 # r"
    by (simp add: request_text_def request_line_def)
  moreover have "0 \<notin> set (?t @ 32 # chars ''HTTP/1.1'' @ CRLF @ header_text hs @ CRLF)"
    using t(2) H by (auto simp: CRLF_def)
  ultimately have "strstr ?buf ?u [32] =
      Some (map_option ((+) ?u) (find_text [32] (?t @ 32 # chars ''HTTP/1.1'' @ CRLF @ header_text hs @ CRLF)))"
    by (rule strstr_drop)
  then have e: "strstr ?buf ?u [32] = Some (Some (?u + length ?t))"
    using find_text_single [of 32 ?t] t(2) by (simp del: chars_simps)
  let ?b1 = "?buf[?u + length ?t := 0]"
  have b1: "?b1 = method_text m @ 32 # ?t @ 0 # chars ''HTTP/1.1'' @ CRLF @ header_text hs @ CRLF @ 0 # r"
    by (simp add: request_text_def request_line_def list_update_append)
  then have "drop ?u ?b1 = ?t @ 0 # chars ''HTTP/1.1'' @ CRLF @ header_text hs @ CRLF @ 0 # r" by simp
  then have a: "strstr ?b1 ?u [63] = Some (map_option ((+) ?u) (find_text [63] ?t))"
    by (rule strstr_drop) (use t(2) in auto)
  have pos: "find_text [63] ?t = (case args of None \<Rightarrow> None | Some _ \<Rightarrow> Some (length path))"
    using assms(2) find_text_single [of 63 path] find_text_None [of "[63]" path]
    by (auto simp: target_text_def sublist_def split: option.splits)
  have opened: "(case find_text [63] ?t of None \<Rightarrow> ?b1 | Some a \<Rightarrow> ?b1[?u + a := 0]) = opened_request m path args hs r"
    unfolding b1 pos by (cases args) (simp_all add: target_text_def opened_request_def list_update_append)
  have l: "l = length (method_text m) + 1 + length ?t + 9" using assms(5) by (simp add: request_line_def)
  have texts: "c_string buf ?u = Some path" "args = Some a \<Longrightarrow> c_string buf (?u + length path + 1) = Some a" for a
  proof -
    have nz: "0 \<notin> set path" "args = Some a \<Longrightarrow> 0 \<notin> set a" using t(2) by (auto simp: target_text_def)
    let ?mid = "case args of None \<Rightarrow> [] | Some a \<Rightarrow> 0 # a"
    let ?pre = "method_text m @ 32 # path @ ?mid @ 0 # chars ''HTTP/1.1''"
    have "length ?pre = l" unfolding l by (cases args) (simp_all add: target_text_def)
    moreover have "opened_request m path args hs r = ?pre @ CRLF @ header_text hs @ CRLF @ 0 # r"
      by (simp add: opened_request_def)
    ultimately have "take l buf = ?pre" unfolding assms(7) by (metis append_eq_conv_conj)
    then have buf: "buf = ?pre @ drop l buf" by (metis append_take_drop_id)
    have "drop ?u (?pre @ t) = path @ 0 # (case args of None \<Rightarrow> [] | Some a \<Rightarrow> a @ [0]) @ chars ''HTTP/1.1'' @ t" for t
      by (cases args) simp_all
    then have "drop ?u buf = path @ 0 # (case args of None \<Rightarrow> [] | Some a \<Rightarrow> a @ [0]) @ chars ''HTTP/1.1'' @ drop l buf"
      using buf by metis
    then show "c_string buf ?u = Some path" using nz(1) by (rule c_string_drop)
    assume args: "args = Some a"
    have "drop (?u + length path + 1) (?pre @ t) = a @ 0 # chars ''HTTP/1.1'' @ t" for t
      by (simp add: args)
    then have "drop (?u + length path + 1) buf = a @ 0 # chars ''HTTP/1.1'' @ drop l buf" using buf by metis
    then show "c_string buf (?u + length path + 1) = Some a" using nz(2) [OF args] by (rule c_string_drop)
  qed
  show ?thesis
    unfolding HTTPd_Parse_InMsg_Headers_def Let_def request_first_line [OF target_ok_clear [OF assms(1)] assms(3)] bind.simps option.case
      request_method [OF assms(1,3,4)] request_path [OF assms(1,3)] e a
    using assms(4,6) texts pos opened unfolding assms(5)
    by (cases args) (simp_all add: option.map_comp comp_def)
qed

section \<open>The headers of a request\<close>

definition header_value :: "string \<Rightarrow> (u8 list \<times> u8 list) list \<Rightarrow> u8 list option" where
  "header_value n hs = map_option unpadded (map_of hs (chars n))"

definition starts_with :: "u8 list \<Rightarrow> string list \<Rightarrow> bool" where
  "starts_with w lits \<longleftrightarrow> list_ex (\<lambda>l. prefix (chars l) w) lits"

text \<open>What a list of headers sets in a connection, and the new period of its timer.\<close>

definition body_settings :: "(u8 list \<times> u8 list) list \<Rightarrow> 'h connection \<Rightarrow> 'h connection" where
  "body_settings hs c = (let
     c1 = (case header_value ''Content-Length'' hs of None \<Rightarrow> c
       | Some w \<Rightarrow> c\<lparr>data_len := of_int (atoi w), isLargeData := False, data_buff := None\<rparr>)
     in case header_value ''Accept-Encoding'' hs of None \<Rightarrow> c1 | Some w \<Rightarrow> c1\<lparr>accept_encoding := w\<rparr>)"

definition settings :: "(u8 list \<times> u8 list) list \<Rightarrow> 'h connection \<Rightarrow> 'h connection \<times> u32 option" where
  "settings hs c = (case header_value ''Connection'' hs of
     None \<Rightarrow> (c, None)
   | Some w \<Rightarrow>
       if starts_with w [''Keep-Alive'', ''keep-alive''] then
         (let secs = (case header_value ''Keep-Alive'' hs of Some w \<Rightarrow> of_int (atoi w) | None \<Rightarrow> 5)
          in (body_settings hs (c\<lparr>connetion_mode := HTTPd_Connection_Mode_Keep_Alive, connection_keep_alive_time := secs\<rparr>),
              Some (secs * 1000)))
       else (body_settings hs (c\<lparr>connetion_mode := HTTPd_Connection_Mode_Close\<rparr>), None))"

definition header_names :: "string list" where
  "header_names = [''Host'', ''Connection'', ''Upgrade'', ''Sec-WebSocket-Key'', ''Keep-Alive'',
     ''Content-Length'', ''Accept-Encoding'', ''Content-Type'']"

text \<open>Headers that the server can read: the names it looks for are found where they are meant, and the
  values fit its buffers.\<close>

definition readable :: "(u8 list \<times> u8 list) list \<Rightarrow> bool" where
  "readable hs \<longleftrightarrow> (\<forall>h\<in>set hs. header_ok h) \<and>
     list_all (\<lambda>n. clean (chars n) hs) header_names \<and>
     list_all (\<lambda>(n, k). case header_value n hs of None \<Rightarrow> True | Some w \<Rightarrow> length w < k)
       [(''Keep-Alive'', 20 :: nat), (''Content-Length'', 20), (''Accept-Encoding'', 64)]"

lemma names_ok: "list_all (\<lambda>n. name_ok (chars n)) header_names"
  by (simp add: name_ok_def header_names_def)

lemma header_names: "''Host'' \<in> set header_names" "''Connection'' \<in> set header_names" "''Upgrade'' \<in> set header_names"
  "''Sec-WebSocket-Key'' \<in> set header_names" "''Keep-Alive'' \<in> set header_names"
  "''Content-Length'' \<in> set header_names" "''Accept-Encoding'' \<in> set header_names"
  "''Content-Type'' \<in> set header_names"
  by (simp_all add: header_names_def)

definition headers_at :: "u8 list \<Rightarrow> nat \<Rightarrow> (u8 list \<times> u8 list) list \<Rightarrow> bool" where
  "headers_at buf p hs \<longleftrightarrow> (\<exists>r. drop p buf = header_text hs @ CRLF @ 0 # r) \<and> 2 \<le> p \<and> buf ! (p - 2) = 13 \<and> buf ! (p - 1) = 10"

lemma header_read:
  assumes "headers_at buf p hs" "readable hs" "n \<in> set header_names"
  obtains (absent) "header_value n hs = None" "HTTPd_Get_Header_Value buf p (chars n) = Some None"
  | (present) w q t r where "header_value n hs = Some w" "HTTPd_Get_Header_Value buf p (chars n) = Some (Some q)" "p \<le> q"
      "drop q buf = w @ CRLF @ t @ 0 # r" "0 \<notin> set (w @ CRLF @ t)" "10 \<notin> set w"
proof -
  obtain r where r: "drop p buf = header_text hs @ CRLF @ 0 # r" and p: "2 \<le> p" "buf ! (p - 2) = 13" "buf ! (p - 1) = 10"
    using assms(1) by (auto simp: headers_at_def)
  have hs: "\<forall>h\<in>set hs. header_ok h" "clean (chars n) hs" "name_ok (chars n)"
    using assms(2,3) names_ok by (simp_all only: readable_def list_all_iff) blast+
  note found = Get_Header_Value_text [OF r hs p]
  show ?thesis
  proof (cases "map_of hs (chars n)")
    case None
    then show ?thesis using found absent by (simp add: header_value_def)
  next
    case (Some v)
    then have "(chars n, v) \<in> set hs" by (rule map_of_SomeD)
    then have "10 \<notin> set v" using hs(1) by (auto simp: header_ok_def)
    then have "10 \<notin> set (unpadded v)" by (auto dest: set_dropWhileD)
    with Some found present [of "unpadded v"] show ?thesis by (auto simp: header_value_def)
  qed
qed

lemma starts_at_sep:
  "drop q buf = w @ x # u \<Longrightarrow> x \<notin> set lit \<Longrightarrow> starts_at buf (int q) lit = Some (prefix lit w)"
proof (induction lit arbitrary: q w)
  case (Cons c lit)
  then obtain b v where d: "drop q buf = b # v" by (cases w) auto
  then have r: "drop (Suc q) buf = v" using drop_Cons_at [of q buf b v] by simp
  have q: "int q + 1 = int (Suc q)" by simp
  have step: "starts_at buf (int q) (c # lit) = (if b = c then starts_at buf (int (Suc q)) lit else Some False)"
    unfolding starts_at.simps q cread_drop [OF d] by simp
  show ?case
  proof (cases w)
    case Nil
    then show ?thesis using step Cons.prems d by auto
  next
    case w: (Cons y w')
    then have "starts_at buf (int (Suc q)) lit = Some (prefix lit w')"
      using Cons.IH [of "Suc q" w'] Cons.prems d unfolding r by simp
    then show ?thesis using step w Cons.prems d by auto
  qed
qed simp

lemma starts_any_sep:
  assumes "drop q buf = w @ CRLF @ u" "list_all (\<lambda>l. 13 \<notin> set (chars l)) lits"
  shows "starts_any buf q lits = Some (starts_with w lits)"
  using assms(2)
proof (induction lits)
  case (Cons l lits)
  have "drop q buf = w @ 13 # 10 # u" using assms(1) by (simp add: CRLF_def)
  moreover have "13 \<notin> set (chars l)" using Cons.prems by simp
  ultimately have "starts_at buf (int q) (chars l) = Some (prefix (chars l) w)" by (rule starts_at_sep)
  with Cons show ?case by (simp add: starts_any_def starts_with_def)
qed (simp add: starts_any_def starts_with_def)

lemma number_read:
  assumes "drop q buf = w @ CRLF @ t @ 0 # r" "0 \<notin> set (w @ CRLF @ t)" "10 \<notin> set w" "length w < 20"
  shows "number_at buf q = Some (Some (atoi w))"
proof -
  have "drop q buf = (w @ CRLF @ t) @ 0 # r" using assms(1) by simp
  from strstr_drop [OF this assms(2)] find_CRLF [OF assms(3)] have "strstr buf q CRLF = Some (Some (q + length w))" by simp
  then show ?thesis using assms(1,4) by (simp add: number_at_def)
qed

lemma content_length_read:
  assumes "headers_at buf p hs" "readable hs"
  shows "read_content_length buf p c = Some (case header_value ''Content-Length'' hs of None \<Rightarrow> c
    | Some w \<Rightarrow> c\<lparr>data_len := of_int (atoi w), isLargeData := False, data_buff := None\<rparr>)"
  using assms header_names(6)
proof (cases rule: header_read)
  case (present w q t r)
  moreover have "length w < 20" using assms(2) present(1) by (simp add: readable_def)
  ultimately show ?thesis using number_read [of q buf w t r] by (simp add: read_content_length_def del: chars_simps)
qed (simp_all add: read_content_length_def del: chars_simps)

lemma accept_encoding_read:
  assumes "headers_at buf p hs" "readable hs"
  shows "read_accept_encoding buf p c = Some (case header_value ''Accept-Encoding'' hs of None \<Rightarrow> c
    | Some w \<Rightarrow> c\<lparr>accept_encoding := w\<rparr>)"
  using assms header_names(7)
proof (cases rule: header_read)
  case (present w q t r)
  have "drop q buf = (w @ CRLF @ t) @ 0 # r" using present(4) by simp
  from strstr_drop [OF this present(5), of CRLF] find_CRLF [OF present(6)] have
    "strstr buf q CRLF = Some (Some (q + length w))" by simp
  moreover have "length w < 64" using assms(2) present(1) by (simp add: readable_def)
  ultimately show ?thesis using present by (simp add: read_accept_encoding_def del: chars_simps)
qed (simp_all add: read_accept_encoding_def del: chars_simps)

lemma keep_alive_read:
  assumes "headers_at buf p hs" "readable hs"
  shows "read_keep_alive buf p c = (let secs = (case header_value ''Keep-Alive'' hs of Some w \<Rightarrow> of_int (atoi w) | None \<Rightarrow> 5)
    in Some (c\<lparr>connetion_mode := HTTPd_Connection_Mode_Keep_Alive, connection_keep_alive_time := secs\<rparr>, secs * 1000))"
  using assms header_names(5)
proof (cases rule: header_read)
  case (present w q t r)
  moreover have "length w < 20" using assms(2) present(1) by (simp add: readable_def)
  ultimately show ?thesis using number_read [of q buf w t r] by (simp add: read_keep_alive_def Let_def del: chars_simps)
qed (simp_all add: read_keep_alive_def Let_def del: chars_simps)

lemma header_searched:
  assumes "headers_at buf p hs" "readable hs" "n \<in> set header_names"
  shows "\<exists>r. HTTPd_Get_Header_Value buf p (chars n) = Some r"
  using assms by (cases rule: header_read) blast+

lemma plain_headers_read:
  assumes "headers_at buf p hs" "readable hs"
    "\<forall>w. header_value ''Connection'' hs = Some w \<longrightarrow> \<not> starts_with w [''Upgrade'', ''upgrade'']"
  shows "\<exists>host. read_headers buf p c = Some (0, buf, (fst (settings hs c))\<lparr>hostName := host\<rparr>, snd (settings hs c))"
proof -
  have "\<exists>host. HTTPd_Get_Host buf p \<bind> (\<lambda>h. case h of None \<Rightarrow> Some None | Some h \<Rightarrow> map_option Some (c_string buf h)) = Some host"
    using assms(1,2) header_names(1)
  proof (cases rule: header_read)
    case (present w q t r)
    have "drop q buf = (w @ CRLF @ t) @ 0 # r" using present(4) by simp
    from c_string_drop [OF this present(5)] present(2) show ?thesis by (simp add: HTTPd_Get_Host_def del: chars_simps)
  qed (simp_all add: HTTPd_Get_Host_def del: chars_simps)
  then obtain h host where h: "HTTPd_Get_Host buf p = Some h"
    "(case h of None \<Rightarrow> Some None | Some h \<Rightarrow> map_option Some (c_string buf h)) = Some host"
    by (auto simp: bind_eq_Some_conv)
  obtain ct where ct: "HTTPd_Get_Header_Value buf p (chars ''Content-Type'') = Some ct"
    using header_searched [OF assms(1,2) header_names(8)] by auto
  show ?thesis using assms(1,2) header_names(2)
  proof (cases rule: header_read)
    case absent
    then show ?thesis using h by (auto simp: read_headers_def settings_def simp del: chars_simps)
  next
    case (present w q t r)
    have no_upgrade: "starts_any buf q [''Upgrade'', ''upgrade''] = Some False"
      using starts_any_sep [OF present(4)] assms(3) present(1) by simp
    have keep: "starts_any buf q [''Keep-Alive'', ''keep-alive''] = Some (starts_with w [''Keep-Alive'', ''keep-alive''])"
      using starts_any_sep [OF present(4)] by simp
    have "read_plain buf p q c = Some (settings hs c)"
      using keep present(1) ct
      by (simp add: content_length_read [OF assms(1,2)] accept_encoding_read [OF assms(1,2)] keep_alive_read [OF assms(1,2)]
        read_plain_def settings_def body_settings_def Let_def del: chars_simps)
    then show ?thesis using h present(2) no_upgrade
      by (cases "settings hs c") (auto simp: read_headers_def simp del: chars_simps)
  qed
qed

lemma zero_kept:
  assumes "0 \<in> set (drop h buf)"
  shows "\<exists>t. c_string (buf[e := 0]) h = Some t"
proof -
  obtain i where i: "i < length buf - h" "buf ! (h + i) = 0" using assms by (auto simp: in_set_conv_nth)
  then have "buf[e := 0] ! (h + i) = 0" by (cases "e = h + i") simp_all
  then have "0 \<in> set (drop h (buf[e := 0]))" using i(1) by (auto simp: in_set_conv_nth intro!: exI [of _ i])
  then show ?thesis by (simp add: c_string_def)
qed

lemma upgrade_headers_read:
  assumes "headers_at buf p hs" "readable hs"
    "header_value ''Connection'' hs = Some v" "starts_with v [''Upgrade'', ''upgrade'']"
    "header_value ''Upgrade'' hs = Some u" "starts_with u [''Websocket'', ''websocket'']"
    "header_value ''Sec-WebSocket-Key'' hs = Some k"
  shows "\<exists>host e. p \<le> e \<and> read_headers buf p c = Some (0, buf[e := 0], c\<lparr>client_key := Some k,
    websocket_client := True, connetion_mode := HTTPd_Connection_Mode_Upgrade, hostName := host\<rparr>, Some 300000)"
proof -
  obtain qc tc rc where con: "HTTPd_Get_Header_Value buf p (chars ''Connection'') = Some (Some qc)" "drop qc buf = v @ CRLF @ tc @ 0 # rc"
    using assms(1,2) header_names(2) by (cases rule: header_read) (use assms(3) in auto)
  obtain qu tu ru where upg: "HTTPd_Get_Header_Value buf p (chars ''Upgrade'') = Some (Some qu)" "drop qu buf = u @ CRLF @ tu @ 0 # ru"
    using assms(1,2) header_names(3) by (cases rule: header_read) (use assms(5) in auto)
  obtain q t r where key: "HTTPd_Get_Header_Value buf p (chars ''Sec-WebSocket-Key'') = Some (Some q)" "p \<le> q"
      "drop q buf = k @ CRLF @ t @ 0 # r" "0 \<notin> set (k @ CRLF @ t)" "10 \<notin> set k"
    using assms(1,2) header_names(4) by (cases rule: header_read) (use assms(7) in auto)
  have k: "drop q buf = (k @ CRLF @ t) @ 0 # r" using key(3) by simp
  let ?e = "q + length k"
  have e: "strstr buf q CRLF = Some (Some ?e)" using strstr_drop [OF k key(4)] find_CRLF [OF key(5)] by simp
  have "drop q (buf[?e := 0]) = k @ 0 # 10 # t @ 0 # r"
    using key(3) by (simp add: drop_update_swap CRLF_def)
  then have key_text: "c_string (buf[?e := 0]) q = Some k" by (rule c_string_drop) (use key(4) in simp)
  have ws: "starts_any buf qu [''Websocket'', ''websocket''] = Some True"
    using starts_any_sep [OF upg(2), of "[''Websocket'', ''websocket'']"] assms(6) by simp
  have upgraded: "read_upgrade buf p c = Some (0, buf[?e := 0], c\<lparr>client_key := Some k, websocket_client := True,
      connetion_mode := HTTPd_Connection_Mode_Upgrade\<rparr>, Some 300000)"
    using upg(1) key(1) ws e c_string_drop [OF k key(4)] key_text
    by (simp add: read_upgrade_def Let_def del: chars_simps)
  have start: "starts_any buf qc [''Upgrade'', ''upgrade''] = Some True"
    using starts_any_sep [OF con(2), of "[''Upgrade'', ''upgrade'']"] assms(4) by simp
  have "\<exists>h host. HTTPd_Get_Host buf p = Some h \<and>
      (case h of None \<Rightarrow> Some None | Some h \<Rightarrow> map_option Some (c_string (buf[?e := 0]) h)) = Some host"
    using assms(1,2) header_names(1)
  proof (cases rule: header_read)
    case (present w h t r)
    then have "0 \<in> set (drop h buf)" by simp
    from zero_kept [OF this, of ?e] present(2) show ?thesis by (auto simp: HTTPd_Get_Host_def simp del: chars_simps)
  qed (simp add: HTTPd_Get_Host_def del: chars_simps)
  then obtain h host where "HTTPd_Get_Host buf p = Some h"
    "(case h of None \<Rightarrow> Some None | Some h \<Rightarrow> map_option Some (c_string (buf[?e := 0]) h)) = Some host" by blast
  then have "read_headers buf p c = Some (0, buf[?e := 0], c\<lparr>client_key := Some k,
      websocket_client := True, connetion_mode := HTTPd_Connection_Mode_Upgrade, hostName := host\<rparr>, Some 300000)"
    using con(1) start upgraded by (simp add: read_headers_def del: chars_simps)
  then show ?thesis using key(2) by (intro exI [of _ host] exI [of _ ?e]) simp
qed

lemma behind_CRLF:
  "drop (length a + 2) (a @ CRLF @ x) = x" "(a @ CRLF @ x) ! (length a + 2 - 2) = 13" "(a @ CRLF @ x) ! (length a + 2 - 1) = 10"
  by (simp_all add: CRLF_def nth_append)

lemma opened_headers:
  "headers_at (opened_request m path args hs r) (length (request_line m (target_text path args)) + 2) hs"
proof -
  let ?pre = "method_text m @ 32 # path @ (case args of None \<Rightarrow> [] | Some a \<Rightarrow> 0 # a) @ 0 # chars ''HTTP/1.1''"
  have buf: "opened_request m path args hs r = ?pre @ CRLF @ header_text hs @ CRLF @ 0 # r"
    by (simp add: opened_request_def)
  have len: "length (request_line m (target_text path args)) = length ?pre"
    by (cases args) (simp_all add: request_line_def target_text_def)
  show ?thesis unfolding headers_at_def buf len by (simp only: behind_CRLF) auto
qed

lemma request_as_written:
  assumes "target_ok m (target_text path args)" "63 \<notin> set path" "m \<noteq> HTTPd_Method_UNKNOWN" "readable hs"
    "\<forall>w. header_value ''Connection'' hs = Some w \<longrightarrow> \<not> starts_with w [''Upgrade'', ''upgrade'']"
  shows "\<exists>host buf. HTTPd_Parse_InMsg_Headers (request_text m (target_text path args) hs @ 0 # r) c =
    Some (0, buf, (fst (settings hs (c\<lparr>url := None, requestType := m\<rparr>)))\<lparr>hostName := host, url := Some path, getArgs := args\<rparr>,
      snd (settings hs (c\<lparr>url := None, requestType := m\<rparr>)))"
proof -
  have "\<forall>h\<in>set hs. header_ok h" using assms(4) by (simp add: readable_def)
  moreover obtain host where "read_headers (opened_request m path args hs r) (length (request_line m (target_text path args)) + 2)
      (c\<lparr>url := None, requestType := m\<rparr>) = Some (0, opened_request m path args hs r,
      (fst (settings hs (c\<lparr>url := None, requestType := m\<rparr>)))\<lparr>hostName := host\<rparr>, snd (settings hs (c\<lparr>url := None, requestType := m\<rparr>)))"
    using plain_headers_read [OF opened_headers assms(4,5)] by blast
  ultimately show ?thesis using parse_target [OF assms(1,2) _ assms(3) refl] by blast
qed

section \<open>Requests to try the properties on\<close>

definition post_headers :: "(u8 list \<times> u8 list) list" where
  "post_headers = map (\<lambda>(n, v). (chars n, chars v))
     [(''Host'', ''192.168.84.5''), (''Connection'', ''close''), (''Content-Length'', ''4''), (''Accept-Encoding'', ''gzip, br'')]"

definition upgrade_headers :: "(u8 list \<times> u8 list) list" where
  "upgrade_headers = map (\<lambda>(n, v). (chars n, chars v))
     [(''Host'', ''192.168.84.5''), (''Connection'', ''Upgrade''), (''Upgrade'', ''websocket''),
      (''Sec-WebSocket-Key'', ''dGhlIHNhbXBsZSBub25jZQ=='')]"

lemma post_headers: "readable post_headers" "header_value ''Connection'' post_headers = Some (chars ''close'')"
  "header_value ''Content-Length'' post_headers = Some (chars ''4'')" "header_value ''Accept-Encoding'' post_headers = Some (chars ''gzip, br'')"
  by code_simp+

lemma upgrade_headers: "readable upgrade_headers" "header_value ''Connection'' upgrade_headers = Some (chars ''Upgrade'')"
  "header_value ''Upgrade'' upgrade_headers = Some (chars ''websocket'')"
  "header_value ''Sec-WebSocket-Key'' upgrade_headers = Some (chars ''dGhlIHNhbXBsZSBub25jZQ=='')"
  by code_simp+

lemma demo_target: "target_ok HTTPd_Method_POST (target_text (chars ''/LED_PWM/2'') (Some (chars ''x=1'')))"
  "target_ok HTTPd_Method_GET (target_text (chars ''/ws'') None)"
  by code_simp+

section \<open>Properties\<close>





text \<open>
  Without a Connection header, which HTTP/1.1 leaves out for the persistent connections it takes as the
  default, the length of the body is not read, nor the encodings.
\<close>

theorem length_needs_Connection_header:
  assumes "target_ok m (target_text path args)" "63 \<notin> set path" "m \<noteq> HTTPd_Method_UNKNOWN" "readable hs"
    "header_value ''Connection'' hs = None"
  shows "\<exists>buf c1. HTTPd_Parse_InMsg_Headers (request_text m (target_text path args) hs @ 0 # r) c = Some (0, buf, c1, None) \<and>
    requestType c1 = m \<and> url c1 = Some path \<and> data_len c1 = data_len c \<and> accept_encoding c1 = accept_encoding c"
proof -
  let ?c = "c\<lparr>url := None, requestType := m\<rparr>"
  have hs: "\<forall>h\<in>set hs. header_ok h" using assms(4) by (simp add: readable_def)
  have none: "settings hs ?c = (?c, None)" using assms(5) by (simp add: settings_def)
  obtain host where "read_headers (opened_request m path args hs r) (length (request_line m (target_text path args)) + 2) ?c =
      Some (0, opened_request m path args hs r, ?c\<lparr>hostName := host\<rparr>, None)"
    using plain_headers_read [OF opened_headers [of m path args hs r] assms(4), of ?c] assms(5) unfolding none by auto
  from parse_target [OF assms(1,2) hs assms(3) refl this refl refl] show ?thesis by (intro exI conjI, assumption) simp_all
qed

theorem length_needs_Connection_header_witness:
  "\<exists>buf c1. HTTPd_Parse_InMsg_Headers (request_text HTTPd_Method_POST (target_text (chars ''/LED_PWM/2'') (Some (chars ''x=1'')))
      [(chars ''Content-Length'', chars ''4'')] @ 0 # []) (closed_client 5) = Some (0, buf, c1, None) \<and> data_len c1 = 0"
proof -
  have "readable [(chars ''Content-Length'', chars ''4'')]" "header_value ''Connection'' [(chars ''Content-Length'', chars ''4'')] = None"
    "63 \<notin> set (chars ''/LED_PWM/2'')"
    by code_simp+
  from length_needs_Connection_header [OF demo_target(1) this(3) _ this(1,2), of "[]" "closed_client 5"] show ?thesis
    by (auto simp: closed_client_def)
qed

text \<open>
  A request whose target contains the word POST is read as a POST, whatever its method, because the
  methods are searched for in the whole first line.
\<close>

theorem method_found_in_target:
  assumes "{0, 10, 13, 32} \<inter> set target = {}" "\<forall>h\<in>set hs. header_ok h" "sublist (chars ''POST'') target"
  shows "HTTPd_Get_Header_Method (request_text m target hs @ 0 # r) = Some HTTPd_Method_POST"
  using assms(3) unfolding HTTPd_Get_Header_Method_def request_first_line [OF assms(1,2)]
  by (simp add: word_found_before [OF assms(1,2) words_ok(1)] word_in_line [OF words_ok(1)] del: chars_simps)

theorem method_found_in_target_witness:
  "HTTPd_Get_Header_Method (request_text HTTPd_Method_GET (chars ''/POST'') [] @ 0 # []) = Some HTTPd_Method_POST"
  by (rule method_found_in_target) code_simp+

end
