(* ===== verification/HTTPd_Server.thy ===== *)
theory HTTPd_Server
  imports HTTPd_Route HTTP_Parse "HOL-Library.Multiset"
begin

text \<open>
  The task of the HTTP server, \<open>HTTP_Server_Task\<close> of \<open>NeonRTOS/HTTPd/HTTPd.c\<close>: opening the server's
  socket, accepting clients, receiving requests byte by byte, serving and closing connections. What the
  calls of the socket layer give is a script with one entry per call; a script that has run out means
  that the task is still waiting. The task's effects on sockets and timers are events of a log.
\<close>

section \<open>State\<close>

datatype task_event = Accepted int | Closed int | NeonRTOS_TimerCreate nat u32 | NeonRTOS_TimerStart nat | NeonRTOS_TimerStop nat
  | NeonRTOS_TimerReStart nat | NeonRTOS_TimerChangePeriod nat u32 | NeonRTOS_TimerDelete nat

record ('h, 'w) task =
  client_list :: "'h clients"
  task_log :: "task_event list"
  httpd :: "('h, 'w) server"

definition log_task :: "task_event list \<Rightarrow> ('h, 'w) task \<Rightarrow> ('h, 'w) task" where
  "log_task es t = t\<lparr>task_log := task_log t @ es\<rparr>"

text \<open>After \<open>recv\<close> has failed the code asks \<open>getsockopt\<close>, whose result and reported error are part of
  the entry; the last component tells whether the timeout has marked the connection in the meantime.\<close>

datatype recv_result = Received "u8 list" | Remote_Closed | Recv_Failed int int bool

datatype 'r read_result = Waiting | Client_Close | No_Memory | Read 'r

datatype progress = Next_Client | Leave_Loop | Blocked

text \<open>\<open>accept\<close> gives a socket, or fails and \<open>getsockopt\<close> gives a result.\<close>

datatype accept_result = Accept int | No_Connection int

record ('h, 'w) round_env =
  accepts :: "accept_result list"
  client_mem :: "('h connection option \<times> bool) list"
  option_result :: "nat \<Rightarrow> int"
  request_env :: "nat \<Rightarrow> ('h, 'w) server_env"
  cmd_buf_mem :: "nat \<Rightarrow> bool"
  malloc :: "nat \<Rightarrow> nat \<Rightarrow> u8 list option"
  inbox :: "nat \<Rightarrow> recv_result list"
  ws_frame :: "nat \<Rightarrow> HTTPd_WSFrame"
  ws_inbox :: "nat \<Rightarrow> reply list"
  ws_error :: "nat \<Rightarrow> int \<times> int"
  on_message :: "'h clients \<Rightarrow> 'h connection \<Rightarrow> HTTPd_WSFrame \<Rightarrow> u8 list \<Rightarrow> 'w \<Rightarrow> (net_event list \<times> 'w) option"

section \<open>The socket of the server\<close>

text \<open>\<open>call k\<close> is the result of the \<open>k\<close>-th call: \<open>socket\<close>, \<open>bind\<close>, \<open>listen\<close> and two of \<open>fcntl\<close>. The result
  says whether the task goes on, and gives \<open>HTTP_WebSocket_Server_Socket\<close> and the sockets closed.\<close>

definition server_start :: "(nat \<Rightarrow> int) \<Rightarrow> int \<Rightarrow> bool \<times> int \<times> int list" where
  "server_start call sock =
     (if 0 \<le> sock then (False, sock, [])
      else let sock = call 0 in
        if sock < 0 then (False, sock, [])
        else if call 1 < 0 then (False, sock, [sock])
        else if call 2 < 0 then (False, sock, [sock])
        else if call 3 < 0 then (False, sock, [sock])
        else if call 4 < 0 then (False, sock, [sock])
        else (True, sock, []))"

section \<open>Accepting a client\<close>

text \<open>The loop is repeated only when \<open>getsockopt\<close> fails as well.\<close>

fun wait_for_client :: "accept_result list \<Rightarrow> int option option" where
  "wait_for_client [] = None"
| "wait_for_client (r # rs) = (case r of
     Accept sock \<Rightarrow> Some (Some sock)
   | No_Connection ret \<Rightarrow> if ret < 0 then wait_for_client rs else Some None)"

text \<open>From slot \<open>j\<close> on, the first one that is free.\<close>

definition free_slot :: "nat \<Rightarrow> 'h clients \<Rightarrow> nat option" where
  "free_slot j cs = find (\<lambda>k. cs ! k = None) [j..<HTTPD_MAX_CLIENTS]"

text \<open>An entry of the script of allocations is a turn of the loop: the contents of the memory for the
  connection, if there is any, and whether the timer could be created.\<close>

fun add_client :: "('h connection option \<times> bool) list \<Rightarrow> int \<Rightarrow> nat \<Rightarrow> ('h, 'w) task \<Rightarrow>
    (nat option \<times> ('h, 'w) task) option" where
  "add_client [] sock j t = Some (None, t)"
| "add_client ((mem, timer_ok) # mems) sock j t =
     (if GetNumOfHttpdClient (client_list t) < 20 then
        (case free_slot j (client_list t) of
           None \<Rightarrow> add_client mems sock 20 t
         | Some k \<Rightarrow> (case mem of
             None \<Rightarrow> add_client mems sock k t
           | Some fresh \<Rightarrow> do {
               cs \<leftarrow> cwrite (client_list t) (int k) (Some fresh);
               cs \<leftarrow> HTTPd_Restore_Variables k cs;
               if \<not> timer_ok then do {
                 cs \<leftarrow> cwrite cs (int k) None;
                 add_client mems sock k (t\<lparr>client_list := cs\<rparr>) }
               else do {
                 slot \<leftarrow> cread cs (int k);
                 c \<leftarrow> slot;
                 cs \<leftarrow> cwrite cs (int k) (Some (c\<lparr>socket_id := sock, connection_destruct_flag := False,
                   data_len := 0, isLargeData := False, data_buff := None\<rparr>));
                 Some (Some k, log_task [NeonRTOS_TimerCreate k 5000, NeonRTOS_TimerStop k] (t\<lparr>client_list := cs\<rparr>)) } }))
      else add_client mems sock j t)"

definition mark_client :: "nat \<Rightarrow> ('h, 'w) task \<Rightarrow> ('h, 'w) task option" where
  "mark_client k t = do {
     slot \<leftarrow> cread (client_list t) (int k);
     c \<leftarrow> slot;
     cs \<leftarrow> cwrite (client_list t) (int k) (Some (c\<lparr>connection_destruct_flag := True\<rparr>));
     Some (t\<lparr>client_list := cs\<rparr>) }"

text \<open>The six options of the socket: a failure marks the connection and starts the task's loop anew.\<close>

definition accept_client :: "('h, 'w) round_env \<Rightarrow> ('h, 'w) task \<Rightarrow> (progress \<times> ('h, 'w) task) option" where
  "accept_client env t = (case wait_for_client (accepts env) of
     None \<Rightarrow> Some (Blocked, t)
   | Some None \<Rightarrow> Some (Next_Client, t)
   | Some (Some sock) \<Rightarrow> do {
       (k, t1) \<leftarrow> add_client (client_mem env) sock 0 (log_task [Accepted sock] t);
       (case k of
          None \<Rightarrow> Some (Blocked, t1)
        | Some k \<Rightarrow>
            if list_ex (\<lambda>n. option_result env n < 0) [0..<6]
            then map_option (Pair Leave_Loop) (mark_client k t1)
            else Some (Next_Client, log_task [NeonRTOS_TimerStart k] t1)) })"

section \<open>Receiving\<close>

definition HEADERS_END :: "u8 list" where
  "HEADERS_END = CRLF @ CRLF"

definition recv_into :: "u8 list \<Rightarrow> nat \<Rightarrow> u8 list \<Rightarrow> u8 list option" where
  "recv_into buf p bs = (if p + length bs \<le> length buf
     then Some (take p buf @ bs @ drop (p + length bs) buf) else None)"

text \<open>Whether a receiving loop goes on after \<open>recv\<close> has failed.\<close>

definition waits_on :: "int \<Rightarrow> int \<Rightarrow> 'h connection \<Rightarrow> bool" where
  "waits_on ret errno c \<longleftrightarrow> (if ret < 0 then False
     else if connection_destruct_flag c then False
     else if errno = EAGAIN then True
     else errno = 0)"

abbreviation (input) marked_by :: "bool \<Rightarrow> 'h connection \<Rightarrow> 'h connection" where
  "marked_by timed_out c \<equiv> c\<lparr>connection_destruct_flag := connection_destruct_flag c \<or> timed_out\<rparr>"

text \<open>The result has the buffer, the number of bytes received and where the headers end.\<close>

fun receive_headers :: "recv_result list \<Rightarrow> 'h connection \<Rightarrow> u8 list \<Rightarrow> nat \<Rightarrow>
    ('h connection \<times> (u8 list \<times> nat \<times> nat option) read_result \<times> recv_result list) option" where
  "receive_headers [] c buf recv_len = Some (c, Waiting, [])"
| "receive_headers (r # rs) c buf recv_len = (case r of
     Recv_Failed ret errno timed_out \<Rightarrow>
       let c = marked_by timed_out c in
       if \<not> waits_on ret errno c then Some (c, Client_Close, rs)
       else do {
         data_ptr \<leftarrow> strstr buf 0 HEADERS_END;
         if data_ptr = None \<and> recv_len < HTTPD_CMD_BUF_SIZE then receive_headers rs c buf recv_len
         else Some (c, Read (buf, recv_len, data_ptr), rs) }
   | Remote_Closed \<Rightarrow> Some (c, Client_Close, rs)
   | Received bs \<Rightarrow> do {
       buf \<leftarrow> recv_into buf recv_len bs;
       let recv_len = recv_len + length bs;
       data_ptr \<leftarrow> strstr buf 0 HEADERS_END;
       if data_ptr = None \<and> recv_len < HTTPD_CMD_BUF_SIZE then receive_headers rs c buf recv_len
       else Some (c, Read (buf, recv_len, data_ptr), rs) })"

text \<open>Every call of \<open>recv\<close> for the body asks for the whole length, wherever it writes to.\<close>

fun receive_body :: "recv_result list \<Rightarrow> 'h connection \<Rightarrow> u8 list \<Rightarrow> nat \<Rightarrow>
    ('h connection \<times> unit read_result \<times> recv_result list) option" where
  "receive_body [] c buf cgi_recv_len = Some (c\<lparr>data_buff := Some buf\<rparr>, Waiting, [])"
| "receive_body (r # rs) c buf cgi_recv_len = (case r of
     Recv_Failed ret errno timed_out \<Rightarrow>
       let c = marked_by timed_out c in
       if \<not> waits_on ret errno c then Some (free_data (c\<lparr>data_buff := Some buf\<rparr>), Client_Close, rs)
       else if cgi_recv_len < unat (data_len c) then receive_body rs c buf cgi_recv_len
       else Some (c\<lparr>data_buff := Some buf\<rparr>, Read (), rs)
   | Remote_Closed \<Rightarrow> Some (free_data (c\<lparr>data_buff := Some buf\<rparr>), Client_Close, rs)
   | Received bs \<Rightarrow> do {
       buf \<leftarrow> recv_into buf cgi_recv_len bs;
       let cgi_recv_len = cgi_recv_len + length bs;
       if cgi_recv_len < unat (data_len c) then receive_body rs c buf cgi_recv_len
       else Some (c\<lparr>data_buff := Some buf\<rparr>, Read (), rs) })"

definition read_body :: "(nat \<Rightarrow> u8 list option) \<Rightarrow> recv_result list \<Rightarrow> 'h connection \<Rightarrow>
    ('h connection \<times> unit read_result \<times> recv_result list) option" where
  "read_body mem rs c =
     (if \<not> 0 < data_len c then Some (c, Read (), rs)
      else if 4096 < data_len c then Some (c\<lparr>isLargeData := True\<rparr>, Read (), rs)
      else (case mem (unat (data_len c)) of
          None \<Rightarrow> Some (c\<lparr>data_buff := None\<rparr>, No_Memory, rs)
        | Some buf \<Rightarrow> receive_body rs c buf 0))"

section \<open>Serving a client\<close>

text \<open>The results are the connection, the events, the server, whether the loop over the clients goes
  on, and what is left of the script.\<close>

definition serve_http :: "('h, 'w) round_env \<Rightarrow> nat \<Rightarrow> recv_result list \<Rightarrow> 'h connection \<Rightarrow> ('h, 'w) server \<Rightarrow>
    ('h connection \<times> task_event list \<times> ('h, 'w) server \<times> progress \<times> recv_result list) option" where
  "serve_http env i rs c s =
     (if \<not> cmd_buf_mem env i then Some (c, [], s, Next_Client, rs)
      else do {
        (c, h, rs) \<leftarrow> receive_headers rs c (replicate HTTPD_CMD_BUF_SIZE 0) 0;
        (case h of
           Waiting \<Rightarrow> Some (c, [], s, Blocked, rs)
         | Read (buf, recv_len, Some data_ptr) \<Rightarrow>
             if 0 < recv_len then do {
               (ret, buf, c, period) \<leftarrow> HTTPd_Parse_InMsg_Headers buf c;
               let es = NeonRTOS_TimerStop i # (case period of None \<Rightarrow> [] | Some p \<Rightarrow> [NeonRTOS_TimerChangePeriod i p]);
               (c, b, rs) \<leftarrow> read_body (malloc env i) rs c;
               (case b of
                  Waiting \<Rightarrow> Some (c, es, s, Blocked, rs)
                | No_Memory \<Rightarrow> Some (c, es, s, Next_Client, rs)
                | Client_Close \<Rightarrow> Some (c\<lparr>connection_destruct_flag := True\<rparr>, es, s, Next_Client, rs)
                | Read _ \<Rightarrow> do {
                    (c, s) \<leftarrow> serve_request (request_env env i) c s;
                    Some (c, es @ (if connection_destruct_flag c then [NeonRTOS_TimerStop i] else []), s, Next_Client, rs) }) }
             else Some (c, [], s, Next_Client, rs)
         | Read (buf, recv_len, None) \<Rightarrow> Some (c, [], s, Next_Client, rs)
         | _ \<Rightarrow> Some (c\<lparr>connection_destruct_flag := True\<rparr>, [], s, Next_Client, rs)) })"

text \<open>What the events of a WebSocket do to the task.\<close>

fun ws_effects :: "('h, 'w) round_env \<Rightarrow> nat \<Rightarrow> 'h connection \<Rightarrow> ws_event list \<Rightarrow> ('h, 'w) task \<Rightarrow> ('h, 'w) task option" where
  "ws_effects env i c [] t = Some t"
| "ws_effects env i c (e # es) t = do {
     t1 \<leftarrow> (case e of
         Net n \<Rightarrow> Some (t\<lparr>httpd := (httpd t)\<lparr>sent := sent (httpd t) @ [n]\<rparr>\<rparr>)
       | TimerStop \<Rightarrow> Some (log_task [NeonRTOS_TimerStop i] t)
       | TimerRestart \<Rightarrow> Some (log_task [NeonRTOS_TimerReStart i] t)
       | OnMessage frame msg \<Rightarrow> do {
           (ns, w) \<leftarrow> on_message env (client_list t) c frame msg (world (httpd t));
           Some (t\<lparr>httpd := (httpd t)\<lparr>sent := sent (httpd t) @ ns, world := w\<rparr>\<rparr>) });
     ws_effects env i c es t1 }"

definition close_client :: "nat \<Rightarrow> 'h connection \<Rightarrow> ('h, 'w) task \<Rightarrow> ('h, 'w) task option" where
  "close_client i c t = do {
     cs \<leftarrow> cwrite (client_list t) (int i) None;
     Some (log_task [NeonRTOS_TimerStop i, NeonRTOS_TimerDelete i, Closed (socket_id c)] (t\<lparr>client_list := cs\<rparr>)) }"

definition serve_client :: "('h, 'w) round_env \<Rightarrow> nat \<Rightarrow> ('h, 'w) task \<Rightarrow> (progress \<times> ('h, 'w) task) option" where
  "serve_client env i t = do {
     slot \<leftarrow> cread (client_list t) (int i);
     (case slot of
        None \<Rightarrow> Some (Next_Client, t)
      | Some c \<Rightarrow>
          if connection_destruct_flag c then map_option (Pair Next_Client) (close_client i c t)
          else if \<not> websocket_client c then do {
            (c1, es, s, p, rs) \<leftarrow> serve_http env i (inbox env i) c (httpd t);
            cs \<leftarrow> cwrite (client_list t) (int i) (Some c1);
            Some (p, log_task es (t\<lparr>client_list := cs, httpd := s\<rparr>)) }
          else do {
            ((c1, es, leave), rs) \<leftarrow> ws_serve c (ws_frame env i) (malloc env i) (ws_error env i) (ws_inbox env i);
            cs \<leftarrow> cwrite (client_list t) (int i) (Some c1);
            t1 \<leftarrow> ws_effects env i c1 es (t\<lparr>client_list := cs\<rparr>);
            Some (if leave then Leave_Loop else Next_Client, t1) }) }"

fun serve_clients :: "('h, 'w) round_env \<Rightarrow> nat list \<Rightarrow> ('h, 'w) task \<Rightarrow> (progress \<times> ('h, 'w) task) option" where
  "serve_clients env [] t = Some (Next_Client, t)"
| "serve_clients env (i # is) t = do {
     (p, t1) \<leftarrow> serve_client env i t;
     (case p of
        Next_Client \<Rightarrow> serve_clients env is t1
      | _ \<Rightarrow> Some (p, t1)) }"

text \<open>One turn of the task's loop; the result tells whether the task has got stuck in it.\<close>

definition task_round :: "('h, 'w) round_env \<Rightarrow> ('h, 'w) task \<Rightarrow> (bool \<times> ('h, 'w) task) option" where
  "task_round env t = do {
     (p, t1) \<leftarrow> accept_client env t;
     (case p of
        Blocked \<Rightarrow> Some (True, t1)
      | Leave_Loop \<Rightarrow> Some (False, t1)
      | Next_Client \<Rightarrow>
          if GetNumOfHttpdClient (client_list t1) = 0 then Some (False, t1)
          else do {
            (p, t2) \<leftarrow> serve_clients env [0..<HTTPD_MAX_CLIENTS] t1;
            Some (p = Blocked, t2) }) }"

section \<open>What is received\<close>

definition delivered :: "recv_result list \<Rightarrow> u8 list" where
  "delivered rs = concat (map (\<lambda>r. case r of Received bs \<Rightarrow> bs | _ \<Rightarrow> []) rs)"

text \<open>A call that brings up to \<open>n\<close> bytes, or only makes the task wait.\<close>

definition brings :: "nat \<Rightarrow> recv_result \<Rightarrow> bool" where
  "brings n r \<longleftrightarrow> (case r of
     Received bs \<Rightarrow> 0 < length bs \<and> length bs \<le> n
   | Recv_Failed ret errno timed_out \<Rightarrow> 0 \<le> ret \<and> (errno = 0 \<or> errno = EAGAIN) \<and> \<not> timed_out
   | Remote_Closed \<Rightarrow> False)"

lemma delivered_simps [simp]:
  "delivered [] = []" "delivered (Received bs # rs) = bs @ delivered rs"
  "delivered (Recv_Failed ret errno timed_out # rs) = delivered rs"
  by (simp_all add: delivered_def)

lemma waits: "brings n (Recv_Failed ret errno timed_out) \<Longrightarrow> \<not> connection_destruct_flag c \<Longrightarrow>
    \<not> timed_out \<and> waits_on ret errno c \<and> c\<lparr>connection_destruct_flag := False\<rparr> = c"
  by (cases c) (auto simp: brings_def waits_on_def)

lemma recv_into_at: "length bs \<le> length r \<Longrightarrow> recv_into (u @ r) (length u) bs = Some ((u @ bs) @ drop (length bs) r)"
  by (simp add: recv_into_def)

lemma find_text_append: "n \<noteq> [] \<Longrightarrow> find_text n a = Some j \<Longrightarrow> find_text n (a @ b) = Some j"
proof (induction a arbitrary: j)
  case (Cons x a)
  have "prefix n (x # a) \<Longrightarrow> prefix n ((x # a) @ b)" by (rule prefix_prefix)
  moreover have "prefix n ((x # a) @ b) \<Longrightarrow> \<not> prefix n (x # a) \<Longrightarrow> length (x # a) < length n"
    unfolding prefix_append by (metis append_Nil2 length_append length_greater_0_conv less_add_same_cancel1 prefix_order.refl)
  moreover have "\<not> prefix n (x # a) \<Longrightarrow> length n \<le> length (x # a)"
  proof -
    assume no: "\<not> prefix n (x # a)"
    then obtain i where "find_text n a = Some i" using Cons.prems by (auto simp: find_text_Cons simp del: find_text.simps(2))
    from find_text_found [OF this] show "length n \<le> length (x # a)" by simp
  qed
  ultimately show ?case using Cons
    by (auto simp: find_text_Cons simp del: find_text.simps(2) split: if_splits)
qed simp

lemma find_text_shorter: "n \<noteq> [] \<Longrightarrow> find_text n (a @ b) = None \<Longrightarrow> find_text n a = None"
  using find_text_append [of n a _ b] by (cases "find_text n a") auto

lemma HEADERS_END_not_Nil: "HEADERS_END \<noteq> []"
  by (simp add: HEADERS_END_def CRLF_def)

subsection \<open>Headers\<close>

definition zero_filled :: "u8 list \<Rightarrow> u8 list" where
  "zero_filled u = u @ replicate (HTTPD_CMD_BUF_SIZE - length u) 0"

lemma zero_filled_write: "length u + length bs \<le> HTTPD_CMD_BUF_SIZE \<Longrightarrow> recv_into (zero_filled u) (length u) bs = Some (zero_filled (u @ bs))"
  using recv_into_at [of bs "replicate (HTTPD_CMD_BUF_SIZE - length u) 0" u] by (simp add: zero_filled_def)

lemma zero_filled_zero: "length u < HTTPD_CMD_BUF_SIZE \<Longrightarrow> zero_filled u = u @ 0 # replicate (HTTPD_CMD_BUF_SIZE - Suc (length u)) 0"
  by (simp add: zero_filled_def Suc_diff_Suc flip: replicate_Suc)

lemma zero_filled_search:
  assumes "length u < HTTPD_CMD_BUF_SIZE" "0 \<notin> set u"
  shows "strstr (zero_filled u) 0 n = Some (find_text n u)"
proof -
  have "drop 0 (zero_filled u) = u @ 0 # replicate (HTTPD_CMD_BUF_SIZE - Suc (length u)) 0" using zero_filled_zero [OF assms(1)] by simp
  moreover have "(+) (0 :: nat) = id" by (simp add: fun_eq_iff)
  ultimately show ?thesis using strstr_drop [OF _ assms(2), of 0 "zero_filled u"] by (simp add: option.map_id0)
qed

lemma receive_on:
  assumes "\<forall>r\<in>set rs. brings 1 r" "0 \<notin> set (u @ delivered rs)" "length (u @ delivered rs) < HTTPD_CMD_BUF_SIZE"
    "find_text HEADERS_END (u @ delivered rs) = None" "\<not> connection_destruct_flag c"
  shows "receive_headers (rs @ rest) c (zero_filled u) (length u) =
    receive_headers rest c (zero_filled (u @ delivered rs)) (length (u @ delivered rs))"
  using assms(1-4)
proof (induction rs arbitrary: u)
  case (Cons r rs)
  show ?case
  proof (cases r)
    case (Received bs)
    let ?u = "u @ bs"
    have u: "0 \<notin> set ?u" "length ?u < HTTPD_CMD_BUF_SIZE" "find_text HEADERS_END ?u = None"
      using Cons.prems(2-4) Received find_text_shorter [OF HEADERS_END_not_Nil, of ?u "delivered rs"] by auto
    have "receive_headers ((r # rs) @ rest) c (zero_filled u) (length u) = receive_headers (rs @ rest) c (zero_filled ?u) (length ?u)"
      using Received u zero_filled_write [of u bs] zero_filled_search [OF u(2,1), of HEADERS_END] by (simp add: Let_def)
    also have "\<dots> = receive_headers rest c (zero_filled (?u @ delivered rs)) (length (?u @ delivered rs))"
      using Cons.prems Received by (intro Cons.IH) auto
    finally show ?thesis using Received by simp
  next
    case Remote_Closed
    then show ?thesis using Cons.prems(1) by (simp add: brings_def)
  next
    case (Recv_Failed ret errno timed_out)
    have u: "0 \<notin> set u" "length u < HTTPD_CMD_BUF_SIZE" "find_text HEADERS_END u = None"
      using Cons.prems(2-4) Recv_Failed find_text_shorter [OF HEADERS_END_not_Nil, of u "delivered rs"] by auto
    have "\<not> timed_out \<and> waits_on ret errno c \<and> c\<lparr>connection_destruct_flag := False\<rparr> = c"
      using waits [of 1 ret errno timed_out c] Cons.prems(1) Recv_Failed assms(5) by simp
    then have "receive_headers ((r # rs) @ rest) c (zero_filled u) (length u) = receive_headers (rs @ rest) c (zero_filled u) (length u)"
      using Recv_Failed u zero_filled_search [OF u(2,1), of HEADERS_END] by (simp add: Let_def)
    also have "\<dots> = receive_headers rest c (zero_filled (u @ delivered rs)) (length (u @ delivered rs))"
      using Cons.prems Recv_Failed by (intro Cons.IH) auto
    finally show ?thesis using Recv_Failed by simp
  qed
qed simp

lemma headers_received:
  assumes "\<forall>r\<in>set rs. brings 1 r" "delivered rs @ [b] = t" "0 \<notin> set t" "length t < HTTPD_CMD_BUF_SIZE"
    "find_text HEADERS_END (delivered rs) = None" "find_text HEADERS_END t = Some k" "\<not> connection_destruct_flag c"
  shows "receive_headers (rs @ Received [b] # rest) c (replicate HTTPD_CMD_BUF_SIZE 0) 0 =
    Some (c, Read (zero_filled t, length t, Some k), rest)"
proof -
  have "receive_headers (rs @ Received [b] # rest) c (zero_filled []) (length ([] :: u8 list)) =
      receive_headers (Received [b] # rest) c (zero_filled ([] @ delivered rs)) (length ([] @ delivered rs))"
    by (rule receive_on) (use assms in auto)
  also have "\<dots> = Some (c, Read (zero_filled t, length t, Some k), rest)"
    using zero_filled_write [of "delivered rs" "[b]"] zero_filled_search [OF assms(4,3), of HEADERS_END] assms(2,4,6) by (auto simp: Let_def)
  finally show ?thesis by (simp add: zero_filled_def)
qed

subsection \<open>The end of a request\<close>

lemma find_END:
  "10 \<notin> set a \<Longrightarrow> find_text HEADERS_END (a @ CRLF @ b) = (if prefix CRLF b then Some (length a)
     else map_option ((+) (length a + 2)) (find_text HEADERS_END b))"
proof (induction a)
  case Nil
  have "\<not> prefix HEADERS_END (10 # b)" by (simp add: HEADERS_END_def CRLF_def)
  moreover have "prefix HEADERS_END (13 # 10 # b) \<longleftrightarrow> prefix CRLF b" by (simp add: HEADERS_END_def CRLF_def)
  ultimately show ?case
    by (simp add: find_text_Cons CRLF_def option.map_comp comp_def del: find_text.simps(2))
next
  case (Cons y a)
  have "\<not> prefix HEADERS_END (y # a @ CRLF @ b)" using Cons.prems by (cases a) (auto simp: HEADERS_END_def CRLF_def)
  with Cons show ?case by (simp add: find_text_Cons option.map_comp comp_def del: find_text.simps(2))
qed

lemma header_lines_end:
  "\<forall>h\<in>set hs. header_ok h \<Longrightarrow> 10 \<notin> set a \<Longrightarrow>
    find_text HEADERS_END (a @ CRLF @ header_text hs @ CRLF) = Some (length (a @ header_text hs))"
proof (induction hs arbitrary: a)
  case Nil
  then show ?case using find_END [of a CRLF] by (simp add: header_text_def)
next
  case (Cons h hs)
  obtain k v where h: "h = (k, v)" by (cases h)
  let ?a = "k @ [58, 32] @ v"
  have lines: "header_text (h # hs) @ CRLF = ?a @ CRLF @ header_text hs @ CRLF"
    by (simp add: header_text_def header_line_def h)
  have a: "10 \<notin> set ?a" using Cons.prems(1) h by (auto simp: header_ok_def)
  have "\<not> prefix CRLF (?a @ CRLF @ header_text hs @ CRLF)"
  proof (cases k)
    case (Cons x xs)
    then show ?thesis using a by (cases xs) (auto simp: CRLF_def)
  qed (simp add: CRLF_def)
  with Cons.IH [of ?a] Cons.prems a show ?case unfolding lines
    by (simp add: find_END [OF Cons.prems(2)] header_text_def header_line_def h) (simp add: CRLF_def)
qed

lemma request_end:
  assumes "target_clear target" "\<forall>h\<in>set hs. header_ok h"
  shows "find_text HEADERS_END (request_text m target hs) = Some (length (request_text m target hs) - 4)"
proof -
  have "10 \<notin> set (request_line m target)" using line_clear [OF assms(1)] by auto
  from header_lines_end [OF assms(2) this] show ?thesis by (simp add: request_text_def CRLF_def)
qed

lemma request_unfinished:
  assumes "target_clear target" "\<forall>h\<in>set hs. header_ok h" "request_text m target hs = u @ [b]"
  shows "find_text HEADERS_END u = None"
proof (cases "find_text HEADERS_END u")
  case (Some j)
  then have "find_text HEADERS_END (u @ [b]) = Some j" by (intro find_text_append) (simp_all add: HEADERS_END_def CRLF_def)
  then have "j = length (u @ [b]) - 4" using request_end [OF assms(1,2), of m] assms(3) by simp
  moreover have "j + 4 \<le> length u" using find_text_found [OF Some] by (simp add: HEADERS_END_def CRLF_def)
  ultimately show ?thesis by simp
qed

lemma request_nonzero:
  assumes "target_clear target" "\<forall>h\<in>set hs. header_ok h"
  shows "0 \<notin> set (request_text m target hs)"
  using line_clear [OF assms(1)] header_text_nonzero [OF assms(2)] by (auto simp: request_text_def CRLF_def)

lemma request_received:
  assumes "target_clear target" "\<forall>h\<in>set hs. header_ok h" "length (request_text m target hs) < HTTPD_CMD_BUF_SIZE"
    "\<forall>r\<in>set rs. brings 1 r" "delivered rs @ [b] = request_text m target hs" "\<not> connection_destruct_flag c"
  shows "\<exists>n k r. receive_headers (rs @ Received [b] # rest) c (replicate HTTPD_CMD_BUF_SIZE 0) 0 =
    Some (c, Read (request_text m target hs @ 0 # r, n, Some k), rest) \<and> 0 < n"
proof -
  have "find_text HEADERS_END (delivered rs) = None"
    using request_unfinished [OF assms(1,2)] assms(5) by metis
  from headers_received [OF assms(4,5) request_nonzero [OF assms(1,2)] assms(3) this request_end [OF assms(1,2)] assms(6)]
  show ?thesis unfolding zero_filled_zero [OF assms(3)] using assms(5) by (metis length_greater_0_conv snoc_eq_iff_butlast)
qed

subsection \<open>Bodies\<close>

lemma receive_body_on:
  assumes "\<forall>r\<in>set rs. brings n r" "length (u @ r) = unat (data_len c)" "length (u @ delivered rs) < unat (data_len c)"
    "\<not> connection_destruct_flag c"
  shows "\<exists>r'. receive_body (rs @ rest) c (u @ r) (length u) = receive_body rest c ((u @ delivered rs) @ r') (length (u @ delivered rs)) \<and>
    length ((u @ delivered rs) @ r') = unat (data_len c)"
  using assms(1-3)
proof (induction rs arbitrary: u r)
  case (Cons x rs)
  show ?case
  proof (cases x)
    case (Received bs)
    have le: "length bs \<le> length r" and less: "length (u @ bs) < unat (data_len c)" using Cons.prems(2,3) Received by simp_all
    have "length ((u @ bs) @ drop (length bs) r) = unat (data_len c)" using Cons.prems(2) le by simp
    from Cons.IH [OF _ this] Cons.prems(1,3) Received obtain r' where
      "receive_body (rs @ rest) c ((u @ bs) @ drop (length bs) r) (length (u @ bs)) =
        receive_body rest c (((u @ bs) @ delivered rs) @ r') (length ((u @ bs) @ delivered rs))"
      "length (((u @ bs) @ delivered rs) @ r') = unat (data_len c)" by auto
    with Received recv_into_at [OF le, of u] less show ?thesis by (intro exI [of _ r']) (simp add: Let_def)
  next
    case Remote_Closed
    then show ?thesis using Cons.prems(1) by (simp add: brings_def)
  next
    case (Recv_Failed ret errno timed_out)
    have "\<not> timed_out \<and> waits_on ret errno c \<and> c\<lparr>connection_destruct_flag := False\<rparr> = c"
      using waits [of n ret errno timed_out c] Cons.prems(1) Recv_Failed assms(4) by simp
    with Cons.IH [of u r] Cons.prems Recv_Failed show ?thesis by (simp add: Let_def)
  qed
qed auto

lemma body_received:
  assumes "\<forall>r\<in>set rs. brings n r" "bs \<noteq> []" "length (delivered rs @ bs) = unat (data_len c)"
    "length buf = unat (data_len c)" "\<not> connection_destruct_flag c"
  shows "receive_body (rs @ Received bs # rest) c buf 0 = Some (c\<lparr>data_buff := Some (delivered rs @ bs)\<rparr>, Read (), rest)"
proof -
  have "length ([] @ delivered rs) < unat (data_len c)" using assms(2,3) by (cases bs) auto
  then obtain r' where r': "receive_body (rs @ Received bs # rest) c ([] @ buf) (length []) =
      receive_body (Received bs # rest) c (([] @ delivered rs) @ r') (length ([] @ delivered rs))"
      "length (([] @ delivered rs) @ r') = unat (data_len c)"
    using receive_body_on [of rs n "[]" buf c "Received bs # rest"] assms(1,4,5) by auto
  moreover have "length bs = length r'" using r'(2) assms(3) by simp
  ultimately show ?thesis using recv_into_at [of bs r' "delivered rs"] assms(3) by (simp add: Let_def)
qed

section \<open>From the bytes of a request to its handler\<close>

lemma settings_rest [simp]:
  "connection_destruct_flag (fst (settings hs c)) = connection_destruct_flag c"
  "websocket_client (fst (settings hs c)) = websocket_client c" "cgi (fst (settings hs c)) = cgi c"
  "socket_id (fst (settings hs c)) = socket_id c" "requestType (fst (settings hs c)) = requestType c"
  by (simp_all add: settings_def body_settings_def Let_def split: option.splits)

lemma settings_length:
  "header_value ''Connection'' hs = Some v \<Longrightarrow> header_value ''Content-Length'' hs = Some w \<Longrightarrow>
    data_len (fst (settings hs c)) = of_int (atoi w)"
  by (simp add: settings_def body_settings_def Let_def split: option.splits)

text \<open>The connection when its request has been parsed.\<close>

definition parsed :: "HTTPd_Method \<Rightarrow> u8 list \<Rightarrow> u8 list option \<Rightarrow> (u8 list \<times> u8 list) list \<Rightarrow> u8 list option \<Rightarrow>
    'h connection \<Rightarrow> 'h connection" where
  "parsed m path args hs host c =
     (fst (settings hs (c\<lparr>url := None, requestType := m\<rparr>)))\<lparr>hostName := host, url := Some path, getArgs := args\<rparr>"

definition parse_events :: "nat \<Rightarrow> HTTPd_Method \<Rightarrow> (u8 list \<times> u8 list) list \<Rightarrow> 'h connection \<Rightarrow> task_event list" where
  "parse_events i m hs c = NeonRTOS_TimerStop i # (case snd (settings hs (c\<lparr>url := None, requestType := m\<rparr>)) of
     None \<Rightarrow> [] | Some p \<Rightarrow> [NeonRTOS_TimerChangePeriod i p])"

text \<open>Requests that the server reads as they are meant.\<close>

definition request_ok :: "HTTPd_Method \<Rightarrow> u8 list \<Rightarrow> u8 list option \<Rightarrow> (u8 list \<times> u8 list) list \<Rightarrow> bool" where
  "request_ok m path args hs \<longleftrightarrow> target_ok m (target_text path args) \<and> 63 \<notin> set path \<and> m \<noteq> HTTPd_Method_UNKNOWN \<and>
     readable hs \<and> (case header_value ''Connection'' hs of None \<Rightarrow> True | Some w \<Rightarrow> \<not> starts_with w [''Upgrade'', ''upgrade'']) \<and>
     length (request_text m (target_text path args) hs) < HTTPD_CMD_BUF_SIZE"

text \<open>A script that brings a text byte by byte, with pauses in between.\<close>

definition brings_text :: "recv_result list \<Rightarrow> u8 list \<Rightarrow> bool" where
  "brings_text rs t \<longleftrightarrow> (\<forall>r\<in>set rs. brings 1 r) \<and> delivered rs = t \<and> rs \<noteq> [] \<and> brings 1 (last rs) \<and>
     (\<exists>b. last rs = Received [b])"

lemma request_parsed:
  assumes "request_ok m path args hs" "brings_text rs (request_text m (target_text path args) hs)"
    "cmd_buf_mem env i" "\<not> connection_destruct_flag c"
  shows "\<exists>host. serve_http env i (rs @ rest) c s = do {
    (c1, b, rs) \<leftarrow> read_body (malloc env i) rest (parsed m path args hs host c);
    (case b of
       Waiting \<Rightarrow> Some (c1, parse_events i m hs c, s, Blocked, rs)
     | No_Memory \<Rightarrow> Some (c1, parse_events i m hs c, s, Next_Client, rs)
     | Client_Close \<Rightarrow> Some (c1\<lparr>connection_destruct_flag := True\<rparr>, parse_events i m hs c, s, Next_Client, rs)
     | Read _ \<Rightarrow> do {
         (c2, s2) \<leftarrow> serve_request (request_env env i) c1 s;
         Some (c2, parse_events i m hs c @ (if connection_destruct_flag c2 then [NeonRTOS_TimerStop i] else []), s2, Next_Client, rs) }) }"
proof -
  let ?t = "target_text path args"
  have ok: "target_ok m ?t" "63 \<notin> set path" "m \<noteq> HTTPd_Method_UNKNOWN" "readable hs" "\<forall>h\<in>set hs. header_ok h"
    "\<forall>w. header_value ''Connection'' hs = Some w \<longrightarrow> \<not> starts_with w [''Upgrade'', ''upgrade'']"
    "length (request_text m ?t hs) < HTTPD_CMD_BUF_SIZE"
    using assms(1) by (auto simp: request_ok_def readable_def split: option.splits)
  obtain rs1 b where rs: "rs = rs1 @ [Received [b]]"
    using assms(2) unfolding brings_text_def by (metis append_butlast_last_id)
  have "\<forall>r\<in>set rs1. brings 1 r" "delivered rs1 @ [b] = request_text m ?t hs"
    using assms(2) rs by (auto simp: brings_text_def delivered_def)
  from request_received [OF target_ok_clear [OF ok(1)] ok(5,7) this assms(4), of rest] obtain n k r where
    recv: "receive_headers (rs1 @ Received [b] # rest) c (replicate HTTPD_CMD_BUF_SIZE 0) 0 =
      Some (c, Read (request_text m ?t hs @ 0 # r, n, Some k), rest)" "0 < n" by blast
  have hd: "receive_headers (rs @ rest) c (replicate HTTPD_CMD_BUF_SIZE 0) 0 =
      Some (c, Read (request_text m ?t hs @ 0 # r, n, Some k), rest)" using recv(1) rs by simp
  obtain host buf where "HTTPd_Parse_InMsg_Headers (request_text m ?t hs @ 0 # r) c =
      Some (0, buf, parsed m path args hs host c, snd (settings hs (c\<lparr>url := None, requestType := m\<rparr>)))"
    using request_as_written [OF ok(1-4,6), of r c] unfolding parsed_def by blast
  then show ?thesis unfolding serve_http_def hd parse_events_def using assms(3) recv(2)
    by (intro exI [of _ host]) (simp add: Let_def)
qed

lemma request_with_body_served:
  assumes "request_ok m path args hs" "brings_text rs (request_text m (target_text path args) hs)"
    "cmd_buf_mem env i" "\<not> connection_destruct_flag c"
    "header_value ''Connection'' hs = Some v" "header_value ''Content-Length'' hs = Some w"
    "atoi w = int (length d)" "0 < length d" "length d \<le> 4096"
    "malloc env i (length d) = Some mem" "length mem = length d"
    "\<forall>r\<in>set bs. brings n r" "x \<noteq> []" "delivered bs @ x = d"
  shows "\<exists>host. serve_http env i (rs @ bs @ Received x # rest) c s = do {
    (c2, s2) \<leftarrow> serve_request (request_env env i) ((parsed m path args hs host c)\<lparr>data_buff := Some d\<rparr>) s;
    Some (c2, parse_events i m hs c @ (if connection_destruct_flag c2 then [NeonRTOS_TimerStop i] else []), s2, Next_Client, rest) }"
proof -
  obtain host where host: "serve_http env i (rs @ bs @ Received x # rest) c s = do {
    (c1, b, rs) \<leftarrow> read_body (malloc env i) (bs @ Received x # rest) (parsed m path args hs host c);
    (case b of
       Waiting \<Rightarrow> Some (c1, parse_events i m hs c, s, Blocked, rs)
     | No_Memory \<Rightarrow> Some (c1, parse_events i m hs c, s, Next_Client, rs)
     | Client_Close \<Rightarrow> Some (c1\<lparr>connection_destruct_flag := True\<rparr>, parse_events i m hs c, s, Next_Client, rs)
     | Read _ \<Rightarrow> do {
         (c2, s2) \<leftarrow> serve_request (request_env env i) c1 s;
         Some (c2, parse_events i m hs c @ (if connection_destruct_flag c2 then [NeonRTOS_TimerStop i] else []), s2, Next_Client, rs) }) }"
    using request_parsed [OF assms(1-4)] by blast
  let ?c = "parsed m path args hs host c"
  have len: "data_len ?c = of_nat (length d)"
    using settings_length [OF assms(5,6)] assms(7) by (simp add: parsed_def)
  then have u: "unat (data_len ?c) = length d" using assms(9) by (simp only: unat_of_nat) (simp add: take_bit_nat_eq_self)
  have small: "0 < data_len ?c" "\<not> 4096 < data_len ?c"
    using u assms(8,9) by (simp_all add: word_less_nat_alt)
  have "receive_body (bs @ Received x # rest) ?c mem 0 = Some (?c\<lparr>data_buff := Some d\<rparr>, Read (), rest)"
    using body_received [OF assms(12,13), of ?c mem rest] assms(4,11,14) u by (simp add: parsed_def)
  then have "read_body (malloc env i) (bs @ Received x # rest) ?c = Some (?c\<lparr>data_buff := Some d\<rparr>, Read (), rest)"
    using small assms(10) u by (simp add: read_body_def)
  then show ?thesis unfolding host by (intro exI [of _ host]) simp
qed

section \<open>What the functions keep of a connection\<close>

lemma bind_case_prod: "(do { (a, b) \<leftarrow> m; f a b }) = Some y \<longleftrightarrow> (\<exists>a b. m = Some (a, b) \<and> f a b = Some y)"
  by (auto simp: bind_eq_Some_conv)

text \<open>Reading the headers leaves the socket and the mark of the connection alone, and a connection only
  becomes a WebSocket with a new period of its timer.\<close>

definition parse_keeps :: "'h connection \<Rightarrow> 'h connection \<Rightarrow> u32 option \<Rightarrow> bool" where
  "parse_keeps c c1 p \<longleftrightarrow> socket_id c1 = socket_id c \<and> connection_destruct_flag c1 = connection_destruct_flag c \<and>
     (websocket_client c1 \<longrightarrow> websocket_client c \<or> p \<noteq> None)"

lemma upgrade_keeps: "read_upgrade h q c = Some (r, b, c1, p) \<Longrightarrow> parse_keeps c c1 p"
  by (auto simp: read_upgrade_def Let_def bind_eq_Some_conv parse_keeps_def split: option.splits if_splits)

lemma keep_alive_keeps: "read_keep_alive h q c = Some (c1, p) \<Longrightarrow> parse_keeps c c1 None"
  by (auto simp: read_keep_alive_def Let_def bind_eq_Some_conv parse_keeps_def split: option.splits)

lemma content_length_keeps: "read_content_length h q c = Some c1 \<Longrightarrow> parse_keeps c c1 None"
  by (auto simp: read_content_length_def bind_eq_Some_conv parse_keeps_def split: option.splits)

lemma accept_encoding_keeps:
  assumes "read_accept_encoding h q c = Some c1"
  shows "parse_keeps c c1 None"
proof -
  from assms obtain t where t: "(case t of
        None \<Rightarrow> Some c
      | Some t \<Rightarrow> do {
          e \<leftarrow> strstr h t CRLF;
          (case e of
             None \<Rightarrow> Some c
           | Some e \<Rightarrow> if 64 \<le> e - t then None else Some (c\<lparr>accept_encoding := take (e - t) (drop t h)\<rparr>)) }) = Some c1"
    by (auto simp: read_accept_encoding_def bind_eq_Some_conv)
  show ?thesis
  proof (cases t)
    case (Some q)
    with t obtain e where "(case e of None \<Rightarrow> Some c
      | Some e \<Rightarrow> if 64 \<le> e - q then None else Some (c\<lparr>accept_encoding := take (e - q) (drop q h)\<rparr>)) = Some c1"
      by (auto simp: bind_eq_Some_conv)
    then show ?thesis by (cases e) (auto simp: parse_keeps_def split: if_split_asm)
  qed (use t in \<open>simp add: parse_keeps_def\<close>)
qed

lemma plain_keeps:
  assumes "read_plain h q k c = Some (c1, p)"
  shows "parse_keeps c c1 p"
proof -
  let ?c = "c\<lparr>connetion_mode := HTTPd_Connection_Mode_Close\<rparr>"
  from assms obtain keep c2 c3 where
    "(if keep then map_option (\<lambda>(c, p). (c, Some p)) (read_keep_alive h q ?c) else Some (?c, None)) = Some (c2, p)"
    "read_content_length h q c2 = Some c3" "read_accept_encoding h q c3 = Some c1"
    by (auto simp: read_plain_def Let_def bind_eq_Some_conv)
  moreover from this(1) have "parse_keeps ?c c2 None"
    using keep_alive_keeps [of h q ?c] by (auto simp: parse_keeps_def split: if_splits)
  ultimately show ?thesis using content_length_keeps accept_encoding_keeps by (fastforce simp: parse_keeps_def)
qed

lemma headers_keep:
  assumes "read_headers h q c = Some (r, b, c1, p)"
  shows "parse_keeps c c1 p"
proof -
  from assms obtain k c2 host where
    "(case k of None \<Rightarrow> Some (0, h, c, None)
      | Some conn_str \<Rightarrow> do {
          upgrade \<leftarrow> starts_any h conn_str [''Upgrade'', ''upgrade''];
          if upgrade then read_upgrade h q c
          else map_option (\<lambda>(c1, p). (0, h, c1, p)) (read_plain h q conn_str c) }) = Some (r, b, c2, p)"
    "c1 = c2\<lparr>hostName := host\<rparr>"
    by (auto simp: read_headers_def bind_eq_Some_conv)
  moreover from this(1) have "parse_keeps c c2 p"
    using upgrade_keeps plain_keeps by (auto simp: bind_eq_Some_conv parse_keeps_def split: option.splits if_splits) fastforce+
  ultimately show ?thesis by (simp add: parse_keeps_def)
qed

lemma parsing_keeps:
  assumes "HTTPd_Parse_InMsg_Headers h c = Some (r, b, c1, p)"
  shows "parse_keeps c c1 p"
proof -
  have rest: "parse_keeps c (c\<lparr>url := None\<rparr>) None" "parse_keeps c (c\<lparr>url := None, requestType := m\<rparr>) None"
    for m by (simp_all add: parse_keeps_def)
  note parse = assms [unfolded HTTPd_Parse_InMsg_Headers_def Let_def]
  from parse show ?thesis
  proof (elim bind_SomeE, goal_cases)
    case (1 l)
    show ?case
    proof (cases l)
      case None
      then show ?thesis using 1(2) rest(1) by simp
    next
      case (Some l1)
      from 1(2) [unfolded Some option.case] show ?thesis
      proof (elim bind_SomeE, goal_cases)
        case (1 m)
        show ?case
        proof (cases "m = HTTPd_Method_UNKNOWN")
          case True
          then show ?thesis using 1(2) rest(2) by auto
        next
          case False
          from 1(2) [unfolded if_not_P [OF False]] show ?thesis
          proof (elim bind_SomeE, goal_cases)
            case (1 path)
            show ?case
            proof (cases path)
              case None
              then show ?thesis using 1(2) rest(2) by auto
            next
              case (Some u)
              from 1(2) [unfolded Some option.case] show ?thesis
              proof (elim bind_SomeE, goal_cases)
                case (1 e)
                show ?case
                proof (cases e)
                  case None
                  then show ?thesis using 1(2) by (auto simp: parse_keeps_def)
                next
                  case (Some e1)
                  from 1(2) [unfolded Some option.case] obtain h1 q r1 b1 c2 t a where
                    "read_headers h1 q (c\<lparr>url := None, requestType := m\<rparr>) = Some (r1, b1, c2, p)"
                    "c1 = c2\<lparr>url := Some t, getArgs := a\<rparr>"
                    by (elim bind_SomeE) (auto elim!: bind_SomeE)
                  with headers_keep show ?thesis by (fastforce simp: parse_keeps_def)
                qed
              qed
            qed
          qed
        qed
      qed
    qed
  qed
qed

text \<open>What the receiving loops keep.\<close>

definition recv_keeps :: "'h connection \<Rightarrow> 'h connection \<Rightarrow> bool \<Rightarrow> bool" where
  "recv_keeps c c1 closed \<longleftrightarrow> socket_id c1 = socket_id c \<and> websocket_client c1 = websocket_client c \<and>
     (\<not> closed \<longrightarrow> connection_destruct_flag c1 = connection_destruct_flag c)"

lemma waits_on_open: "waits_on ret errno c \<Longrightarrow> \<not> connection_destruct_flag c"
  by (simp add: waits_on_def split: if_split_asm)

lemma recv_keeps_marked:
  assumes "recv_keeps (marked_by timed_out c) c1 closed" "waits_on ret errno (marked_by timed_out c)"
  shows "recv_keeps c c1 closed"
  using assms(1) waits_on_open [OF assms(2)] by (simp add: recv_keeps_def)

lemma receive_headers_keeps:
  "receive_headers rs c buf n = Some (c1, h, rs1) \<Longrightarrow> recv_keeps c c1 (h = Client_Close)"
proof (induction rs arbitrary: c buf n)
  case (Cons r rs)
  show ?case
  proof (cases r)
    case (Received bs)
    with Cons.prems obtain buf' n' where "c1 = c \<or> receive_headers rs c buf' n' = Some (c1, h, rs1)"
      by (auto simp: Let_def bind_eq_Some_conv split: if_split_asm)
    with Cons.IH show ?thesis by (auto simp: recv_keeps_def)
  next
    case (Recv_Failed ret errno timed_out)
    let ?c = "marked_by timed_out c"
    from Cons.prems Recv_Failed have "h = Client_Close \<and> c1 = ?c \<or>
        waits_on ret errno ?c \<and> (c1 = ?c \<or> receive_headers rs ?c buf n = Some (c1, h, rs1))"
      by (auto simp: Let_def bind_eq_Some_conv split: if_split_asm)
    then consider "h = Client_Close" "c1 = ?c" | "waits_on ret errno ?c" "c1 = ?c"
      | "waits_on ret errno ?c" "receive_headers rs ?c buf n = Some (c1, h, rs1)" by blast
    then show ?thesis
    proof cases
      case 2
      then have "recv_keeps ?c c1 (h = Client_Close)" by (simp add: recv_keeps_def)
      then show ?thesis using 2(1) by (rule recv_keeps_marked)
    next
      case 3
      from Cons.IH [OF 3(2)] 3(1) show ?thesis by (rule recv_keeps_marked)
    qed (simp add: recv_keeps_def)
  qed (use Cons.prems in \<open>simp add: recv_keeps_def\<close>)
qed (simp add: recv_keeps_def)

lemma receive_body_keeps:
  "receive_body rs c buf n = Some (c1, h, rs1) \<Longrightarrow> recv_keeps c c1 (h = Client_Close)"
proof (induction rs arbitrary: c buf n)
  case (Cons r rs)
  show ?case
  proof (cases r)
    case (Received bs)
    with Cons.prems obtain buf' n' where "c1 = c\<lparr>data_buff := Some buf'\<rparr> \<or> receive_body rs c buf' n' = Some (c1, h, rs1)"
      by (auto simp: Let_def bind_eq_Some_conv split: if_split_asm)
    with Cons.IH show ?thesis by (auto simp: recv_keeps_def)
  next
    case (Recv_Failed ret errno timed_out)
    let ?c = "marked_by timed_out c"
    from Cons.prems Recv_Failed have "h = Client_Close \<and> c1 = free_data (?c\<lparr>data_buff := Some buf\<rparr>) \<or>
        waits_on ret errno ?c \<and> (c1 = ?c\<lparr>data_buff := Some buf\<rparr> \<or> receive_body rs ?c buf n = Some (c1, h, rs1))"
      by (auto simp: Let_def split: if_split_asm)
    then consider "h = Client_Close" "c1 = free_data (?c\<lparr>data_buff := Some buf\<rparr>)"
      | "waits_on ret errno ?c" "c1 = ?c\<lparr>data_buff := Some buf\<rparr>"
      | "waits_on ret errno ?c" "receive_body rs ?c buf n = Some (c1, h, rs1)" by blast
    then show ?thesis
    proof cases
      case 2
      then have "recv_keeps ?c c1 (h = Client_Close)" by (simp add: recv_keeps_def)
      then show ?thesis using 2(1) by (rule recv_keeps_marked)
    next
      case 3
      from Cons.IH [OF 3(2)] 3(1) show ?thesis by (rule recv_keeps_marked)
    qed (simp add: recv_keeps_def)
  qed (use Cons.prems in \<open>auto simp: recv_keeps_def\<close>)
qed (auto simp: recv_keeps_def)

lemma read_body_keeps: "read_body mem rs c = Some (c1, h, rs1) \<Longrightarrow> recv_keeps c c1 (h = Client_Close)"
  using receive_body_keeps [of rs c _ 0 c1 h rs1]
  by (auto simp: read_body_def recv_keeps_def split: if_splits option.splits)

text \<open>Serving a request marks its connection unless it opened a WebSocket.\<close>

definition serve_keeps :: "'h connection \<Rightarrow> 'h connection \<Rightarrow> bool" where
  "serve_keeps c c1 \<longleftrightarrow> socket_id c1 = socket_id c \<and> websocket_client c1 = websocket_client c \<and>
     (connection_destruct_flag c1 \<or> websocket_client c)"

lemma match_keeps: "HTTPd_isMatch_CGI b u c = (m, c1) \<Longrightarrow> \<exists>h. c1 = c\<lparr>cgi := h\<rparr>"
  by (cases c) (auto simp: HTTPd_isMatch_CGI_def match_list_find split: option.splits)

lemma run_matched_keeps: "run_matched env c s = Some (c1, s1) \<Longrightarrow> c1 = c\<lparr>cgi := None\<rparr>"
  by (auto simp: run_matched_def Let_def bind_eq_Some_conv)

abbreviation (input) same_client :: "int \<Rightarrow> 'h connection \<Rightarrow> 'h connection \<Rightarrow> bool" where
  "same_client r c c1 \<equiv> r = HTTPD_CGI_DONE \<and> socket_id c1 = socket_id c \<and> websocket_client c1 = websocket_client c"

lemma method_keeps:
  "HTTPd_Process_POST_Request env c s = Some (r, c1, s1) \<Longrightarrow> same_client r c c1"
  "HTTPd_Process_PUT_Request env c s = Some (r, c1, s1) \<Longrightarrow> same_client r c c1"
  "HTTPd_Process_DELETE_Request env c s = Some (r, c1, s1) \<Longrightarrow> same_client r c c1"
proof -
  obtain m c0 where m: "HTTPd_isMatch_CGI (builtInUrls env) (Registered_URL_List s) c = (m, c0)" by fastforce
  from match_keeps [OF m] obtain h where c0: "c0 = c\<lparr>cgi := h\<rparr>" by blast
  show "HTTPd_Process_POST_Request env c s = Some (r, c1, s1) \<Longrightarrow> same_client r c c1"
    unfolding HTTPd_Process_POST_Request_def m c0
    by (auto simp: Let_def bind_eq_Some_conv split: if_split_asm)
  show "HTTPd_Process_PUT_Request env c s = Some (r, c1, s1) \<Longrightarrow> same_client r c c1"
    unfolding HTTPd_Process_PUT_Request_def m c0
    by (auto simp: bind_eq_Some_conv dest!: run_matched_keeps split: if_split_asm)
  show "HTTPd_Process_DELETE_Request env c s = Some (r, c1, s1) \<Longrightarrow> same_client r c c1"
    unfolding HTTPd_Process_DELETE_Request_def m c0
    by (auto simp: bind_eq_Some_conv dest!: run_matched_keeps split: if_split_asm)
qed

lemma GET_keeps:
  assumes "HTTPd_Process_GET_Request env c s = Some (r, c1, s1)"
  shows "socket_id c1 = socket_id c \<and> websocket_client c1 = websocket_client c \<and> (r = HTTPD_CGI_DONE \<or> websocket_client c)"
proof (cases "websocket_client c")
  case True
  with assms have "send_upgrade env c s = Some (r, c1, s1)" by (simp add: HTTPd_Process_GET_Request_def)
  with True show ?thesis by (auto simp: send_upgrade_def bind_eq_Some_conv split: if_split_asm)
next
  case False
  obtain m c0 where m: "HTTPd_isMatch_CGI (builtInUrls env) (Registered_URL_List s) c = (m, c0)" by fastforce
  from match_keeps [OF m] obtain h where c0: "c0 = c\<lparr>cgi := h\<rparr>" by blast
  show ?thesis using assms False unfolding HTTPd_Process_GET_Request_def m c0
    by (auto simp: bind_eq_Some_conv Let_def dest!: run_matched_keeps split: if_split_asm)
qed

lemma serving_keeps:
  assumes "serve_request env c s = Some (c1, s1)"
  shows "serve_keeps c c1"
proof -
  from assms obtain r c2 s2 where
    "(case requestType c of
         HTTPd_Method_POST \<Rightarrow>
           if 0 < data_len c then HTTPd_Process_POST_Request env c s else Some (HTTPD_CGI_DONE, c, s)
       | HTTPd_Method_GET \<Rightarrow> HTTPd_Process_GET_Request env c s
       | HTTPd_Method_PUT \<Rightarrow>
           if 0 < data_len c then HTTPd_Process_PUT_Request env c s else Some (HTTPD_CGI_DONE, c, s)
       | HTTPd_Method_DELETE \<Rightarrow> HTTPd_Process_DELETE_Request env c s
       | HTTPd_Method_UNKNOWN \<Rightarrow> Some (HTTPD_CGI_DONE, c, s)) = Some (r, c2, s2)"
    and c1: "c1 = (if r = HTTPD_CGI_DONE then (free_data c2)\<lparr>connection_destruct_flag := True\<rparr> else free_data c2)"
    by (auto simp: serve_request_def Let_def bind_eq_Some_conv)
  note r = this(1)
  have "socket_id c2 = socket_id c \<and> websocket_client c2 = websocket_client c \<and> (r = HTTPD_CGI_DONE \<or> websocket_client c)"
  proof (cases "requestType c")
    case HTTPd_Method_GET
    with r have "HTTPd_Process_GET_Request env c s = Some (r, c2, s2)" by simp
    from GET_keeps [OF this] show ?thesis .
  next
    case HTTPd_Method_POST
    with r have "same_client r c c2 \<or> HTTPd_Process_POST_Request env c s = Some (r, c2, s2)"
      by (auto split: if_split_asm)
    with method_keeps(1) show ?thesis by blast
  next
    case HTTPd_Method_PUT
    with r have "same_client r c c2 \<or> HTTPd_Process_PUT_Request env c s = Some (r, c2, s2)"
      by (auto split: if_split_asm)
    with method_keeps(2) show ?thesis by blast
  next
    case HTTPd_Method_DELETE
    with r have "HTTPd_Process_DELETE_Request env c s = Some (r, c2, s2)" by simp
    with method_keeps(3) show ?thesis by blast
  next
    case HTTPd_Method_UNKNOWN
    with r show ?thesis by auto
  qed
  then show ?thesis unfolding serve_keeps_def c1 by auto
qed

section \<open>Sockets and timers\<close>

text \<open>The timer of a slot, read off the log: whether there is one, and whether it runs.\<close>

fun timer_event :: "nat \<Rightarrow> task_event \<Rightarrow> bool option \<Rightarrow> bool option" where
  "timer_event i (NeonRTOS_TimerCreate k p) st = (if k = i then Some False else st)"
| "timer_event i (NeonRTOS_TimerStart k) st = (if k = i then map_option (\<lambda>_. True) st else st)"
| "timer_event i (NeonRTOS_TimerStop k) st = (if k = i then map_option (\<lambda>_. False) st else st)"
| "timer_event i (NeonRTOS_TimerReStart k) st = (if k = i then map_option (\<lambda>_. True) st else st)"
| "timer_event i (NeonRTOS_TimerChangePeriod k p) st = (if k = i then map_option (\<lambda>_. True) st else st)"
| "timer_event i (NeonRTOS_TimerDelete k) st = (if k = i then None else st)"
| "timer_event i _ st = st"

definition timer_state :: "nat \<Rightarrow> task_event list \<Rightarrow> bool option" where
  "timer_state i log = fold (timer_event i) log None"

fun opened_by :: "task_event \<Rightarrow> int multiset" where
  "opened_by (Accepted sock) = {#sock#}" | "opened_by _ = {#}"

fun closed_by :: "task_event \<Rightarrow> int multiset" where
  "closed_by (Closed sock) = {#sock#}" | "closed_by _ = {#}"

definition accepted_sockets :: "task_event list \<Rightarrow> int multiset" where
  "accepted_sockets log = sum_list (map opened_by log)"

definition closed_sockets :: "task_event list \<Rightarrow> int multiset" where
  "closed_sockets log = sum_list (map closed_by log)"

definition client_sockets :: "'h clients \<Rightarrow> int multiset" where
  "client_sockets cs = sum_list (map (\<lambda>slot. case slot of None \<Rightarrow> {#} | Some c \<Rightarrow> {#socket_id c#}) cs)"

lemma accepted_append [simp]: "accepted_sockets (xs @ ys) = accepted_sockets xs + accepted_sockets ys"
  by (simp add: accepted_sockets_def)

lemma closed_append [simp]: "closed_sockets (xs @ ys) = closed_sockets xs + closed_sockets ys"
  by (simp add: closed_sockets_def)

lemma timer_append: "timer_state i (xs @ ys) = fold (timer_event i) ys (timer_state i xs)"
  by (simp add: timer_state_def)

text \<open>Events of the timer of one slot that neither create nor delete it.\<close>

definition mild :: "nat \<Rightarrow> task_event \<Rightarrow> bool" where
  "mild k e \<longleftrightarrow> (case e of NeonRTOS_TimerStart j \<Rightarrow> j = k | NeonRTOS_TimerStop j \<Rightarrow> j = k | NeonRTOS_TimerReStart j \<Rightarrow> j = k
     | NeonRTOS_TimerChangePeriod j p \<Rightarrow> j = k | _ \<Rightarrow> False)"

lemma mild_event: "mild k e \<Longrightarrow> opened_by e = {#} \<and> closed_by e = {#} \<and> (i \<noteq> k \<longrightarrow> timer_event i e st = st) \<and>
    (timer_event i e st = None \<longleftrightarrow> st = None)"
  by (cases e) (auto simp: mild_def)

lemma mild_events:
  assumes "\<forall>e\<in>set es. mild k e"
  shows "accepted_sockets es = {#}" "closed_sockets es = {#}"
    "i \<noteq> k \<Longrightarrow> timer_state i (log @ es) = timer_state i log"
    "timer_state i (log @ es) = None \<longleftrightarrow> timer_state i log = None"
proof -
  show "accepted_sockets es = {#}" "closed_sockets es = {#}"
    using assms mild_event [of k] by (induction es) (auto simp: accepted_sockets_def closed_sockets_def)
  have "(i \<noteq> k \<longrightarrow> fold (timer_event i) es st = st) \<and> (fold (timer_event i) es st = None \<longleftrightarrow> st = None)" for st
    using assms
  proof (induction es arbitrary: st)
    case (Cons e es)
    from mild_event [of k e i st] Cons.IH [of "timer_event i e st"] Cons.prems show ?case by auto
  qed simp
  then show "i \<noteq> k \<Longrightarrow> timer_state i (log @ es) = timer_state i log"
    "timer_state i (log @ es) = None \<longleftrightarrow> timer_state i log = None"
    by (simp_all add: timer_append)
qed

lemma client_sockets_none: "client_sockets (replicate n None) = {#}"
  by (induction n) (simp_all add: client_sockets_def)

lemma client_sockets_update:
  assumes "i < length cs"
  shows "client_sockets (cs[i := x]) + (case cs ! i of None \<Rightarrow> {#} | Some c \<Rightarrow> {#socket_id c#}) =
    client_sockets cs + (case x of None \<Rightarrow> {#} | Some c \<Rightarrow> {#socket_id c#})"
  using assms
proof (induction cs arbitrary: i)
  case (Cons y cs)
  then show ?case by (cases i) (auto simp: client_sockets_def algebra_simps split: option.splits)
qed simp

text \<open>Every socket that was accepted is in the table, closed, or one of \<open>extra\<close>, and exactly the used
  slots have a timer.\<close>

definition accounted :: "int multiset \<Rightarrow> ('h, 'w) task \<Rightarrow> bool" where
  "accounted extra t \<longleftrightarrow> length (client_list t) = HTTPD_MAX_CLIENTS \<and>
     accepted_sockets (task_log t) = closed_sockets (task_log t) + client_sockets (client_list t) + extra \<and>
     (\<forall>i<HTTPD_MAX_CLIENTS. timer_state i (task_log t) = None \<longleftrightarrow> client_list t ! i = None)"

abbreviation server_ok :: "('h, 'w) task \<Rightarrow> bool" where
  "server_ok \<equiv> accounted {#}"

text \<open>A client whose connection is not marked has a running timer.\<close>

definition watched :: "('h, 'w) task \<Rightarrow> bool" where
  "watched t \<longleftrightarrow> (\<forall>i<HTTPD_MAX_CLIENTS. \<forall>c. client_list t ! i = Some c \<longrightarrow>
     connection_destruct_flag c \<or> timer_state i (task_log t) = Some True)"

text \<open>The step of one slot: the socket stays, and only the timer of the slot is used.\<close>

lemma slot_step:
  assumes "server_ok t" "i < HTTPD_MAX_CLIENTS" "client_list t ! i = Some c" "socket_id c1 = socket_id c"
    "\<forall>e\<in>set es. mild i e" "client_list t1 = (client_list t)[i := Some c1]" "task_log t1 = task_log t @ es"
  shows "server_ok t1"
    "watched t \<Longrightarrow> connection_destruct_flag c1 \<or> timer_state i (task_log t1) = Some True \<Longrightarrow> watched t1"
proof -
  have len: "i < length (client_list t)" using assms(1,2) by (simp add: accounted_def)
  have slots: "(client_list t)[i := Some c1] ! k = None \<longleftrightarrow> client_list t ! k = None" for k
    using len assms(3) by (cases "k = i") simp_all
  show "server_ok t1"
    using assms(1) client_sockets_update [OF len, of "Some c1"] assms(3,4) mild_events [OF assms(5)]
    unfolding accounted_def assms(6,7) by (simp add: slots)
  assume "watched t" "connection_destruct_flag c1 \<or> timer_state i (task_log t1) = Some True"
  then show "watched t1"
    using mild_events(3) [OF assms(5)] len unfolding watched_def assms(6,7) by (auto simp: nth_list_update)
qed

lemma close_step:
  assumes "server_ok t" "i < HTTPD_MAX_CLIENTS" "client_list t ! i = Some c" "close_client i c t = Some t1"
  shows "server_ok t1" "watched t \<Longrightarrow> watched t1"
proof -
  have len: "i < length (client_list t)" using assms(1,2) by (simp add: accounted_def)
  have t1: "client_list t1 = (client_list t)[i := None]"
    "task_log t1 = task_log t @ [NeonRTOS_TimerStop i, NeonRTOS_TimerDelete i, Closed (socket_id c)]"
    using assms(4) len by (auto simp: close_client_def log_task_def)
  have timer: "timer_state k (task_log t1) = (if k = i then None else timer_state k (task_log t))" for k
    by (simp add: t1(2) timer_append)
  have slot: "client_list t1 ! k = (if k = i then None else client_list t ! k)" if "k < HTTPD_MAX_CLIENTS" for k
    using len by (simp add: t1(1) nth_list_update)
  have "closed_sockets (task_log t1) = closed_sockets (task_log t) + {#socket_id c#}"
    "accepted_sockets (task_log t1) = accepted_sockets (task_log t)"
    by (simp_all add: t1(2) closed_sockets_def accepted_sockets_def)
  moreover have "client_sockets (client_list t1) + {#socket_id c#} = client_sockets (client_list t)"
    using client_sockets_update [OF len, of None] assms(3) by (simp add: t1(1))
  ultimately show "server_ok t1" using assms(1) timer slot by (auto simp: accounted_def t1(1))
  show "watched t \<Longrightarrow> watched t1" using timer slot by (auto simp: watched_def)
qed

subsection \<open>Requests\<close>

lemma receive_body_memory: "receive_body rs c buf n = Some (c1, h, rs1) \<Longrightarrow> h \<noteq> No_Memory"
proof (induction rs arbitrary: c buf n)
  case (Cons r rs)
  then show ?case
    by (cases r) (auto simp: Let_def elim!: bind_SomeE split: if_split_asm)
qed simp

lemma read_body_memory:
  assumes "read_body mem rs c = Some (c1, h, rs1)" "\<forall>n. mem n \<noteq> None"
  shows "h \<noteq> No_Memory"
proof -
  obtain buf where "mem (unat (data_len c)) = Some buf" using assms(2) by blast
  then show ?thesis using assms(1) receive_body_memory [of rs c buf 0 c1 h rs1]
    by (auto simp: read_body_def split: if_split_asm)
qed

lemma http_step:
  assumes "serve_http env i rs c s = Some (c1, es, s1, p, rs1)"
  shows "socket_id c1 = socket_id c \<and> (\<forall>e\<in>set es. mild i e) \<and>
    (p \<noteq> Blocked \<and> \<not> websocket_client c \<and> (\<forall>n. malloc env i n \<noteq> None) \<longrightarrow>
      connection_destruct_flag c1 \<or> fold (timer_event i) es (Some True) = Some True)"
proof (cases "cmd_buf_mem env i")
  case True
  from assms True obtain c2 h rs2 where h: "receive_headers rs c (replicate HTTPD_CMD_BUF_SIZE 0) 0 = Some (c2, h, rs2)"
    by (auto simp: serve_http_def elim!: bind_SomeE)
  have c2: "socket_id c2 = socket_id c" "websocket_client c2 = websocket_client c"
    using receive_headers_keeps [OF h] by (simp_all add: recv_keeps_def)
  note served = assms [unfolded serve_http_def h bind.simps prod.case if_not_P [OF not_not [THEN iffD2, OF True]]]
  show ?thesis
  proof (cases "\<exists>buf n d. h = Read (buf, n, Some d) \<and> 0 < n")
    case False
    have "c1 = c2 \<or> c1 = c2\<lparr>connection_destruct_flag := True\<rparr>" "es = []"
      using served False by (cases h; auto split: option.split_asm if_split_asm)+
    then show ?thesis using c2 by auto
  next
    case True
    then obtain buf n d where "h = Read (buf, n, Some d)" "0 < n" by blast
    with served obtain ret buf1 c3 period where parse: "HTTPd_Parse_InMsg_Headers buf c2 = Some (ret, buf1, c3, period)"
      and rest: "do {
        (c, b, rs) \<leftarrow> read_body (malloc env i) rs2 c3;
        (case b of
           Waiting \<Rightarrow> Some (c, NeonRTOS_TimerStop i # (case period of None \<Rightarrow> [] | Some p \<Rightarrow> [NeonRTOS_TimerChangePeriod i p]), s, Blocked, rs)
         | No_Memory \<Rightarrow> Some (c, NeonRTOS_TimerStop i # (case period of None \<Rightarrow> [] | Some p \<Rightarrow> [NeonRTOS_TimerChangePeriod i p]), s, Next_Client, rs)
         | Client_Close \<Rightarrow> Some (c\<lparr>connection_destruct_flag := True\<rparr>,
             NeonRTOS_TimerStop i # (case period of None \<Rightarrow> [] | Some p \<Rightarrow> [NeonRTOS_TimerChangePeriod i p]), s, Next_Client, rs)
         | Read _ \<Rightarrow> do {
             (c, s) \<leftarrow> serve_request (request_env env i) c s;
             Some (c, (NeonRTOS_TimerStop i # (case period of None \<Rightarrow> [] | Some p \<Rightarrow> [NeonRTOS_TimerChangePeriod i p])) @
               (if connection_destruct_flag c then [NeonRTOS_TimerStop i] else []), s, Next_Client, rs) }) } = Some (c1, es, s1, p, rs1)"
      by (auto simp: Let_def elim!: bind_SomeE)
    let ?es = "NeonRTOS_TimerStop i # (case period of None \<Rightarrow> [] | Some p \<Rightarrow> [NeonRTOS_TimerChangePeriod i p])"
    have c3: "socket_id c3 = socket_id c" "websocket_client c3 \<Longrightarrow> websocket_client c \<or> period \<noteq> None"
      using parsing_keeps [OF parse] c2 by (auto simp: parse_keeps_def)
    have es: "\<forall>e\<in>set ?es. mild i e" by (auto simp: mild_def split: option.splits)
    obtain c4 b rs3 where body: "read_body (malloc env i) rs2 c3 = Some (c4, b, rs3)" using rest by (auto elim!: bind_SomeE)
    have c4: "socket_id c4 = socket_id c" "websocket_client c4 = websocket_client c3"
      using read_body_keeps [OF body] c3(1) by (simp_all add: recv_keeps_def)
    show ?thesis
    proof (cases b)
      case (Read u)
      with rest body obtain c5 s5 where served: "serve_request (request_env env i) c4 s = Some (c5, s5)"
        and r: "c1 = c5" "es = ?es @ (if connection_destruct_flag c5 then [NeonRTOS_TimerStop i] else [])"
        by (auto elim!: bind_SomeE)
      have "socket_id c5 = socket_id c" "connection_destruct_flag c5 \<or> websocket_client c3"
        using serving_keeps [OF served] c4 by (auto simp: serve_keeps_def)
      then show ?thesis using r es c3(2) by (auto simp: mild_def)
    qed (use rest body c4(1) es read_body_memory [OF body] in auto)
  qed
qed (use assms in \<open>auto simp: serve_http_def\<close>)

subsection \<open>WebSockets\<close>

definition ws_log :: "nat \<Rightarrow> ws_event \<Rightarrow> task_event list" where
  "ws_log i e = (case e of TimerStop \<Rightarrow> [NeonRTOS_TimerStop i] | TimerRestart \<Rightarrow> [NeonRTOS_TimerReStart i] | _ \<Rightarrow> [])"

lemma ws_effects_log:
  "ws_effects env i c es t = Some t1 \<Longrightarrow> client_list t1 = client_list t \<and>
    task_log t1 = task_log t @ concat (map (ws_log i) es)"
proof (induction es arbitrary: t)
  case (Cons e es)
  then obtain t2 where "ws_effects env i c es t2 = Some t1" "client_list t2 = client_list t"
    "task_log t2 = task_log t @ ws_log i e"
    by (cases e) (auto simp: ws_log_def log_task_def elim!: bind_SomeE)
  with Cons.IH [of t2] show ?case by simp
qed simp

lemma ws_log_mild: "\<forall>e\<in>set (concat (map (ws_log i) es)). mild i e"
  by (auto simp: ws_log_def mild_def split: ws_event.splits)

lemma ws_received_ends:
  assumes "ws_received c frame n mem reply err = Some (c1, es, leave)"
  shows "socket_id c1 = socket_id c \<and> (connection_destruct_flag c1 \<or> es = [] \<or> last es = TimerRestart)"
proof -
  obtain ret bs where reply: "reply = (ret, bs)" by (cases reply)
  show ?thesis
  proof (cases "ret < 0 \<or> ret = 0 \<or> int HTTP_WS_SERVER_DAT_BUF_SIZE < ret")
    case True
    then show ?thesis using assms by (auto simp: ws_received_def reply split: if_split_asm)
  next
    case False
    then show ?thesis using assms
      by (auto simp: ws_received_def reply elim!: bind_SomeE split: if_split_asm)
  qed
qed

lemma ws_served_ends:
  assumes "ws_serve c frame mem err rs = Some ((c1, es, leave), rs1)"
  shows "socket_id c1 = socket_id c \<and> (connection_destruct_flag c1 \<or> es = [] \<or> last es = TimerRestart)"
  using assms by (auto simp: ws_serve_def Let_def elim!: bind_SomeE split: if_split_asm option.split_asm prod.split_asm
    dest!: ws_received_ends)

lemma restarted:
  assumes "timer_state i log \<noteq> None" "es \<noteq> []" "last es = TimerRestart"
  shows "timer_state i (log @ concat (map (ws_log i) es)) = Some True"
proof -
  obtain xs where xs: "es = xs @ [TimerRestart]" using assms(2,3) by (metis append_butlast_last_id)
  have split: "concat (map (ws_log i) es) = concat (map (ws_log i) xs) @ [NeonRTOS_TimerReStart i]"
    by (simp add: xs) (simp add: ws_log_def)
  have "timer_state i (log @ concat (map (ws_log i) xs)) \<noteq> None"
    using assms(1) by (simp add: mild_events(4) [OF ws_log_mild])
  then show ?thesis unfolding split append_assoc [symmetric] by (subst timer_append) auto
qed

text \<open>Whether the memory for the bodies of requests suffices.\<close>

definition body_memory :: "('h, 'w) round_env \<Rightarrow> bool" where
  "body_memory env \<longleftrightarrow> (\<forall>i n. malloc env i n \<noteq> None)"

lemma client_step:
  assumes "server_ok t" "i < HTTPD_MAX_CLIENTS" "serve_client env i t = Some (p, t1)" "p \<noteq> Blocked"
  shows "server_ok t1" "watched t \<Longrightarrow> body_memory env \<Longrightarrow> watched t1"
proof -
  have len: "i < length (client_list t)" using assms(1,2) by (simp add: accounted_def)
  have "server_ok t1 \<and> (watched t \<and> body_memory env \<longrightarrow> watched t1)"
  proof (cases "client_list t ! i")
    case None
    then show ?thesis using assms(1,3) len by (simp add: serve_client_def)
  next
    case (Some c)
    have live: "timer_state i (task_log t) \<noteq> None" using assms(1,2) Some by (simp add: accounted_def)
    show ?thesis
    proof (cases "connection_destruct_flag c")
      case True
      then have "close_client i c t = Some t1" using assms(3) len Some by (auto simp: serve_client_def)
      from close_step [OF assms(1,2) Some this] show ?thesis by blast
    next
      case open_client: False
      show ?thesis
      proof (cases "websocket_client c")
        case False
        with assms(3) len Some open_client obtain c1 es s rs where
          serve: "serve_http env i (inbox env i) c (httpd t) = Some (c1, es, s, p, rs)"
          and t1: "t1 = log_task es (t\<lparr>client_list := (client_list t)[i := Some c1], httpd := s\<rparr>)"
          by (auto simp: serve_client_def elim!: bind_SomeE)
        note http = http_step [OF serve]
        have t1': "client_list t1 = (client_list t)[i := Some c1]" "task_log t1 = task_log t @ es"
          by (simp_all add: t1 log_task_def)
        have "socket_id c1 = socket_id c" "\<forall>e\<in>set es. mild i e" using http by blast+
        note step = slot_step [OF assms(1,2) Some this t1']
        have "connection_destruct_flag c1 \<or> timer_state i (task_log t1) = Some True" if "watched t" "body_memory env"
        proof -
          have "timer_state i (task_log t) = Some True"
            using that(1) assms(2) Some open_client by (auto simp: watched_def)
          then show ?thesis using http False assms(4) that(2) by (simp add: body_memory_def t1'(2) timer_append)
        qed
        then show ?thesis using step by blast
      next
        case True
        with assms(3) len Some open_client obtain c1 es leave rs where
          serve: "ws_serve c (ws_frame env i) (malloc env i) (ws_error env i) (ws_inbox env i) = Some ((c1, es, leave), rs)"
          and fx: "ws_effects env i c1 es (t\<lparr>client_list := (client_list t)[i := Some c1]\<rparr>) = Some t1"
          by (auto simp: serve_client_def elim!: bind_SomeE)
        have t1: "client_list t1 = (client_list t)[i := Some c1]" "task_log t1 = task_log t @ concat (map (ws_log i) es)"
          using ws_effects_log [OF fx] by simp_all
        note ends = ws_served_ends [OF serve]
        note step = slot_step [OF assms(1,2) Some _ ws_log_mild t1]
        have "connection_destruct_flag c1 \<or> timer_state i (task_log t1) = Some True" if "watched t"
        proof (cases "es = []")
          case True
          then show ?thesis using that assms(2) Some open_client by (auto simp: watched_def t1(2))
        next
          case False
          then show ?thesis using ends restarted [OF live False] by (auto simp: t1(2))
        qed
        then show ?thesis using step ends by blast
      qed
    qed
  qed
  then show "server_ok t1" "watched t \<Longrightarrow> body_memory env \<Longrightarrow> watched t1" by blast+
qed

lemma clients_step:
  "server_ok t \<Longrightarrow> \<forall>i\<in>set is. i < HTTPD_MAX_CLIENTS \<Longrightarrow> serve_clients env is t = Some (p, t1) \<Longrightarrow> p \<noteq> Blocked \<Longrightarrow>
    server_ok t1 \<and> (watched t \<and> body_memory env \<longrightarrow> watched t1)"
proof (induction "is" arbitrary: t)
  case (Cons i "is")
  then obtain q t2 where q: "serve_client env i t = Some (q, t2)"
    and r: "(case q of Next_Client \<Rightarrow> serve_clients env is t2 | _ \<Rightarrow> Some (q, t2)) = Some (p, t1)"
    by (auto elim!: bind_SomeE)
  have "q \<noteq> Blocked" using r Cons.prems(4) by auto
  then have s: "server_ok t2" "watched t \<Longrightarrow> body_memory env \<Longrightarrow> watched t2"
    using client_step [OF Cons.prems(1) _ q] Cons.prems(2) by auto
  show ?case
  proof (cases "q = Next_Client")
    case True
    then show ?thesis using Cons.IH [OF s(1)] Cons.prems(2,4) r s(2) by auto
  next
    case False
    then have "t1 = t2" using r by (cases q) auto
    then show ?thesis using s by blast
  qed
qed simp

subsection \<open>Accepting\<close>

lemma free_slot: "free_slot j cs = Some k \<Longrightarrow> length cs = HTTPD_MAX_CLIENTS \<Longrightarrow> k < HTTPD_MAX_CLIENTS \<and> cs ! k = None"
  by (auto simp: free_slot_def find_Some_iff)

lemma add_client_step:
  assumes "accounted {#sock#} t" "add_client mems sock j t = Some (k, t1)"
  shows "case k of
      None \<Rightarrow> t1 = t
    | Some k \<Rightarrow> k < HTTPD_MAX_CLIENTS \<and> client_list t ! k = None \<and>
        (\<exists>c. client_list t1 = (client_list t)[k := Some c] \<and> socket_id c = sock \<and> \<not> connection_destruct_flag c \<and>
          task_log t1 = task_log t @ [NeonRTOS_TimerCreate k 5000, NeonRTOS_TimerStop k])"
  using assms(2)
proof (induction mems arbitrary: j)
  case (Cons m mems)
  have len: "length (client_list t) = HTTPD_MAX_CLIENTS" using assms(1) by (simp add: accounted_def)
  obtain mem timer_ok where m: "m = (mem, timer_ok)" by (cases m)
  show ?case
  proof (cases "GetNumOfHttpdClient (client_list t) < 20 \<and> free_slot j (client_list t) \<noteq> None \<and> mem \<noteq> None")
    case False
    then obtain j' where "add_client mems sock j' t = Some (k, t1)"
      using Cons.prems m by (auto split: if_split_asm option.split_asm)
    then show ?thesis by (rule Cons.IH)
  next
    case True
    then obtain n fresh where n: "free_slot j (client_list t) = Some n" "mem = Some fresh" by auto
    have slot: "n < length (client_list t)" "client_list t ! n = None"
      using free_slot [OF n(1) len] len by simp_all
    have same: "t\<lparr>client_list := (client_list t)[n := None]\<rparr> = t" using slot by (cases t) (simp add: list_update_same_conv)
    show ?thesis
    proof (cases timer_ok)
      case False
      then have "add_client mems sock n t = Some (k, t1)"
        using Cons.prems True n slot same by (simp add: m HTTPd_Restore_Variables_def)
      then show ?thesis by (rule Cons.IH)
    next
      case timer: True
      then show ?thesis using Cons.prems True n slot len
        by (auto simp: m HTTPd_Restore_Variables_def log_task_def) (intro exI conjI, rule refl, simp_all)
    qed
  qed
qed auto

lemma accept_step:
  assumes "server_ok t" "accept_client env t = Some (p, t1)" "p \<noteq> Blocked"
  shows "server_ok t1" "watched t \<Longrightarrow> watched t1"
proof -
  have "server_ok t1 \<and> (watched t \<longrightarrow> watched t1)"
  proof (cases "\<exists>sock. wait_for_client (accepts env) = Some (Some sock)")
    case False
    then show ?thesis using assms by (auto simp: accept_client_def split: option.split_asm)
  next
    case True
    then obtain sock where sock: "wait_for_client (accepts env) = Some (Some sock)" by blast
    let ?t = "log_task [Accepted sock] t"
    have "accounted {#sock#} ?t"
      using assms(1) by (simp add: accounted_def log_task_def timer_append accepted_sockets_def closed_sockets_def)
    with sock assms(2,3) obtain k t2 where add: "add_client (client_mem env) sock 0 ?t = Some (Some k, t2)"
      and t1: "(if list_ex (\<lambda>n. option_result env n < 0) [0..<6] then map_option (Pair Leave_Loop) (mark_client k t2)
        else Some (Next_Client, log_task [NeonRTOS_TimerStart k] t2)) = Some (p, t1)"
      by (auto simp: accept_client_def elim!: bind_SomeE split: option.split_asm)
    from add_client_step [OF \<open>accounted {#sock#} ?t\<close> add] obtain c where
      k: "k < HTTPD_MAX_CLIENTS" "client_list t ! k = None" and
      t2: "client_list t2 = (client_list t)[k := Some c]" "socket_id c = sock"
      "task_log t2 = task_log t @ [Accepted sock, NeonRTOS_TimerCreate k 5000, NeonRTOS_TimerStop k]"
      by (auto simp: log_task_def)
    have len: "k < length (client_list t)" using assms(1) k(1) by (simp add: accounted_def)
    obtain c1 es where c1: "socket_id c1 = sock" "client_list t1 = (client_list t)[k := Some c1]"
      "task_log t1 = task_log t @ [Accepted sock, NeonRTOS_TimerCreate k 5000, NeonRTOS_TimerStop k] @ es"
      "es = [] \<and> connection_destruct_flag c1 \<or> es = [NeonRTOS_TimerStart k]"
    proof (cases "list_ex (\<lambda>n. option_result env n < 0) [0..<6]")
      case True
      with t1 have "mark_client k t2 = Some t1" by (auto simp del: upt_rec_numeral)
      then show thesis using that [of "c\<lparr>connection_destruct_flag := True\<rparr>" "[]"] t2 len by (auto simp: mark_client_def)
    next
      case False
      with t1 have "t1 = log_task [NeonRTOS_TimerStart k] t2" by (auto simp del: upt_rec_numeral)
      then show thesis using that [of c "[NeonRTOS_TimerStart k]"] t2 by (simp add: log_task_def)
    qed
    have timer: "timer_state n (task_log t1) = (if n = k then Some (es \<noteq> []) else timer_state n (task_log t))" for n
      using c1(4) unfolding c1(3) by (subst timer_append) auto
    have slots: "client_list t1 ! n = (if n = k then Some c1 else client_list t ! n)" if "n < HTTPD_MAX_CLIENTS" for n
      using len by (simp add: c1(2) nth_list_update)
    have "accepted_sockets (task_log t1) = accepted_sockets (task_log t) + {#sock#}"
      "closed_sockets (task_log t1) = closed_sockets (task_log t)"
      using c1(4) unfolding c1(3) by (auto simp: accepted_sockets_def closed_sockets_def)
    moreover have "client_sockets (client_list t1) = client_sockets (client_list t) + {#sock#}"
      using client_sockets_update [OF len, of "Some c1"] k(2) c1(1) by (simp add: c1(2))
    ultimately have "server_ok t1" using assms(1) timer slots by (auto simp: accounted_def c1(2))
    moreover have "watched t \<longrightarrow> watched t1" using timer slots c1(4) by (auto simp: watched_def)
    ultimately show ?thesis by blast
  qed
  then show "server_ok t1" "watched t \<Longrightarrow> watched t1" by blast+
qed

lemma round_step:
  assumes "server_ok t" "task_round env t = Some (False, t1)"
  shows "server_ok t1" "watched t \<Longrightarrow> body_memory env \<Longrightarrow> watched t1"
proof -
  from assms(2) obtain p t2 where a: "accept_client env t = Some (p, t2)"
    and r: "(case p of
        Blocked \<Rightarrow> Some (True, t2)
      | Leave_Loop \<Rightarrow> Some (False, t2)
      | Next_Client \<Rightarrow>
          if GetNumOfHttpdClient (client_list t2) = 0 then Some (False, t2)
          else do {
            (p, t3) \<leftarrow> serve_clients env [0..<HTTPD_MAX_CLIENTS] t2;
            Some (p = Blocked, t3) }) = Some (False, t1)"
    by (auto simp: task_round_def elim!: bind_SomeE)
  have "p \<noteq> Blocked" using r by auto
  note accepted = accept_step [OF assms(1) a this]
  have "server_ok t1 \<and> (watched t \<and> body_memory env \<longrightarrow> watched t1)"
  proof (cases "p = Next_Client \<and> GetNumOfHttpdClient (client_list t2) \<noteq> 0")
    case False
    then have "t1 = t2" using r by (cases p) (auto split: if_split_asm)
    then show ?thesis using accepted by blast
  next
    case True
    with r obtain q where "serve_clients env [0..<HTTPD_MAX_CLIENTS] t2 = Some (q, t1)" "q \<noteq> Blocked"
      by (auto simp del: upt_rec_numeral elim!: bind_SomeE)
    with clients_step [OF accepted(1) _ this] accepted(2) show ?thesis by auto
  qed
  then show "server_ok t1" "watched t \<Longrightarrow> body_memory env \<Longrightarrow> watched t1" by blast+
qed

section \<open>All runs of the task\<close>

text \<open>The states between the turns of the loop. A timer that runs may expire: FreeRTOS then calls
  \<open>HTTPd_Connection_Timeout_CB\<close>, which stops it.\<close>

inductive server_reaches :: "(('h, 'w) round_env \<Rightarrow> bool) \<Rightarrow> ('h, 'w) task \<Rightarrow> bool" for ok where
  start: "client_list t = replicate HTTPD_MAX_CLIENTS None \<Longrightarrow> task_log t = [] \<Longrightarrow> server_reaches ok t"
| turn: "server_reaches ok t \<Longrightarrow> ok env \<Longrightarrow> task_round env t = Some (False, t1) \<Longrightarrow> server_reaches ok t1"
| expiry: "server_reaches ok t \<Longrightarrow> i < HTTPD_MAX_CLIENTS \<Longrightarrow> timer_state i (task_log t) = Some True \<Longrightarrow>
    HTTPd_Connection_Timeout_CB (of_nat (i + 1)) (client_list t) = Some (cs, gone) \<Longrightarrow>
    server_reaches ok (log_task (NeonRTOS_TimerStop i # (if gone then [NeonRTOS_TimerDelete i] else [])) (t\<lparr>client_list := cs\<rparr>))"

lemma timer_id: "i < HTTPD_MAX_CLIENTS \<Longrightarrow> uint (of_nat (i + 1) - 1 :: u32) = int i"
  by (simp add: unsigned_of_nat take_bit_nat_eq_self flip: uint_nat)

lemma expiry_step:
  assumes "server_ok t" "i < HTTPD_MAX_CLIENTS" "timer_state i (task_log t) = Some True"
    "HTTPd_Connection_Timeout_CB (of_nat (i + 1)) (client_list t) = Some (cs, gone)"
  shows "\<not> gone" "\<exists>c. client_list t ! i = Some c \<and> cs = (client_list t)[i := Some (c\<lparr>connection_destruct_flag := True\<rparr>)]"
    "server_ok (log_task [NeonRTOS_TimerStop i] (t\<lparr>client_list := cs\<rparr>))"
    "watched t \<Longrightarrow> watched (log_task [NeonRTOS_TimerStop i] (t\<lparr>client_list := cs\<rparr>))"
proof -
  have len: "i < length (client_list t)" using assms(1,2) by (simp add: accounted_def)
  obtain c where c: "client_list t ! i = Some c" using assms(1-3) by (fastforce simp: accounted_def)
  have r: "\<not> gone \<and> cs = (client_list t)[i := Some (c\<lparr>connection_destruct_flag := True\<rparr>)]"
    using assms(4) len c unfolding HTTPd_Connection_Timeout_CB_def timer_id [OF assms(2)] by simp
  then show "\<not> gone" "\<exists>c. client_list t ! i = Some c \<and> cs = (client_list t)[i := Some (c\<lparr>connection_destruct_flag := True\<rparr>)]"
    using c by blast+
  let ?t = "log_task [NeonRTOS_TimerStop i] (t\<lparr>client_list := cs\<rparr>)"
  have "client_list ?t = (client_list t)[i := Some (c\<lparr>connection_destruct_flag := True\<rparr>)]"
    "task_log ?t = task_log t @ [NeonRTOS_TimerStop i]" using r by (simp_all add: log_task_def)
  note step = slot_step [OF assms(1,2) c _ _ this]
  then show "server_ok ?t" "watched t \<Longrightarrow> watched ?t" by (simp_all add: mild_def)
qed

lemma reached_ok:
  assumes "server_reaches ok t"
  shows "server_ok t \<and> (ok \<le> body_memory \<longrightarrow> watched t)"
  using assms
proof (induction rule: server_reaches.induct)
  case (start t)
  then show ?case
    by (auto simp: accounted_def watched_def client_sockets_none accepted_sockets_def closed_sockets_def timer_state_def)
next
  case (turn t env t1)
  then show ?case using round_step [of t env t1] by blast
next
  case (expiry t i cs gone)
  then show ?case using expiry_step [of t i cs gone] by auto
qed

lemma num_clients:
  "\<forall>slot\<in>set cs. \<exists>c. slot = Some c \<and> 0 \<le> socket_id c \<Longrightarrow> GetNumOfHttpdClient cs = of_nat (length cs)"
  by (induction cs) (auto simp: add.commute)

lemma add_client_full:
  "GetNumOfHttpdClient (client_list t) = 20 \<Longrightarrow> add_client mems sock j t = Some (None, t)"
  by (induction mems) (auto split: prod.splits)

section \<open>Examples\<close>

definition demo_round :: "(u8 list, nat) round_env" where
  "demo_round = \<lparr>accepts = [Accept 7], client_mem = [(Some (demo_request HTTPd_Method_GET []), True)], option_result = \<lambda>_. 0,
     request_env = \<lambda>_. demo_env, cmd_buf_mem = \<lambda>_. True, malloc = \<lambda>_ n. Some (replicate n 7),
     inbox = \<lambda>_. [Recv_Failed (-1) 104 False], ws_frame = \<lambda>_. empty_frame, ws_inbox = \<lambda>_. [], ws_error = \<lambda>_. (0, 0),
     on_message = \<lambda>_ _ _ _ w. Some ([], w)\<rparr>"

definition empty_task :: "(u8 list, nat) task" where
  "empty_task = \<lparr>client_list = replicate 20 None, task_log = [], httpd = demo_server\<rparr>"

text \<open>A turn in which a client is accepted whose connection then fails.\<close>

lemma demo_turn_result: "case task_round demo_round empty_task of
    Some (blocked, t) \<Rightarrow> \<not> blocked \<and> map (map_option socket_id) (client_list t) = Some 7 # replicate 19 None \<and>
      task_log t = [Accepted 7, NeonRTOS_TimerCreate 0 5000, NeonRTOS_TimerStop 0, NeonRTOS_TimerStart 0]
  | None \<Rightarrow> False"
  by code_simp

lemma demo_turn: "\<exists>t c. task_round demo_round empty_task = Some (False, t) \<and> client_list t = Some c # replicate 19 None \<and>
    socket_id c = 7 \<and> task_log t = [Accepted 7, NeonRTOS_TimerCreate 0 5000, NeonRTOS_TimerStop 0, NeonRTOS_TimerStart 0]"
proof -
  obtain t where t: "task_round demo_round empty_task = Some (False, t)"
    "map (map_option socket_id) (client_list t) = Some 7 # replicate 19 None"
    "task_log t = [Accepted 7, NeonRTOS_TimerCreate 0 5000, NeonRTOS_TimerStop 0, NeonRTOS_TimerStart 0]"
    using demo_turn_result by (auto split: option.split_asm)
  from t(2) obtain x xs where cs: "client_list t = x # xs" "map_option socket_id x = Some 7"
    "map (map_option socket_id) xs = replicate 19 None" by (auto simp: map_eq_Cons_conv)
  have "xs = replicate 19 None"
  proof (rule replicate_eqI)
    show "length xs = 19" using cs(3) by (metis length_map length_replicate)
    fix y assume "y \<in> set xs"
    then have "map_option socket_id y \<in> set (replicate 19 None)" unfolding cs(3) [symmetric] by simp
    then show "y = None" by simp
  qed
  then show ?thesis using t(1,3) cs(1,2) by auto
qed

lemma brings_bytes: "t \<noteq> [] \<Longrightarrow> brings_text (map (\<lambda>b. Received [b]) t) t"
proof -
  have "delivered (map (\<lambda>b. Received [b]) t) = t" by (induction t) simp_all
  then show "t \<noteq> [] \<Longrightarrow> ?thesis" by (auto simp: brings_text_def brings_def last_map)
qed

definition post_text :: "u8 list" where
  "post_text = request_text HTTPd_Method_POST (target_text (chars ''/LED_PWM/2'') (Some (chars ''x=1''))) post_headers"

lemma post_request_ok: "request_ok HTTPd_Method_POST (chars ''/LED_PWM/2'') (Some (chars ''x=1'')) post_headers"
proof -
  have "length (request_text HTTPd_Method_POST (target_text (chars ''/LED_PWM/2'') (Some (chars ''x=1''))) post_headers) < 1024"
    by code_simp
  moreover have "63 \<notin> set (chars ''/LED_PWM/2'')" by simp
  moreover have "\<not> starts_with (chars ''close'') [''Upgrade'', ''upgrade'']" by (simp add: starts_with_def)
  ultimately show ?thesis using demo_target(1) post_headers(1,2) by (simp add: request_ok_def del: chars_simps)
qed

lemma post_length: "atoi (chars ''4'') = 4"
  by (simp add: atoi_def strtol_def c_space_def c_digit_def digits_value_def)

lemma post_text_not_Nil: "post_text \<noteq> []"
  by (simp add: post_text_def request_text_def request_line_def)

lemmas post_brought = brings_bytes [OF post_text_not_Nil, unfolded post_text_def]

section \<open>Properties\<close>

text \<open>
  C3: No socket is lost and none is closed twice: whatever clients, messages and failures the task meets,
  in every state between its turns the accepted sockets are, counted with repetition, exactly those
  that have been closed and those of the clients in the table; and exactly the used slots have a
  timer, so timers are not lost either, and the callback of a timer always finds its client.
\<close>

theorem sockets_accounted:
  assumes "server_reaches ok t"
  shows "accepted_sockets (task_log t) = closed_sockets (task_log t) + client_sockets (client_list t) \<and>
    (\<forall>i<HTTPD_MAX_CLIENTS. timer_state i (task_log t) \<noteq> None \<longleftrightarrow> client_list t ! i \<noteq> None)"
  using reached_ok [OF assms] by (auto simp: accounted_def)

theorem sockets_accounted_witness:
  "\<exists>t :: (u8 list, nat) task. server_reaches (\<lambda>_. True) t \<and> accepted_sockets (task_log t) = {#7#} \<and> client_sockets (client_list t) = {#7#}"
proof -
  obtain t c where t: "task_round demo_round empty_task = Some (False, t)" "client_list t = Some c # replicate 19 None"
    "socket_id c = 7" "task_log t = [Accepted 7, NeonRTOS_TimerCreate 0 5000, NeonRTOS_TimerStop 0, NeonRTOS_TimerStart 0]"
    using demo_turn by blast
  have "server_reaches (\<lambda>_. True) empty_task" by (rule start) (simp_all add: empty_task_def)
  then have r: "server_reaches (\<lambda>_. True) t" by (rule turn [OF _ _ t(1)]) simp
  have "closed_sockets (task_log t) = {#}" "accepted_sockets (task_log t) = {#7#}"
    by (simp_all add: t(4) closed_sockets_def accepted_sockets_def)
  with sockets_accounted [OF r] r show ?thesis by (intro exI [of _ t]) simp
qed



text \<open>
  C37: When all twenty slots are in use, accepting one more client stops the server for good: the task
  waits in the loop of the new client for a slot, and no turn of that loop, however many there are,
  frees one, as only the task itself closes connections.
\<close>

theorem full_table_blocks:
  assumes "length (client_list t) = HTTPD_MAX_CLIENTS" "\<forall>slot\<in>set (client_list t). \<exists>c. slot = Some c \<and> 0 \<le> socket_id c"
    "accepts env = Accept sock # others"
  shows "task_round env t = Some (True, log_task [Accepted sock] t)"
proof -
  have "GetNumOfHttpdClient (client_list (log_task [Accepted sock] t)) = 20"
    using num_clients [OF assms(2)] assms(1) by (simp add: log_task_def)
  from add_client_full [OF this] show ?thesis by (simp add: task_round_def accept_client_def assms(3))
qed

theorem full_table_blocks_witness:
  "task_round demo_round (empty_task\<lparr>client_list := replicate 20 (Some (demo_request HTTPd_Method_GET []))\<rparr>) =
    Some (True, log_task [Accepted 7] (empty_task\<lparr>client_list := replicate 20 (Some (demo_request HTTPd_Method_GET []))\<rparr>))"
  by (rule full_table_blocks) (simp_all add: demo_round_def demo_request_def)



text \<open>
  The body of a request is received beyond its buffer when a call of \<open>recv\<close> brings the rest of the
  body together with what follows it, for each call asks for the whole length.
\<close>

theorem body_overrun:
  assumes "request_ok m path args hs" "brings_text rs (request_text m (target_text path args) hs)"
    "cmd_buf_mem env i" "\<not> connection_destruct_flag c"
    "header_value ''Connection'' hs = Some v" "header_value ''Content-Length'' hs = Some w"
    "atoi w = int n" "0 < n" "n \<le> 4096" "malloc env i n = Some mem" "length mem = n"
    "length d < n" "d \<noteq> []" "length x \<le> n" "n < length d + length x"
  shows "serve_http env i (rs @ Received d # Received x # rest) c s = None"
proof -
  obtain host where host: "serve_http env i (rs @ Received d # Received x # rest) c s = do {
    (c1, b, rs) \<leftarrow> read_body (malloc env i) (Received d # Received x # rest) (parsed m path args hs host c);
    (case b of
       Waiting \<Rightarrow> Some (c1, parse_events i m hs c, s, Blocked, rs)
     | No_Memory \<Rightarrow> Some (c1, parse_events i m hs c, s, Next_Client, rs)
     | Client_Close \<Rightarrow> Some (c1\<lparr>connection_destruct_flag := True\<rparr>, parse_events i m hs c, s, Next_Client, rs)
     | Read _ \<Rightarrow> do {
         (c2, s2) \<leftarrow> serve_request (request_env env i) c1 s;
         Some (c2, parse_events i m hs c @ (if connection_destruct_flag c2 then [NeonRTOS_TimerStop i] else []), s2, Next_Client, rs) }) }"
    using request_parsed [OF assms(1-4)] by blast
  let ?c = "parsed m path args hs host c"
  have "data_len ?c = of_nat n" using settings_length [OF assms(5,6)] assms(7) by (simp add: parsed_def)
  then have u: "unat (data_len ?c) = n" using assms(9) by (simp only: unat_of_nat) (simp add: take_bit_nat_eq_self)
  then have small: "0 < data_len ?c" "\<not> 4096 < data_len ?c" using assms(8,9) by (simp_all add: word_less_nat_alt)
  have "read_body (malloc env i) (Received d # Received x # rest) ?c = None"
    using small u assms(10-15) by (simp add: read_body_def recv_into_def Let_def)
  then show ?thesis unfolding host by simp
qed

theorem body_overrun_witness:
  "serve_http demo_round 0 (map (\<lambda>b. Received [b]) post_text @ [Received [1, 2, 3], Received [4, 71, 69, 84]])
    (demo_request HTTPd_Method_GET []) demo_server = None"
  using body_overrun [OF post_request_ok post_brought _ _ post_headers(2,3), of demo_round 0 "demo_request HTTPd_Method_GET []"
      4 "replicate 4 7" "[1, 2, 3]" "[4, 71, 69, 84]" "[]" demo_server] post_length
  by (simp add: demo_round_def demo_request_def post_text_def)

text \<open>
  Headers that fill the buffer are searched beyond its end: once 1024 bytes without a zero byte and
  without the end of the headers have arrived, \<open>strstr\<close> has no zero byte to stop at.
\<close>

theorem full_buffer_overread:
  assumes "\<forall>r\<in>set rs. brings 1 r" "delivered rs @ [b] = t" "0 \<notin> set t" "length t = HTTPD_CMD_BUF_SIZE"
    "find_text HEADERS_END (delivered rs) = None" "\<not> connection_destruct_flag c"
  shows "receive_headers (rs @ Received [b] # rest) c (replicate HTTPD_CMD_BUF_SIZE 0) 0 = None"
proof -
  have "receive_headers (rs @ Received [b] # rest) c (zero_filled []) (length ([] :: u8 list)) =
      receive_headers (Received [b] # rest) c (zero_filled ([] @ delivered rs)) (length ([] @ delivered rs))"
    by (rule receive_on) (use assms in auto)
  moreover have "recv_into (zero_filled (delivered rs)) (length (delivered rs)) [b] = Some t"
    using zero_filled_write [of "delivered rs" "[b]"] assms(2,4) by (auto simp: zero_filled_def)
  moreover have "strstr t 0 HEADERS_END = None" using assms(3) by (simp add: strstr_def c_string_def)
  ultimately show ?thesis by (simp add: zero_filled_def Let_def)
qed

theorem full_buffer_overread_witness:
  "receive_headers (replicate 1023 (Received [65]) @ [Received [66]]) (closed_client 5) (replicate 1024 0) 0 = None"
proof -
  have d: "delivered (replicate n (Received [65])) = replicate n 65" for n by (induction n) simp_all
  have "find_text HEADERS_END (replicate n 65) = None" for n
    by (induction n) (simp_all add: HEADERS_END_def CRLF_def)
  then show ?thesis
    using full_buffer_overread [of "replicate 1023 (Received [65])" 66 "replicate 1023 65 @ [66]" "closed_client 5" "[]"]
    by (simp add: d brings_def closed_client_def)
qed



text \<open>
  When the start of the server fails after its socket was created, no later start succeeds, as the
  closed socket stays in \<open>HTTP_WebSocket_Server_Socket\<close>.
\<close>

theorem failed_start_blocks_restart:
  assumes "0 \<le> call 0" "call 1 < 0 \<or> call 2 < 0 \<or> call 3 < 0 \<or> call 4 < 0"
  shows "server_start call (-1) = (False, call 0, [call 0]) \<and> server_start call2 (call 0) = (False, call 0, [])"
  using assms by (auto simp: server_start_def Let_def)

theorem failed_start_blocks_restart_witness:
  "server_start (\<lambda>_. 0) (fst (snd (server_start (\<lambda>k. if k = 1 then -1 else 4) (-1)))) = (False, 4, [])"
  using failed_start_blocks_restart [of "\<lambda>k. if k = 1 then -1 else 4" "\<lambda>_. 0"] by simp

end
