(* ===== verification/Device.thy ===== *)
theory Device
  imports NeonApp HTTPd_Server
begin

text \<open>
  The application behind the task of the server: the whole way from the bytes that arrive on a socket to
  the LEDs and back. \<open>wsServerOnMessageCallback\<close> is set to the dispatcher of \<open>NeonAppInterface.c\<close>.
\<close>

section \<open>The callback for messages\<close>

definition HTTPd_WebSocketServerOnMessage :: "app_env \<Rightarrow> 'h clients \<Rightarrow> 'h connection \<Rightarrow> HTTPd_WSFrame \<Rightarrow> u8 list \<Rightarrow>
    application \<Rightarrow> (net_event list \<times> application) option" where
  "HTTPd_WebSocketServerOnMessage env cs src frame msg app = do {
     (es, l) \<leftarrow> Process_Websocket_Incomming_Message env cs (topics app) (Some src) frame (Some msg) (leds app);
     Some (es, app\<lparr>leds := l\<rparr>) }"

section \<open>Requests\<close>

definition device_runs :: "app_env \<Rightarrow> u8 list \<Rightarrow> (url_handler, application) server_env \<Rightarrow> (url_handler, application) server \<Rightarrow> bool" where
  "device_runs env page senv s \<longleftrightarrow> builtInUrls senv = builtIn \<and> run senv = call_handler env page \<and> Registered_URL_List s = app_urls"

lemma parsed_rest:
  "cgi (parsed m path args hs host c) = cgi c" "requestType (parsed m path args hs host c) = m"
  "url (parsed m path args hs host c) = Some path" "socket_id (parsed m path args hs host c) = socket_id c"
  by (simp_all add: parsed_def)

lemma body_sets_LED:
  assumes "device_runs env page (request_env rnd k) s" "healthy env" "shows_leds (leds (world s)) v" "0 \<le> i" "i < 4"
    "request_ok HTTPd_Method_POST (chars ''/LED_PWM/'' @ decimal i) args hs"
    "brings_text rs (request_text HTTPd_Method_POST (target_text (chars ''/LED_PWM/'' @ decimal i) args) hs)"
    "header_value ''Connection'' hs = Some t" "header_value ''Content-Length'' hs = Some w"
    "atoi w = int (length d)" "0 < length d" "length d \<le> 4096"
    "\<forall>r\<in>set bs. brings n r" "x \<noteq> []" "delivered bs @ x = d"
    "json_parse env d = Some (Some m)" "cJSON_GetObjectItem m (chars ''on_off'') = Some (bool_json b)"
    "cJSON_GetObjectItem m (chars ''level'') = Some (cJSON_Number p)" "0 \<le> p" "p < 256"
    "\<not> connection_destruct_flag c" "cgi c = None" "cmd_buf_mem rnd k" "malloc rnd k (length d) = Some mem" "length mem = length d"
  shows "\<exists>(c1 :: url_handler connection) c2 es l. serve_http rnd k (rs @ bs @ Received x # rest) c s = Some (c2, es @ [NeonRTOS_TimerStop k],
      s\<lparr>sent := sent s @ json_sent env c1 201
          [(chars ''led_index'', bool_json (i \<noteq> 0)), (chars ''on_off'', bool_json b), (chars ''level'', cJSON_Number p)],
        world := (world s)\<lparr>leds := l\<rparr>\<rparr>, Next_Client, rest) \<and>
    socket_id c1 = socket_id c \<and> connection_destruct_flag c2 \<and>
    shows_leds l (obey (Level (nat i) (of_int (p * 10))) (obey (Switch (nat i) b) v))"
proof -
  obtain host where host: "serve_http rnd k (rs @ bs @ Received x # rest) c s = do {
    (c2, s2) \<leftarrow> serve_request (request_env rnd k)
      ((parsed HTTPd_Method_POST (chars ''/LED_PWM/'' @ decimal i) args hs host c)\<lparr>data_buff := Some d\<rparr>) s;
    Some (c2, parse_events k HTTPd_Method_POST hs c @ (if connection_destruct_flag c2 then [NeonRTOS_TimerStop k] else []), s2,
      Next_Client, rest) }"
    using request_with_body_served [OF assms(6,7,23,21,8-12,24,25,13-15)] by blast
  let ?c = "(parsed HTTPd_Method_POST (chars ''/LED_PWM/'' @ decimal i) args hs host c)\<lparr>data_buff := Some d\<rparr>"
  have "data_len ?c = of_nat (length d)"
    using settings_length [OF assms(8,9)] assms(10) by (simp add: parsed_def)
  then have "unat (data_len ?c) = length d" using assms(12) by (simp only: unat_of_nat) (simp add: take_bit_nat_eq_self)
  then have "looked_up ?c" using assms(11,22) by (simp add: looked_up_def parsed_rest word_less_nat_alt)
  then obtain c2 l where "serve_request (request_env rnd k) ?c s = Some (c2, s\<lparr>sent := sent s @ json_sent env ?c 201
        [(chars ''led_index'', bool_json (i \<noteq> 0)), (chars ''on_off'', bool_json b), (chars ''level'', cJSON_Number p)],
      world := (world s)\<lparr>leds := l\<rparr>\<rparr>)" "answered c2"
    "shows_leds l (obey (Level (nat i) (of_int (p * 10))) (obey (Switch (nat i) b) v))"
    using LED_request_served [OF _ _ _ assms(2-5), of "request_env rnd k" page ?c d m b p] assms(1,16-20)
    by (auto simp: device_runs_def parsed_rest)
  then show ?thesis unfolding host
    by (intro exI [of _ ?c] exI [of _ c2] exI [of _ "parse_events k HTTPd_Method_POST hs c"] exI [of _ l])
      (simp add: answered_def parsed_rest)
qed

lemma message_turn:
  assumes "length (client_list t) = HTTPD_MAX_CLIENTS" "k < HTTPD_MAX_CLIENTS" "client_list t ! k = Some c"
    "\<not> connection_destruct_flag c" "websocket_client c" "0 \<le> socket_id c"
    "ws_inbox rnd k = client_frame 0x81 key p" "0 < length p" "length p \<le> 1024"
    "malloc rnd k (length p + 1) = Some mem" "length mem = length p + 1"
    "on_message rnd = HTTPd_WebSocketServerOnMessage env"
    "healthy env" "shows_leds (leds (world (httpd t))) v" "json_parse env (p @ [0]) = Some (Some m)" "for_LEDs m" "says m cmd"
    "map_of (topics (world (httpd t))) (chars ''LED_PWM'') = Some (Some LED_PWM_POST_Msg, g)"
  shows "\<exists>l. serve_client rnd k t = Some (Next_Client, t\<lparr>task_log := task_log t @ [NeonRTOS_TimerStop k, NeonRTOS_TimerReStart k],
      httpd := (httpd t)\<lparr>sent := sent (httpd t) @ reported env (client_list t) (obey cmd v),
        world := (world (httpd t))\<lparr>leds := l\<rparr>\<rparr>\<rparr>) \<and>
    shows_leds l (obey cmd v)"
proof -
  have len: "k < length (client_list t)" using assms(1,2) by simp
  have same: "(client_list t)[k := Some c] = client_list t"
    using assms(3) list_update_id [of "client_list t" k] by simp
  obtain frame l where frame: "ws_serve c (ws_frame rnd k) (malloc rnd k) (ws_error rnd k) (client_frame 0x81 key p @ []) =
      Some ((c, [TimerStop, OnMessage frame (p @ [0]), TimerRestart], False), [])"
    "Process_Websocket_Incomming_Message env (client_list t) (topics (world (httpd t))) (Some c) frame (Some (p @ [0]))
      (leds (world (httpd t))) = Some (reported env (client_list t) (obey cmd v), l)" "shows_leds l (obey cmd v)"
    using command_frame_served [where malloc = "malloc rnd k", OF assms(4,6,8,9,10,11,13-18)] by blast
  from frame show ?thesis
    using assms(3-5,7) len same
    by (intro exI [of _ l]) (simp add: serve_client_def assms(12) HTTPd_WebSocketServerOnMessage_def log_task_def)
qed

lemma body_crashes:
  assumes "device_runs env page (request_env rnd k) s" "json_parse env d = None" "0 \<le> i" "i < 4"
    "request_ok HTTPd_Method_POST (chars ''/LED_PWM/'' @ decimal i) args hs"
    "brings_text rs (request_text HTTPd_Method_POST (target_text (chars ''/LED_PWM/'' @ decimal i) args) hs)"
    "header_value ''Connection'' hs = Some y" "header_value ''Content-Length'' hs = Some z"
    "atoi z = int (length d)" "length d \<le> 4096" "\<forall>r\<in>set bs. brings n r" "x \<noteq> []" "delivered bs @ x = d"
    "\<not> connection_destruct_flag c" "cgi c = None" "cmd_buf_mem rnd k" "malloc rnd k (length d) = Some mem" "length mem = length d"
  shows "serve_http rnd k (rs @ bs @ Received x # rest) c s = None"
proof -
  have d: "0 < length d" using assms(12,13) by auto
  obtain host where host: "serve_http rnd k (rs @ bs @ Received x # rest) c s = do {
    (c2, s2) \<leftarrow> serve_request (request_env rnd k)
      ((parsed HTTPd_Method_POST (chars ''/LED_PWM/'' @ decimal i) args hs host c)\<lparr>data_buff := Some d\<rparr>) s;
    Some (c2, parse_events k HTTPd_Method_POST hs c @ (if connection_destruct_flag c2 then [NeonRTOS_TimerStop k] else []), s2,
      Next_Client, rest) }"
    using request_with_body_served [OF assms(5,6,16,14,7-9) d assms(10,17,18,11-13)] by blast
  let ?c = "(parsed HTTPd_Method_POST (chars ''/LED_PWM/'' @ decimal i) args hs host c)\<lparr>data_buff := Some d\<rparr>"
  let ?senv = "request_env rnd k"
  have "data_len ?c = of_nat (length d)"
    using settings_length [OF assms(7,8)] assms(9) by (simp add: parsed_def)
  then have "unat (data_len ?c) = length d" using assms(10) by (simp only: unat_of_nat) (simp add: take_bit_nat_eq_self)
  then have len: "0 < data_len ?c" using d by (simp add: word_less_nat_alt)
  have "route (builtInUrls ?senv) (Registered_URL_List s) (chars ''/LED_PWM/'' @ decimal i) = Some LED_Any_Number"
    using assms(1) unfolding decimal_digit [OF assms(3) less_trans [OF assms(4), of 10, simplified]]
    by (simp add: device_runs_def route_LED del: chars_simps)
  then have match: "HTTPd_isMatch_CGI (builtInUrls ?senv) (Registered_URL_List s) ?c = (True, ?c\<lparr>cgi := Some LED_Any_Number\<rparr>)"
    using isMatch_route [of ?c "chars ''/LED_PWM/'' @ decimal i"] by (simp add: parsed_rest)
  have "LED_PWM_CGI_LED_Any_Number env (Some (?c\<lparr>cgi := Some LED_Any_Number\<rparr>)) (leds (world s)) = None"
    unfolding LED_PWM_CGI_LED_Any_Number_def
    by (simp add: url_number [OF _ assms(3,4)] parsed_rest assms(2) del: chars_simps)
  then have "run ?senv LED_Any_Number (?c\<lparr>cgi := Some LED_Any_Number\<rparr>) (world s) = None"
    using assms(1) by (simp add: device_runs_def call_handler_def on_leds_def)
  then have "call_cgi ?senv (?c\<lparr>cgi := Some LED_Any_Number\<rparr>) s = None" by (simp add: call_cgi_def)
  then have "serve_request ?senv ?c s = None"
    using len match by (simp add: serve_request_def HTTPd_Process_POST_Request_def parsed_rest Let_def)
  then show ?thesis unfolding host by simp
qed

section \<open>Examples\<close>

definition device_round :: "cJSON \<Rightarrow> (url_handler, application) round_env" where
  "device_round m = \<lparr>accepts = [No_Connection 0], client_mem = [], option_result = \<lambda>_. 0,
     request_env = \<lambda>_. device_env m, cmd_buf_mem = \<lambda>_. True, malloc = \<lambda>_ n. Some (replicate n 7),
     inbox = \<lambda>_. [], ws_frame = \<lambda>_. empty_frame, ws_inbox = \<lambda>_. client_frame 0x81 0xCAFE (chars ''{..}''), ws_error = \<lambda>_. (0, 0),
     on_message = HTTPd_WebSocketServerOnMessage (demo_app m)\<rparr>"

definition new_socket :: "url_handler connection" where
  "new_socket = device_request HTTPd_Method_GET ''''"

definition open_socket :: "url_handler connection" where
  "open_socket = new_socket\<lparr>websocket_client := True, websocket_auth := True\<rparr>"

definition device_task :: "(url_handler, application) task" where
  "device_task = \<lparr>client_list = Some open_socket # replicate 19 None, task_log = [], httpd = device_server\<rparr>"

text \<open>The board with cJSON itself, and a body and a message as a client writes them.\<close>

definition board_app :: app_env where
  "board_app = (demo_app cJSON_NULL)\<lparr>json_parse := cJSON_Parse (\<lambda>n. Some (10 powi n)) 100, json_print := json_string 100\<rparr>"

definition board_round :: "u8 list \<Rightarrow> (url_handler, application) round_env" where
  "board_round msg = (device_round cJSON_NULL)\<lparr>request_env := \<lambda>_. (device_env cJSON_NULL)\<lparr>run := call_handler board_app []\<rparr>,
     ws_inbox := \<lambda>_. client_frame 0x81 0xCAFE msg, on_message := HTTPd_WebSocketServerOnMessage board_app\<rparr>"

definition json_headers :: "(u8 list \<times> u8 list) list" where
  "json_headers = map (\<lambda>(n, v). (chars n, chars v)) [(''Connection'', ''close''), (''Content-Length'', ''26'')]"

definition json_request :: "u8 list" where
  "json_request = request_text HTTPd_Method_POST (target_text (chars ''/LED_PWM/2'') None) json_headers"

definition body_text :: "u8 list" where
  "body_text = chars ''{\"on_off\":true,\"level\":50}''"

definition body_members :: members where
  "body_members = [(chars ''on_off'', cJSON_True), (chars ''level'', cJSON_Number 50)]"

definition message_text :: "u8 list" where
  "message_text = chars ''{\"method\":\"POST\",\"topic\":\"LED_PWM\",\"command\":\"set individual led on/off state\",\"led_index\":2,\"on_off\":true}''"

lemma board_cJSON: "with_cJSON (\<lambda>n. Some (10 powi n)) 100 100 board_app"
  by (simp add: with_cJSON_def board_app_def demo_app_def)

lemma body_value: "value_text (cJSON_Object body_members) body_text" "json_needs (cJSON_Object body_members) < 100"
proof -
  have "layout False 0 (cJSON_Object body_members) = body_text" by code_simp
  moreover have "json_ok (cJSON_Object body_members)" by code_simp
  ultimately show "value_text (cJSON_Object body_members) body_text" using layout_text by metis
  show "json_needs (cJSON_Object body_members) < 100" by code_simp
qed

lemma message_value: "value_text demo_message message_text" "json_needs demo_message < 100"
proof -
  have "layout False 0 demo_message = message_text" by code_simp
  moreover have "json_ok demo_message" by code_simp
  ultimately show "value_text demo_message message_text" using layout_text by metis
  show "json_needs demo_message < 100" by code_simp
qed

lemma json_headers: "readable json_headers" "header_value ''Connection'' json_headers = Some (chars ''close'')"
  "header_value ''Content-Length'' json_headers = Some (chars ''26'')" "atoi (chars ''26'') = 26"
  "target_ok HTTPd_Method_POST (target_text (chars ''/LED_PWM/2'') None)"
  "length (request_text HTTPd_Method_POST (target_text (chars ''/LED_PWM/2'') None) json_headers) < 1024"
  by code_simp+

lemma json_request_ok: "request_ok HTTPd_Method_POST (chars ''/LED_PWM/2'') None json_headers"
proof -
  have "63 \<notin> set (chars ''/LED_PWM/2'')" by simp
  moreover have "\<not> starts_with (chars ''close'') [''Upgrade'', ''upgrade'']" by (simp add: starts_with_def)
  ultimately show ?thesis using json_headers by (simp add: request_ok_def del: chars_simps)
qed

lemma json_request_not_Nil: "json_request \<noteq> []"
  by (simp add: json_request_def request_text_def request_line_def)

lemmas json_brought = brings_bytes [OF json_request_not_Nil, unfolded json_request_def]

lemma one_listener: "listeners (Some c # replicate n None) = (if 0 \<le> socket_id c \<and> websocket_client c \<and> websocket_auth c then [c] else [])"
  by (induction n) (auto simp: listeners_def List.map_filter_simps)

section \<open>Properties\<close>



text \<open>
  C2: The turn of a WebSocket client that has sent a command: its frame is consumed, unmasked and its JSON
  text read, the LED obeys, every open WebSocket client of the table is sent the JSON text of the new
  status of all LEDs, and the timer of the client starts anew.
\<close>

theorem WebSocket_turn:
  assumes "length (client_list t) = HTTPD_MAX_CLIENTS" "k < HTTPD_MAX_CLIENTS" "client_list t ! k = Some c"
    "\<not> connection_destruct_flag c" "websocket_client c" "0 \<le> socket_id c"
    "ws_inbox rnd k = client_frame 0x81 key p" "length p \<le> 1024"
    "malloc rnd k (length p + 1) = Some mem" "length mem = length p + 1"
    "on_message rnd = HTTPd_WebSocketServerOnMessage env"
    "with_cJSON pow10 pm km env" "shows_leds (leds (world (httpd t))) v"
    "p = w @ txt @ r" "blank w" "value_text (cJSON_Object ms) txt" "json_needs (cJSON_Object ms) < pm"
    "for_LEDs (cJSON_Object ms)" "says (cJSON_Object ms) cmd"
    "map_of (topics (world (httpd t))) (chars ''LED_PWM'') = Some (Some LED_PWM_POST_Msg, g)"
  shows "\<exists>l. serve_client rnd k t = Some (Next_Client, t\<lparr>task_log := task_log t @ [NeonRTOS_TimerStop k, NeonRTOS_TimerReStart k],
      httpd := (httpd t)\<lparr>sent := sent (httpd t) @
          concat (map (message_to (layout False 0 (cJSON_Object (report_members (obey cmd v))))) (listeners (client_list t))),
        world := (world (httpd t))\<lparr>leds := l\<rparr>\<rparr>\<rparr>) \<and>
    shows_leds l (obey cmd v)"
proof -
  have "txt \<noteq> []" using value_text_hd [OF assms(16)] by auto
  then have "0 < length p" by (simp add: assms(14))
  moreover have "json_parse env (p @ [0]) = Some (Some (cJSON_Object ms))"
    using cJSON_read [OF assms(12,16,15,17), of "r @ [0]"] by (simp add: assms(14))
  ultimately show ?thesis
    using message_turn [OF assms(1-7) _ assms(8-11) cJSON_healthy [OF assms(12)] assms(13) _ assms(18-20)]
      cJSON_text [OF assms(12) sendable_report] by (simp add: reported_def json_text_def)
qed

theorem WebSocket_turn_witness:
  "\<exists>l. serve_client (board_round message_text) 0 device_task = Some (Next_Client,
      device_task\<lparr>task_log := [NeonRTOS_TimerStop 0, NeonRTOS_TimerReStart 0],
        httpd := device_server\<lparr>sent := message_to (layout False 0 (cJSON_Object (report_members (obey (Switch 2 True)
          (led_view led_init_memory))))) open_socket, world := demo_application\<lparr>leds := l\<rparr>\<rparr>\<rparr>) \<and>
    led_view l 2 = (True, 0)"
proof -
  have socket: "\<not> connection_destruct_flag open_socket" "websocket_client open_socket" "0 \<le> socket_id open_socket" "websocket_auth open_socket"
    by (simp_all add: open_socket_def new_socket_def device_request_def)
  have topic: "map_of demo_topics (chars ''LED_PWM'') = Some (Some LED_PWM_POST_Msg, Some LED_PWM_GET_Msg)"
    by (simp add: demo_topics_def)
  have world: "world (httpd device_task) = demo_application" "shows_leds (leds demo_application) (led_view led_init_memory)"
    "topics demo_application = demo_topics" "client_list device_task = Some open_socket # replicate 19 None"
    using demo_leds by (simp_all add: device_task_def device_server_def demo_application_def)
  have frame: "length message_text \<le> 1024" "message_text = [] @ message_text @ []" "blank []" by (simp_all add: message_text_def)
  have round: "ws_inbox (board_round message_text) 0 = client_frame 0x81 0xCAFE message_text"
    "malloc (board_round message_text) 0 (length message_text + 1) = Some (replicate (length message_text + 1) 7)"
    "on_message (board_round message_text) = HTTPd_WebSocketServerOnMessage board_app"
    by (simp_all add: board_round_def device_round_def)
  have table: "length (client_list device_task) = HTTPD_MAX_CLIENTS" "0 < HTTPD_MAX_CLIENTS" "client_list device_task ! 0 = Some open_socket"
    by (simp_all add: device_task_def)
  obtain l where l: "serve_client (board_round message_text) 0 device_task = Some (Next_Client,
      device_task\<lparr>task_log := task_log device_task @ [NeonRTOS_TimerStop 0, NeonRTOS_TimerReStart 0],
        httpd := (httpd device_task)\<lparr>sent := sent (httpd device_task) @
            concat (map (message_to (layout False 0 (cJSON_Object (report_members (obey (Switch 2 True) (led_view led_init_memory))))))
              (listeners (client_list device_task))),
          world := (world (httpd device_task))\<lparr>leds := l\<rparr>\<rparr>\<rparr>)"
    "shows_leds l (obey (Switch 2 True) (led_view led_init_memory))"
    using WebSocket_turn [OF table socket(1-3) round(1) frame(1) round(2) length_replicate round(3) board_cJSON
        world(2) [folded world(1)] frame(2,3) message_value [unfolded demo_message_def] demo_message_items [unfolded demo_message_def]
        topic [folded world(3), folded world(1)]]
    by blast
  have "led_view l 2 = (True, 0)"
    using l(2) by (simp add: shows_leds_def led_view_def [of led_init_memory] led_init_facts LED_zero_def)
  then show ?thesis using l(1) socket unfolding world(4)
    by (intro exI [of _ l]) (simp add: device_task_def device_server_def one_listener del: layout.simps)
qed

text \<open>
  C36: Two ways in which one request takes the device down: its body is not given a zero byte at the end, so
  the parser reads on behind the buffer when the text is blank or stops after an opening bracket; and
  a backslash and u with less than four digits before the closing quote makes the copy of a string write behind
  its buffer, as many bytes as the client likes.
\<close>

theorem hostile_body_overruns:
  assumes "device_runs env page (request_env rnd k) s" "json_parse env = cJSON_Parse pow10 pm" "1 < pm" "0 \<le> i" "i < 4"
    "request_ok HTTPd_Method_POST (chars ''/LED_PWM/'' @ decimal i) args hs"
    "brings_text rs (request_text HTTPd_Method_POST (target_text (chars ''/LED_PWM/'' @ decimal i) args) hs)"
    "header_value ''Connection'' hs = Some y" "header_value ''Content-Length'' hs = Some z"
    "atoi z = int (length d)" "length d \<le> 4096" "\<forall>r\<in>set bs. brings n r" "x \<noteq> []" "delivered bs @ x = d" "overruns d"
    "\<not> connection_destruct_flag c" "cgi c = None" "cmd_buf_mem rnd k" "malloc rnd k (length d) = Some mem" "length mem = length d"
  shows "serve_http rnd k (rs @ bs @ Received x # rest) c s = None"
proof -
  have "json_parse env d = None" unfolding assms(2) by (rule overrun [OF assms(15,3)])
  then show ?thesis by (rule body_crashes [OF assms(1) _ assms(4-14,16-20)])
qed

theorem hostile_body_overruns_witness:
  "serve_http (board_round []) 0 (map (\<lambda>b. Received [b]) json_request @
      [Received ([34, 92, 117, 34, 97, 98, 99] @ replicate 19 65)]) new_socket device_server = None"
proof -
  let ?d = "[34, 92, 117, 34, 97, 98, 99] @ replicate 19 65 :: u8 list"
  have "device_runs board_app [] (request_env (board_round []) 0) device_server"
    by (simp_all add: device_runs_def board_round_def device_round_def device_env_def device_server_def)
  moreover have "json_parse board_app = cJSON_Parse (\<lambda>n. Some (10 powi n)) 100" by (simp add: board_app_def)
  moreover have two: "chars ''/LED_PWM/'' @ decimal 2 = chars ''/LED_PWM/2''" using demo_urls(1) by simp
  moreover have "overruns ?d"
    unfolding overruns_def
    by (intro disjI2 exI [of _ "[]"] exI [of _ 97] exI [of _ 98] exI [of _ 99] exI [of _ "replicate 19 65"]) (simp add: blank_def)
  moreover have "\<not> connection_destruct_flag new_socket" "cgi new_socket = None" "cmd_buf_mem (board_round []) 0"
    "malloc (board_round []) 0 (length ?d) = Some (replicate (length ?d) 7)"
    by (simp_all add: new_socket_def device_request_def board_round_def device_round_def)
  moreover have "atoi (chars ''26'') = int (length ?d)" using json_headers(4) by simp
  ultimately show ?thesis
    using hostile_body_overruns [of board_app "[]" "board_round []" 0 device_server "\<lambda>n. Some (10 powi n)" 100 2 None json_headers
        "map (\<lambda>b. Received [b]) json_request" "chars ''close''" "chars ''26''" ?d "[]" 0 ?d new_socket "replicate (length ?d) 7" "[]"]
      json_request_ok json_brought json_headers(2,3) by (simp add: json_request_def del: chars_simps)
qed

end
