(* ===== verification/Ethernet.thy ===== *)
theory Ethernet
  imports NeonTCPIP C_Text
begin

text \<open>
  The Ethernet driver between lwIP and the MAC, \<open>Drivers/W-Link/ethernetif/ethernetif_stm32.c\<close>. A packet of
  lwIP is a chain of pbufs, here the list of their payloads; the MAC reads and writes frames through two
  rings of descriptors, each with a buffer of 1524 bytes and a bit that says whether the DMA owns it. A
  read or write outside a buffer is undefined (\<open>None\<close>). Lengths are natural numbers: the longest chain
  has 65535 bytes.
\<close>

section \<open>State\<close>

definition ETH_TX_BUF_SIZE :: nat where "ETH_TX_BUF_SIZE = 1524"
definition ETH_RX_BUF_SIZE :: nat where "ETH_RX_BUF_SIZE = 1524"
definition ETH_TXBUFNB :: nat where "ETH_TXBUFNB = 4"
definition ETH_RXBUFNB :: nat where "ETH_RXBUFNB = 4"

record dma_desc =
  own :: bool
  buffer1 :: "u8 list"
  control_size :: nat
  first_segment :: bool
  last_segment :: bool

datatype eth_event = Clear_Status nat | Poll_Transmit | Poll_Receive

text \<open>Of the handle of the MAC: the two rings, the descriptor that the CPU fills next, and what is written to
  the registers of the DMA.\<close>

record eth =
  tx_ring :: "dma_desc list"
  TxDesc :: nat
  rx_ring :: "dma_desc list"
  dma_log :: "eth_event list"

datatype eth_err = ERR_OK | ERR_USE

text \<open>\<open>Buffer2NextDescAddr\<close>: the last descriptor points to the first one.\<close>

definition next_desc :: "'a list \<Rightarrow> nat \<Rightarrow> nat" where
  "next_desc ring d = (if d + 1 < length ring then d + 1 else 0)"

definition memcpy_at :: "u8 list \<Rightarrow> nat \<Rightarrow> u8 list \<Rightarrow> u8 list option" where
  "memcpy_at dst off src =
     (if off + length src \<le> length dst then Some (take off dst @ src @ drop (off + length src) dst) else None)"

definition copy_to :: "dma_desc list \<Rightarrow> nat \<Rightarrow> nat \<Rightarrow> u8 list \<Rightarrow> dma_desc list option" where
  "copy_to ring d off src = do {
     b \<leftarrow> memcpy_at (buffer1 (ring ! d)) off src;
     Some (ring[d := (ring ! d)\<lparr>buffer1 := b\<rparr>]) }"

section \<open>Sending\<close>

text \<open>The payload of one pbuf, into the buffer at \<open>d\<close> and as many of the next ones as it needs. The
  result is the position behind it and the length of the frame so far, or nothing when the DMA owns a
  descriptor that is needed.\<close>

function send_payload :: "dma_desc list \<Rightarrow> nat \<Rightarrow> nat \<Rightarrow> nat \<Rightarrow> u8 list \<Rightarrow> (dma_desc list \<times> (nat \<times> nat \<times> nat) option) option" where
  "send_payload ring d bufferoffset framelength payload = (
     if ETH_TX_BUF_SIZE < length payload + bufferoffset then
       if ETH_TX_BUF_SIZE < bufferoffset then None
       else do {
         let n = ETH_TX_BUF_SIZE - bufferoffset;
         ring1 \<leftarrow> copy_to ring d bufferoffset (take n payload);
         let d1 = next_desc ring1 d;
         if own (ring1 ! d1) then Some (ring1, None)
         else send_payload ring1 d1 0 (framelength + n) (drop n payload) }
     else do {
       ring1 \<leftarrow> copy_to ring d bufferoffset payload;
       Some (ring1, Some (d, bufferoffset + length payload, framelength + length payload)) })"
  by pat_completeness auto
termination
  by (relation "measure (\<lambda>(ring, d, off, fl, payload). length payload + off)") (auto simp: ETH_TX_BUF_SIZE_def)

declare send_payload.simps [simp del]

fun send_chain :: "dma_desc list \<Rightarrow> nat \<Rightarrow> nat \<Rightarrow> nat \<Rightarrow> u8 list list \<Rightarrow> (dma_desc list \<times> nat option) option" where
  "send_chain ring d bufferoffset framelength [] = Some (ring, Some framelength)"
| "send_chain ring d bufferoffset framelength (payload # p) =
     (if own (ring ! d) then Some (ring, None)
      else do {
        (ring1, r) \<leftarrow> send_payload ring d bufferoffset framelength payload;
        case r of None \<Rightarrow> Some (ring1, None)
        | Some (d1, off, len) \<Rightarrow> send_chain ring1 d1 off len p })"

text \<open>When a bit of the status register of the DMA is set, it is cleared and the DMA is told to go on.
  \<open>status k\<close> is what the code reads from bit \<open>k\<close>.\<close>

definition resume :: "(nat \<Rightarrow> bool) \<Rightarrow> nat \<Rightarrow> eth_event \<Rightarrow> eth \<Rightarrow> eth" where
  "resume status k poll s = (if status k then s\<lparr>dma_log := dma_log s @ [Clear_Status k, poll]\<rparr> else s)"

lemma resume_sel [simp]:
  "tx_ring (resume status k poll s) = tx_ring s" "TxDesc (resume status k poll s) = TxDesc s"
  "rx_ring (resume status k poll s) = rx_ring s"
  by (simp_all add: resume_def)

text \<open>\<open>HAL_ETH_TransmitFrame\<close> of the HAL: the descriptors of the frame are marked and given to the DMA, which
  is resumed when it had run out of them (TBUS, bit 2). Its lock is taken to be free.\<close>

definition give_desc :: "dma_desc list \<Rightarrow> nat \<Rightarrow> bool \<Rightarrow> bool \<Rightarrow> nat \<Rightarrow> dma_desc list" where
  "give_desc ring d fs ls n =
     ring[d := (ring ! d)\<lparr>first_segment := fs, last_segment := ls, control_size := n, own := True\<rparr>]"

fun give_descs :: "dma_desc list \<Rightarrow> nat \<Rightarrow> nat \<Rightarrow> nat \<Rightarrow> nat \<Rightarrow> dma_desc list \<times> nat" where
  "give_descs ring d FrameLength i 0 = (ring, d)"
| "give_descs ring d FrameLength i (Suc n) =
     give_descs (give_desc ring d (i = 0) (n = 0) (if n = 0 then FrameLength - i * ETH_TX_BUF_SIZE else ETH_TX_BUF_SIZE))
       (next_desc ring d) FrameLength (i + 1) n"

definition HAL_ETH_TransmitFrame :: "(nat \<Rightarrow> bool) \<Rightarrow> nat \<Rightarrow> eth \<Rightarrow> eth" where
  "HAL_ETH_TransmitFrame status FrameLength s = (
     if FrameLength = 0 \<or> own (tx_ring s ! TxDesc s) then s
     else resume status 2 Poll_Transmit (if FrameLength \<le> ETH_TX_BUF_SIZE then
       s\<lparr>tx_ring := give_desc (tx_ring s) (TxDesc s) True True FrameLength, TxDesc := next_desc (tx_ring s) (TxDesc s)\<rparr>
     else
       let bufcount = FrameLength div ETH_TX_BUF_SIZE + (if FrameLength mod ETH_TX_BUF_SIZE = 0 then 0 else 1);
           (ring, d) = give_descs (tx_ring s) (TxDesc s) FrameLength 0 bufcount
       in s\<lparr>tx_ring := ring, TxDesc := d\<rparr>))"

text \<open>What the HAL returns is ignored. Bit 5 of the status register, TUS, says that the DMA had no data.\<close>

definition low_level_output :: "(nat \<Rightarrow> bool) \<Rightarrow> u8 list list \<Rightarrow> eth \<Rightarrow> (eth_err \<times> eth) option" where
  "low_level_output status p s = do {
     (ring, r) \<leftarrow> send_chain (tx_ring s) (TxDesc s) 0 0 p;
     let s1 = s\<lparr>tx_ring := ring\<rparr>;
     let (err, s2) = (case r of None \<Rightarrow> (ERR_USE, s1) | Some framelength \<Rightarrow> (ERR_OK, HAL_ETH_TransmitFrame status framelength s1));
     Some (err, resume status 5 Poll_Transmit s2) }"

section \<open>Receiving\<close>

definition read_slice :: "u8 list \<Rightarrow> nat \<Rightarrow> nat \<Rightarrow> u8 list option" where
  "read_slice src off n = (if off + n \<le> length src then Some (take n (drop off src)) else None)"

text \<open>The \<open>n\<close> bytes of the payload of one pbuf.\<close>

function receive_payload :: "dma_desc list \<Rightarrow> nat \<Rightarrow> nat \<Rightarrow> nat \<Rightarrow> (u8 list \<times> nat \<times> nat) option" where
  "receive_payload ring d bufferoffset n = (
     if ETH_RX_BUF_SIZE < n + bufferoffset then
       if ETH_RX_BUF_SIZE < bufferoffset then None
       else do {
         let k = ETH_RX_BUF_SIZE - bufferoffset;
         a \<leftarrow> read_slice (buffer1 (ring ! d)) bufferoffset k;
         (b, r) \<leftarrow> receive_payload ring (next_desc ring d) 0 (n - k);
         Some (a @ b, r) }
     else do {
       a \<leftarrow> read_slice (buffer1 (ring ! d)) bufferoffset n;
       Some (a, d, bufferoffset + n) })"
  by pat_completeness auto
termination
  by (relation "measure (\<lambda>(ring, d, off, n). n + off)") (auto simp: ETH_RX_BUF_SIZE_def)

declare receive_payload.simps [simp del]

fun receive_chain :: "dma_desc list \<Rightarrow> nat \<Rightarrow> nat \<Rightarrow> nat list \<Rightarrow> u8 list list option" where
  "receive_chain ring d bufferoffset [] = Some []"
| "receive_chain ring d bufferoffset (n # ns) = do {
     (payload, d1, off) \<leftarrow> receive_payload ring d bufferoffset n;
     p \<leftarrow> receive_chain ring d1 off ns;
     Some (payload # p) }"

fun give_back :: "dma_desc list \<Rightarrow> nat \<Rightarrow> nat \<Rightarrow> dma_desc list" where
  "give_back ring d 0 = ring"
| "give_back ring d (Suc n) = give_back (ring[d := (ring ! d)\<lparr>own := True\<rparr>]) (next_desc ring d) n"

text \<open>\<open>frame\<close> is what \<open>HAL_ETH_GetReceivedFrame_IT\<close> finds: length, first descriptor and number of
  descriptors. \<open>pbuf_alloc\<close> gives the lengths of the pbufs of a chain from the pool, or nothing when the pool
  is empty. Bit 7 of the status register, RBUS, says that the DMA had no descriptor.\<close>

definition low_level_input ::
  "(nat \<times> nat \<times> nat) option \<Rightarrow> (nat \<Rightarrow> nat list option) \<Rightarrow> (nat \<Rightarrow> bool) \<Rightarrow> eth \<Rightarrow> (u8 list list option \<times> eth) option"
where
  "low_level_input frame pbuf_alloc status s = (case frame of
     None \<Rightarrow> Some (None, s)
   | Some (len, FSRxDesc, SegCount) \<Rightarrow> do {
       p \<leftarrow> (case (if 0 < len then pbuf_alloc len else None) of
           None \<Rightarrow> Some None
         | Some ns \<Rightarrow> map_option Some (receive_chain (rx_ring s) FSRxDesc 0 ns));
       let s1 = s\<lparr>rx_ring := give_back (rx_ring s) FSRxDesc SegCount\<rparr>;
       Some (p, resume status 7 Poll_Receive s1) })"

text \<open>The packet is handed to lwIP; when it refuses it, it is freed.\<close>

datatype input_event = Input "u8 list list" | Free "u8 list list"

definition ethernetif_input ::
  "(nat \<times> nat \<times> nat) option \<Rightarrow> (nat \<Rightarrow> nat list option) \<Rightarrow> (nat \<Rightarrow> bool) \<Rightarrow> bool \<Rightarrow> eth \<Rightarrow> (input_event list \<times> eth) option"
where
  "ethernetif_input frame pbuf_alloc status taken s = do {
     (r, s1) \<leftarrow> low_level_input frame pbuf_alloc status s;
     Some (case r of None \<Rightarrow> [] | Some p \<Rightarrow> if taken then [Input p] else [Input p, Free p], s1) }"

section \<open>The buffers of a ring, one behind the other\<close>

definition ring_bytes :: "dma_desc list \<Rightarrow> nat \<Rightarrow> u8 list" where
  "ring_bytes ring d = concat (rotate d (map buffer1 ring))"

definition ring_ok :: "nat \<Rightarrow> dma_desc list \<Rightarrow> bool" where
  "ring_ok room ring \<longleftrightarrow> ring \<noteq> [] \<and> (\<forall>x\<in>set ring. length (buffer1 x) = room)"

text \<open>What a descriptor has besides its buffer.\<close>

definition control :: "dma_desc list \<Rightarrow> (bool \<times> nat \<times> bool \<times> bool) list" where
  "control ring = map (\<lambda>x. (own x, control_size x, first_segment x, last_segment x)) ring"

lemma control_own: "control ring1 = control ring \<Longrightarrow> length ring1 = length ring \<and> map own ring1 = map own ring"
  by (auto simp: control_def dest: map_eq_imp_length_eq) (metis (no_types, lifting) fst_conv list.map_comp map_eq_conv comp_def)

lemma next_desc: "ring \<noteq> [] \<Longrightarrow> next_desc ring ((d + b) mod length ring) = (d + Suc b) mod length ring"
proof -
  assume "ring \<noteq> []"
  then have "(d + b) mod length ring < length ring" by simp
  then show ?thesis by (auto simp: next_desc_def mod_Suc)
qed

lemma position_eq: "j < n \<Longrightarrow> b < n \<Longrightarrow> (d + j) mod n = (d + b) mod n \<longleftrightarrow> j = (b :: nat)"
proof -
  assume "j < n" "b < n"
  moreover have "rotate d [0..<n] ! k = (d + k) mod n" if "k < n" for k using that by (simp add: nth_rotate)
  moreover have "distinct (rotate d [0..<n])" by simp
  ultimately show ?thesis by (metis nth_eq_iff_index_eq length_rotate length_upt minus_nat.diff_0)
qed

lemma rotate_update: "b < length xs \<Longrightarrow> rotate d (xs[(d + b) mod length xs := v]) = (rotate d xs)[b := v]"
proof (rule nth_equalityI)
  fix j assume "b < length xs" "j < length (rotate d (xs[(d + b) mod length xs := v]))"
  moreover from this have "(d + b) mod length xs < length xs" by (intro mod_less_divisor) linarith
  ultimately show "rotate d (xs[(d + b) mod length xs := v]) ! j = (rotate d xs)[b := v] ! j"
    by (cases "j = b") (simp_all add: nth_rotate nth_list_update position_eq)
qed simp

lemma length_concat_take: "\<forall>y\<in>set ys. length y = n \<Longrightarrow> b \<le> length ys \<Longrightarrow> length (concat (take b ys)) = n * b"
proof (induction b arbitrary: ys)
  case (Suc b)
  then obtain y zs where "ys = y # zs" by (cases ys) auto
  with Suc show ?case by simp
qed simp

lemma concat_update:
  assumes "\<forall>y\<in>set ys. length y = n" "b < length ys" "off + length src \<le> n" "m = n * b + off"
  shows "concat (ys[b := take off (ys ! b) @ src @ drop (off + length src) (ys ! b)]) =
    take m (concat ys) @ src @ drop (m + length src) (concat ys)"
proof -
  have ys: "concat ys = concat (take b ys) @ ys ! b @ concat (drop (Suc b) ys)"
    using id_take_nth_drop [OF assms(2)] by (metis concat.simps(2) concat_append)
  have len: "length (concat (take b ys)) = n * b" "length (ys ! b) = n"
    using length_concat_take [OF assms(1)] assms(1,2) by simp_all
  show ?thesis unfolding upd_conv_take_nth_drop [OF assms(2)] ys using len assms(3,4) by simp
qed

lemma copied:
  assumes "ring_ok room ring" "b < length ring" "off + length src \<le> room" "m = room * b + off"
  shows "\<exists>ring1. copy_to ring ((d + b) mod length ring) off src = Some ring1 \<and> ring_ok room ring1 \<and> control ring1 = control ring \<and>
    ring_bytes ring1 d = take m (ring_bytes ring d) @ src @ drop (m + length src) (ring_bytes ring d)"
proof -
  let ?i = "(d + b) mod length ring"
  have i: "?i < length ring" using assms(2) by (intro mod_less_divisor) linarith
  then have len: "length (buffer1 (ring ! ?i)) = room" using assms(1) by (simp add: ring_ok_def)
  let ?v = "take off (buffer1 (ring ! ?i)) @ src @ drop (off + length src) (buffer1 (ring ! ?i))"
  let ?ring = "ring[?i := (ring ! ?i)\<lparr>buffer1 := ?v\<rparr>]"
  have "copy_to ring ?i off src = Some ?ring" using len assms(3) by (simp add: copy_to_def memcpy_at_def)
  moreover have "ring_ok room ?ring"
    using assms(1,3) len by (auto simp: ring_ok_def dest!: set_update_subset_insert [THEN subsetD])
  moreover have "control ?ring = control ring"
    using i by (simp add: control_def map_update list_update_same_conv)
  moreover have "ring_bytes ?ring d = take m (ring_bytes ring d) @ src @ drop (m + length src) (ring_bytes ring d)"
  proof -
    let ?ys = "rotate d (map buffer1 ring)"
    have "map buffer1 ?ring = (map buffer1 ring)[(d + b) mod length (map buffer1 ring) := ?v]" by (simp add: map_update)
    then have "rotate d (map buffer1 ?ring) = ?ys[b := ?v]" using rotate_update [of b "map buffer1 ring" d ?v] assms(2) by simp
    moreover have "?ys ! b = buffer1 (ring ! ?i)" using assms(2) i by (simp add: nth_rotate)
    moreover have "\<forall>y\<in>set ?ys. length y = room" using assms(1) by (simp add: ring_ok_def)
    ultimately show ?thesis unfolding ring_bytes_def using concat_update [of ?ys room b off src m] assms(2-4) by simp
  qed
  ultimately show ?thesis by blast
qed

section \<open>What is copied\<close>

text \<open>The position \<open>off\<close> in the \<open>b\<close>-th buffer is reached after \<open>m\<close> bytes.\<close>

definition position :: "dma_desc list \<Rightarrow> nat \<Rightarrow> nat \<Rightarrow> nat \<Rightarrow> bool" where
  "position ring b off m \<longleftrightarrow> b < length ring \<and> off \<le> ETH_TX_BUF_SIZE \<and> (b = 0 \<or> 0 < off) \<and> m = ETH_TX_BUF_SIZE * b + off"

text \<open>The CPU owns the descriptors that a frame of \<open>n\<close> bytes needs.\<close>

definition room_for :: "dma_desc list \<Rightarrow> nat \<Rightarrow> nat \<Rightarrow> bool" where
  "room_for ring d n \<longleftrightarrow> (\<forall>j < length ring. j = 0 \<or> ETH_TX_BUF_SIZE * j < n \<longrightarrow> \<not> own (ring ! ((d + j) mod length ring)))"

definition appended :: "dma_desc list \<Rightarrow> nat \<Rightarrow> nat \<Rightarrow> u8 list \<Rightarrow> dma_desc list \<Rightarrow> bool" where
  "appended ring d m bs ring1 \<longleftrightarrow> ring_ok ETH_TX_BUF_SIZE ring1 \<and> control ring1 = control ring \<and>
     ring_bytes ring1 d = take m (ring_bytes ring d) @ bs @ drop (m + length bs) (ring_bytes ring d)"

lemma tx_room: "0 < ETH_TX_BUF_SIZE"
  by (simp add: ETH_TX_BUF_SIZE_def)

lemma room_same: "control ring1 = control ring \<Longrightarrow> room_for ring1 d n \<longleftrightarrow> room_for ring d n"
proof -
  assume "control ring1 = control ring"
  from control_own [OF this] have len: "length ring1 = length ring"
    and own: "\<And>i. i < length ring \<Longrightarrow> own (ring1 ! i) = own (ring ! i)" by (auto dest: arg_cong [where f = "\<lambda>xs. xs ! _"] simp: list_eq_iff_nth_eq)
  have "(d + j) mod length ring < length ring" if "j < length ring" for j using that by (intro mod_less_divisor) linarith
  then show ?thesis unfolding room_for_def len using own by simp
qed

lemma length_ring_bytes: "ring_ok room ring \<Longrightarrow> length (ring_bytes ring d) = room * length ring"
  using length_concat_take [of "rotate d (map buffer1 ring)" room "length ring"]
  by (simp add: ring_bytes_def ring_ok_def)

lemma appended_trans:
  assumes "appended ring d m a ring1" "appended ring1 d (m + length a) b ring2" "m \<le> length (ring_bytes ring d)"
  shows "appended ring d m (a @ b) ring2"
  using assms by (simp add: appended_def ac_simps)

lemma send_long:
  assumes "ETH_TX_BUF_SIZE < length payload + off" "\<not> ETH_TX_BUF_SIZE < off" "n = ETH_TX_BUF_SIZE - off"
  shows "send_payload ring d off len payload = do {
      ring1 \<leftarrow> copy_to ring d off (take n payload);
      if own (ring1 ! next_desc ring1 d) then Some (ring1, None)
      else send_payload ring1 (next_desc ring1 d) 0 (len + n) (drop n payload) }"
  using assms by (subst send_payload.simps) (simp only: Let_def if_True if_False simp_thms)

lemma send_short:
  "\<not> ETH_TX_BUF_SIZE < length payload + off \<Longrightarrow> send_payload ring d off len payload = do {
      ring1 \<leftarrow> copy_to ring d off payload;
      Some (ring1, Some (d, off + length payload, len + length payload)) }"
  by (subst send_payload.simps) simp

lemma payload_copied:
  assumes "ring_ok ETH_TX_BUF_SIZE ring" "b < length ring" "off \<le> ETH_TX_BUF_SIZE" "b = 0 \<or> 0 < off \<or> payload \<noteq> []"
    "m = ETH_TX_BUF_SIZE * b + off" "d = (d0 + b) mod length ring"
    "m + length payload \<le> ETH_TX_BUF_SIZE * length ring" "room_for ring d0 (m + length payload)"
  shows "\<exists>ring1 b1 off1. send_payload ring d off len payload = Some (ring1, Some ((d0 + b1) mod length ring, off1, len + length payload)) \<and>
    appended ring d0 m payload ring1 \<and> position ring b1 off1 (m + length payload)"
  using assms
proof (induction ring d off len payload arbitrary: b m rule: send_payload.induct)
  case (1 ring d off len payload)
  let ?S = ETH_TX_BUF_SIZE
  show ?case
  proof (cases "?S < length payload + off")
    case False
    then obtain ring1 where ring1: "copy_to ring d off payload = Some ring1" "appended ring d0 m payload ring1"
      using copied [OF "1.prems"(1,2), of off payload m d0] "1.prems"(5,6) by (auto simp: appended_def)
    then show ?thesis using False "1.prems"(2,4-6)
      by (intro exI [of _ ring1] exI [of _ b] exI [of _ "off + length payload"])
        (auto simp: send_short [OF False] position_def)
  next
    case True
    define n where "n = ?S - off"
    have n: "n < length payload" "n + off = ?S" "length (take n payload) = n" using True "1.prems"(3) by (auto simp: n_def)
    obtain ring1 where ring1: "copy_to ring d off (take n payload) = Some ring1" "ring_ok ?S ring1"
      "control ring1 = control ring" "appended ring d0 m (take n payload) ring1"
      using copied [OF "1.prems"(1,2), of off "take n payload" m d0] "1.prems"(5,6) n(2,3) by (auto simp: appended_def)
    have len: "length ring1 = length ring" using control_own [OF ring1(3)] by simp
    have m: "m + n = ?S * Suc b" "m + length payload = m + n + length (drop n payload)" using "1.prems"(5) n by simp_all
    have more: "?S * Suc b < m + length payload" using m(1) n(1) by linarith
    then have "?S * Suc b < ?S * length ring" using "1.prems"(7) by linarith
    then have b: "Suc b < length ring" by (simp only: mult_less_cancel1)
    have succ: "next_desc ring1 d = (d0 + Suc b) mod length ring1"
      using next_desc [of ring1 d0 b] "1.prems"(6) len b by fastforce
    have room: "room_for ring1 d0 (m + length payload)" using "1.prems"(8) room_same [OF ring1(3)] by simp
    then have free: "\<not> own (ring1 ! next_desc ring1 d)"
      using b more unfolding room_for_def succ by (metis len)
    have small: "\<not> ?S < off" using "1.prems"(3) by simp
    have "drop n payload \<noteq> []" using n(1) by simp
    then have prem: "Suc b = 0 \<or> 0 < (0 :: nat) \<or> drop n payload \<noteq> []" by simp
    have here: "Suc b < length ring1" "m + n = ?S * Suc b + 0" using b len m(1) by simp_all
    have fits: "m + n + length (drop n payload) \<le> ?S * length ring1"
      unfolding m(2) [symmetric] len by (rule "1.prems"(7))
    have free_rest: "room_for ring1 d0 (m + n + length (drop n payload))" unfolding m(2) [symmetric] by (rule room)
    have "\<exists>ring2 b1 off1. send_payload ring1 (next_desc ring1 d) 0 (len + n) (drop n payload) =
        Some (ring2, Some ((d0 + b1) mod length ring1, off1, len + n + length (drop n payload))) \<and>
      appended ring1 d0 (m + n) (drop n payload) ring2 \<and> position ring1 b1 off1 (m + n + length (drop n payload))"
      by (rule "1.IH" [OF True small n_def ring1(1) refl free ring1(2) here(1) le0 prem here(2) succ fits free_rest])
    then obtain ring2 b1 off1 where ring2: "send_payload ring1 (next_desc ring1 d) 0 (len + n) (drop n payload) =
        Some (ring2, Some ((d0 + b1) mod length ring1, off1, len + n + length (drop n payload)))"
      "appended ring1 d0 (m + n) (drop n payload) ring2" "position ring1 b1 off1 (m + n + length (drop n payload))"
      by (elim exE conjE)
    have "m \<le> length (ring_bytes ring d0)" using length_ring_bytes [OF "1.prems"(1)] "1.prems"(7) by simp
    then have "appended ring d0 m payload ring2"
      using appended_trans [OF ring1(4), of "drop n payload" ring2] ring2(2) n(3) by simp
    moreover have "position ring b1 off1 (m + length payload)" using ring2(3) unfolding m(2) [symmetric] by (simp add: position_def len)
    moreover have "send_payload ring d off len payload = send_payload ring1 (next_desc ring1 d) 0 (len + n) (drop n payload)"
      unfolding send_long [OF True small n_def] ring1(1) using free by simp
    moreover have "len + n + length (drop n payload) = len + length payload" using n(1) by simp
    moreover note ring2(1) len
    ultimately show ?thesis by (intro exI [of _ ring2] exI [of _ b1] exI [of _ off1]) simp
  qed
qed

lemma chain_copied:
  assumes "ring_ok ETH_TX_BUF_SIZE ring" "position ring b off m" "d = (d0 + b) mod length ring"
    "m + length (concat p) \<le> ETH_TX_BUF_SIZE * length ring" "room_for ring d0 (m + length (concat p))"
  shows "\<exists>ring1. send_chain ring d off len p = Some (ring1, Some (len + length (concat p))) \<and> appended ring d0 m (concat p) ring1"
  using assms
proof (induction p arbitrary: ring d b off len m)
  case Nil
  then show ?case by (simp add: appended_def)
next
  case (Cons payload p)
  note pos = Cons.prems(2)[unfolded position_def]
  have room: "room_for ring d0 (m + length payload)" using Cons.prems(5) by (auto simp: room_for_def)
  have "b = 0 \<or> ETH_TX_BUF_SIZE * b < m + length (concat (payload # p))" using pos by auto
  then have free: "\<not> own (ring ! d)" using Cons.prems(3,5) pos unfolding room_for_def by blast
  obtain ring1 b1 off1 where ring1: "send_payload ring d off len payload = Some (ring1, Some ((d0 + b1) mod length ring, off1, len + length payload))"
    "appended ring d0 m payload ring1" "position ring b1 off1 (m + length payload)"
    using payload_copied [OF Cons.prems(1), of b off payload m d d0 len] pos Cons.prems(3,4) room by auto
  have same: "control ring1 = control ring" "ring_ok ETH_TX_BUF_SIZE ring1" using ring1(2) by (simp_all add: appended_def)
  have len: "length ring1 = length ring" using control_own [OF same(1)] by simp
  obtain ring2 where ring2: "send_chain ring1 ((d0 + b1) mod length ring) off1 (len + length payload) p =
      Some (ring2, Some (len + length payload + length (concat p)))" "appended ring1 d0 (m + length payload) (concat p) ring2"
  proof -
    have "position ring1 b1 off1 (m + length payload)" using ring1(3) len by (simp add: position_def)
    moreover have "m + length payload + length (concat p) \<le> ETH_TX_BUF_SIZE * length ring1" using Cons.prems(4) len by simp
    moreover have "room_for ring1 d0 (m + length payload + length (concat p))"
      using Cons.prems(5) room_same [OF same(1)] by (simp add: add.assoc)
    ultimately have "\<exists>ring2. send_chain ring1 ((d0 + b1) mod length ring) off1 (len + length payload) p =
        Some (ring2, Some (len + length payload + length (concat p))) \<and> appended ring1 d0 (m + length payload) (concat p) ring2"
      using Cons.IH [OF same(2), of b1 off1 "m + length payload" "(d0 + b1) mod length ring" "len + length payload"] len by simp
    then show thesis using that by blast
  qed
  have "m \<le> length (ring_bytes ring d0)" using length_ring_bytes [OF Cons.prems(1)] Cons.prems(4) by simp
  from appended_trans [OF ring1(2) ring2(2) this] show ?case
    using free ring1(1) ring2(1) by (intro exI [of _ ring2]) (simp add: add.assoc)
qed

text \<open>When the DMA owns a descriptor that is needed, nothing but the contents of buffers changes.\<close>

lemma copy_control: "copy_to ring d off src = Some ring1 \<Longrightarrow> control ring1 = control ring"
  by (cases "d < length ring") (auto simp: copy_to_def control_def map_update list_update_same_conv list_update_beyond elim!: bind_SomeE)

lemma payload_control:
  "send_payload ring d off len payload = Some (ring1, r) \<Longrightarrow> control ring1 = control ring"
proof (induction ring d off len payload rule: send_payload.induct)
  case (1 ring d off len payload)
  show ?case
  proof (cases "ETH_TX_BUF_SIZE < length payload + off")
    case True
    have small: "\<not> ETH_TX_BUF_SIZE < off"
      using 1(2) True by (metis send_payload.simps option.distinct(1))
    define n where "n = ETH_TX_BUF_SIZE - off"
    obtain ring2 where ring2: "copy_to ring d off (take n payload) = Some ring2"
      "(if own (ring2 ! next_desc ring2 d) then Some (ring2, None)
        else send_payload ring2 (next_desc ring2 d) 0 (len + n) (drop n payload)) = Some (ring1, r)"
      using 1(2) unfolding send_long [OF True small n_def] by (rule bind_SomeE)
    then have "control ring1 = control ring2"
      using "1.IH" [OF True small n_def ring2(1) refl] by (cases "own (ring2 ! next_desc ring2 d)") simp_all
    with copy_control [OF ring2(1)] show ?thesis by simp
  next
    case False
    show ?thesis using 1(2) unfolding send_short [OF False] by (auto dest: copy_control elim!: bind_SomeE)
  qed
qed

lemma chain_control:
  "send_chain ring d off len p = Some (ring1, r) \<Longrightarrow> control ring1 = control ring"
proof (induction p arbitrary: ring d off len)
  case (Cons payload p)
  show ?case
  proof (cases "own (ring ! d)")
    case False
    then obtain ring2 x where x: "send_payload ring d off len payload = Some (ring2, x)"
      "(case x of None \<Rightarrow> Some (ring2, None) | Some (d1, off, len) \<Rightarrow> send_chain ring2 d1 off len p) = Some (ring1, r)"
      using Cons.prems by (auto elim!: bind_SomeE)
    from x(2) Cons.IH have "control ring1 = control ring2" by (auto split: option.splits)
    with payload_control [OF x(1)] show ?thesis by simp
  qed (use Cons.prems in simp)
qed simp

section \<open>The frame that the DMA gets\<close>

definition desc_bytes :: "dma_desc \<Rightarrow> u8 list" where
  "desc_bytes x = take (control_size x) (buffer1 x)"

lemma give_desc_other: "i \<noteq> d \<Longrightarrow> give_desc ring d fs ls n ! i = ring ! i"
  by (simp add: give_desc_def)

lemma give_desc_length [simp]: "length (give_desc ring d fs ls n) = length ring"
  by (simp add: give_desc_def)

lemma give_desc_buffer: "map buffer1 (give_desc ring d fs ls n) = map buffer1 ring"
  by (cases "d < length ring") (simp_all add: give_desc_def map_update list_update_same_conv list_update_beyond)

lemma give_desc_next [simp]: "next_desc (give_desc ring d fs ls n) = next_desc ring"
  by (simp add: next_desc_def fun_eq_iff)

lemma given:
  assumes "i + n \<le> length ring" "d = (d0 + i) mod length ring" "give_descs ring d len i n = (ring1, d1)"
  shows "length ring1 = length ring \<and> map buffer1 ring1 = map buffer1 ring \<and>
    (\<forall>j < length ring. let x = ring ! ((d0 + j) mod length ring); x1 = ring1 ! ((d0 + j) mod length ring) in
      if i \<le> j \<and> j < i + n then own x1 \<and> (first_segment x1 \<longleftrightarrow> j = 0) \<and> (last_segment x1 \<longleftrightarrow> j + 1 = i + n) \<and>
        control_size x1 = (if j + 1 = i + n then len - j * ETH_TX_BUF_SIZE else ETH_TX_BUF_SIZE)
      else x1 = x)"
  using assms
proof (induction n arbitrary: ring d i)
  case (Suc n)
  let ?ring = "give_desc ring d (i = 0) (n = 0) (if n = 0 then len - i * ETH_TX_BUF_SIZE else ETH_TX_BUF_SIZE)"
  have i: "i < length ring" using Suc.prems(1) by simp
  then have "ring \<noteq> []" by auto
  then have "next_desc ring d = (d0 + (i + 1)) mod length ?ring" using next_desc [of ring d0 i] Suc.prems(2) by simp
  then have IH: "length ring1 = length ?ring \<and> map buffer1 ring1 = map buffer1 ?ring \<and>
    (\<forall>j < length ?ring. let x = ?ring ! ((d0 + j) mod length ?ring); x1 = ring1 ! ((d0 + j) mod length ?ring) in
      if i + 1 \<le> j \<and> j < i + 1 + n then own x1 \<and> (first_segment x1 \<longleftrightarrow> j = 0) \<and> (last_segment x1 \<longleftrightarrow> j + 1 = i + 1 + n) \<and>
        control_size x1 = (if j + 1 = i + 1 + n then len - j * ETH_TX_BUF_SIZE else ETH_TX_BUF_SIZE)
      else x1 = x)"
    using Suc.IH [of "i + 1" ?ring "next_desc ring d"] Suc.prems(1,3) by simp
  have d: "d < length ring" unfolding Suc.prems(2) by (intro mod_less_divisor) (use i in linarith)
  have here: "?ring ! d = (ring ! d)\<lparr>first_segment := (i = 0), last_segment := (n = 0),
      control_size := (if n = 0 then len - i * ETH_TX_BUF_SIZE else ETH_TX_BUF_SIZE), own := True\<rparr>"
    using d by (simp add: give_desc_def)
  show ?case
  proof (intro conjI allI impI)
    show "length ring1 = length ring" "map buffer1 ring1 = map buffer1 ring" using IH by (simp_all add: give_desc_buffer)
    fix j assume j: "j < length ring"
    show "let x = ring ! ((d0 + j) mod length ring); x1 = ring1 ! ((d0 + j) mod length ring) in
      if i \<le> j \<and> j < i + Suc n then own x1 \<and> (first_segment x1 \<longleftrightarrow> j = 0) \<and> (last_segment x1 \<longleftrightarrow> j + 1 = i + Suc n) \<and>
        control_size x1 = (if j + 1 = i + Suc n then len - j * ETH_TX_BUF_SIZE else ETH_TX_BUF_SIZE)
      else x1 = x"
    proof (cases "j = i")
      case True
      then have "ring1 ! d = ?ring ! d" using IH j Suc.prems(2) by (simp add: Let_def)
      then show ?thesis using True here Suc.prems(2) by (auto simp: Let_def)
    next
      case False
      then have "(d0 + j) mod length ring \<noteq> d" using position_eq [OF j i, of d0] Suc.prems(2) by simp
      then show ?thesis using IH j False give_desc_other [of "(d0 + j) mod length ring" d ring]
        by (auto simp: Let_def)
    qed
  qed
qed (auto simp: Let_def)

text \<open>The sizes of the descriptors cut the frame out of the buffers.\<close>

lemma cut_out:
  assumes "\<forall>y\<in>set ys. length y = n" "k * n < len" "len \<le> Suc k * n" "Suc k \<le> length ys"
  shows "concat (map (\<lambda>j. take (if j = k then len - k * n else n) (ys ! j)) [0..<Suc k]) = take len (concat ys)"
proof -
  have "map (\<lambda>j. take (if j = k then len - k * n else n) (ys ! j)) [0..<k] = take k ys"
    by (rule nth_equalityI) (use assms(1,4) in auto)
  moreover have "concat ys = concat (take k ys) @ ys ! k @ concat (drop (Suc k) ys)"
    using id_take_nth_drop [of k ys] assms(4) by (metis Suc_le_lessD concat.simps(2) concat_append)
  moreover have "length (concat (take k ys)) = n * k" "length (ys ! k) = n"
    using length_concat_take [OF assms(1)] assms(1,4) by simp_all
  ultimately show ?thesis using assms(2,3) by (simp add: mult.commute)
qed

lemma give_descs_next:
  "ring \<noteq> [] \<Longrightarrow> d = (d0 + i) mod length ring \<Longrightarrow> give_descs ring d len i n = (ring1, d1) \<Longrightarrow> d1 = (d0 + (i + n)) mod length ring"
proof (induction n arbitrary: ring d i)
  case (Suc n)
  let ?ring = "give_desc ring d (i = 0) (n = 0) (if n = 0 then len - i * ETH_TX_BUF_SIZE else ETH_TX_BUF_SIZE)"
  have "?ring \<noteq> []" using Suc.prems(1) by (metis give_desc_length length_0_conv)
  moreover have "next_desc ring d = (d0 + (i + 1)) mod length ?ring" using next_desc [of ring d0 i] Suc.prems(1,2) by simp
  moreover have "give_descs ?ring (next_desc ring d) len (i + 1) n = (ring1, d1)" using Suc.prems(3) by simp
  ultimately have "d1 = (d0 + (i + 1 + n)) mod length ?ring" by (rule Suc.IH)
  then show ?case by simp
qed simp

text \<open>The number of descriptors of a frame.\<close>

definition desc_count :: "nat \<Rightarrow> nat" where
  "desc_count len = len div ETH_TX_BUF_SIZE + (if len mod ETH_TX_BUF_SIZE = 0 then 0 else 1)"

lemma desc_count:
  assumes "0 < len"
  shows "\<exists>k. desc_count len = Suc k \<and> k * ETH_TX_BUF_SIZE < len \<and> len \<le> Suc k * ETH_TX_BUF_SIZE"
proof -
  let ?S = ETH_TX_BUF_SIZE
  have split: "len = len div ?S * ?S + len mod ?S" by simp
  have r: "len mod ?S < ?S" using tx_room by simp
  show ?thesis
  proof (cases "len mod ?S = 0")
    case True
    then obtain k where "len div ?S = Suc k" using split assms by (cases "len div ?S") auto
    with True split show ?thesis using tx_room by (intro exI [of _ k]) (auto simp: desc_count_def)
  next
    case False
    then have "len div ?S * ?S < len" "len \<le> Suc (len div ?S) * ?S" using split r by (simp_all only: mult_Suc)
    then show ?thesis using False by (intro exI [of _ "len div ?S"]) (simp add: desc_count_def)
  qed
qed

lemma transmit_given:
  assumes "0 < len" "\<not> own (tx_ring s ! TxDesc s)" "desc_count len \<le> length (tx_ring s)" "TxDesc s < length (tx_ring s)"
  shows "\<exists>ring1. give_descs (tx_ring s) (TxDesc s) len 0 (desc_count len) = (ring1, (TxDesc s + desc_count len) mod length (tx_ring s)) \<and>
    HAL_ETH_TransmitFrame status len s =
      resume status 2 Poll_Transmit (s\<lparr>tx_ring := ring1, TxDesc := (TxDesc s + desc_count len) mod length (tx_ring s)\<rparr>)"
proof -
  let ?N = "length (tx_ring s)"
  obtain ring1 d1 where g: "give_descs (tx_ring s) (TxDesc s) len 0 (desc_count len) = (ring1, d1)" by force
  have d1: "d1 = (TxDesc s + desc_count len) mod ?N"
    using give_descs_next [OF _ _ g, of "TxDesc s"] assms(4) by fastforce
  show ?thesis
  proof (cases "len \<le> ETH_TX_BUF_SIZE")
    case True
    obtain k where "desc_count len = Suc k" "k * ETH_TX_BUF_SIZE < len" using desc_count [OF assms(1)] by blast
    then have "k * ETH_TX_BUF_SIZE < 1 * ETH_TX_BUF_SIZE" using True by linarith
    then have "k = 0" by (simp only: mult_less_cancel2) simp
    with \<open>desc_count len = Suc k\<close> g d1 True assms(1,2) show ?thesis
      by (auto simp: HAL_ETH_TransmitFrame_def)
  next
    case False
    then show ?thesis using g d1 assms(1,2) by (simp add: HAL_ETH_TransmitFrame_def desc_count_def Let_def)
  qed
qed

lemma packet_given:
  fixes s p N len
  defines "N \<equiv> length (tx_ring s)" and "len \<equiv> length (concat p)"
  assumes "ring_ok ETH_TX_BUF_SIZE (tx_ring s)" "TxDesc s < N" "0 < len" "len \<le> ETH_TX_BUF_SIZE * N"
    "room_for (tx_ring s) (TxDesc s) len"
  shows "\<exists>s'. low_level_output status p s = Some (ERR_OK, s') \<and> ring_ok ETH_TX_BUF_SIZE (tx_ring s') \<and>
    TxDesc s' = (TxDesc s + desc_count len) mod N \<and>
    (\<forall>j < desc_count len. let x = tx_ring s' ! ((TxDesc s + j) mod N) in
      own x \<and> (first_segment x \<longleftrightarrow> j = 0) \<and> (last_segment x \<longleftrightarrow> j + 1 = desc_count len)) \<and>
    concat (map (\<lambda>j. desc_bytes (tx_ring s' ! ((TxDesc s + j) mod N))) [0..<desc_count len]) = concat p"
proof -
  let ?S = ETH_TX_BUF_SIZE and ?d = "TxDesc s" and ?ring = "tx_ring s"
  obtain k where k: "desc_count len = Suc k" "k * ?S < len" "len \<le> Suc k * ?S" using desc_count [OF assms(5)] by blast
  have "k * ?S < N * ?S" using k(2) assms(6) by (simp only: mult.commute [of N])
  then have kN: "Suc k \<le> N" by (simp only: mult_less_cancel2 Suc_le_eq)
  have mod: "?d mod N = ?d" using assms(4) by simp
  have start: "position ?ring 0 0 0" using assms(4) by (auto simp: position_def N_def)
  obtain ring1 where ring1: "send_chain ?ring ?d 0 0 p = Some (ring1, Some len)" "appended ?ring ?d 0 (concat p) ring1"
    using chain_copied [OF assms(3) start, of ?d ?d p 0] assms(4,6,7) by (auto simp: N_def len_def)
  have same: "control ring1 = control ?ring" "ring_ok ?S ring1" and bytes: "take len (ring_bytes ring1 ?d) = concat p"
    using ring1(2) by (auto simp: appended_def len_def)
  have len1: "length ring1 = N" using control_own [OF same(1)] by (simp add: N_def)
  have "room_for ring1 ?d len" using assms(7) room_same [OF same(1)] by simp
  then have "\<not> own (ring1 ! ?d)" using assms(4) mod len1 unfolding room_for_def by (metis add.right_neutral gr_implies_not0 neq0_conv)
  then obtain ring2 where ring2: "give_descs ring1 ?d len 0 (Suc k) = (ring2, (?d + Suc k) mod N)"
    "HAL_ETH_TransmitFrame status len (s\<lparr>tx_ring := ring1\<rparr>) = resume status 2 Poll_Transmit (s\<lparr>tx_ring := ring2, TxDesc := (?d + Suc k) mod N\<rparr>)"
    using transmit_given [OF assms(5), of "s\<lparr>tx_ring := ring1\<rparr>"] k(1) kN assms(4) len1 by auto
  have given2: "length ring2 = N \<and> map buffer1 ring2 = map buffer1 ring1 \<and>
    (\<forall>j < N. let x = ring1 ! ((?d + j) mod N); x1 = ring2 ! ((?d + j) mod N) in
      if 0 \<le> j \<and> j < 0 + Suc k then own x1 \<and> (first_segment x1 \<longleftrightarrow> j = 0) \<and> (last_segment x1 \<longleftrightarrow> j + 1 = 0 + Suc k) \<and>
        control_size x1 = (if j + 1 = 0 + Suc k then len - j * ?S else ?S)
      else x1 = x)"
    using given [of 0 "Suc k" ring1 ?d ?d len ring2 "(?d + Suc k) mod N"] kN ring2(1) mod len1 by simp
  let ?ys = "rotate ?d (map buffer1 ring1)"
  have ys: "\<forall>y\<in>set ?ys. length y = ?S" "length ?ys = N" "ring_bytes ring1 ?d = concat ?ys"
    using same(2) len1 by (simp_all add: ring_ok_def ring_bytes_def)
  have nth: "?ys ! j = buffer1 (ring2 ! ((?d + j) mod N))" if "j < Suc k" for j
  proof -
    have "j < N" using that kN by simp
    then have "(?d + j) mod N < N" by (intro mod_less_divisor) linarith
    moreover from this have "buffer1 (ring2 ! ((?d + j) mod N)) = buffer1 (ring1 ! ((?d + j) mod N))"
      using given2 len1 by (metis nth_map)
    ultimately show ?thesis using \<open>j < N\<close> len1 by (simp add: nth_rotate)
  qed
  have "map (\<lambda>j. desc_bytes (ring2 ! ((?d + j) mod N))) [0..<Suc k] = map (\<lambda>j. take (if j = k then len - k * ?S else ?S) (?ys ! j)) [0..<Suc k]"
  proof (rule map_cong [OF refl])
    fix j assume "j \<in> set [0..<Suc k]"
    then have j: "j < Suc k" "j < N" using kN by auto
    then have "control_size (ring2 ! ((?d + j) mod N)) = (if j + 1 = Suc k then len - j * ?S else ?S)"
      using given2 by (auto simp: Let_def)
    then show "desc_bytes (ring2 ! ((?d + j) mod N)) = take (if j = k then len - k * ?S else ?S) (?ys ! j)"
      by (simp add: desc_bytes_def nth [OF j(1)])
  qed
  moreover have "concat (map (\<lambda>j. take (if j = k then len - k * ?S else ?S) (?ys ! j)) [0..<Suc k]) = take len (concat ?ys)"
    by (rule cut_out [OF ys(1) k(2,3)]) (unfold ys(2), rule kN)
  moreover have "take len (concat ?ys) = concat p" using bytes ys(3) by simp
  ultimately have frame: "concat (map (\<lambda>j. desc_bytes (ring2 ! ((?d + j) mod N))) [0..<Suc k]) = concat p" by metis
  have ok: "ring_ok ?S ring2"
  proof -
    have "set (map buffer1 ring2) = set (map buffer1 ring1)" "ring2 \<noteq> []" using given2 len1 same(2) by (auto simp: ring_ok_def)
    then show ?thesis using same(2) unfolding ring_ok_def by (metis (no_types, lifting) imageE imageI set_map)
  qed
  let ?s = "s\<lparr>tx_ring := ring2, TxDesc := (?d + Suc k) mod N\<rparr>"
  let ?s1 = "resume status 5 Poll_Transmit (resume status 2 Poll_Transmit ?s)"
  have out: "low_level_output status p s = Some (ERR_OK, ?s1)" by (simp add: low_level_output_def ring1(1) ring2(2))
  have s1: "tx_ring ?s1 = ring2" "TxDesc ?s1 = (?d + Suc k) mod N" by simp_all
  have flags: "\<forall>j < Suc k. let x = ring2 ! ((?d + j) mod N) in
      own x \<and> (first_segment x \<longleftrightarrow> j = 0) \<and> (last_segment x \<longleftrightarrow> j + 1 = Suc k)"
    using given2 kN by (auto simp: Let_def)
  show ?thesis unfolding k(1)
    by (rule exI [of _ ?s1]) (unfold s1, intro conjI out ok refl flags frame)
qed

section \<open>The frames on their way\<close>

text \<open>One pbuf chain that fits into a buffer.\<close>

lemma chain_single:
  assumes "d < length ring" "off + length (concat p) \<le> length (buffer1 (ring ! d))" "length (buffer1 (ring ! d)) = ETH_TX_BUF_SIZE"
    "\<not> own (ring ! d)"
  shows "send_chain ring d off len p = Some (ring[d := (ring ! d)\<lparr>buffer1 :=
    take off (buffer1 (ring ! d)) @ concat p @ drop (off + length (concat p)) (buffer1 (ring ! d))\<rparr>], Some (len + length (concat p)))"
  using assms
proof (induction p arbitrary: ring off len)
  case (Cons payload p)
  let ?b = "buffer1 (ring ! d)"
  let ?ring = "ring[d := (ring ! d)\<lparr>buffer1 := take off ?b @ payload @ drop (off + length payload) ?b\<rparr>]"
  have "send_payload ring d off len payload = Some (?ring, Some (d, off + length payload, len + length payload))"
    using Cons.prems by (subst send_short) (simp_all add: copy_to_def memcpy_at_def)
  moreover have "send_chain ?ring d (off + length payload) (len + length payload) p =
    Some (?ring[d := (?ring ! d)\<lparr>buffer1 := take (off + length payload) (buffer1 (?ring ! d)) @ concat p @
      drop (off + length payload + length (concat p)) (buffer1 (?ring ! d))\<rparr>], Some (len + length payload + length (concat p)))"
    by (rule Cons.IH) (use Cons.prems in auto)
  ultimately show ?case using Cons.prems by (simp add: ac_simps)
qed simp

text \<open>What the MAC does by itself: the DMA sends the buffers of the descriptors that it owns, in the order of the
  ring, and gives each of them back. \<open>accepted\<close> has the packets for which \<open>low_level_output\<close> returned
  ERR_OK.\<close>

record mac =
  handle :: eth
  dma_at :: nat
  wire :: "u8 list list"
  accepted :: "u8 list list"

datatype mac_action = Output "nat \<Rightarrow> bool" "u8 list list" | Transmit

definition on_wire :: "dma_desc \<Rightarrow> u8 list list \<Rightarrow> u8 list list" where
  "on_wire x w = (if first_segment x then w @ [desc_bytes x] else butlast w @ [last w @ desc_bytes x])"

definition transmitted :: "mac \<Rightarrow> mac" where
  "transmitted w = (let ring = tx_ring (handle w); x = ring ! dma_at w in
     if own x then w\<lparr>handle := (handle w)\<lparr>tx_ring := ring[dma_at w := x\<lparr>own := False\<rparr>]\<rparr>,
       dma_at := next_desc ring (dma_at w), wire := on_wire x (wire w)\<rparr>
     else w)"

fun mac_step :: "mac_action \<Rightarrow> mac \<Rightarrow> mac option" where
  "mac_step (Output status p) w = do {
     (err, s) \<leftarrow> low_level_output status p (handle w);
     Some (w\<lparr>handle := s, accepted := accepted w @ (if err = ERR_OK then [concat p] else [])\<rparr>) }"
| "mac_step Transmit w = Some (transmitted w)"

fun mac_run :: "mac_action list \<Rightarrow> mac \<Rightarrow> mac option" where
  "mac_run [] w = Some w"
| "mac_run (a # as) w = mac_step a w \<bind> mac_run as"

fun sends_packet :: "mac_action \<Rightarrow> bool" where
  "sends_packet (Output status p) \<longleftrightarrow> 0 < length (concat p) \<and> length (concat p) \<le> ETH_TX_BUF_SIZE"
| "sends_packet Transmit \<longleftrightarrow> True"

text \<open>The \<open>n\<close> descriptors from the one that the DMA is at hold the frames that wait.\<close>

definition waiting :: "mac \<Rightarrow> nat \<Rightarrow> u8 list list" where
  "waiting w n = map (\<lambda>j. desc_bytes (tx_ring (handle w) ! ((dma_at w + j) mod length (tx_ring (handle w))))) [0..<n]"

definition mac_ok :: "nat \<Rightarrow> mac \<Rightarrow> bool" where
  "mac_ok n w \<longleftrightarrow> (let ring = tx_ring (handle w) in
     ring_ok ETH_TX_BUF_SIZE ring \<and> length ring = ETH_TXBUFNB \<and> n \<le> ETH_TXBUFNB \<and> dma_at w < ETH_TXBUFNB \<and>
     TxDesc (handle w) = (dma_at w + n) mod ETH_TXBUFNB \<and>
     (\<forall>j < ETH_TXBUFNB. let x = ring ! ((dma_at w + j) mod ETH_TXBUFNB) in
       (own x \<longleftrightarrow> j < n) \<and> (j < n \<longrightarrow> first_segment x)) \<and>
     accepted w = wire w @ waiting w n)"

lemma txbufnb: "0 < ETH_TXBUFNB"
  by (simp add: ETH_TXBUFNB_def)

lemma transmit_single: "0 < len \<Longrightarrow> len \<le> ETH_TX_BUF_SIZE \<Longrightarrow> \<not> own (tx_ring s ! TxDesc s) \<Longrightarrow>
    HAL_ETH_TransmitFrame status len s = resume status 2 Poll_Transmit
      (s\<lparr>tx_ring := give_desc (tx_ring s) (TxDesc s) True True len, TxDesc := next_desc (tx_ring s) (TxDesc s)\<rparr>)"
  by (simp add: HAL_ETH_TransmitFrame_def)

text \<open>Only the buffer of the descriptor \<open>d\<close> is used, and the DMA gets it.\<close>

lemma output_single:
  fixes s p
  defines "ring \<equiv> tx_ring s" and "d \<equiv> TxDesc s"
  assumes "d < length ring" "length (buffer1 (ring ! d)) = ETH_TX_BUF_SIZE" "\<not> own (ring ! d)"
    "0 < length (concat p)" "length (concat p) \<le> ETH_TX_BUF_SIZE"
  shows "\<exists>s1 x. low_level_output status p s = Some (ERR_OK, s1) \<and> tx_ring s1 = ring[d := x] \<and> TxDesc s1 = next_desc ring d \<and>
    own x \<and> first_segment x \<and> desc_bytes x = concat p \<and> length (buffer1 x) = ETH_TX_BUF_SIZE"
proof -
  let ?b = "concat p @ drop (length (concat p)) (buffer1 (ring ! d))"
  let ?x = "(ring ! d)\<lparr>buffer1 := ?b, first_segment := True, last_segment := True, control_size := length (concat p), own := True\<rparr>"
  let ?s = "s\<lparr>tx_ring := ring[d := ?x], TxDesc := next_desc ring d\<rparr>"
  let ?s1 = "resume status 5 Poll_Transmit (resume status 2 Poll_Transmit ?s)"
  have "send_chain ring d 0 0 p = Some (ring[d := (ring ! d)\<lparr>buffer1 := ?b\<rparr>], Some (length (concat p)))"
    using chain_single [of d ring 0 p 0] assms(3-7) by simp
  moreover have "HAL_ETH_TransmitFrame status (length (concat p)) (s\<lparr>tx_ring := ring[d := (ring ! d)\<lparr>buffer1 := ?b\<rparr>]\<rparr>) = resume status 2 Poll_Transmit ?s"
    using transmit_single [OF assms(6,7), of "s\<lparr>tx_ring := ring[d := (ring ! d)\<lparr>buffer1 := ?b\<rparr>]\<rparr>"] assms(3,5)
    by (simp add: give_desc_def next_desc_def d_def)
  ultimately have "low_level_output status p s = Some (ERR_OK, ?s1)"
    unfolding low_level_output_def ring_def d_def by (simp add: Let_def)
  moreover have "desc_bytes ?x = concat p" "length (buffer1 ?x) = ETH_TX_BUF_SIZE" using assms(4,7) by (simp_all add: desc_bytes_def)
  ultimately show ?thesis by (intro exI [of _ ?s1] exI [of _ ?x]) simp
qed

lemma output_full: "p \<noteq> [] \<Longrightarrow> own (tx_ring s ! TxDesc s) \<Longrightarrow>
    \<exists>s1. low_level_output status p s = Some (ERR_USE, s1) \<and> tx_ring s1 = tx_ring s \<and> TxDesc s1 = TxDesc s"
  by (cases p) (auto simp: low_level_output_def)

lemma packet_ok:
  assumes "mac_ok n w" "0 < length (concat p)" "length (concat p) \<le> ETH_TX_BUF_SIZE"
  shows "\<exists>err s. low_level_output status p (handle w) = Some (err, s) \<and> (err = ERR_OK \<longleftrightarrow> n < ETH_TXBUFNB) \<and>
    mac_ok (if n < ETH_TXBUFNB then n + 1 else n) (w\<lparr>handle := s, accepted := accepted w @ (if err = ERR_OK then [concat p] else [])\<rparr>)"
proof -
  let ?ring = "tx_ring (handle w)" and ?d = "TxDesc (handle w)" and ?N = ETH_TXBUFNB
  have ring: "ring_ok ETH_TX_BUF_SIZE ?ring" "length ?ring = ?N" "n \<le> ?N" "dma_at w < ?N" "?d = (dma_at w + n) mod ?N"
    and own: "\<And>j. j < ?N \<Longrightarrow> own (?ring ! ((dma_at w + j) mod ?N)) \<longleftrightarrow> j < n"
    and first: "\<And>j. j < ?N \<Longrightarrow> j < n \<Longrightarrow> first_segment (?ring ! ((dma_at w + j) mod ?N))"
    and acc: "accepted w = wire w @ waiting w n"
    using assms(1) by (auto simp: mac_ok_def Let_def)
  have d: "?d < ?N" using ring(5) txbufnb by simp
  show ?thesis
  proof (cases "n < ?N")
    case True
    have "length (buffer1 (?ring ! ?d)) = ETH_TX_BUF_SIZE" using ring(1,2) d by (simp add: ring_ok_def)
    moreover have "\<not> own (?ring ! ?d)" using own [OF True] ring(5) by simp
    ultimately obtain s x where s: "low_level_output status p (handle w) = Some (ERR_OK, s)" "tx_ring s = ?ring[?d := x]"
      "TxDesc s = next_desc ?ring ?d" "own x" "first_segment x" "desc_bytes x = concat p" "length (buffer1 x) = ETH_TX_BUF_SIZE"
      using output_single [of "handle w" p status] assms(2,3) d ring(2) by auto
    let ?w = "w\<lparr>handle := s, accepted := accepted w @ [concat p]\<rparr>"
    have same: "(dma_at w + j) mod ?N = ?d \<longleftrightarrow> j = n" if "j < ?N" for j using position_eq [OF that True] ring(5) by simp
    have nth: "tx_ring s ! ((dma_at w + j) mod ?N) = (if j = n then x else ?ring ! ((dma_at w + j) mod ?N))" if "j < ?N" for j
      using same [OF that] s(2) d ring(2) by (auto simp: nth_list_update)
    have "ring_ok ETH_TX_BUF_SIZE (tx_ring s)"
      using ring(1) s(2,7) by (auto simp: ring_ok_def dest!: set_update_subset_insert [THEN subsetD])
    moreover have "TxDesc s = (dma_at w + (n + 1)) mod ?N"
      using next_desc [of ?ring "dma_at w" n] ring(2,5) s(3) txbufnb by (metis Suc_eq_plus1 length_greater_0_conv)
    moreover have "waiting ?w (n + 1) = waiting w n @ [concat p]"
    proof -
      have "waiting ?w n = waiting w n" unfolding waiting_def
        by (rule map_cong) (use s(2) ring(2) nth True in auto)
      moreover have "waiting ?w (n + 1) = waiting ?w n @ [desc_bytes (tx_ring s ! ((dma_at w + n) mod ?N))]"
        using s(2) ring(2) by (simp add: waiting_def)
      ultimately show ?thesis using nth [OF True] s(6) by simp
    qed
    ultimately have "mac_ok (n + 1) ?w"
      using ring s(2,4,5) True acc own first nth by (auto simp: mac_ok_def Let_def)
    then show ?thesis using s(1) True by (intro exI [of _ ERR_OK] exI [of _ s]) simp
  next
    case False
    then have n: "n = ?N" using ring(3) by simp
    then have "?d = (dma_at w + 0) mod ?N" using ring(5) by simp
    then have "own (?ring ! ?d)" using own [of 0] n txbufnb by simp
    moreover have "p \<noteq> []" using assms(2) by auto
    ultimately obtain s where s: "low_level_output status p (handle w) = Some (ERR_USE, s)" "tx_ring s = ?ring" "TxDesc s = ?d"
      using output_full by blast
    have "mac_ok n (w\<lparr>handle := s, accepted := accepted w @ []\<rparr>)"
      using assms(1) s(2,3) by (simp add: mac_ok_def waiting_def)
    then show ?thesis using s(1) False by (intro exI [of _ ERR_USE] exI [of _ s]) simp
  qed
qed

lemma transmit_ok:
  assumes "mac_ok n w"
  shows "\<exists>n1. mac_ok n1 (transmitted w)"
proof -
  let ?ring = "tx_ring (handle w)" and ?N = ETH_TXBUFNB
  have ring: "ring_ok ETH_TX_BUF_SIZE ?ring" "length ?ring = ?N" "n \<le> ?N" "dma_at w < ?N" "TxDesc (handle w) = (dma_at w + n) mod ?N"
    and own: "\<And>j. j < ?N \<Longrightarrow> own (?ring ! ((dma_at w + j) mod ?N)) \<longleftrightarrow> j < n"
    and first: "\<And>j. j < ?N \<Longrightarrow> j < n \<Longrightarrow> first_segment (?ring ! ((dma_at w + j) mod ?N))"
    and acc: "accepted w = wire w @ waiting w n"
    using assms by (auto simp: mac_ok_def Let_def)
  have here: "own (?ring ! dma_at w) \<longleftrightarrow> 0 < n" using own [of 0] ring(4) txbufnb by simp
  show ?thesis
  proof (cases n)
    case 0
    then show ?thesis using assms here by (intro exI [of _ n]) (simp add: transmitted_def Let_def)
  next
    case (Suc k)
    let ?x = "?ring ! dma_at w"
    let ?w = "transmitted w"
    have x: "own ?x" "first_segment ?x" using here Suc first [of 0] ring(4) txbufnb by simp_all
    have "?ring \<noteq> []" using ring(2) txbufnb by auto
    then have w: "handle ?w = (handle w)\<lparr>tx_ring := ?ring[dma_at w := ?x\<lparr>own := False\<rparr>]\<rparr>" "dma_at ?w = (dma_at w + 1) mod ?N"
      "wire ?w = wire w @ [desc_bytes ?x]" "accepted ?w = accepted w"
      using x next_desc [of ?ring "dma_at w" 0] ring(2,4) by (auto simp: transmitted_def Let_def on_wire_def)
    have idx: "((dma_at w + 1) mod ?N + j) mod ?N = (dma_at w + Suc j) mod ?N" for j by (simp add: mod_simps)
    have nth: "tx_ring (handle ?w) ! ((dma_at ?w + j) mod ?N) =
        (if Suc j = ?N then ?x\<lparr>own := False\<rparr> else ?ring ! ((dma_at w + Suc j) mod ?N))" if "j < ?N" for j
    proof (cases "Suc j = ?N")
      case True
      then have "(dma_at w + Suc j) mod ?N = dma_at w" using ring(4) by simp
      then show ?thesis using True ring(2,4) unfolding w idx by simp
    next
      case False
      then have "Suc j < ?N" using that by simp
      then have "(dma_at w + Suc j) mod ?N \<noteq> (dma_at w + 0) mod ?N" using position_eq [of "Suc j" ?N 0 "dma_at w"] txbufnb by simp
      then show ?thesis using False ring(4) unfolding w idx by simp
    qed
    have bytes: "desc_bytes (?x\<lparr>own := False\<rparr>) = desc_bytes ?x" by (simp add: desc_bytes_def)
    have rest: "waiting w n = desc_bytes ?x # waiting ?w k"
    proof (rule nth_equalityI)
      show "length (waiting w n) = length (desc_bytes ?x # waiting ?w k)" by (simp add: waiting_def Suc)
      fix i assume "i < length (waiting w n)"
      then have i: "i < n" by (simp add: waiting_def)
      show "waiting w n ! i = (desc_bytes ?x # waiting ?w k) ! i"
      proof (cases i)
        case 0
        then show ?thesis using ring(2,4) i by (simp add: waiting_def del: upt_Suc)
      next
        case (Suc j)
        then have j: "j < k" "Suc j < ?N" using i \<open>n = Suc k\<close> ring(3) by simp_all
        have "length (tx_ring (handle ?w)) = ?N" using w(1) ring(2) by simp
        then show ?thesis using nth [of j] j Suc i ring(2) by (simp add: waiting_def del: upt_Suc)
      qed
    qed
    have "ring_ok ETH_TX_BUF_SIZE (tx_ring (handle ?w))"
      using ring(1,2,4) by (auto simp: w(1) ring_ok_def dest!: set_update_subset_insert [THEN subsetD])
    moreover have "TxDesc (handle ?w) = (dma_at ?w + k) mod ?N" unfolding w idx using ring(5) Suc by simp
    moreover have "own (tx_ring (handle ?w) ! ((dma_at ?w + j) mod ?N)) \<longleftrightarrow> j < k" if "j < ?N" for j
      using nth [OF that] own [of "Suc j"] that Suc ring(3) by auto
    moreover have "first_segment (tx_ring (handle ?w) ! ((dma_at ?w + j) mod ?N))" if "j < ?N" "j < k" for j
      using nth [OF that(1)] first [of "Suc j"] that Suc ring(3) by auto
    moreover have "accepted ?w = wire ?w @ waiting ?w k" using acc rest w(3,4) by simp
    moreover have "length (tx_ring (handle ?w)) = ?N" "dma_at ?w < ?N" using w(1,2) ring(2) txbufnb by simp_all
    ultimately have "mac_ok k ?w" using Suc ring(3) by (simp add: mac_ok_def Let_def)
    then show ?thesis ..
  qed
qed

lemma run_ok: "mac_ok n w \<Longrightarrow> list_all sends_packet as \<Longrightarrow> \<exists>w1 n1. mac_run as w = Some w1 \<and> mac_ok n1 w1"
proof (induction "as" arbitrary: n w)
  case (Cons a "as")
  have "\<exists>w1 n1. mac_step a w = Some w1 \<and> mac_ok n1 w1"
  proof (cases a)
    case (Output status p)
    then show ?thesis using packet_ok [OF Cons.prems(1), of p status] Cons.prems(2) by fastforce
  next
    case Transmit
    then show ?thesis using transmit_ok [OF Cons.prems(1)] by auto
  qed
  with Cons show ?case by fastforce
qed auto

section \<open>The bytes that are received\<close>

lemma rx_tx_room: "ETH_RX_BUF_SIZE = ETH_TX_BUF_SIZE"
  by (simp add: ETH_RX_BUF_SIZE_def ETH_TX_BUF_SIZE_def)

lemma concat_slice:
  assumes "\<forall>y\<in>set ys. length y = n" "b < length ys" "off + k \<le> n"
  shows "take k (drop off (ys ! b)) = take k (drop (n * b + off) (concat ys))"
proof -
  have ys: "concat ys = concat (take b ys) @ ys ! b @ concat (drop (Suc b) ys)"
    using id_take_nth_drop [OF assms(2)] by (metis concat.simps(2) concat_append)
  have "length (concat (take b ys)) = n * b" "length (ys ! b) = n"
    using length_concat_take [OF assms(1)] assms(1,2) by simp_all
  then show ?thesis unfolding ys using assms(3) by simp
qed

lemma sliced:
  assumes "ring_ok room ring" "b < length ring" "off + k \<le> room"
  shows "read_slice (buffer1 (ring ! ((d + b) mod length ring))) off k = Some (take k (drop (room * b + off) (ring_bytes ring d)))"
proof -
  let ?ys = "rotate d (map buffer1 ring)"
  have ys: "\<forall>y\<in>set ?ys. length y = room" "b < length ?ys" using assms(1,2) by (simp_all add: ring_ok_def)
  moreover have "(d + b) mod length ring < length ring" using assms(2) by (intro mod_less_divisor) linarith
  then have "?ys ! b = buffer1 (ring ! ((d + b) mod length ring))" using assms(2) by (simp add: nth_rotate)
  moreover have "length (?ys ! b) = room" using ys nth_mem by metis
  ultimately show ?thesis using concat_slice [OF ys assms(3)] assms(3) by (simp add: read_slice_def ring_bytes_def)
qed

lemma take_drop_append: "take k (drop m xs) @ take n (drop (m + k) xs) = take (k + n) (drop m xs)"
  by (simp add: take_add add.commute)

lemma payload_received:
  assumes "ring_ok ETH_RX_BUF_SIZE ring" "b < length ring" "off \<le> ETH_RX_BUF_SIZE" "m = ETH_RX_BUF_SIZE * b + off"
    "d = (d0 + b) mod length ring" "m + n \<le> ETH_RX_BUF_SIZE * length ring"
  shows "\<exists>b1 off1. receive_payload ring d off n = Some (take n (drop m (ring_bytes ring d0)), (d0 + b1) mod length ring, off1) \<and>
    b1 < length ring \<and> off1 \<le> ETH_RX_BUF_SIZE \<and> m + n = ETH_RX_BUF_SIZE * b1 + off1"
  using assms
proof (induction ring d off n arbitrary: b m rule: receive_payload.induct)
  case (1 ring d off n)
  let ?S = ETH_RX_BUF_SIZE
  show ?case
  proof (cases "?S < n + off")
    case False
    then have "read_slice (buffer1 (ring ! d)) off n = Some (take n (drop m (ring_bytes ring d0)))"
      using sliced [OF "1.prems"(1,2), of off n d0] "1.prems"(4,5) by simp
    then have "receive_payload ring d off n = Some (take n (drop m (ring_bytes ring d0)), (d0 + b) mod length ring, off + n)"
      using False "1.prems"(5) by (subst receive_payload.simps) simp
    then show ?thesis using False "1.prems"(2,4) by fastforce
  next
    case True
    define k where "k = ?S - off"
    have k: "k < n" "off + k = ?S" using True "1.prems"(3) by (simp_all add: k_def)
    have small: "\<not> ?S < off" using "1.prems"(3) by simp
    have a: "read_slice (buffer1 (ring ! d)) off k = Some (take k (drop m (ring_bytes ring d0)))"
      using sliced [OF "1.prems"(1,2), of off k d0] "1.prems"(4,5) k(2) by simp
    have m: "m + k = ?S * Suc b + 0" "m + k + (n - k) = m + n" using "1.prems"(4) k by simp_all
    have "?S * Suc b < ?S * length ring" using m k(1) "1.prems"(6) by linarith
    then have b: "Suc b < length ring" by (simp only: mult_less_cancel1)
    have succ: "next_desc ring d = (d0 + Suc b) mod length ring" using next_desc [of ring d0 b] "1.prems"(5) b by fastforce
    have fits: "m + k + (n - k) \<le> ?S * length ring" unfolding m(2) by (rule "1.prems"(6))
    obtain b1 off1 where r: "receive_payload ring (next_desc ring d) 0 (n - k) =
        Some (take (n - k) (drop (m + k) (ring_bytes ring d0)), (d0 + b1) mod length ring, off1)"
      "b1 < length ring" "off1 \<le> ?S" "m + k + (n - k) = ?S * b1 + off1"
      using "1.IH" [OF True small k_def a "1.prems"(1) b le0 m(1) succ fits] by (elim exE conjE)
    have "receive_payload ring d off n = do { (b, r) \<leftarrow> receive_payload ring (next_desc ring d) 0 (n - k);
        Some (take k (drop m (ring_bytes ring d0)) @ b, r) }"
      using True small a by (subst receive_payload.simps) (simp only: Let_def k_def [symmetric] if_True if_False bind.bind_lunit)
    then have "receive_payload ring d off n = Some (take (k + (n - k)) (drop m (ring_bytes ring d0)), (d0 + b1) mod length ring, off1)"
      using r(1) by (simp only: take_drop_append [symmetric]) simp
    then show ?thesis using r(2-4) m(2) k(1) by auto
  qed
qed

lemma chain_received:
  assumes "ring_ok ETH_RX_BUF_SIZE ring" "b < length ring" "off \<le> ETH_RX_BUF_SIZE" "m = ETH_RX_BUF_SIZE * b + off"
    "d = (d0 + b) mod length ring" "m + sum_list ns \<le> ETH_RX_BUF_SIZE * length ring"
  shows "\<exists>p. receive_chain ring d off ns = Some p \<and> map length p = ns \<and> concat p = take (sum_list ns) (drop m (ring_bytes ring d0))"
  using assms
proof (induction ns arbitrary: b off m d)
  case (Cons n ns)
  obtain b1 off1 where r: "receive_payload ring d off n = Some (take n (drop m (ring_bytes ring d0)), (d0 + b1) mod length ring, off1)"
    "b1 < length ring" "off1 \<le> ETH_RX_BUF_SIZE" "m + n = ETH_RX_BUF_SIZE * b1 + off1"
    using payload_received [OF Cons.prems(1-5), of n] Cons.prems(6) by auto
  have fits: "m + n + sum_list ns \<le> ETH_RX_BUF_SIZE * length ring" using Cons.prems(6) by simp
  obtain p where p: "receive_chain ring ((d0 + b1) mod length ring) off1 ns = Some p" "map length p = ns"
    "concat p = take (sum_list ns) (drop (m + n) (ring_bytes ring d0))"
    using Cons.IH [OF Cons.prems(1) r(2-4) refl fits] by blast
  have "length (take n (drop m (ring_bytes ring d0))) = n"
    using length_ring_bytes [OF Cons.prems(1)] Cons.prems(6) by simp
  then show ?case using r(1) p take_drop_append [of n m "ring_bytes ring d0" "sum_list ns"] by simp
qed simp

lemma given_back:
  assumes "ring \<noteq> []" "d = (d0 + i) mod length ring" "i + n \<le> length ring"
  shows "length (give_back ring d n) = length ring \<and> map buffer1 (give_back ring d n) = map buffer1 ring \<and>
    (\<forall>j < length ring. own (give_back ring d n ! ((d0 + j) mod length ring)) \<longleftrightarrow>
      i \<le> j \<and> j < i + n \<or> own (ring ! ((d0 + j) mod length ring)))"
  using assms
proof (induction n arbitrary: ring d i)
  case (Suc n)
  let ?ring = "ring[d := (ring ! d)\<lparr>own := True\<rparr>]"
  have i: "i < length ring" using Suc.prems(3) by simp
  have d: "d < length ring" unfolding Suc.prems(2) by (intro mod_less_divisor) (use i in linarith)
  have buf: "map buffer1 ?ring = map buffer1 ring" using d by (simp add: map_update list_update_same_conv)
  have succ: "next_desc ring d = (d0 + (i + 1)) mod length ?ring" using next_desc [of ring d0 i] Suc.prems(1,2) by simp
  have ne: "?ring \<noteq> []" and fits: "i + 1 + n \<le> length ?ring" using Suc.prems(1,3) by simp_all
  note IH = Suc.IH [OF ne succ fits]
  show ?case
  proof (intro conjI allI impI)
    show "length (give_back ring d (Suc n)) = length ring" "map buffer1 (give_back ring d (Suc n)) = map buffer1 ring"
      using IH buf by simp_all
    fix j assume j: "j < length ring"
    have "own (?ring ! ((d0 + j) mod length ring)) \<longleftrightarrow> j = i \<or> own (ring ! ((d0 + j) mod length ring))"
      using position_eq [OF j i, of d0] Suc.prems(2) d by (auto simp: nth_list_update)
    then show "own (give_back ring d (Suc n) ! ((d0 + j) mod length ring)) \<longleftrightarrow>
        i \<le> j \<and> j < i + Suc n \<or> own (ring ! ((d0 + j) mod length ring))"
      using IH j by auto
  qed
qed auto

section \<open>Examples\<close>

definition clean_desc :: dma_desc where
  "clean_desc = \<lparr>own = False, buffer1 = replicate 1524 0, control_size = 0, first_segment = False, last_segment = False\<rparr>"

definition clean_eth :: eth where
  "clean_eth = \<lparr>tx_ring = replicate 4 clean_desc, TxDesc = 0, rx_ring = replicate 4 clean_desc, dma_log = []\<rparr>"

definition clean_mac :: mac where
  "clean_mac = \<lparr>handle = clean_eth, dma_at = 0, wire = [], accepted = []\<rparr>"

lemma clean_ring: "ring_ok 1524 (replicate 4 clean_desc)"
  by (simp add: ring_ok_def clean_desc_def)

lemma clean_own: "\<not> own clean_desc"
  by (simp add: clean_desc_def)

lemma clean_bytes: "ring_bytes (replicate 4 clean_desc) d = replicate 6096 0"
proof -
  have "rotate d (replicate n x) = replicate n x" for n and x :: "u8 list" by (rule nth_equalityI) (simp_all add: nth_rotate)
  moreover have "concat (replicate n (replicate m x)) = replicate (n * m) x" for n m and x :: u8
    by (induction n) (simp_all add: replicate_add)
  ultimately show ?thesis by (simp add: ring_bytes_def clean_desc_def)
qed

section \<open>Properties\<close>

text \<open>
  C19: A packet that the driver accepts is given to the DMA as it is: whatever pbufs it is spread over and
  whatever descriptor is next, wrapping around the end of the ring, the descriptors that it needs all
  go to the DMA, the first and the last one are marked, the bytes that their sizes cut out of their
  buffers are those of the packet, and no byte is written outside a buffer.
\<close>

theorem packet_reaches_dma:
  assumes "ring_ok ETH_TX_BUF_SIZE (tx_ring s)" "N = length (tx_ring s)" "TxDesc s < N" "len = length (concat p)" "0 < len"
    "len \<le> ETH_TX_BUF_SIZE * N" "room_for (tx_ring s) (TxDesc s) len"
  shows "\<exists>s'. low_level_output status p s = Some (ERR_OK, s') \<and> ring_ok ETH_TX_BUF_SIZE (tx_ring s') \<and>
    TxDesc s' = (TxDesc s + desc_count len) mod N \<and>
    (\<forall>j < desc_count len. let x = tx_ring s' ! ((TxDesc s + j) mod N) in
      own x \<and> (first_segment x \<longleftrightarrow> j = 0) \<and> (last_segment x \<longleftrightarrow> j + 1 = desc_count len)) \<and>
    concat (map (\<lambda>j. desc_bytes (tx_ring s' ! ((TxDesc s + j) mod N))) [0..<desc_count len]) = concat p"
  using assms unfolding assms(2,4) by (intro packet_given)

theorem packet_reaches_dma_witness:
  "\<exists>s'. low_level_output (\<lambda>_. False) [replicate 1500 1, replicate 1000 2] (clean_eth\<lparr>TxDesc := 3\<rparr>) = Some (ERR_OK, s') \<and> TxDesc s' = 1 \<and>
    desc_bytes (tx_ring s' ! 3) @ desc_bytes (tx_ring s' ! 0) = replicate 1500 1 @ replicate 1000 2"
proof -
  let ?s = "clean_eth\<lparr>TxDesc := 3\<rparr>" and ?p = "[replicate 1500 1, replicate 1000 2] :: u8 list list"
  have s: "tx_ring ?s = replicate 4 clean_desc" "TxDesc ?s = 3" by (simp_all add: clean_eth_def)
  have ok: "ring_ok ETH_TX_BUF_SIZE (tx_ring ?s)" using clean_ring(1) by (simp add: s ETH_TX_BUF_SIZE_def)
  have room: "room_for (tx_ring ?s) (TxDesc ?s) 2500" by (simp add: room_for_def s clean_own mod_less_divisor)
  have count: "desc_count 2500 = 2" by (simp add: desc_count_def ETH_TX_BUF_SIZE_def)
  have "(2 :: nat) \<le> 4" "[0..<2] = [0, 1 :: nat]" by (simp_all add: upt_rec)
  then show ?thesis
    using packet_reaches_dma [OF ok, of 4 2500 ?p "\<lambda>_. False"] room unfolding count by (auto simp: s ETH_TX_BUF_SIZE_def)
qed

text \<open>
  C6: The four descriptors are a queue of frames: in every order of packets that are sent and descriptors
  that the DMA serves, what has been on the wire and what waits is exactly what was accepted, in order,
  nothing twice, nothing lost; a packet is refused only while four frames wait, and then nothing else
  changes. This is for packets that fit into one buffer, as those of an interface with an MTU of 1500 do.
\<close>

theorem frames_in_order:
  assumes "mac_ok 0 w" "list_all sends_packet acts"
  shows "\<exists>w1 n. mac_run acts w = Some w1 \<and> accepted w1 = wire w1 @ waiting w1 n \<and> n \<le> ETH_TXBUFNB \<and>
    (\<forall>status p. sends_packet (Output status p) \<longrightarrow> (\<exists>err s. low_level_output status p (handle w1) = Some (err, s) \<and>
      (err = ERR_OK \<longleftrightarrow> n < ETH_TXBUFNB)))"
proof -
  obtain w1 n where w1: "mac_run acts w = Some w1" "mac_ok n w1" using run_ok [OF assms] by blast
  then have "accepted w1 = wire w1 @ waiting w1 n" "n \<le> ETH_TXBUFNB" by (simp_all add: mac_ok_def Let_def)
  moreover have "\<exists>err s. low_level_output status p (handle w1) = Some (err, s) \<and> (err = ERR_OK \<longleftrightarrow> n < ETH_TXBUFNB)"
    if "sends_packet (Output status p)" for status p
  proof -
    have "0 < length (concat p)" "length (concat p) \<le> ETH_TX_BUF_SIZE" using that by (simp_all only: sends_packet.simps)
    from packet_ok [OF w1(2) this] show ?thesis by meson
  qed
  ultimately show ?thesis using w1(1) by meson
qed

theorem frames_in_order_witness:
  "\<exists>w1 n. mac_run [Output (\<lambda>_. False) [[1, 2], [3]], Output (\<lambda>_. False) [[4]], Transmit] clean_mac = Some w1 \<and>
    accepted w1 = wire w1 @ waiting w1 n"
proof -
  have "mac_ok 0 clean_mac"
    using clean_ring(1) by (simp add: mac_ok_def clean_mac_def clean_eth_def ETH_TX_BUF_SIZE_def ETH_TXBUFNB_def clean_own waiting_def)
  moreover have "list_all sends_packet [Output (\<lambda>_. False) [[1, 2], [3]], Output (\<lambda>_. False) [[4]], Transmit]" by (simp add: ETH_TX_BUF_SIZE_def)
  ultimately show ?thesis using frames_in_order by blast
qed

text \<open>
  C20: A frame that the DMA has received goes to lwIP as it is: the pbufs from the pool have the lengths they
  were allocated with and together the bytes of the frame, read across descriptors and the end of the
  ring without leaving a buffer, and exactly the descriptors of the frame go back to the DMA; when the
  pool is empty or the frame has no bytes it is dropped, and its descriptors go back all the same.
\<close>

theorem frame_reaches_lwip:
  assumes "ring_ok ETH_RX_BUF_SIZE (rx_ring s)" "N = length (rx_ring s)" "d < N" "n \<le> N" "len \<le> ETH_RX_BUF_SIZE * n"
    "\<And>ns. pbuf_alloc len = Some ns \<Longrightarrow> sum_list ns = len"
  shows "\<exists>r s'. low_level_input (Some (len, d, n)) pbuf_alloc status s = Some (r, s') \<and>
    (case if len = 0 then None else pbuf_alloc len of
       None \<Rightarrow> r = None
     | Some ns \<Rightarrow> \<exists>p. r = Some p \<and> map length p = ns \<and> concat p = take len (ring_bytes (rx_ring s) d)) \<and>
    map buffer1 (rx_ring s') = map buffer1 (rx_ring s) \<and>
    (\<forall>j < N. own (rx_ring s' ! ((d + j) mod N)) \<longleftrightarrow> j < n \<or> own (rx_ring s ! ((d + j) mod N)))"
proof -
  have d: "0 < N" "d = (d + 0) mod N" "rx_ring s \<noteq> []" using assms(2,3) by auto
  have returned: "length (give_back (rx_ring s) d n) = N \<and> map buffer1 (give_back (rx_ring s) d n) = map buffer1 (rx_ring s) \<and>
    (\<forall>j < N. own (give_back (rx_ring s) d n ! ((d + j) mod N)) \<longleftrightarrow> j < n \<or> own (rx_ring s ! ((d + j) mod N)))"
    using given_back [OF d(3), of d d 0 n] d(2) assms(2,4) by simp
  show ?thesis
  proof (cases "if len = 0 then None else pbuf_alloc len")
    case None
    then have "(if 0 < len then pbuf_alloc len else None) = None" by (auto split: if_splits)
    then show ?thesis using returned None by (auto simp: low_level_input_def Let_def)
  next
    case (Some ns)
    then have ns: "(if 0 < len then pbuf_alloc len else None) = Some ns" "sum_list ns = len"
      using assms(6) by (auto split: if_splits)
    have "ETH_RX_BUF_SIZE * n \<le> ETH_RX_BUF_SIZE * length (rx_ring s)" using assms(2,4) by simp
    then have fits: "0 + sum_list ns \<le> ETH_RX_BUF_SIZE * length (rx_ring s)" using assms(5) ns(2) by linarith
    obtain p where "receive_chain (rx_ring s) d 0 ns = Some p" "map length p = ns" "concat p = take len (ring_bytes (rx_ring s) d)"
      using chain_received [OF assms(1) _ le0 _ _ fits, of 0 d d] d assms(2) ns(2) by auto
    then show ?thesis using returned Some ns(1) by (auto simp: low_level_input_def Let_def)
  qed
qed

theorem frame_reaches_lwip_witness:
  "\<exists>p s'. low_level_input (Some (1600, 3, 2)) (\<lambda>n. Some [1000, n - 1000]) (\<lambda>_. False) clean_eth = Some (Some p, s') \<and>
    map length p = [1000, 600] \<and> concat p = replicate 1600 0 \<and> own (rx_ring s' ! 3) \<and> own (rx_ring s' ! 0) \<and> \<not> own (rx_ring s' ! 1)"
proof -
  have s: "rx_ring clean_eth = replicate 4 clean_desc" by (simp add: clean_eth_def)
  have ok: "ring_ok ETH_RX_BUF_SIZE (rx_ring clean_eth)" using clean_ring by (simp add: s ETH_RX_BUF_SIZE_def)
  have bytes: "take 1600 (ring_bytes (rx_ring clean_eth) 3) = replicate 1600 0"
    by (simp add: s clean_bytes)
  obtain r s' where r: "low_level_input (Some (1600, 3, 2)) (\<lambda>n. Some [1000, n - 1000]) (\<lambda>_. False) clean_eth = Some (r, s')"
    "\<exists>p. r = Some p \<and> map length p = [1000, 600] \<and> concat p = replicate 1600 0"
    "\<forall>j < 4. own (rx_ring s' ! ((3 + j) mod 4)) \<longleftrightarrow> j < 2 \<or> own (rx_ring clean_eth ! ((3 + j) mod 4))"
    using frame_reaches_lwip [OF ok, of 4 3 2 1600 "\<lambda>n. Some [1000, n - 1000]" "\<lambda>_. False"] bytes by (auto simp: s ETH_RX_BUF_SIZE_def)
  have "own (rx_ring s' ! 3)" using r(3)[rule_format, of 0] by simp
  moreover have "own (rx_ring s' ! 0)" using r(3)[rule_format, of 1] by simp
  moreover have "\<not> own (rx_ring s' ! 1)" using r(3)[rule_format, of 2] clean_own by (simp add: s)
  moreover obtain p where p: "r = Some p" "map length p = [1000, 600]" "concat p = replicate 1600 0" using r(2) by (elim exE conjE)
  ultimately show ?thesis using r(1) [unfolded p(1)] p(2,3) by (intro exI conjI)
qed

end
