(* ===== verification/Number_Formats.thy ===== *)
theory Number_Formats
  imports JSON_String
begin

text \<open>
  The conversions of numbers and texts in \<open>Drivers/W-Link/Misc\<close> (\<open>atoh.c\<close>, \<open>htoa.c\<close>, \<open>itoa.c\<close>, \<open>ftoa.c\<close>). A
  shift by 32 or more, a value that an \<open>int\<close> cannot hold and an access outside the text are undefined
  (\<open>None\<close>). Characters are plain \<open>char\<close>s, which are unsigned on ARM.
\<close>

section \<open>Hexadecimal texts\<close>

definition htoa :: "u8 \<Rightarrow> u8" where
  "htoa hex = (if 0x0F < hex then 48 else if hex < 10 then hex + 0x30 else hex - 9 + 0x40)"

definition shifted_right :: "u32 \<Rightarrow> u32 \<Rightarrow> u32 option" where
  "shifted_right x k = (if k < 32 then Some (drop_bit (unat k) x) else None)"

definition shifted_left :: "u32 \<Rightarrow> u32 \<Rightarrow> u32 option" where
  "shifted_left x k = (if k < 32 then Some (push_bit (unat k) x) else None)"

fun htoa_from :: "u32 \<Rightarrow> u32 \<Rightarrow> nat \<Rightarrow> nat \<Rightarrow> u8 list \<Rightarrow> u8 list option" where
  "htoa_from hex len i 0 hex_str = Some hex_str"
| "htoa_from hex len i (Suc n) hex_str = do {
     x \<leftarrow> shifted_right hex ((len - 1 - of_nat i) * 4);
     s \<leftarrow> cwrite hex_str (int i) (htoa (ucast (x AND 0x0F)));
     htoa_from hex len (i + 1) n s }"

text \<open>The text is not ended by a zero byte. The result is 0 on every path.\<close>

definition htoa_str :: "u32 \<Rightarrow> u8 list option \<Rightarrow> u32 \<Rightarrow> u8 list option option" where
  "htoa_str hex hex_str len = (case hex_str of
     None \<Rightarrow> Some None
   | Some s \<Rightarrow> if len = 0 then Some (Some s) else map_option Some (htoa_from hex len 0 (unat len) s))"

definition atoh :: "u8 \<Rightarrow> u8" where
  "atoh c = (if 0x30 \<le> c \<and> c \<le> 0x39 then c - 0x30
     else if 0x41 \<le> c \<and> c \<le> 0x46 then (c - 0x40) + 9
     else if 0x61 \<le> c \<and> c \<le> 0x66 then (c - 0x60) + 9
     else 0)"

fun atoh_from :: "u8 list \<Rightarrow> u32 \<Rightarrow> nat \<Rightarrow> nat \<Rightarrow> u32 \<Rightarrow> u32 option" where
  "atoh_from ascii_str len i 0 returnVal = Some returnVal"
| "atoh_from ascii_str len i (Suc n) returnVal = do {
     c \<leftarrow> cread ascii_str (int i);
     x \<leftarrow> shifted_left (ucast (atoh c)) ((len - 1 - of_nat i) * 8);
     atoh_from ascii_str len (i + 1) n (returnVal OR x) }"

definition atoh_str :: "u8 list option \<Rightarrow> u32 \<Rightarrow> u32 option" where
  "atoh_str ascii_str len = (case ascii_str of
     None \<Rightarrow> Some 0
   | Some s \<Rightarrow> if len = 0 then Some 0 else atoh_from s len 0 (unat len) 0)"

section \<open>Decimal texts\<close>

text \<open>\<open>sprintf\<close> into a buffer of \<open>cap\<close> bytes: the text in front of its zero byte, and its length.\<close>

definition itoa :: "int \<Rightarrow> nat \<Rightarrow> (u8 list \<times> int) option" where
  "itoa n cap = do {
     res \<leftarrow> append_print cap (decimal n) [];
     Some (res, int (length res)) }"

definition to_int :: "rat \<Rightarrow> int option" where
  "to_int x = (let v = (if x < 0 then - \<lfloor>- x\<rfloor> else \<lfloor>x\<rfloor>) in if - (2 ^ 31) \<le> v \<and> v < 2 ^ 31 then Some v else None)"

definition ftoa :: "(int \<Rightarrow> rat option) \<Rightarrow> rat \<Rightarrow> nat \<Rightarrow> int \<Rightarrow> (u8 list \<times> int) option" where
  "ftoa pow10 flt cap after_point = do {
     int_part \<leftarrow> to_int flt;
     flt_part \<leftarrow> to_double \<bar>flt - of_int int_part\<bar>;
     buf \<leftarrow> append_print cap (decimal int_part) [];
     buf1 \<leftarrow> append_bytes cap [46] buf;
     s \<leftarrow> pow10 after_point;
     x \<leftarrow> to_double (flt_part * s);
     flt_part_int \<leftarrow> to_int x;
     buf2 \<leftarrow> append_print cap (decimal flt_part_int) buf1;
     Some (buf2, int (length buf2)) }"

section \<open>Hexadecimal texts are read back\<close>

definition hex_digit :: "u32 \<Rightarrow> nat \<Rightarrow> u8" where
  "hex_digit h k = htoa (ucast (drop_bit (4 * k) h AND 0x0F))"

definition hex_text :: "u32 \<Rightarrow> nat \<Rightarrow> u8 list" where
  "hex_text h n = map (hex_digit h) (rev [0..<n])"

lemma hex_text_simps [simp]: "hex_text h 0 = []" "hex_text h (Suc n) = hex_digit h n # hex_text h n" "length (hex_text h n) = n"
  by (simp_all add: hex_text_def)

lemma htoa_read: "x \<le> 15 \<Longrightarrow> hex_value (htoa x) = Some (ucast x)"
proof -
  have "\<forall>n\<in>set [0..<16]. hex_value (htoa (of_nat n)) = Some (ucast (of_nat n :: u8))" by code_simp
  moreover assume "x \<le> 15"
  then have "unat x \<in> set [0..<16]" by (simp add: word_le_nat_alt)
  moreover have "of_nat (unat x) = x" by simp
  ultimately show ?thesis by metis
qed

lemma nibble: "ucast ((x :: u32) AND 0x0F) \<le> (15 :: u8)" "ucast (ucast (x AND 0x0F) :: u8) = take_bit 4 x"
proof -
  have "ucast (x AND 0x0F) = (15 :: u8) AND ucast x"
    by (intro bit_word_eqI) (auto simp: bit_simps masks)
  then show "ucast (x AND 0x0F) \<le> (15 :: u8)" using word_and_le1 [of "15 :: u8" "ucast x"] word_and_le2 [of "15 :: u8" "ucast x"] by metis
  show "ucast (ucast (x AND 0x0F) :: u8) = take_bit 4 x"
    by (intro bit_word_eqI) (auto simp: bit_simps masks)
qed

lemma hex_digit_value: "hex_value (hex_digit h k) = Some (take_bit 4 (drop_bit (4 * k) h))"
  using htoa_read [OF nibble(1)] nibble(2) by (simp add: hex_digit_def)

lemma digits_join: "push_bit (4 * n) (take_bit 4 (drop_bit (4 * n) h)) + take_bit (4 * n) h = take_bit (4 * Suc n) (h :: u32)"
proof -
  have "push_bit (4 * n) (drop_bit (4 * n) (take_bit (4 * n + 4) h)) + take_bit (4 * n) (take_bit (4 * n + 4) h) = take_bit (4 * n + 4) h"
    by (rule bits_ident)
  then show ?thesis by (simp add: drop_bit_take_bit add.commute)
qed

lemma hex_number_from:
  "foldl (\<lambda>h d. push_bit 4 h + the (hex_value d)) a (hex_text h n) = push_bit (4 * n) a + take_bit (4 * n) (h :: u32)"
proof (induction n arbitrary: a)
  case (Suc n)
  have "push_bit (4 * n) (push_bit 4 a + take_bit 4 (drop_bit (4 * n) h)) + take_bit (4 * n) h =
      push_bit (4 * Suc n) a + (push_bit (4 * n) (take_bit 4 (drop_bit (4 * n) h)) + take_bit (4 * n) h)"
    by (simp add: push_bit_add add.assoc add.commute [of 4])
  then show ?case using Suc by (simp add: hex_digit_value digits_join del: mult_Suc_right)
qed simp

lemma hex_text_value: "hex_number (hex_text h n) = take_bit (4 * n) h"
  using hex_number_from [of 0 h n] by (simp add: hex_number_def)

lemma shift_amount:
  assumes "i < n" "n \<le> 8"
  shows "(of_nat n - 1 - of_nat i :: u32) * 4 < 32" "unat ((of_nat n - 1 - of_nat i :: u32) * 4) = 4 * (n - 1 - i)"
proof -
  have "of_nat n - 1 - of_nat i = (of_nat (n - 1 - i) :: u32)" using assms by (simp add: of_nat_diff)
  then have w: "(of_nat n - 1 - of_nat i :: u32) * 4 = of_nat (4 * (n - 1 - i))" by (simp add: mult.commute)
  have small: "4 * (n - 1 - i) < 32" using assms by simp
  then show u: "unat ((of_nat n - 1 - of_nat i :: u32) * 4) = 4 * (n - 1 - i)"
    unfolding w by (simp only: unat_of_nat) (simp add: take_bit_nat_eq_self)
  show "(of_nat n - 1 - of_nat i :: u32) * 4 < 32" unfolding word_less_nat_alt u using small by simp
qed

lemma htoa_written:
  assumes "i + n = k" "k \<le> 8" "length a = i" "n \<le> length r"
  shows "htoa_from h (of_nat k) i n (a @ r) = Some (a @ hex_text h n @ drop n r)"
  using assms
proof (induction n arbitrary: i a r)
  case (Suc n)
  then obtain b r1 where r: "r = b # r1" by (cases r) auto
  have "i < k" "k - 1 - i = n" using Suc.prems(1) by simp_all
  then have x: "shifted_right h ((of_nat k - 1 - of_nat i) * 4) = Some (drop_bit (4 * n) h)"
    using shift_amount [of i k] Suc.prems(2) by (simp add: shifted_right_def)
  have "htoa_from h (of_nat k) (i + 1) n ((a @ [hex_digit h n]) @ r1) = Some ((a @ [hex_digit h n]) @ hex_text h n @ drop n r1)"
    by (rule Suc.IH) (use Suc.prems r in simp_all)
  moreover have "cwrite (a @ r) (int i) (hex_digit h n) = Some ((a @ [hex_digit h n]) @ r1)"
    using Suc.prems(3) r by (simp add: list_update_append)
  ultimately show ?case using x by (simp add: hex_digit_def r)
qed simp

text \<open>Two digits are not put together again: \<open>atoh_str\<close> gives every digit a byte.\<close>

lemma atoh_two: "atoh_str (Some (a # b # r)) 2 = Some (push_bit 8 (ucast (atoh a)) OR ucast (atoh b))"
proof -
  have two: "unat (2 :: u32) = Suc (Suc 0)" by simp
  show ?thesis unfolding atoh_str_def two by (simp add: shifted_left_def)
qed

theorem atoh_spreads_digits: "atoh_str (Some (hex_text 0x12 2)) 2 = Some 0x0102 \<and> hex_number (hex_text 0x12 2) = 0x12"
proof -
  have "hex_text 0x12 2 = [49, 50]" by code_simp
  then show ?thesis using hex_text_value [of "0x12" 2] by (simp add: atoh_two atoh_def del: hex_text_simps)
qed

section \<open>Decimal texts\<close>

lemma strtol_int:
  assumes "- (2 ^ 31) \<le> n" "n < 2 ^ 31"
  shows "strtol (decimal n) = (n, [])"
proof (cases "n < 0")
  case True
  let ?ds = "digits (nat (- n))"
  have ds: "?ds \<noteq> []" "\<forall>d\<in>set ?ds. c_digit d" "digits_value ?ds = - n"
    using digits_read [of "nat (- n)"] True by auto
  then have all: "takeWhile c_digit ?ds = ?ds" "dropWhile c_digit ?ds = []" by simp_all
  show ?thesis using True ds(1,3) assms by (simp add: decimal_def strtol_def c_space_def Let_def all)
next
  case False
  then show ?thesis using strtol_decimal [of n "[]"] assms(2) by simp
qed

text \<open>The zeros behind the point are lost: \<open>1.0625\<close> is written like \<open>1.625\<close>; and so is the sign of a number
  between -1 and 0.\<close>

theorem ftoa_loses_zeros:
  assumes "pow10 4 = Some 10000"
  shows "ftoa pow10 (17 / 16) 8 4 = Some (chars ''1.625'', 5)"
proof -
  have "to_double (1 / 16 * 10000) = Some 625" using to_double_nat [of 625] by simp
  moreover have "to_int (17 / 16) = Some 1" "to_double \<bar>17 / 16 - of_int 1\<bar> = Some (1 / 16)"
    "to_int 625 = Some 625" "decimal 1 = [49]" "decimal 625 = [54, 50, 53]" by code_simp+
  ultimately show ?thesis by (simp add: ftoa_def assms append_print_def append_bytes_def)
qed

theorem ftoa_loses_sign:
  assumes "pow10 1 = Some 10"
  shows "ftoa pow10 (- (1 / 2)) 8 1 = Some (chars ''0.5'', 3)"
proof -
  have "to_double (1 / 2 * 10) = Some 5" using to_double_nat [of 5] by simp
  moreover have "to_int (- (1 / 2)) = Some 0" "to_double \<bar>- (1 / 2) - of_int 0\<bar> = Some (1 / 2)"
    "to_int 5 = Some 5" "decimal 0 = [48]" "decimal 5 = [53]" by code_simp+
  ultimately show ?thesis by (simp add: ftoa_def assms append_print_def append_bytes_def)
qed

section \<open>Properties\<close>

text \<open>
  A text that \<open>itoa\<close> writes is read back by \<open>strtol\<close> as the number, for every \<open>int\<close>, the length that it
  returns is that of the text, and 12 bytes are always enough.
\<close>

theorem itoa_read_back:
  assumes "- (2 ^ 31) \<le> n" "n < 2 ^ 31" "12 \<le> cap"
  shows "\<exists>t. itoa n cap = Some (t, int (length t)) \<and> strtol t = (n, [])"
proof -
  have "\<bar>n\<bar> < 10 ^ 10" using assms(1,2) by auto
  then have "length (decimal n) < 12" using length_decimal [of n 10] by simp
  then have "itoa n cap = Some (decimal n, int (length (decimal n)))"
    using assms(3) by (simp add: itoa_def append_print_def)
  then show ?thesis using strtol_int [OF assms(1,2)] by blast
qed

theorem itoa_read_back_witness: "\<exists>t. itoa (- 2147483648) 12 = Some (t, int (length t)) \<and> strtol t = (- 2147483648, [])"
  using itoa_read_back [of "- 2147483648" 12] by simp

text \<open>
  A word is written as the hexadecimal digits of its lowest nibbles, as many as asked for, into the
  front of the buffer, and the text has its value; all eight digits give the word back.
\<close>

theorem hex_text_of_word:
  assumes "0 < len" "len \<le> 8" "unat len \<le> length s"
  shows "\<exists>t. htoa_str hex (Some s) len = Some (Some (t @ drop (unat len) s)) \<and> length t = unat len \<and>
    (\<forall>d\<in>set t. hex_value d \<noteq> None) \<and> hex_number t = take_bit (4 * unat len) hex"
proof -
  have "unat len \<le> 8" using assms(2) by (simp add: word_le_nat_alt)
  then have "htoa_from hex (of_nat (unat len)) 0 (unat len) ([] @ s) = Some ([] @ hex_text hex (unat len) @ drop (unat len) s)"
    by (intro htoa_written) (use assms(3) in simp_all)
  then have "htoa_str hex (Some s) len = Some (Some (hex_text hex (unat len) @ drop (unat len) s))"
    using assms(1) by (simp add: htoa_str_def)
  moreover have "\<forall>d\<in>set (hex_text hex (unat len)). hex_value d \<noteq> None" by (auto simp: hex_text_def hex_digit_value)
  ultimately show ?thesis using hex_text_value by (intro exI [of _ "hex_text hex (unat len)"]) simp
qed

theorem hex_text_of_word_witness:
  "\<exists>t. htoa_str 0xBEEF (Some (replicate 6 0)) 4 = Some (Some (t @ [0, 0])) \<and> hex_number t = 0xBEEF"
proof -
  have "drop 4 (replicate 6 (0 :: u8)) = [0, 0]" by code_simp
  moreover have "take_bit 16 (0xBEEF :: u32) = 0xBEEF" by simp
  ultimately show ?thesis using hex_text_of_word [of 4 "replicate 6 0" "0xBEEF"] by auto
qed

end
